(* ===== verification/GoBase.thy ===== *)
theory GoBase
  imports Main "HOL-Library.Word" "HOL-Library.Multiset" "HOL-Library.Sublist" "HOL-Library.Char_ord"
    "HOL-Library.List_Lexorder"
begin

text \<open>
  Prelude of the development: the fragment of the Go language and of its standard library that
  the packages of the repository use. A Go \<open>string\<close> is a byte string, so it is HOL's
  \<^typ>\<open>string\<close> (a list of 8-bit characters). The sections follow the standard
  packages: \<open>strings\<close> (\<open>TrimSpace\<close>, \<open>TrimPrefix\<close>, \<open>Cut\<close>, \<open>Join\<close>),
  \<open>strconv\<close> (\<open>Itoa\<close>, \<open>Atoi\<close>, \<open>ParseInt\<close>, \<open>ParseUint\<close>, \<open>ParseBool\<close>,
  \<open>Quote\<close>), \<open>net/textproto\<close> (header canonicalisation) and \<open>slices\<close>
  (\<open>Insert\<close>, \<open>BinarySearchFunc\<close>). Nothing of this theory is code of the repository; the
  component theories map their definitions to its sources.
\<close>

named_theorems go_str \<open>facts about Go strings that the components' proofs share\<close>
named_theorems go_map \<open>facts about Go maps that the components' proofs share\<close>

section \<open>Package strings\<close>

text \<open>
  The UTF-8 encodings of the code points \<open>unicode.IsSpace\<close> accepts. No encoding is a proper
  suffix or prefix of a valid longer sequence, so stripping byte sequences is stripping runes.
\<close>

definition space_encodings :: "string list" where
  "space_encodings =
     [[CHR 0x09], [CHR 0x0A], [CHR 0x0B], [CHR 0x0C], [CHR 0x0D], [CHR 0x20],
      [CHR 0xC2, CHR 0x85], [CHR 0xC2, CHR 0xA0], [CHR 0xE1, CHR 0x9A, CHR 0x80],
      [CHR 0xE2, CHR 0x80, CHR 0x80], [CHR 0xE2, CHR 0x80, CHR 0x81],
      [CHR 0xE2, CHR 0x80, CHR 0x82], [CHR 0xE2, CHR 0x80, CHR 0x83],
      [CHR 0xE2, CHR 0x80, CHR 0x84], [CHR 0xE2, CHR 0x80, CHR 0x85],
      [CHR 0xE2, CHR 0x80, CHR 0x86], [CHR 0xE2, CHR 0x80, CHR 0x87],
      [CHR 0xE2, CHR 0x80, CHR 0x88], [CHR 0xE2, CHR 0x80, CHR 0x89],
      [CHR 0xE2, CHR 0x80, CHR 0x8A], [CHR 0xE2, CHR 0x80, CHR 0xA8],
      [CHR 0xE2, CHR 0x80, CHR 0xA9], [CHR 0xE2, CHR 0x80, CHR 0xAF],
      [CHR 0xE2, CHR 0x81, CHR 0x9F], [CHR 0xE3, CHR 0x80, CHR 0x80]]"

function strip_front :: "string list \<Rightarrow> string \<Rightarrow> string" where
  "strip_front ps s =
     (case find (\<lambda>p. p \<noteq> [] \<and> prefix p s) ps of
        None \<Rightarrow> s
      | Some p \<Rightarrow> strip_front ps (drop (length p) s))"
  by pat_completeness auto
termination
proof (relation "measure (\<lambda>(ps, s). length s)")
  fix ps :: "string list" and s p
  assume "find (\<lambda>p. p \<noteq> [] \<and> prefix p s) ps = Some p"
  then have "p \<noteq> []" "prefix p s"
    by (auto simp: find_Some_iff)
  then have "0 < length p" "0 < length s"
    by (auto dest: prefix_length_le)
  then show "((ps, drop (length p) s), ps, s) \<in> measure (\<lambda>(ps, s). length s)"
    by (simp add: diff_less)
qed simp

declare strip_front.simps [simp del]

definition trim_space :: "string \<Rightarrow> string" where
  "trim_space s =
     rev (strip_front (map rev space_encodings) (rev (strip_front space_encodings s)))"

definition trim_prefix :: "string \<Rightarrow> string \<Rightarrow> string" where
  "trim_prefix p s = (if prefix p s then drop (length p) s else s)"

definition cut_before :: "char \<Rightarrow> string \<Rightarrow> string" where
  "cut_before c s = takeWhile (\<lambda>x. x \<noteq> c) s"

fun str_join :: "string \<Rightarrow> string list \<Rightarrow> string" where
  "str_join sep [] = []"
| "str_join sep [x] = x"
| "str_join sep (x # y # xs) = x @ sep @ str_join sep (y # xs)"

definition is_upper :: "char \<Rightarrow> bool" where
  "is_upper c \<longleftrightarrow> 65 \<le> (of_char c :: nat) \<and> (of_char c :: nat) \<le> 90"

definition is_lower :: "char \<Rightarrow> bool" where
  "is_lower c \<longleftrightarrow> 97 \<le> (of_char c :: nat) \<and> (of_char c :: nat) \<le> 122"

definition is_digit :: "char \<Rightarrow> bool" where
  "is_digit c \<longleftrightarrow> 48 \<le> (of_char c :: nat) \<and> (of_char c :: nat) \<le> 57"

definition lower_char :: "char \<Rightarrow> char" where
  "lower_char c = (if is_upper c then char_of ((of_char c :: nat) + 32) else c)"

definition upper_char :: "char \<Rightarrow> char" where
  "upper_char c = (if is_lower c then char_of ((of_char c :: nat) - 32) else c)"

text \<open>ASCII lower-casing, byte by byte: \<open>strings.ToLower\<close> on an ASCII string.\<close>

definition lower_ascii :: "string \<Rightarrow> string" where
  "lower_ascii s = map lower_char s"

subsection \<open>Facts about trimming\<close>

lemma strip_front_stuck:
  "find (\<lambda>p. p \<noteq> [] \<and> prefix p (strip_front ps s)) ps = None"
proof (induction ps s rule: strip_front.induct)
  case (1 ps s)
  show ?case
  proof (cases "find (\<lambda>p. p \<noteq> [] \<and> prefix p s) ps")
    case None
    then show ?thesis by (simp add: strip_front.simps [of ps s])
  next
    case (Some p)
    with 1 show ?thesis by (simp add: strip_front.simps [of ps s])
  qed
qed

lemma strip_front_id:
  "find (\<lambda>p. p \<noteq> [] \<and> prefix p s) ps = None \<Longrightarrow> strip_front ps s = s"
  by (simp add: strip_front.simps [of ps s])

lemma strip_front_idem [go_str]: "strip_front ps (strip_front ps s) = strip_front ps s"
  by (rule strip_front_id) (rule strip_front_stuck)

lemma strip_front_suffix: "suffix (strip_front ps s) s"
proof (induction ps s rule: strip_front.induct)
  case (1 ps s)
  show ?case
  proof (cases "find (\<lambda>p. p \<noteq> [] \<and> prefix p s) ps")
    case None
    then show ?thesis by (simp add: strip_front.simps [of ps s])
  next
    case (Some p)
    with 1 have "suffix (strip_front ps (drop (length p) s)) (drop (length p) s)"
      by simp
    then have "suffix (strip_front ps (drop (length p) s)) s"
      using suffix_drop suffix_order.trans by blast
    with Some show ?thesis by (simp add: strip_front.simps [of ps s])
  qed
qed

lemma strip_front_prefix_id:
  assumes "prefix t (strip_front ps s)"
  shows "strip_front ps t = t"
proof (rule strip_front_id)
  show "find (\<lambda>p. p \<noteq> [] \<and> prefix p t) ps = None"
    using strip_front_stuck [of ps s] assms
    by (auto simp: find_None_iff dest: prefix_order.trans)
qed

lemma trim_space_idem [go_str]: "trim_space (trim_space s) = trim_space s"
proof -
  let ?f = "strip_front space_encodings s"
  let ?b = "strip_front (map rev space_encodings) (rev ?f)"
  have "suffix ?b (rev ?f)"
    by (rule strip_front_suffix)
  then have "prefix (rev ?b) ?f"
    by (simp add: suffix_to_prefix)
  then have "strip_front space_encodings (rev ?b) = rev ?b"
    by (rule strip_front_prefix_id)
  then show ?thesis
    by (simp add: trim_space_def strip_front_idem)
qed

lemma trim_space_Nil [simp]: "trim_space [] = []"
  by (simp add: trim_space_def strip_front.simps space_encodings_def)

section \<open>Package strconv\<close>

definition digit_char :: "nat \<Rightarrow> char" where
  "digit_char d = char_of (48 + d)"

definition digit_val :: "char \<Rightarrow> nat" where
  "digit_val c = of_char c - 48"

lemma digit_chars [go_str]:
  "digit_char 0 = CHR ''0''" "digit_char (Suc 0) = CHR ''1''" "digit_char 2 = CHR ''2''"
  "digit_char 3 = CHR ''3''" "digit_char 4 = CHR ''4''" "digit_char 5 = CHR ''5''"
  "digit_char 6 = CHR ''6''" "digit_char 7 = CHR ''7''" "digit_char 8 = CHR ''8''"
  "digit_char 9 = CHR ''9''"
  by (simp_all add: digit_char_def char_of_def bit_Suc_0_iff)

fun itoa_nat :: "nat \<Rightarrow> string" where
  "itoa_nat n = (if n < 10 then [digit_char n] else itoa_nat (n div 10) @ [digit_char (n mod 10)])"

declare itoa_nat.simps [simp del]

definition itoa :: "int \<Rightarrow> string" where
  "itoa i = (if i < 0 then CHR ''-'' # itoa_nat (nat (- i)) else itoa_nat (nat i))"

definition digits_val :: "nat \<Rightarrow> string \<Rightarrow> nat" where
  "digits_val a s = foldl (\<lambda>n c. 10 * n + digit_val c) a s"

datatype num_error = ErrSyntax | ErrRange

definition max_uint64 :: nat where "max_uint64 = 2 ^ 64 - 1"
definition max_int64 :: nat where "max_int64 = 2 ^ 63 - 1"

text \<open>
  The loop of \<open>strconv.ParseUint(s, 10, 64)\<close>: each byte is checked to be a digit, then the
  accumulator for overflow, so a range error can come before a syntax error further right.
\<close>

fun parse_uint_loop :: "nat \<Rightarrow> string \<Rightarrow> num_error + nat" where
  "parse_uint_loop n [] = Inr n"
| "parse_uint_loop n (c # cs) =
     (if \<not> is_digit c then Inl ErrSyntax
      else if 10 * n + digit_val c > max_uint64 then Inl ErrRange
      else parse_uint_loop (10 * n + digit_val c) cs)"

definition parse_uint :: "string \<Rightarrow> num_error + nat" where
  "parse_uint s = (if s = [] then Inl ErrSyntax else parse_uint_loop 0 s)"

definition parse_int :: "string \<Rightarrow> num_error + int" where
  "parse_int s =
     (let neg = (s \<noteq> [] \<and> hd s = CHR ''-'');
          body = (if s \<noteq> [] \<and> (hd s = CHR ''-'' \<or> hd s = CHR ''+'') then tl s else s)
      in case parse_uint body of
           Inl e \<Rightarrow> Inl e
         | Inr un \<Rightarrow>
             if \<not> neg \<and> un > max_int64 then Inl ErrRange
             else if neg \<and> un > max_int64 + 1 then Inl ErrRange
             else Inr (if neg then - int un else int un))"

definition parse_bool :: "string \<Rightarrow> num_error + bool" where
  "parse_bool s =
     (if s \<in> {''1'', ''t'', ''T'', ''TRUE'', ''true'', ''True''} then Inr True
      else if s \<in> {''0'', ''f'', ''F'', ''FALSE'', ''false'', ''False''} then Inr False
      else Inl ErrSyntax)"

definition hex_digit :: "nat \<Rightarrow> char" where
  "hex_digit d = (if d < 10 then char_of (48 + d) else char_of (87 + d))"

text \<open>\<open>strconv.Quote\<close> (the verb \<open>%q\<close>) on valid UTF-8 text of printable code points.\<close>

definition quote_char :: "char \<Rightarrow> string" where
  "quote_char c =
     (if c = CHR 0x22 then [CHR 0x5C, CHR 0x22]
      else if c = CHR 0x5C then [CHR 0x5C, CHR 0x5C]
      else if c = CHR 0x07 then [CHR 0x5C, CHR ''a'']
      else if c = CHR 0x08 then [CHR 0x5C, CHR ''b'']
      else if c = CHR 0x0C then [CHR 0x5C, CHR ''f'']
      else if c = CHR 0x0A then [CHR 0x5C, CHR ''n'']
      else if c = CHR 0x0D then [CHR 0x5C, CHR ''r'']
      else if c = CHR 0x09 then [CHR 0x5C, CHR ''t'']
      else if c = CHR 0x0B then [CHR 0x5C, CHR ''v'']
      else if (of_char c :: nat) < 32 \<or> c = CHR 0x7F
      then [CHR 0x5C, CHR ''x'', hex_digit (of_char c div 16), hex_digit (of_char c mod 16)]
      else [c])"

definition go_quote :: "string \<Rightarrow> string" where
  "go_quote s = CHR 0x22 # concat (map quote_char s) @ [CHR 0x22]"

definition num_error_text :: "string \<Rightarrow> string \<Rightarrow> num_error \<Rightarrow> string" where
  "num_error_text fn s e =
     ''strconv.'' @ fn @ '': parsing '' @ go_quote s @ '': '' @
     (case e of ErrSyntax \<Rightarrow> ''invalid syntax'' | ErrRange \<Rightarrow> ''value out of range'')"

subsection \<open>Decimal numerals round trip\<close>

lemma digit_char_val [go_str]: "d < 10 \<Longrightarrow> digit_val (digit_char d) = d"
  by (simp add: digit_val_def digit_char_def)

lemma is_digit_char [go_str]: "d < 10 \<Longrightarrow> is_digit (digit_char d)"
  by (simp add: is_digit_def digit_char_def)

lemma digit_val_less: "is_digit c \<Longrightarrow> digit_val c < 10"
  by (auto simp: is_digit_def digit_val_def)

lemma itoa_nat_digits [go_str]: "c \<in> set (itoa_nat n) \<Longrightarrow> is_digit c"
proof (induction n rule: itoa_nat.induct)
  case (1 n)
  then show ?case
    by (cases "n < 10") (auto simp: itoa_nat.simps [of n] is_digit_char)
qed

lemma itoa_nat_nonempty [simp]: "itoa_nat n \<noteq> []"
  by (simp add: itoa_nat.simps [of n])

lemma digits_val_itoa_nat [go_str]: "digits_val 0 (itoa_nat n) = n"
proof (induction n rule: itoa_nat.induct)
  case (1 n)
  then show ?case
    by (cases "n < 10") (simp_all add: itoa_nat.simps [of n] digits_val_def digit_char_val)
qed

lemma itoa_inj: "0 \<le> m \<Longrightarrow> 0 \<le> n \<Longrightarrow> itoa m = itoa n \<Longrightarrow> m = n"
proof -
  assume "0 \<le> m" "0 \<le> n" "itoa m = itoa n"
  then have "itoa_nat (nat m) = itoa_nat (nat n)" by (simp add: itoa_def)
  then have "nat m = nat n" by (metis digits_val_itoa_nat)
  with \<open>0 \<le> m\<close> \<open>0 \<le> n\<close> show "m = n" by simp
qed

lemma digits_val_ge: "a \<le> digits_val a s"
proof (induction s arbitrary: a)
  case (Cons c s)
  have "a \<le> 10 * a + digit_val c" by simp
  also have "\<dots> \<le> digits_val (10 * a + digit_val c) s" by (rule Cons.IH)
  finally show ?case by (simp add: digits_val_def)
qed (simp add: digits_val_def)

lemma digits_val_Cons: "digits_val a (c # s) = digits_val (10 * a + digit_val c) s"
  by (simp add: digits_val_def)

lemma parse_uint_loop_ok:
  assumes "\<forall>c \<in> set s. is_digit c" and "digits_val a s \<le> max_uint64"
  shows "parse_uint_loop a s = Inr (digits_val a s)"
  using assms
proof (induction s arbitrary: a)
  case (Cons c s)
  then have "10 * a + digit_val c \<le> max_uint64"
    using digits_val_ge [of "10 * a + digit_val c" s] by (simp add: digits_val_Cons)
  with Cons show ?case by (simp add: digits_val_Cons)
qed (simp add: digits_val_def)

lemma parse_uint_loop_sound:
  "parse_uint_loop a s = Inr n \<Longrightarrow> (\<forall>c \<in> set s. is_digit c) \<and> n = digits_val a s"
  by (induction s arbitrary: a) (auto simp: digits_val_def split: if_splits)

lemma parse_uint_loop_bound:
  "parse_uint_loop a s = Inr n \<Longrightarrow> a \<le> max_uint64 \<Longrightarrow> n \<le> max_uint64"
  by (induction s arbitrary: a) (auto split: if_splits)

lemma parse_uint_itoa [go_str]: "n \<le> max_uint64 \<Longrightarrow> parse_uint (itoa_nat n) = Inr n"
  by (simp add: parse_uint_def parse_uint_loop_ok digits_val_itoa_nat itoa_nat_digits)

lemma hd_itoa_nat_digit: "is_digit (hd (itoa_nat n))"
  by (rule itoa_nat_digits [of _ n]) simp

lemma not_sign_if_digit: "is_digit c \<Longrightarrow> c \<noteq> CHR ''-'' \<and> c \<noteq> CHR ''+''"
  by (auto simp: is_digit_def)

lemma parse_int_itoa [go_str]:
  assumes "- (2 ^ 63) \<le> i" and "i < 2 ^ 63"
  shows "parse_int (itoa i) = Inr i"
proof (cases "i < 0")
  case True
  with assms(1) have "nat (- i) \<le> max_int64 + 1" "nat (- i) \<le> max_uint64"
    by (simp_all add: max_int64_def max_uint64_def)
  with True show ?thesis
    by (simp add: parse_int_def itoa_def parse_uint_itoa)
next
  case False
  with assms(2) have "nat i \<le> max_int64" "nat i \<le> max_uint64"
    by (simp_all add: max_int64_def max_uint64_def)
  with False show ?thesis
    using not_sign_if_digit [OF hd_itoa_nat_digit [of "nat i"]]
    by (simp add: parse_int_def itoa_def parse_uint_itoa Let_def)
qed

lemma parse_int_range:
  "parse_int s = Inr i \<Longrightarrow> - (2 ^ 63) \<le> i \<and> i < 2 ^ 63"
  by (auto simp: parse_int_def Let_def max_int64_def split: sum.splits if_splits)

section \<open>Package net/textproto: canonical header keys\<close>

definition token_char :: "char \<Rightarrow> bool" where
  "token_char c \<longleftrightarrow> is_digit c \<or> is_upper c \<or> is_lower c \<or> c \<in> set ''!#$%&*+-.^_|~'' \<or>
     c = CHR 0x27 \<or> c = CHR 0x60"

fun canonical_from :: "bool \<Rightarrow> string \<Rightarrow> string" where
  "canonical_from up [] = []"
| "canonical_from up (c # cs) =
     (if up then upper_char c else lower_char c) # canonical_from (c = CHR ''-'') cs"

definition canonical_key :: "string \<Rightarrow> string" where
  "canonical_key s = (if \<forall>c \<in> set s. token_char c then canonical_from True s else s)"

section \<open>Package slices\<close>

definition slices_insert :: "'a list \<Rightarrow> nat \<Rightarrow> 'a \<Rightarrow> 'a list" where
  "slices_insert xs i v = take i xs @ v # drop i xs"

text \<open>
  The loop of \<open>slices.BinarySearchFunc\<close>; \<open>c x\<close> is the caller's comparison of the
  element \<open>x\<close> with the target, so a negative value says that \<open>x\<close> is before it.
\<close>

function bsearch_loop :: "('e \<Rightarrow> int) \<Rightarrow> 'e list \<Rightarrow> nat \<Rightarrow> nat \<Rightarrow> nat" where
  "bsearch_loop c xs i j =
     (if i < j
      then (if c (xs ! ((i + j) div 2)) < 0 then bsearch_loop c xs ((i + j) div 2 + 1) j
            else bsearch_loop c xs i ((i + j) div 2))
      else i)"
  by pat_completeness auto
termination
  by (relation "measure (\<lambda>(c, xs, i, j). j - i)") auto

declare bsearch_loop.simps [simp del]

definition binary_search_func :: "('e \<Rightarrow> int) \<Rightarrow> 'e list \<Rightarrow> nat \<times> bool" where
  "binary_search_func c xs =
     (let i = bsearch_loop c xs 0 (length xs) in (i, i < length xs \<and> c (xs ! i) = 0))"

text \<open>
  Where the elements before the target form a prefix (as they do in an ascending list) the loop
  returns the length of that prefix: the insertion point.
\<close>

lemma bsearch_loop_prefix:
  assumes "\<And>k. k < length xs \<Longrightarrow> c (xs ! k) < 0 \<longleftrightarrow> k < n"
    and "i \<le> n" and "n \<le> j" and "j \<le> length xs"
  shows "bsearch_loop c xs i j = n"
  using assms
proof (induction c xs i j rule: bsearch_loop.induct)
  case (1 c xs i j)
  note part = "1.prems"(1) and bounds = "1.prems"(2-4)
  let ?h = "(i + j) div 2"
  show ?case
  proof (cases "i < j")
    case False
    with bounds show ?thesis by (simp add: bsearch_loop.simps [of c xs i j])
  next
    case True
    then have h: "i \<le> ?h" "?h < j" by auto
    with bounds have less: "c (xs ! ?h) < 0 \<longleftrightarrow> ?h < n" by (intro part) simp
    show ?thesis
    proof (cases "c (xs ! ?h) < 0")
      case neg: True
      with less bounds have "bsearch_loop c xs (?h + 1) j = n"
        using part by (intro "1.IH"(1) [OF True neg]) auto
      with True neg show ?thesis by (simp add: bsearch_loop.simps [of c xs i j])
    next
      case pos: False
      with less bounds h have "bsearch_loop c xs i ?h = n"
        using part by (intro "1.IH"(2) [OF True pos]) auto
      with True pos show ?thesis by (simp add: bsearch_loop.simps [of c xs i j])
    qed
  qed
qed

lemma takeWhile_prefix_iff:
  assumes "\<And>i j. i < j \<Longrightarrow> j < length xs \<Longrightarrow> P (xs ! j) \<Longrightarrow> P (xs ! i)" and "k < length xs"
  shows "P (xs ! k) \<longleftrightarrow> k < length (takeWhile P xs)"
proof
  assume "k < length (takeWhile P xs)"
  then show "P (xs ! k)"
    using nth_mem [of k "takeWhile P xs"] set_takeWhileD [of "takeWhile P xs ! k" P xs]
    by (simp add: takeWhile_nth)
next
  assume P: "P (xs ! k)"
  show "k < length (takeWhile P xs)"
  proof (rule ccontr)
    assume "\<not> k < length (takeWhile P xs)"
    with assms(2) have "length (takeWhile P xs) < length xs"
      and le: "length (takeWhile P xs) \<le> k" by simp_all
    then have notP: "\<not> P (xs ! length (takeWhile P xs))"
      by (intro nth_length_takeWhile)
    with P le assms show False by (metis le_neq_implies_less)
  qed
qed

lemma binary_search_func_spec:
  assumes "\<And>i j. i < j \<Longrightarrow> j < length xs \<Longrightarrow> c (xs ! j) < 0 \<Longrightarrow> c (xs ! i) < 0"
  shows "fst (binary_search_func c xs) = length (takeWhile (\<lambda>x. c x < 0) xs)"
proof -
  let ?n = "length (takeWhile (\<lambda>x. c x < 0) xs)"
  have "bsearch_loop c xs 0 (length xs) = ?n"
    using takeWhile_prefix_iff [of xs "\<lambda>x. c x < 0"] assms
    by (intro bsearch_loop_prefix) (auto simp: length_takeWhile_le)
  then show ?thesis by (simp add: binary_search_func_def Let_def)
qed

section \<open>Maps as association lists\<close>

text \<open>
  A Go map whose iteration order matters is an association list with distinct keys: the list's
  order is the order one \<open>range\<close> over the map takes, which the runtime leaves open, so a
  lemma about all lists is about all orders. A write replaces the entry or adds a new one.
\<close>

fun map_put :: "'k \<Rightarrow> 'v \<Rightarrow> ('k \<times> 'v) list \<Rightarrow> ('k \<times> 'v) list" where
  "map_put k v [] = [(k, v)]"
| "map_put k v ((k', v') # m) = (if k = k' then (k, v) # m else (k', v') # map_put k v m)"

text \<open>\<open>maps.Copy(dst, src)\<close>.\<close>

definition maps_copy :: "('k \<times> 'v) list \<Rightarrow> ('k \<times> 'v) list \<Rightarrow> ('k \<times> 'v) list" where
  "maps_copy dst src = foldl (\<lambda>m (k, v). map_put k v m) dst src"

lemma map_of_map_put [go_map]: "map_of (map_put k v m) = (map_of m)(k \<mapsto> v)"
  by (induction m) (auto simp: fun_eq_iff)

lemma set_keys_map_put [go_map]: "fst ` set (map_put k v m) = insert k (fst ` set m)"
  by (induction k v m rule: map_put.induct) (simp_all add: insert_commute)

lemma distinct_map_put [go_map]:
  "distinct (map fst m) \<Longrightarrow> distinct (map fst (map_put k v m))"
proof (induction m)
  case (Cons a m)
  then show ?case
    using set_keys_map_put [of k v m] by (cases a) auto
qed simp

lemma maps_copy_Nil [simp]: "maps_copy m [] = m"
  by (simp add: maps_copy_def)

lemma maps_copy_Cons: "maps_copy m ((k, v) # s) = maps_copy (map_put k v m) s"
  by (simp add: maps_copy_def)

lemma map_of_maps_copy [go_map]:
  "distinct (map fst src) \<Longrightarrow> map_of (maps_copy dst src) = map_of dst ++ map_of src"
proof (induction src arbitrary: dst)
  case (Cons a src)
  obtain k v where a: "a = (k, v)" by (cases a)
  with Cons.prems have "map_of src k = None"
    by (auto simp: map_of_eq_None_iff)
  with Cons a show ?case
    by (auto simp: maps_copy_Cons map_of_map_put map_add_def fun_eq_iff split: option.splits)
qed simp

lemma distinct_maps_copy [go_map]:
  "distinct (map fst dst) \<Longrightarrow> distinct (map fst (maps_copy dst src))"
  by (induction src arbitrary: dst) (auto simp: maps_copy_Cons distinct_map_put)

section \<open>Lists up to their order\<close>

text \<open>A symmetric relation between all pairs does not see the order of a list.\<close>

lemma sorted_wrt_mset:
  assumes "\<And>a b. R a b \<Longrightarrow> R b a"
  shows "sorted_wrt R xs \<Longrightarrow> mset xs = mset ys \<Longrightarrow> sorted_wrt R ys"
proof (induction xs arbitrary: ys)
  case (Cons x xs)
  from mset_eq_setD [OF Cons.prems(2)] have "x \<in> set ys" by auto
  then obtain us vs where ys: "ys = us @ x # vs" by (auto dest: split_list)
  with Cons.prems(2) have m: "mset xs = mset (us @ vs)" by simp
  from Cons.IH [OF _ m] Cons.prems(1) have "sorted_wrt R (us @ vs)" by simp
  moreover from mset_eq_setD [OF m] have "set xs = set us \<union> set vs" by simp
  ultimately show ?case using Cons.prems(1) assms by (auto simp: ys sorted_wrt_append)
qed simp

lemma mset_map_filter:
  assumes "mset xs = mset ys"
  shows "mset (List.map_filter f xs) = mset (List.map_filter f ys)"
  unfolding map_filter_def mset_map mset_filter assms ..

section \<open>Ranging over the runes of a string\<close>

text \<open>
  \<open>utf8.DecodeRuneInString\<close>: the first rune and its width; an invalid encoding is U+FFFD of
  width 1. The bounds of the second byte rule out overlong forms and surrogates.
\<close>

definition byte :: "char \<Rightarrow> nat" where
  "byte c = of_char c"

definition is_cont :: "char \<Rightarrow> bool" where
  "is_cont c \<longleftrightarrow> 128 \<le> byte c \<and> byte c \<le> 191"

definition decode_rune :: "char \<Rightarrow> string \<Rightarrow> nat \<times> nat" where
  "decode_rune c s =
     (let a = byte c; n = length s; b1 = byte (s ! 0); b2 = byte (s ! 1); b3 = byte (s ! 2)
      in if a < 128 then (a, 1)
         else if 194 \<le> a \<and> a \<le> 223 \<and> n \<ge> 1 \<and> is_cont (s ! 0)
         then ((a - 192) * 64 + (b1 - 128), 2)
         else if 224 \<le> a \<and> a \<le> 239 \<and> n \<ge> 2 \<and> is_cont (s ! 0) \<and> is_cont (s ! 1) \<and>
                 (a = 224 \<longrightarrow> 160 \<le> b1) \<and> (a = 237 \<longrightarrow> b1 \<le> 159)
         then ((a - 224) * 4096 + (b1 - 128) * 64 + (b2 - 128), 3)
         else if 240 \<le> a \<and> a \<le> 244 \<and> n \<ge> 3 \<and> is_cont (s ! 0) \<and> is_cont (s ! 1) \<and> is_cont (s ! 2) \<and>
                 (a = 240 \<longrightarrow> 144 \<le> b1) \<and> (a = 244 \<longrightarrow> b1 \<le> 143)
         then ((a - 240) * 262144 + (b1 - 128) * 4096 + (b2 - 128) * 64 + (b3 - 128), 4)
         else (65533, 1))"

function runes :: "string \<Rightarrow> nat list" where
  "runes [] = []"
| "runes (c # s) = fst (decode_rune c s) # runes (drop (snd (decode_rune c s) - 1) s)"
  by pat_completeness auto
termination
  by (relation "measure length") auto

lemma decode_rune_ascii: "byte c < 128 \<Longrightarrow> decode_rune c s = (byte c, 1)"
  by (simp add: decode_rune_def)

lemma runes_ascii: "\<forall>c \<in> set s. byte c < 128 \<Longrightarrow> runes s = map byte s"
  by (induction s) (simp_all add: decode_rune_ascii)

end
