(* ===== verification/GoErrors.thy ===== *)
theory GoErrors
  imports GoBase
begin

text \<open>
  Go error values. A dynamic error is a tree: a node and the errors its \<open>Unwrap\<close> returns.
  The repository's own error structs are \<open>*ReqError\<close> and \<open>Reason\<close>
  (\<open>http/reqerr.go\<close>) and \<open>*EventError\<close> (\<open>events/eventerr.go\<close>). The
  others come from the standard library (\<open>errors.New\<close>, \<open>fmt.Errorf\<close> with
  \<open>%w\<close>, \<open>errors.Join\<close>, \<open>*json.UnmarshalTypeError\<close>) or from packages outside
  the repository (\<open>*pgconn.PgError\<close>, \<open>cher.E\<close>, the samber error): for those the
  value carries the fields that the repository reads, and what their own \<open>Error\<close> and
  \<open>Unwrap\<close> return is data of the value, so nothing is assumed about them.

  Pointer identity, on which \<open>errors.Is\<close> rests, matters for package-level variables only:
  a value that such a variable points to carries the variable's name, every other allocation
  carries none and is the same as no target.
\<close>

section \<open>Values of type any, metadata bags and reasons\<close>

datatype gval =
    GNil
  | GBool bool
  | GInt int
  | GStr string
  | GStrs "string list"
  | GMap "(string \<times> gval) list"
  | GOpaque string \<comment> \<open>a value \<open>encoding/json\<close> refuses: a channel, a function, NaN\<close>

type_synonym meta = "(string \<times> gval) list"

datatype reason = Reason (rs_code: string) (rs_meta: meta) (rs_reasons: "reason list")

section \<open>Error structs\<close>

datatype 'e req_error = ReqError
  (req_self: "string option") (req_code: string) (req_meta: meta) (req_reasons: "reason list")
  (req_status: int) (req_causes: "'e list")

datatype 'e event_error = EventError
  (evt_self: "string option") (evt_code: string) (evt_event: string) (evt_meta: meta)
  (evt_causes: "'e list")

datatype pg_error = PgError (pg_code: string) (pg_constraint: string) (pg_text: string)

datatype cher_e = CherE (cher_code: string) (cher_meta: meta) (cher_reasons: "cher_e list")

datatype samber_fields = SamberFields (sb_code: gval) (sb_context: meta) (sb_public: string)

text \<open>\<open>apiError\<close> of \<open>http/examples/errorwriter\<close>; a reason is a field and a message.\<close>

datatype api_error = ApiError (ap_code: string) (ap_status: int) (ap_reasons: "(string \<times> string) list")

datatype 'e unwrapping = NoUnwrap | UnwrapOne 'e | UnwrapMany "'e list"

datatype go_error =
    Sentinel string string
  | ErrText string
  | EReq "go_error req_error"
  | EEvent "go_error event_error"
  | EPg pg_error "go_error unwrapping"
  | EJsonType string string string
  | EApi api_error
  | ECher cher_e string "go_error unwrapping"
  | ESamber samber_fields string "go_error unwrapping"
  | Wrapped string "go_error list"
  | Joined "go_error list"
  | Foreign string string "go_error unwrapping"

fun unwrapped :: "'e unwrapping \<Rightarrow> 'e list" where
  "unwrapped NoUnwrap = []"
| "unwrapped (UnwrapOne e) = [e]"
| "unwrapped (UnwrapMany es) = es"

text \<open>What the traversal of \<open>errors.Is\<close> and \<open>errors.As\<close> visits below a node.\<close>

fun unwrap :: "go_error \<Rightarrow> go_error list" where
  "unwrap (EReq r) = req_causes r"
| "unwrap (EEvent r) = evt_causes r"
| "unwrap (EPg p u) = unwrapped u"
| "unwrap (ECher c t u) = unwrapped u"
| "unwrap (ESamber f t u) = unwrapped u"
| "unwrap (Wrapped t es) = es"
| "unwrap (Joined es) = es"
| "unwrap (Foreign ty t u) = unwrapped u"
| "unwrap (Sentinel n t) = []"
| "unwrap (ErrText t) = []"
| "unwrap (EJsonType ex got t) = []"
| "unwrap (EApi e) = []"

text \<open>\<open>errors.Unwrap\<close> knows the single-error form only.\<close>

fun unwrap_one :: "go_error \<Rightarrow> go_error option" where
  "unwrap_one (Wrapped t [e]) = Some e"
| "unwrap_one (EPg p (UnwrapOne e)) = Some e"
| "unwrap_one (ECher c t (UnwrapOne e)) = Some e"
| "unwrap_one (ESamber f t (UnwrapOne e)) = Some e"
| "unwrap_one (Foreign ty t (UnwrapOne e)) = Some e"
| "unwrap_one _ = None"

lemma unwrapped_size: "e \<in> set (unwrapped u) \<Longrightarrow> size e < size_unwrapping size u"
  by (cases u) (auto dest: size_list_estimation' [of e _ "size e" size])

lemma unwrap_size: "e' \<in> set (unwrap e) \<Longrightarrow> size e' < size e"
proof (induction e rule: unwrap.induct)
  case (1 r)
  then show ?case
    by (cases r) (auto dest: size_list_estimation' [of e' _ "size e'" size])
next
  case (2 r)
  then show ?case
    by (cases r) (auto dest: size_list_estimation' [of e' _ "size e'" size])
qed (auto dest: unwrapped_size size_list_estimation' [of e' _ "size e'" size])

section \<open>Package errors\<close>

text \<open>The depth-first, pre-order traversal of an error tree.\<close>

function chain :: "go_error \<Rightarrow> go_error list" where
  "chain e = e # concat (map chain (unwrap e))"
  by pat_completeness auto
termination
  by (relation "measure size") (auto dest: unwrap_size)

declare chain.simps [simp del]

fun same_error :: "go_error \<Rightarrow> go_error \<Rightarrow> bool" where
  "same_error (Sentinel a t) (Sentinel b t') = (a = b)"
| "same_error (EReq r) (EReq r') = (req_self r \<noteq> None \<and> req_self r = req_self r')"
| "same_error (EEvent r) (EEvent r') = (evt_self r \<noteq> None \<and> evt_self r = evt_self r')"
| "same_error _ _ = False"

definition errors_is :: "go_error \<Rightarrow> go_error \<Rightarrow> bool" where
  "errors_is e target = list_ex (\<lambda>x. same_error x target) (chain e)"

text \<open>\<open>errors.As\<close> and \<open>errors.AsType\<close>: the first node the type test accepts.\<close>

fun first_some :: "('a \<Rightarrow> 'b option) \<Rightarrow> 'a list \<Rightarrow> 'b option" where
  "first_some f [] = None"
| "first_some f (x # xs) = (case f x of None \<Rightarrow> first_some f xs | Some y \<Rightarrow> Some y)"

definition errors_as :: "(go_error \<Rightarrow> 'b option) \<Rightarrow> go_error \<Rightarrow> 'b option" where
  "errors_as f e = first_some f (chain e)"

definition the_req :: "go_error \<Rightarrow> go_error req_error option" where
  "the_req e = (case e of EReq r \<Rightarrow> Some r | _ \<Rightarrow> None)"

definition the_event :: "go_error \<Rightarrow> go_error event_error option" where
  "the_event e = (case e of EEvent r \<Rightarrow> Some r | _ \<Rightarrow> None)"

definition the_pg :: "go_error \<Rightarrow> pg_error option" where
  "the_pg e = (case e of EPg p u \<Rightarrow> Some p | _ \<Rightarrow> None)"

definition the_cher :: "go_error \<Rightarrow> cher_e option" where
  "the_cher e = (case e of ECher c t u \<Rightarrow> Some c | _ \<Rightarrow> None)"

definition errors_join :: "go_error option list \<Rightarrow> go_error option" where
  "errors_join es =
     (let present = List.map_filter (\<lambda>x. x) es
      in if present = [] then None else Some (Joined present))"

subsection \<open>Facts about the traversal\<close>

lemma chain_self [simp]: "e \<in> set (chain e)"
  by (simp add: chain.simps [of e])

lemma chain_child: "e' \<in> set (unwrap e) \<Longrightarrow> set (chain e') \<subseteq> set (chain e)"
  by (auto simp: chain.simps [of e])

lemma errors_is_self: "same_error e target \<Longrightarrow> errors_is e target"
  by (auto simp: errors_is_def list_ex_iff intro: bexI [of _ e])

lemma errors_is_child:
  "e' \<in> set (unwrap e) \<Longrightarrow> errors_is e' target \<Longrightarrow> errors_is e target"
  using chain_child by (fastforce simp: errors_is_def list_ex_iff)

lemma errors_is_cases:
  "errors_is e target \<longleftrightarrow> same_error e target \<or> (\<exists>e' \<in> set (unwrap e). errors_is e' target)"
  by (auto simp: errors_is_def list_ex_iff chain.simps [of e])

lemma first_some_None_iff: "first_some f xs = None \<longleftrightarrow> (\<forall>x \<in> set xs. f x = None)"
  by (induction xs) (auto split: option.splits)

lemma first_some_append:
  "first_some f (xs @ ys) = (case first_some f xs of None \<Rightarrow> first_some f ys | Some y \<Rightarrow> Some y)"
  by (induction xs) (auto split: option.splits)

lemma first_some_Some: "first_some f xs = Some y \<Longrightarrow> \<exists>x \<in> set xs. f x = Some y"
  by (induction xs) (auto split: option.splits)

lemma errors_as_self: "f e = Some y \<Longrightarrow> errors_as f e = Some y"
  by (simp add: errors_as_def chain.simps [of e])

text \<open>A node the type test refuses is looked through.\<close>

lemma errors_as_wrapped:
  "f e = None \<Longrightarrow> unwrap e = [e'] \<Longrightarrow> errors_as f e = errors_as f e'"
  by (simp add: errors_as_def chain.simps [of e])

lemma errors_as_leaf: "f e = None \<Longrightarrow> unwrap e = [] \<Longrightarrow> errors_as f e = None"
  by (simp add: errors_as_def chain.simps [of e])

lemma errors_as_None_iff: "errors_as f e = None \<longleftrightarrow> (\<forall>x \<in> set (chain e). f x = None)"
  by (simp add: errors_as_def first_some_None_iff)

lemma errors_as_in_chain: "errors_as f e = Some y \<Longrightarrow> \<exists>x \<in> set (chain e). f x = Some y"
  by (auto simp: errors_as_def dest: first_some_Some)

lemma errors_join_None_iff: "errors_join es = None \<longleftrightarrow> (\<forall>e \<in> set es. e = None)"
  by (induction es) (auto simp: errors_join_def map_filter_simps Let_def split: option.splits)

lemma map_filter_id_Some: "List.map_filter (\<lambda>x. x) (map Some es) = es"
  by (induction es) (simp_all add: map_filter_simps)

section \<open>Error texts\<close>

fun keys :: "meta \<Rightarrow> string list" where
  "keys m = map fst m"

definition newline :: string where
  "newline = [CHR 0x0A]"

definition tabs :: "nat \<Rightarrow> string" where
  "tabs n = replicate n (CHR 0x09)"

text \<open>
  \<open>Error()\<close> of every node. The two methods of the repository list the metadata keys in the
  map's iteration order.
\<close>

definition req_error_text :: "'e req_error \<Rightarrow> string" where
  "req_error_text e = req_code e @ '' keys='' @ str_join '', '' (keys (req_meta e))"

definition event_error_text :: "'e event_error \<Rightarrow> string" where
  "event_error_text e =
     (if evt_event e \<noteq> []
      then evt_code e @ '' event='' @ evt_event e @ '' keys='' @ str_join '', '' (keys (evt_meta e))
      else evt_code e @ '' keys='' @ str_join '', '' (keys (evt_meta e)))"

function err_text :: "go_error \<Rightarrow> string" where
  "err_text e =
     (case e of
        Sentinel n t \<Rightarrow> t
      | ErrText t \<Rightarrow> t
      | EReq r \<Rightarrow> req_error_text r
      | EEvent r \<Rightarrow> event_error_text r
      | EPg p u \<Rightarrow> pg_text p
      | EJsonType ex got t \<Rightarrow> t
      | EApi a \<Rightarrow> ap_code a
      | ECher c t u \<Rightarrow> t
      | ESamber f t u \<Rightarrow> t
      | Wrapped t es \<Rightarrow> t
      | Joined es \<Rightarrow> str_join newline (map err_text es)
      | Foreign ty t u \<Rightarrow> t)"
  by pat_completeness auto
termination
  by (relation "measure size") (auto dest: size_list_estimation' [of _ _ "size _" size])

declare err_text.simps [simp del]

section \<open>Panics\<close>

datatype panic_value = PanicMsg string | PanicErr go_error

datatype 'a outcome = Ret 'a | Panic panic_value

definition panic_text :: "panic_value \<Rightarrow> string" where
  "panic_text p = (case p of PanicMsg s \<Rightarrow> s | PanicErr e \<Rightarrow> err_text e)"

text \<open>The identity of \<open>http.ErrAbortHandler\<close>, the panic value \<open>net/http\<close> reserves.\<close>

definition abort_handler :: panic_value where
  "abort_handler = PanicErr (Sentinel ''net/http.ErrAbortHandler'' ''net/http: abort Handler'')"

definition is_abort_handler :: "panic_value \<Rightarrow> bool" where
  "is_abort_handler p =
     (case p of PanicErr (Sentinel n t) \<Rightarrow> n = ''net/http.ErrAbortHandler'' | _ \<Rightarrow> False)"

end
