(* ===== verification/GoJson.thy ===== *)
theory GoJson
  imports GoErrors
begin

text \<open>
  What \<open>encoding/json\<close> writes for the values of the repository: maps are written with their
  keys in byte order, fields tagged \<open>omitempty\<close> are left out when empty, and a value with no
  JSON form makes the whole encoding fail.
\<close>

datatype json =
    JNull
  | JBool bool
  | JNum int
  | JNumText string \<comment> \<open>a number literal that is no plain integer\<close>
  | JStr string
  | JArr "json list"
  | JObj "(string \<times> json) list"

definition sorted_members :: "(string \<times> json) list \<Rightarrow> (string \<times> json) list" where
  "sorted_members kvs = sort_key fst kvs"

fun gval_json :: "gval \<Rightarrow> json option" where
  "gval_json GNil = Some JNull"
| "gval_json (GBool b) = Some (JBool b)"
| "gval_json (GInt i) = Some (JNum i)"
| "gval_json (GStr s) = Some (JStr s)"
| "gval_json (GStrs ss) = Some (JArr (map JStr ss))"
| "gval_json (GMap m) =
     map_option (\<lambda>kvs. JObj (sorted_members kvs))
       (those (map (\<lambda>(k, v). map_option (Pair k) (gval_json v)) m))"
| "gval_json (GOpaque t) = None"

definition meta_json :: "meta \<Rightarrow> json option" where
  "meta_json m = gval_json (GMap m)"

lemma those_None_iff: "those xs = None \<longleftrightarrow> None \<in> set xs"
  by (induction xs) (auto split: option.splits)

lemma those_Some_iff: "those xs = Some ys \<longleftrightarrow> xs = map Some ys"
proof (induction xs arbitrary: ys)
  case (Cons x xs)
  then show ?case by (cases ys) (auto split: option.splits)
qed auto

lemma those_map_Some: "those (map (\<lambda>x. Some (f x)) xs) = Some (map f xs)"
  by (induction xs) simp_all

lemma meta_json_Nil [simp]: "meta_json [] = Some (JObj [])"
  by (simp add: meta_json_def sorted_members_def)

end
