(* ===== verification/GoSlices.thy ===== *)
theory GoSlices
  imports GoBase
begin

text \<open>
  Go slices with their aliasing: a slice is a header (backing array, length, capacity) and
  \<open>append\<close> writes into the backing array when the capacity allows, so two slices cut from one
  array can overwrite each other. The heap maps array handles to array contents; an array's
  length is what was allocated. Slices of this model start at offset 0 of their array, which is
  all the repository uses. Nothing here is code of the repository.
\<close>

record 'a slice_heap =
  arr :: "nat \<Rightarrow> 'a list"
  brk :: nat

datatype slice = Slice (sl_arr: nat) (sl_len: nat) (sl_cap: nat)

definition slice_contents :: "'a slice_heap \<Rightarrow> slice \<Rightarrow> 'a list" where
  "slice_contents h s = take (sl_len s) (arr h (sl_arr s))"

definition slice_valid :: "'a slice_heap \<Rightarrow> slice \<Rightarrow> bool" where
  "slice_valid h s \<longleftrightarrow>
     sl_len s \<le> sl_cap s \<and> sl_cap s \<le> length (arr h (sl_arr s)) \<and> sl_arr s < brk h"

text \<open>\<open>slices.Clip\<close>: the same elements, no spare capacity.\<close>

definition slice_clip :: "slice \<Rightarrow> slice" where
  "slice_clip s = Slice (sl_arr s) (sl_len s) (sl_len s)"

text \<open>
  \<open>append(s, xs...)\<close>: in place when it fits, else a new array; \<open>spare\<close> stands for the
  zeroed extra elements the runtime's growth policy adds, of a length it alone chooses.
\<close>

definition slice_append :: "'a list \<Rightarrow> 'a slice_heap \<Rightarrow> slice \<Rightarrow> 'a list \<Rightarrow> 'a slice_heap \<times> slice" where
  "slice_append spare h s xs =
     (let n = sl_len s + length xs; a = arr h (sl_arr s)
      in if n \<le> sl_cap s
         then (h\<lparr>arr := (arr h)(sl_arr s := take (sl_len s) a @ xs @ drop n a)\<rparr>,
               Slice (sl_arr s) n (sl_cap s))
         else (h\<lparr>arr := (arr h)(brk h := take (sl_len s) a @ xs @ spare), brk := Suc (brk h)\<rparr>,
               Slice (brk h) n (n + length spare)))"

text \<open>A heap with one empty array, to which the nil slice points.\<close>

definition nil_slice :: slice where
  "nil_slice = Slice 0 0 0"

definition empty_heap :: "'a slice_heap" where
  "empty_heap = \<lparr>arr = (\<lambda>_. []), brk = 1\<rparr>"

section \<open>What append promises\<close>

lemma slice_clip_contents [simp]: "slice_contents h (slice_clip s) = slice_contents h s"
  by (simp add: slice_contents_def slice_clip_def)

lemma slice_clip_valid [intro]: "slice_valid h s \<Longrightarrow> slice_valid h (slice_clip s)"
  by (auto simp: slice_valid_def slice_clip_def)

lemma nil_slice_valid: "0 < brk h \<Longrightarrow> slice_valid h nil_slice"
  by (simp add: slice_valid_def nil_slice_def)

lemma nil_slice_contents [simp]: "slice_contents h nil_slice = []"
  by (simp add: slice_contents_def nil_slice_def)

lemma slice_append_contents:
  assumes valid: "slice_valid h s" and app: "slice_append spare h s xs = (h', s')"
  shows "slice_contents h' s' = slice_contents h s @ xs"
proof (cases "sl_len s + length xs \<le> sl_cap s")
  case True
  with valid have "sl_len s + length xs \<le> length (arr h (sl_arr s))"
    by (simp add: slice_valid_def)
  with app True show ?thesis
    by (auto simp: slice_append_def slice_contents_def Let_def)
next
  case False
  with app valid show ?thesis
    by (auto simp: slice_append_def slice_contents_def slice_valid_def Let_def)
qed

lemma slice_append_valid:
  "slice_valid h s \<Longrightarrow> slice_append spare h s xs = (h', s') \<Longrightarrow> slice_valid h' s'"
  by (auto simp: slice_append_def slice_valid_def Let_def split: if_splits)

text \<open>
  A slice survives an append to another one when the two do not share an array, or when the
  appended one has no spare capacity.
\<close>

lemma slice_append_frame:
  assumes "slice_valid h t" and "slice_append spare h s xs = (h', s')"
    and "sl_arr s \<noteq> sl_arr t \<or> sl_cap s = sl_len s"
  shows "slice_contents h' t = slice_contents h t \<and> slice_valid h' t"
  using assms
  by (auto simp: slice_append_def slice_valid_def slice_contents_def Let_def split: if_splits)

text \<open>Appending to a clipped slice never touches memory that anything valid can read.\<close>

lemma slice_append_clip_frame:
  assumes "slice_valid h t" and "slice_append spare h (slice_clip s) xs = (h', s')"
  shows "slice_contents h' t = slice_contents h t \<and> slice_valid h' t"
  using assms by (intro slice_append_frame) (auto simp: slice_clip_def)

lemma slice_append_fresh:
  assumes "slice_append spare h (slice_clip s) xs = (h', s')" and "xs \<noteq> []"
  shows "sl_arr s' = brk h \<and> brk h' = Suc (brk h)"
  using assms by (auto simp: slice_append_def slice_clip_def Let_def split: if_splits)

lemma slice_append_brk:
  "slice_append spare h s xs = (h', s') \<Longrightarrow> brk h \<le> brk h'"
  by (auto simp: slice_append_def Let_def split: if_splits)

end
