(* ===== verification/GoWorld.thy ===== *)
theory GoWorld
  imports GoErrors
begin

text \<open>
  What the effectful code of the repository runs on: the values a \<open>context.Context\<close> carries
  (one field per unexported key type the packages declare) and a world that the code reads and
  writes by explicit state passing. A function that may panic returns an \<^typ>\<open>'a outcome\<close>
  beside the new world, so effects before a panic are kept, as in Go.
\<close>

type_synonym logger = string

datatype level = LevelInfo | LevelWarn | LevelError

record log_entry =
  le_logger :: logger
  le_level :: level
  le_msg :: string
  le_attrs :: "(string \<times> string) list"

record request_meta =
  client_ip :: string
  user_agent :: string

text \<open>
  The context keys: \<open>loggerKey\<close> and \<open>requestMetaKey\<close> of package http,
  \<open>loggerKey\<close> of package events (a type of its own) and \<open>txCtxKey\<close> of package
  pgxdb, whose transaction is a handle. Package version extends the record by its
  \<open>resolvedKey\<close>.
\<close>

record go_ctx =
  ctx_http_logger :: "logger option"
  ctx_request_meta :: "request_meta option"
  ctx_event_logger :: "logger option"
  ctx_tx :: "nat option"

definition background :: go_ctx where
  "background = \<lparr>ctx_http_logger = None, ctx_request_meta = None, ctx_event_logger = None,
     ctx_tx = None\<rparr>"

text \<open>
  The world: the process-wide default logger (\<open>slog.Default()\<close>), what has been logged, and
  the application's own state, which only parameters of the model read and write.
\<close>

record 'w world =
  w_default :: logger
  w_log :: "log_entry list"
  w_app :: 'w

definition log_to :: "logger \<Rightarrow> level \<Rightarrow> string \<Rightarrow> (string \<times> string) list \<Rightarrow>
    ('w, 'z) world_scheme \<Rightarrow> ('w, 'z) world_scheme" where
  "log_to l lv msg attrs s =
     s\<lparr>w_log := w_log s @ [\<lparr>le_logger = l, le_level = lv, le_msg = msg, le_attrs = attrs\<rparr>]\<rparr>"

lemma log_to_simps [simp]:
  "w_app (log_to l lv msg attrs s) = w_app s"
  "w_default (log_to l lv msg attrs s) = w_default s"
  by (simp_all add: log_to_def)

text \<open>The \<open>loggerFrom\<close> pattern: the logger a context carries, else the default as of now.\<close>

definition logger_or_default :: "logger option \<Rightarrow> ('w, 'z) world_scheme \<Rightarrow> logger" where
  "logger_or_default l s = (case l of Some x \<Rightarrow> x | None \<Rightarrow> w_default s)"

section \<open>Programs\<close>

text \<open>A program ends with \<open>log.Fatal\<close>, or \<open>main\<close> returns.\<close>

datatype exit = Fatal string | Finished

section \<open>Package testing\<close>

text \<open>A test is the list of the failures it reports: \<open>t.Errorf\<close> adds one and goes on.\<close>

definition check :: "bool \<Rightarrow> string \<Rightarrow> string list" where
  "check c msg = (if c then [] else [msg])"

text \<open>\<open>t.Fatalf\<close> ends the test.\<close>

definition require :: "bool \<Rightarrow> string \<Rightarrow> string list \<Rightarrow> string list" where
  "require c msg rest = (if c then rest else [msg])"

lemma check_True [simp]: "check True msg = []" and require_True [simp]: "require True msg rest = rest"
  by (simp_all add: check_def require_def)

end
