(* ===== verification/HttpReqErr.thy ===== *)
theory HttpReqErr
  imports GoJson GoSlices GoWorld
begin

text \<open>
  Package http, \<open>http/reqerr.go\<close>: the canonical error \<open>*ReqError\<close>, its status table,
  its copying decorators, its wire form and the default coercer. \<open>WithReasons\<close> is modelled
  twice: on values, and on the heap of \<open>GoSlices\<close> with the \<open>slices.Clip\<close> that keeps two
  decorations of one sentinel from writing into the same array; the second refines the first.
  The interface \<open>Coercer\<close> is the locale \<open>http_coercer\<close>.
\<close>

section \<open>Construction and status\<close>

fun code_statuses :: "string \<Rightarrow> int option" where
  "code_statuses code =
     (if code = ''bad_request'' then Some 400
      else if code = ''invalid_request'' then Some 400
      else if code = ''unauthorized'' then Some 401
      else if code = ''access_denied'' then Some 403
      else if code = ''not_found'' then Some 404
      else if code = ''route_not_found'' then Some 404
      else if code = ''method_not_allowed'' then Some 405
      else if code = ''endpoint_withdrawn'' then Some 410
      else if code = ''unsupported_media_type'' then Some 415
      else if code = ''too_many_requests'' then Some 429
      else if code = ''unknown'' then Some 500
      else None)"

declare code_statuses.simps [simp del]

definition http_new :: "string \<Rightarrow> meta \<Rightarrow> 'e list \<Rightarrow> 'e req_error" where
  "http_new code m causes = ReqError None code m [] 0 causes"

definition http_wrap :: "'e \<Rightarrow> string \<Rightarrow> meta \<Rightarrow> 'e list \<Rightarrow> 'e req_error" where
  "http_wrap err code m causes = ReqError None code m [] 0 (err # causes)"

definition status_code :: "'e req_error \<Rightarrow> int" where
  "status_code e =
     (if req_status e \<noteq> 0 then req_status e
      else case code_statuses (req_code e) of Some status \<Rightarrow> status | None \<Rightarrow> 400)"

text \<open>A copy is a new allocation, so it carries no package-level identity.\<close>

fun with_status :: "'e req_error \<Rightarrow> int \<Rightarrow> 'e req_error" where
  "with_status (ReqError self code m rs st causes) status = ReqError None code m rs status causes"

fun with_reasons :: "'e req_error \<Rightarrow> reason list \<Rightarrow> 'e req_error" where
  "with_reasons (ReqError self code m rs st causes) reasons =
     ReqError None code m (rs @ reasons) st causes"

definition default_coercer :: "go_error option \<Rightarrow> go_error req_error option" where
  "default_coercer err =
     (case err of
        None \<Rightarrow> None
      | Some e \<Rightarrow>
          (case errors_as the_req e of
             Some r \<Rightarrow> Some r
           | None \<Rightarrow> Some (http_wrap e ''unknown'' [] [])))"

lemma status_code_new [simp]:
  "status_code (http_new code m cs) = (case code_statuses code of Some s \<Rightarrow> s | None \<Rightarrow> 400)"
  "status_code (http_wrap err code m cs) = (case code_statuses code of Some s \<Rightarrow> s | None \<Rightarrow> 400)"
  by (simp_all add: status_code_def http_new_def http_wrap_def)

lemma status_code_with_status [simp]:
  "s \<noteq> 0 \<Longrightarrow> status_code (with_status e s) = s"
  by (cases e) (simp add: status_code_def)

lemma status_code_with_reasons [simp]: "status_code (with_reasons e rs) = status_code e"
  by (cases e) (simp add: status_code_def)

lemma code_statuses_range: "code_statuses c = Some s \<Longrightarrow> 400 \<le> s \<and> s \<le> 500"
  by (auto simp: code_statuses.simps split: if_splits)

lemma code_statuses_500: "code_statuses c = Some 500 \<longleftrightarrow> c = ''unknown''"
  by (auto simp: code_statuses.simps)

section \<open>The wire form\<close>

fun reason_json :: "reason \<Rightarrow> json option" where
  "reason_json (Reason code m rs) =
     (case (meta_json m, those (map reason_json rs)) of
        (Some jm, Some jrs) \<Rightarrow>
          Some (JObj ((''code'', JStr code)
            # (if m = [] then [] else [(''meta'', jm)])
            @ (if rs = [] then [] else [(''reasons'', JArr jrs)])))
      | _ \<Rightarrow> None)"

definition req_error_json :: "'e req_error \<Rightarrow> json option" where
  "req_error_json e = reason_json (Reason (req_code e) (req_meta e) (req_reasons e))"

lemma req_error_json_with_status: "req_error_json (with_status e s) = req_error_json e"
  by (cases e) (simp add: req_error_json_def)

section \<open>WithReasons on the heap\<close>

record 'e req_object =
  ro_self :: "string option"
  ro_code :: string
  ro_meta :: meta
  ro_reasons :: slice
  ro_status :: int
  ro_causes :: "'e list"

definition req_view :: "reason slice_heap \<Rightarrow> 'e req_object \<Rightarrow> 'e req_error" where
  "req_view h e = ReqError (ro_self e) (ro_code e) (ro_meta e)
     (slice_contents h (ro_reasons e)) (ro_status e) (ro_causes e)"

definition with_reasons_mem :: "reason list \<Rightarrow> reason slice_heap \<Rightarrow> 'e req_object \<Rightarrow> reason list \<Rightarrow>
    reason slice_heap \<times> 'e req_object" where
  "with_reasons_mem spare h e reasons =
     (let (h', s') = slice_append spare h (slice_clip (ro_reasons e)) reasons
      in (h', e\<lparr>ro_self := None, ro_reasons := s'\<rparr>))"

text \<open>One request after another decorates the same error with reasons of its own.\<close>

fun decorate_all :: "reason slice_heap \<Rightarrow> 'e req_object \<Rightarrow> (reason list \<times> reason list) list \<Rightarrow>
    reason slice_heap \<times> 'e req_object list" where
  "decorate_all h e [] = (h, [])"
| "decorate_all h e ((spare, reasons) # reqs) =
     (let (h1, o1) = with_reasons_mem spare h e reasons;
          (h2, os) = decorate_all h1 e reqs
      in (h2, o1 # os))"

lemma with_reasons_mem_view:
  assumes "slice_valid h (ro_reasons e)" and "with_reasons_mem spare h e rs = (h', d)"
  shows "req_view h' d = with_reasons (req_view h e) rs \<and> slice_valid h' (ro_reasons d)"
proof -
  from assms(2) obtain s' where app: "slice_append spare h (slice_clip (ro_reasons e)) rs = (h', s')"
    and d: "d = e\<lparr>ro_self := None, ro_reasons := s'\<rparr>"
    by (auto simp: with_reasons_mem_def split: prod.splits)
  with assms(1) show ?thesis
    using slice_append_contents [OF slice_clip_valid app] slice_append_valid [OF slice_clip_valid app]
    by (simp add: req_view_def)
qed

lemma with_reasons_mem_frame:
  assumes "slice_valid h (ro_reasons e')" and "with_reasons_mem spare h e rs = (h', d)"
  shows "req_view h' e' = req_view h e' \<and> slice_valid h' (ro_reasons e')"
  using assms by (auto simp: with_reasons_mem_def req_view_def split: prod.splits
      dest: slice_append_clip_frame)

lemma decorate_all_frame:
  assumes "slice_valid h (ro_reasons e')" and "decorate_all h e reqs = (h', ds)"
  shows "req_view h' e' = req_view h e' \<and> slice_valid h' (ro_reasons e')"
  using assms
proof (induction reqs arbitrary: h ds)
  case (Cons r reqs)
  then show ?case
    by (cases r) (force simp: Let_def split: prod.splits dest: with_reasons_mem_frame)
qed simp

lemma decorate_all_view:
  assumes "slice_valid h (ro_reasons e)" and "decorate_all h e reqs = (h', ds)"
  shows "map (req_view h') ds = map (\<lambda>(spare, rs). with_reasons (req_view h e) rs) reqs"
  using assms
proof (induction reqs arbitrary: h ds)
  case (Cons r reqs)
  obtain spare rs where r: "r = (spare, rs)" by (cases r)
  from Cons.prems(2) obtain h1 d1 ds1 where d1: "with_reasons_mem spare h e rs = (h1, d1)"
    and rest: "decorate_all h1 e reqs = (h', ds1)" and ds: "ds = d1 # ds1"
    by (auto simp: r Let_def split: prod.splits)
  note v1 = with_reasons_mem_view [OF Cons.prems(1) d1]
  note f1 = with_reasons_mem_frame [OF Cons.prems(1) d1]
  from decorate_all_frame [OF _ rest, of d1] v1 have "req_view h' d1 = with_reasons (req_view h e) rs"
    by simp
  with Cons.IH [OF _ rest] f1 show ?case by (simp add: ds r)
qed simp

section \<open>The interface Coercer\<close>

text \<open>
  What the router relies on: nil in, nil out, and only then; and an existing \<open>*ReqError\<close>
  anywhere on the chain is passed through untouched.
\<close>

locale http_coercer =
  fixes coerce :: "go_error option \<Rightarrow> go_error req_error option"
  assumes nil_in: "coerce None = None"
    and some_out: "coerce (Some e) \<noteq> None"
    and pass_through: "errors_as the_req e = Some r \<Longrightarrow> coerce (Some e) = Some r"
begin

lemma coerce_None_iff: "coerce err = None \<longleftrightarrow> err = None"
  using nil_in some_out by (cases err) auto

text \<open>
  A domain sentinel is found through any number of \<open>fmt.Errorf("...: %w", err)\<close> layers.
\<close>

lemma wrapped_req_error:
  "coerce (Some (foldr (\<lambda>t e. Wrapped t [e]) ts (EReq r))) = Some r"
proof (rule pass_through)
  show "errors_as the_req (foldr (\<lambda>t e. Wrapped t [e]) ts (EReq r)) = Some r"
    by (induction ts) (simp_all add: errors_as_self errors_as_wrapped the_req_def)
qed

end

interpretation default_http: http_coercer default_coercer
  by unfold_locales (auto simp: default_coercer_def split: option.splits)

lemma errors_is_wrapped:
  "errors_is e target \<Longrightarrow> errors_is (foldr (\<lambda>t e. Wrapped t [e]) ts e) target"
  by (induction ts) (auto intro: errors_is_child)

lemma default_coercer_unclassified:
  "errors_as the_req e = None \<Longrightarrow>
     default_coercer (Some e) = Some (http_wrap e ''unknown'' [] [])"
  by (simp add: default_coercer_def)

section \<open>Properties\<close>

text \<open>A canonical error returned from deep in a handler is answered as it is, and its causes
  stay visible: through any number of \<open>%w\<close> layers the default coercer finds the \<open>*ReqError\<close>
  itself, and a sentinel it wraps is still found by \<open>errors.Is\<close>.\<close>

theorem sentinels_survive_wrapping:
  assumes "errors_is cause target"
  shows "default_coercer (Some (foldr (\<lambda>t e. Wrapped t [e]) ts (EReq (http_wrap cause code m others)))) =
      Some (http_wrap cause code m others) \<and>
    errors_is (foldr (\<lambda>t e. Wrapped t [e]) ts (EReq (http_wrap cause code m others))) target"
proof
  show "errors_is (foldr (\<lambda>t e. Wrapped t [e]) ts (EReq (http_wrap cause code m others))) target"
    by (rule errors_is_wrapped, rule errors_is_child [of cause]) (simp_all add: http_wrap_def assms)
qed (rule default_http.wrapped_req_error)

theorem sentinels_survive_wrapping_witness:
  "errors_is (Wrapped ''load user: not_found'' [EReq (http_wrap (Sentinel ''sql.ErrNoRows'' ''no rows'')
     ''not_found'' [] [])]) (Sentinel ''sql.ErrNoRows'' ''no rows'')"
proof -
  have "errors_is (Sentinel ''sql.ErrNoRows'' ''no rows'') (Sentinel ''sql.ErrNoRows'' ''no rows'')"
    by (rule errors_is_self) simp
  from sentinels_survive_wrapping [OF this, of "[''load user: not_found'']"] show ?thesis by simp
qed

text \<open>A request error without an explicit status answers 400 to 500, and 500 exactly for the
  code unknown; \<open>WithStatus\<close> overrides that unless given 0, and neither \<open>WithReasons\<close> nor a
  cause changes it.\<close>

theorem status_of_request_errors:
  "status_code (http_new code m cs) \<in> {400..500} \<and>
   (status_code (http_new code m cs) = 500 \<longleftrightarrow> code = ''unknown'') \<and>
   status_code (with_reasons (http_wrap err code m cs) rs) = status_code (http_new code m cs) \<and>
   status_code (with_reasons (with_status (http_new code m cs) st) rs) =
     (if st = 0 then status_code (http_new code m cs) else st)"
proof -
  have "(case code_statuses code of Some s \<Rightarrow> s | None \<Rightarrow> 400) \<in> {400..500}"
    using code_statuses_range [of code] by (auto split: option.splits)
  moreover have "(case code_statuses code of Some s \<Rightarrow> s | None \<Rightarrow> 400) = (500::int) \<longleftrightarrow> code = ''unknown''"
    using code_statuses_500 [of code] by (auto split: option.splits)
  ultimately show ?thesis
    by (simp add: http_new_def http_wrap_def status_code_def)
qed

text \<open>An error with one reason in a backing array that has room for a second.\<close>

definition sample_heap :: "reason slice_heap" where
  "sample_heap = \<lparr>arr = (\<lambda>_. [])(1 := [Reason ''a'' [] [], Reason '''' [] []]), brk = 2\<rparr>"

definition sample_object :: "go_error req_object" where
  "sample_object = \<lparr>ro_self = Some ''ErrInput'', ro_code = ''invalid_request'', ro_meta = [],
     ro_reasons = Slice 1 1 2, ro_status = 0, ro_causes = []\<rparr>"

text \<open>C24: Decorating one error for many requests never mixes their reasons: although the copies
  start from the same backing array, each keeps the original reasons followed by its own, and the
  original is unchanged.\<close>

theorem decorations_do_not_share:
  assumes "slice_valid h (ro_reasons e)" and "decorate_all h e reqs = (h', ds)"
  shows "map (req_view h') ds = map (\<lambda>(spare, rs). with_reasons (req_view h e) rs) reqs \<and>
    req_view h' e = req_view h e"
  using decorate_all_view [OF assms] decorate_all_frame [OF assms(1,2)] by blast

theorem decorations_do_not_share_witness:
  "case decorate_all sample_heap sample_object [([], [Reason ''b'' [] []]), ([], [Reason ''c'' [] []])] of
     (h, ds) \<Rightarrow> map req_reasons (map (req_view h) ds) =
       [[Reason ''a'' [] [], Reason ''b'' [] []], [Reason ''a'' [] [], Reason ''c'' [] []]]"
proof -
  have v: "slice_valid sample_heap (ro_reasons sample_object)"
    by (simp add: slice_valid_def sample_heap_def sample_object_def)
  obtain h ds where d: "decorate_all sample_heap sample_object
      [([], [Reason ''b'' [] []]), ([], [Reason ''c'' [] []])] = (h, ds)" by fastforce
  from decorations_do_not_share [OF v d] show ?thesis unfolding d prod.case
    by (simp add: req_view_def slice_contents_def sample_heap_def sample_object_def del: map_map)
qed

end
