(* ===== verification/HttpCore.thy ===== *)
theory HttpCore
  imports HttpReqErr
begin

text \<open>
  The part of \<open>net/http\<close> that the repository works over (requests, headers, the response
  writer with its first-write-wins status) and, from \<open>http/http.go\<close> and
  \<open>http/middleware.go\<close>, the handler types, \<open>writeJSON\<close>, the error writers and the two
  fallback handlers.
\<close>

section \<open>Requests\<close>

text \<open>
  A request with its header map under canonical keys, the decoded query values and the path
  values bound by the mux; each association list holds the first value of a key. The context's
  type is open, because package version adds a key to it.
\<close>

record 'c request =
  rq_method :: string
  rq_path_values :: "(string \<times> string) list"
  rq_query :: "(string \<times> string) list"
  rq_header :: "(string \<times> string) list"
  rq_body :: string
  rq_remote_addr :: string
  rq_ctx :: "'c go_ctx_scheme"

definition get_value :: "(string \<times> string) list \<Rightarrow> string \<Rightarrow> string" where
  "get_value m k = (case map_of m k of Some v \<Rightarrow> v | None \<Rightarrow> '''')"

definition header_get :: "'c request \<Rightarrow> string \<Rightarrow> string" where
  "header_get r k = get_value (rq_header r) (canonical_key k)"

definition query_get :: "'c request \<Rightarrow> string \<Rightarrow> string" where
  "query_get r k = get_value (rq_query r) k"

definition path_value :: "'c request \<Rightarrow> string \<Rightarrow> string" where
  "path_value r k = get_value (rq_path_values r) k"

section \<open>The response writer\<close>

datatype chunk = ChunkJson json | ChunkText string

record response =
  rw_header :: "(string \<times> string) list"
  rw_sent :: "(int \<times> (string \<times> string) list) option"
  rw_body :: "chunk list"

definition fresh_response :: response where
  "fresh_response = \<lparr>rw_header = [], rw_sent = None, rw_body = []\<rparr>"

definition header_set :: "string \<Rightarrow> string \<Rightarrow> response \<Rightarrow> response" where
  "header_set k v w = w\<lparr>rw_header := map_put (canonical_key k) v (rw_header w)\<rparr>"

text \<open>
  \<open>WriteHeader\<close>: a second call is ignored, a code outside 100..999 panics, and an
  informational code goes out without committing the response.
\<close>

definition write_header :: "int \<Rightarrow> response \<Rightarrow> unit outcome \<times> response" where
  "write_header code w =
     (if rw_sent w \<noteq> None then (Ret (), w)
      else if code < 100 \<or> code > 999 then (Panic (PanicMsg ''invalid WriteHeader code''), w)
      else if code < 200 \<and> code \<noteq> 101 then (Ret (), w)
      else (Ret (), w\<lparr>rw_sent := Some (code, rw_header w)\<rparr>))"

definition write_body :: "chunk \<Rightarrow> response \<Rightarrow> response" where
  "write_body b w =
     (let w' = (if rw_sent w = None then w\<lparr>rw_sent := Some (200, rw_header w)\<rparr> else w)
      in w'\<lparr>rw_body := rw_body w' @ [b]\<rparr>)"

text \<open>What the client sees when the handler returns: nothing written is a 200.\<close>

definition final_status :: "response \<Rightarrow> int" where
  "final_status w = (case rw_sent w of Some (st, h) \<Rightarrow> st | None \<Rightarrow> 200)"

lemma write_header_sent [simp]: "rw_sent w = Some x \<Longrightarrow> write_header code w = (Ret (), w)"
  by (simp add: write_header_def)

lemma write_header_fresh [simp]:
  "rw_sent w = None \<Longrightarrow> 200 \<le> code \<Longrightarrow> code \<le> 999 \<Longrightarrow>
     write_header code w = (Ret (), w\<lparr>rw_sent := Some (code, rw_header w)\<rparr>)"
  by (simp add: write_header_def)

lemma header_set_simps [simp]:
  "rw_sent (header_set k v w) = rw_sent w" "rw_body (header_set k v w) = rw_body w"
  "rw_header (header_set k v w) = map_put (canonical_key k) v (rw_header w)"
  by (simp_all add: header_set_def)

section \<open>Handlers\<close>

text \<open>The world of a request: the response writer beside the log and the application state.\<close>

record 'w hworld = "'w world" +
  h_rw :: response

type_synonym ('c, 'w) http_handler =
  "'c request \<Rightarrow> 'w hworld \<Rightarrow> go_error option outcome \<times> 'w hworld"

type_synonym ('c, 'w) http_middleware = "('c, 'w) http_handler \<Rightarrow> ('c, 'w) http_handler"

type_synonym ('c, 'w) std_handler = "'c request \<Rightarrow> 'w hworld \<Rightarrow> unit outcome \<times> 'w hworld"

type_synonym ('c, 'w) error_writer =
  "'c request \<Rightarrow> go_error \<Rightarrow> 'w hworld \<Rightarrow> unit outcome \<times> 'w hworld"

type_synonym coercer = "go_error option \<Rightarrow> go_error req_error option"

definition on_rw :: "(response \<Rightarrow> 'a outcome \<times> response) \<Rightarrow> 'w hworld \<Rightarrow> 'a outcome \<times> 'w hworld" where
  "on_rw f s = (case f (h_rw s) of (r, w) \<Rightarrow> (r, s\<lparr>h_rw := w\<rparr>))"

definition content_type :: string where "content_type = ''Content-Type''"

text \<open>
  \<open>writeJSON\<close> (the argument is the encoding of the value, \<open>None\<close> when it does not encode).
\<close>

definition write_json :: "int \<Rightarrow> json option \<Rightarrow> response \<Rightarrow> unit outcome \<times> response" where
  "write_json status v w =
     (case v of
        None \<Rightarrow> write_header 500 w
      | Some j \<Rightarrow>
          (case write_header status (header_set content_type ''application/json'' w) of
             (Panic p, w') \<Rightarrow> (Panic p, w')
           | (Ret _, w') \<Rightarrow> (Ret (), write_body (ChunkJson j) w')))"

definition default_error_writer :: "coercer option \<Rightarrow> ('c, 'w) error_writer" where
  "default_error_writer c =
     (let coerce = (case c of None \<Rightarrow> default_coercer | Some f \<Rightarrow> f)
      in (\<lambda>r err s.
           case coerce (Some err) of
             None \<Rightarrow> on_rw (write_header 500) s
           | Some reqErr \<Rightarrow>
               on_rw (write_json (status_code reqErr) (req_error_json reqErr)) s))"

definition not_found_handler :: "('c, 'w) std_handler" where
  "not_found_handler r s =
     (let e = http_new ''route_not_found'' [] ([] :: go_error list)
      in on_rw (write_json (status_code e) (req_error_json e)) s)"

definition method_not_allowed_handler :: "('c, 'w) std_handler" where
  "method_not_allowed_handler r s =
     (let e = http_new ''method_not_allowed'' [] ([] :: go_error list)
      in on_rw (write_json (status_code e) (req_error_json e)) s)"

text \<open>\<open>http.Error\<close> of the standard library.\<close>

definition http_error :: "string \<Rightarrow> int \<Rightarrow> response \<Rightarrow> unit outcome \<times> response" where
  "http_error msg code w =
     (let w1 = w\<lparr>rw_header := filter (\<lambda>kv. fst kv \<noteq> ''Content-Length'') (rw_header w)\<rparr>;
          w2 = header_set ''X-Content-Type-Options'' ''nosniff''
                 (header_set content_type ''text/plain; charset=utf-8'' w1)
      in case write_header code w2 of
           (Panic p, w3) \<Rightarrow> (Panic p, w3)
         | (Ret _, w3) \<Rightarrow> (Ret (), write_body (ChunkText (msg @ newline)) w3))"

section \<open>What the error writers put on the wire\<close>

lemma http_error_fresh:
  assumes "rw_sent w = None" and "200 \<le> code" and "code \<le> 999"
  shows "\<exists>w'. http_error msg code w = (Ret (), w') \<and> final_status w' = code \<and>
    rw_body w' = rw_body w @ [ChunkText (msg @ newline)]"
  using assms by (simp add: http_error_def Let_def write_body_def final_status_def)

lemma write_json_ok:
  assumes "rw_sent w = None" and "200 \<le> st" and "st \<le> 999"
  shows "write_json st (Some j) w =
    (Ret (), w\<lparr>rw_header := map_put content_type ''application/json'' (rw_header w),
       rw_sent := Some (st, map_put content_type ''application/json'' (rw_header w)),
       rw_body := rw_body w @ [ChunkJson j]\<rparr>)"
proof -
  have "canonical_key content_type = content_type"
    by (simp add: canonical_key_def content_type_def token_char_def is_upper_def is_lower_def
        is_digit_def upper_char_def lower_char_def)
  with assms show ?thesis
    by (simp add: write_json_def write_header_def write_body_def header_set_def)
qed

lemma write_json_unencodable:
  "rw_sent w = None \<Longrightarrow> write_json st None w = (Ret (), w\<lparr>rw_sent := Some (500, rw_header w)\<rparr>)"
  by (simp add: write_json_def)

context http_coercer
begin

text \<open>
  With a coercer that keeps the contract, a failed request that has written nothing gets exactly
  one JSON body, on the status the coerced error derives; a bare 500 when that error's metadata
  does not encode.
\<close>

lemma error_writer_responds:
  assumes "rw_sent (h_rw s) = None" and "coerce (Some err) = Some e"
    and "200 \<le> status_code e" and "status_code e \<le> 999"
  shows "\<exists>s'. default_error_writer (Some coerce) r err s = (Ret (), s') \<and>
    final_status (h_rw s') =
      (case req_error_json e of None \<Rightarrow> 500 | Some j \<Rightarrow> status_code e) \<and>
    rw_body (h_rw s') =
      rw_body (h_rw s) @ (case req_error_json e of None \<Rightarrow> [] | Some j \<Rightarrow> [ChunkJson j])"
  using assms
  by (cases "req_error_json e")
     (simp_all add: default_error_writer_def on_rw_def write_json_ok write_json_unencodable
        final_status_def)

end

end
