(* ===== verification/VersionScheme.thy ===== *)
theory VersionScheme
  imports HttpCore
begin

text \<open>
  Package version, \<open>http/version/version.go\<close> and \<open>source.go\<close>: the interface
  \<open>Scheme\<close> with its three implementations (\<open>Dates\<close>, \<open>Sequential\<close>,
  \<open>Ordered\<close>) and the built-in \<open>Source\<close>s. A scheme value is the record of its methods,
  with Go's zero value of the version type beside them. What its clients rely on is the locale
  \<open>version_order\<close> (the comparison is a total preorder) and its extension
  \<open>version_scheme\<close> (a parsed version survives \<open>Format\<close> and \<open>Parse\<close>).
\<close>

record 'v scheme =
  sc_parse :: "string \<Rightarrow> go_error + 'v"
  sc_compare :: "'v \<Rightarrow> 'v \<Rightarrow> int"
  sc_format :: "'v \<Rightarrow> string"
  sc_zero :: 'v

section \<open>The interface Scheme\<close>

locale version_order =
  fixes sc :: "'v scheme"
  assumes compare_flip: "sc_compare sc a b < 0 \<longleftrightarrow> 0 < sc_compare sc b a"
    and compare_trans:
      "sc_compare sc a b \<le> 0 \<Longrightarrow> sc_compare sc b c \<le> 0 \<Longrightarrow> sc_compare sc a c \<le> 0"
begin

lemma compare_zero_sym: "sc_compare sc a b = 0 \<longleftrightarrow> sc_compare sc b a = 0"
  using compare_flip [of a b] compare_flip [of b a] by linarith

lemma compare_self [simp]: "sc_compare sc a a = 0"
  using compare_flip [of a a] by linarith

lemma compare_le_flip: "sc_compare sc a b \<le> 0 \<longleftrightarrow> 0 \<le> sc_compare sc b a"
  using compare_flip [of b a] by linarith

lemma compare_less_trans:
  assumes "sc_compare sc a b < 0" and "sc_compare sc b c \<le> 0"
  shows "sc_compare sc a c < 0"
proof (rule ccontr)
  assume "\<not> sc_compare sc a c < 0"
  then have "sc_compare sc c a \<le> 0" by (simp add: compare_le_flip)
  with assms(2) have "sc_compare sc b a \<le> 0" by (rule compare_trans)
  with assms(1) show False by (simp add: compare_le_flip)
qed

lemma compare_trans_less:
  assumes "sc_compare sc a b \<le> 0" and "sc_compare sc b c < 0"
  shows "sc_compare sc a c < 0"
proof (rule ccontr)
  assume "\<not> sc_compare sc a c < 0"
  then have "sc_compare sc c a \<le> 0" by (simp add: compare_le_flip)
  then have "sc_compare sc c b \<le> 0" using assms(1) by (rule compare_trans)
  with assms(2) show False by (simp add: compare_le_flip)
qed

end

locale version_scheme = version_order +
  assumes reparse: "sc_parse sc s = Inr v \<Longrightarrow>
    \<exists>w. sc_parse sc (sc_format sc v) = Inr w \<and> sc_compare sc w v = 0"

text \<open>\<open>cmp.Compare\<close> on an ordered type.\<close>

definition cmp_compare :: "'a::linorder \<Rightarrow> 'a \<Rightarrow> int" where
  "cmp_compare a b = (if a < b then - 1 else if a = b then 0 else 1)"

lemma cmp_compare_simps [simp]:
  "cmp_compare a b < 0 \<longleftrightarrow> a < b" "0 < cmp_compare a b \<longleftrightarrow> b < a"
  "cmp_compare a b \<le> 0 \<longleftrightarrow> a \<le> b" "cmp_compare a b = 0 \<longleftrightarrow> a = b"
  by (auto simp: cmp_compare_def)

section \<open>Dates\<close>

text \<open>
  What \<open>time.Parse(time.DateOnly, _)\<close> returns is midnight UTC of a calendar day, so a day
  (year 0 to 9999) stands for the \<open>time.Time\<close>, and days order chronologically.
\<close>

datatype go_date = Date (d_year: nat) (d_month: nat) (d_day: nat)

instantiation go_date :: linorder
begin

fun less_eq_go_date :: "go_date \<Rightarrow> go_date \<Rightarrow> bool" where
  "less_eq_go_date (Date y m d) (Date y' m' d') \<longleftrightarrow>
     y < y' \<or> (y = y' \<and> (m < m' \<or> (m = m' \<and> d \<le> d')))"

definition less_go_date :: "go_date \<Rightarrow> go_date \<Rightarrow> bool" where
  "less_go_date a b \<longleftrightarrow> a \<le> b \<and> \<not> b \<le> a"

instance
proof
  fix x y z :: go_date
  show "x < y \<longleftrightarrow> x \<le> y \<and> \<not> y \<le> x" by (rule less_go_date_def)
  show "x \<le> x" by (cases x) simp
  show "x \<le> y \<Longrightarrow> y \<le> z \<Longrightarrow> x \<le> z" by (cases x; cases y; cases z) auto
  show "x \<le> y \<Longrightarrow> y \<le> x \<Longrightarrow> x = y" by (cases x; cases y) auto
  show "x \<le> y \<or> y \<le> x" by (cases x; cases y) auto
qed

end

definition is_leap :: "nat \<Rightarrow> bool" where
  "is_leap y \<longleftrightarrow> 4 dvd y \<and> (\<not> 100 dvd y \<or> 400 dvd y)"

definition days_in :: "nat \<Rightarrow> nat \<Rightarrow> nat" where
  "days_in m y =
     (if m = 2 then (if is_leap y then 29 else 28)
      else if m \<in> {4, 6, 9, 11} then 30 else 31)"

definition valid_date :: "go_date \<Rightarrow> bool" where
  "valid_date d \<longleftrightarrow> d_year d < 10000 \<and> 1 \<le> d_month d \<and> d_month d \<le> 12 \<and>
     1 \<le> d_day d \<and> d_day d \<le> days_in (d_month d) (d_year d)"

definition all_digits :: "string \<Rightarrow> bool" where
  "all_digits s \<longleftrightarrow> (\<forall>c \<in> set s. is_digit c)"

text \<open>\<open>time.Parse\<close> with layout \<open>2006-01-02\<close>: exactly four, two and two digits.\<close>

definition parse_date_only :: "string \<Rightarrow> go_date option" where
  "parse_date_only s =
     (let ys = take 4 s; ms = take 2 (drop 5 s); ds = take 2 (drop 8 s);
          d = Date (digits_val 0 ys) (digits_val 0 ms) (digits_val 0 ds)
      in if length s = 10 \<and> s ! 4 = CHR ''-'' \<and> s ! 7 = CHR ''-'' \<and>
            all_digits ys \<and> all_digits ms \<and> all_digits ds \<and> valid_date d
         then Some d else None)"

text \<open>Decimal digits padded with zeros to a width.\<close>

fun pad_digits :: "nat \<Rightarrow> nat \<Rightarrow> string" where
  "pad_digits 0 n = []"
| "pad_digits (Suc w) n = pad_digits w (n div 10) @ [digit_char (n mod 10)]"

definition format_date_only :: "go_date \<Rightarrow> string" where
  "format_date_only d =
     pad_digits 4 (d_year d) @ ''-'' @ pad_digits 2 (d_month d) @ ''-'' @ pad_digits 2 (d_day d)"

definition date_parse :: "string \<Rightarrow> go_error + go_date" where
  "date_parse raw =
     (case parse_date_only raw of
        None \<Rightarrow> Inl (ErrText (''not a YYYY-MM-DD date: '' @ go_quote raw))
      | Some t \<Rightarrow> Inr t)"

definition date_scheme :: "go_date scheme" where
  "date_scheme = \<lparr>sc_parse = date_parse, sc_compare = cmp_compare, sc_format = format_date_only,
     sc_zero = Date 1 1 1\<rparr>"

lemma pad_digits_length [simp]: "length (pad_digits w n) = w"
  by (induction w arbitrary: n) simp_all

lemma pad_digits_all: "all_digits (pad_digits w n)"
  by (induction w arbitrary: n) (auto simp: all_digits_def is_digit_char)

lemma digits_val_append:
  "digits_val a (s @ [c]) = 10 * digits_val a s + digit_val c"
  by (simp add: digits_val_def)

lemma digits_val_pad: "n < 10 ^ w \<Longrightarrow> digits_val 0 (pad_digits w n) = n"
proof (induction w arbitrary: n)
  case (Suc w)
  then have "n div 10 < 10 ^ w" by (simp add: less_mult_imp_div_less)
  with Suc.IH show ?case by (simp add: digits_val_append digit_char_val)
qed (simp add: digits_val_def)

lemma valid_date_bounds:
  "valid_date d \<Longrightarrow> d_year d < 10 ^ 4 \<and> d_month d < 10 ^ 2 \<and> d_day d < 10 ^ 2"
  by (auto simp: valid_date_def days_in_def split: if_splits)

text \<open>Every calendar day of the years 0 to 9999 survives \<open>Format\<close> and \<open>Parse\<close>.\<close>

lemma parse_format_date:
  assumes "valid_date d"
  shows "parse_date_only (format_date_only d) = Some d"
proof -
  let ?y = "pad_digits 4 (d_year d)" and ?m = "pad_digits 2 (d_month d)"
    and ?d = "pad_digits 2 (d_day d)"
  let ?s = "?y @ ''-'' @ ?m @ ''-'' @ ?d"
  have "take 4 ?s = ?y" "take 2 (drop 5 ?s) = ?m" "take 2 (drop 8 ?s) = ?d"
    "?s ! 4 = CHR ''-''" "?s ! 7 = CHR ''-''"
    by (simp_all add: nth_append)
  with assms valid_date_bounds [OF assms] show ?thesis
    by (simp add: parse_date_only_def format_date_only_def Let_def pad_digits_all digits_val_pad
        del: pad_digits.simps)
qed

lemma parse_date_valid: "parse_date_only s = Some d \<Longrightarrow> valid_date d"
  by (auto simp: parse_date_only_def Let_def split: if_splits)

interpretation dates: version_scheme date_scheme
proof unfold_locales
  fix s v
  assume "sc_parse date_scheme s = Inr v"
  then have "valid_date v"
    by (auto simp: date_scheme_def date_parse_def dest: parse_date_valid split: option.splits)
  then show "\<exists>w. sc_parse date_scheme (sc_format date_scheme v) = Inr w \<and>
      sc_compare date_scheme w v = 0"
    by (simp add: date_scheme_def date_parse_def parse_format_date)
qed (auto simp: date_scheme_def)

section \<open>Sequential\<close>

definition seq_error :: "string \<Rightarrow> go_error" where
  "seq_error raw = ErrText (''not a version number like v2: '' @ go_quote raw)"

text \<open>\<open>strconv.Atoi\<close>, here on digits only.\<close>

definition seq_parse :: "string \<Rightarrow> go_error + int" where
  "seq_parse raw =
     (let digits = trim_prefix ''v'' (lower_ascii raw)
      in if digits = '''' then Inl (seq_error raw)
         else if \<not> all_digits digits then Inl (seq_error raw)
         else case parse_int digits of Inl e \<Rightarrow> Inl (seq_error raw) | Inr n \<Rightarrow> Inr n)"

definition seq_format :: "int \<Rightarrow> string" where
  "seq_format v = ''v'' @ itoa v"

definition seq_scheme :: "int scheme" where
  "seq_scheme = \<lparr>sc_parse = seq_parse, sc_compare = cmp_compare, sc_format = seq_format, sc_zero = 0\<rparr>"

lemma lower_char_digit [simp]: "is_digit c \<Longrightarrow> lower_char c = c"
  by (auto simp: lower_char_def is_upper_def is_digit_def)

lemma lower_ascii_digits: "all_digits s \<Longrightarrow> lower_ascii s = s"
  by (auto simp: all_digits_def lower_ascii_def intro: map_idI)

lemma lower_char_V: "lower_char CHR ''V'' = CHR ''v''" "lower_char CHR ''v'' = CHR ''v''"
  by code_simp+

lemma seq_parse_nat:
  assumes "0 \<le> n" and "n < 2 ^ 63" and "raw \<in> {''v'' @ itoa n, ''V'' @ itoa n, itoa n}"
  shows "seq_parse raw = Inr n"
proof -
  from assms(1) have digits: "all_digits (itoa n)" "itoa n \<noteq> []"
    by (auto simp: itoa_def all_digits_def intro: itoa_nat_digits)
  then have "\<not> prefix ''v'' (itoa n)"
    by (cases "itoa n") (auto simp: all_digits_def is_digit_def)
  then have "trim_prefix ''v'' (lower_ascii raw) = itoa n"
    using assms(3) lower_ascii_digits [OF digits(1)]
    by (auto simp: trim_prefix_def lower_ascii_def lower_char_V)
  with digits assms(1,2) show ?thesis
    by (simp add: seq_parse_def parse_int_itoa)
qed

lemma parse_int_digits_nonneg:
  assumes "all_digits s" and "parse_int s = Inr n"
  shows "0 \<le> n"
proof -
  from assms have "s = [] \<or> hd s \<noteq> CHR ''-''"
    by (cases s) (auto simp: all_digits_def is_digit_def)
  with assms(2) show ?thesis
    by (auto simp: parse_int_def Let_def split: sum.splits if_splits)
qed

lemma seq_parse_range: "seq_parse s = Inr n \<Longrightarrow> 0 \<le> n \<and> n < 2 ^ 63"
proof -
  assume "seq_parse s = Inr n"
  then obtain ds where "all_digits ds" and p: "parse_int ds = Inr n"
    by (auto simp: seq_parse_def Let_def split: if_splits sum.splits)
  with parse_int_digits_nonneg have "0 \<le> n" by blast
  with parse_int_range [OF p] show ?thesis by simp
qed

interpretation sequential: version_scheme seq_scheme
proof unfold_locales
  fix s v
  assume "sc_parse seq_scheme s = Inr v"
  then have "0 \<le> v \<and> v < 2 ^ 63"
    using seq_parse_range [of s v] by (simp add: seq_scheme_def)
  then have "seq_parse (seq_format v) = Inr v"
    by (intro seq_parse_nat) (auto simp: seq_format_def)
  then show "\<exists>w. sc_parse seq_scheme (sc_format seq_scheme v) = Inr w \<and>
      sc_compare seq_scheme w v = 0"
    by (simp add: seq_scheme_def)
qed (auto simp: seq_scheme_def)

section \<open>Ordered\<close>

text \<open>\<open>fmt.Sprint\<close> of the ordered type is a parameter, as the caller's parse function is.\<close>

definition ordered_scheme :: "(string \<Rightarrow> go_error + 'v) \<Rightarrow> ('v \<Rightarrow> string) \<Rightarrow> 'v \<Rightarrow> 'v::linorder scheme" where
  "ordered_scheme prs sprint zero =
     \<lparr>sc_parse = prs, sc_compare = cmp_compare, sc_format = sprint, sc_zero = zero\<rparr>"

interpretation ordered: version_order "ordered_scheme prs sprint zero" for prs sprint zero
  by unfold_locales (auto simp: ordered_scheme_def)

text \<open>The documented use, \<open>version.Ordered(strconv.Atoi)\<close>.\<close>

definition atoi :: "string \<Rightarrow> go_error + int" where
  "atoi s = (case parse_int s of
     Inl e \<Rightarrow> Inl (ErrText (num_error_text ''Atoi'' s e)) | Inr n \<Rightarrow> Inr n)"

interpretation build_numbers: version_scheme "ordered_scheme atoi itoa 0"
proof unfold_locales
  fix s :: string and v :: int
  assume "sc_parse (ordered_scheme atoi itoa 0) s = Inr v"
  then have "parse_int s = Inr v"
    by (auto simp: ordered_scheme_def atoi_def split: sum.splits)
  from parse_int_range [OF this] have "parse_int (itoa v) = Inr v"
    by (intro parse_int_itoa) auto
  then show "\<exists>w. sc_parse (ordered_scheme atoi itoa 0) (sc_format (ordered_scheme atoi itoa 0) v) = Inr w \<and>
      sc_compare (ordered_scheme atoi itoa 0) w v = 0"
    by (simp add: ordered_scheme_def atoi_def)
qed

section \<open>Sources\<close>

type_synonym 'c source = "'c request \<Rightarrow> string \<times> bool"

definition header_source :: "string \<Rightarrow> 'c source" where
  "header_source name r = (let v = header_get r name in (v, v \<noteq> ''''))"

definition query_source :: "string \<Rightarrow> 'c source" where
  "query_source name r = (let v = query_get r name in (v, v \<noteq> ''''))"

definition path_value_source :: "string \<Rightarrow> 'c source" where
  "path_value_source name r = (let v = path_value r name in (v, v \<noteq> ''''))"

section \<open>Properties\<close>

text \<open>The two shipped schemes keep every version they accept: formatting a parsed version and
  parsing the result gives the same version, for dates and for numbers.\<close>

theorem schemes_round_trip:
  assumes "sc_parse date_scheme s = Inr d" and "sc_parse seq_scheme s' = Inr n"
  shows "sc_parse date_scheme (sc_format date_scheme d) = Inr d \<and>
    sc_parse seq_scheme (sc_format seq_scheme n) = Inr n"
proof -
  from dates.reparse [OF assms(1)] sequential.reparse [OF assms(2)] show ?thesis
    by (auto simp: date_scheme_def seq_scheme_def)
qed

theorem schemes_round_trip_witness:
  "sc_parse date_scheme ''2024-02-29'' = Inr (Date 2024 2 29) \<and>
   sc_parse date_scheme (sc_format date_scheme (Date 2024 2 29)) = Inr (Date 2024 2 29) \<and>
   sc_parse seq_scheme (sc_format seq_scheme 2) = Inr 2"
proof -
  have d: "sc_parse date_scheme ''2024-02-29'' = Inr (Date 2024 2 29)" by code_simp
  have "sc_parse seq_scheme ''v2'' = Inr 2"
    using seq_parse_nat [of 2 "''v2''"] by (simp add: seq_scheme_def itoa_def itoa_nat.simps digit_chars)
  from schemes_round_trip [OF d this] d show ?thesis by simp
qed

end
