(* ===== verification/VersionResolver.thy ===== *)
theory VersionResolver
  imports VersionScheme
begin

text \<open>
  Package version, \<open>http/version/resolver.go\<close>: the resolver, its wiring operations and what
  it makes of a request. A wiring operation that panics returns the resolver as it left it, so
  the literals appended before the offending one stay.
\<close>

section \<open>Sentinels\<close>

definition err_missing :: go_error where
  "err_missing = Sentinel ''version.ErrMissing'' ''version: no version on the request''"

definition err_invalid :: go_error where
  "err_invalid = Sentinel ''version.ErrInvalid'' ''version: version does not parse''"

definition err_unsupported :: go_error where
  "err_unsupported = Sentinel ''version.ErrUnsupported'' ''version: no variant serves this version''"

definition err_withdrawn :: go_error where
  "err_withdrawn = Sentinel ''version.ErrWithdrawn'' ''version: endpoint withdrawn at this version''"

definition err_latest :: go_error where
  "err_latest = Sentinel ''version.ErrLatest'' ''version: request pinned latest''"

definition err_preview :: go_error where
  "err_preview = Sentinel ''version.ErrPreview'' ''version: request pinned preview''"

lemmas version_sentinels = err_missing_def err_invalid_def err_unsupported_def err_withdrawn_def
  err_latest_def err_preview_def

section \<open>The resolver\<close>

record ('v, 'c) resolver =
  rv_scheme :: "'v scheme"
  rv_sources :: "'c source list"
  rv_latest :: "string list"
  rv_preview :: "string list"
  rv_fallback :: string
  rv_status_header :: string
  rv_warn_header :: string

definition new_resolver :: "'v scheme option \<Rightarrow> 'c source list \<Rightarrow> ('v, 'c) resolver outcome" where
  "new_resolver sc sources =
     (case sc of
        None \<Rightarrow> Panic (PanicMsg ''dflhttp/version: NewResolver needs a Scheme'')
      | Some sc' \<Rightarrow>
          if sources = [] then Panic (PanicMsg ''dflhttp/version: NewResolver needs at least one Source'')
          else Ret \<lparr>rv_scheme = sc', rv_sources = sources, rv_latest = [], rv_preview = [],
                    rv_fallback = '''', rv_status_header = '''', rv_warn_header = ''''\<rparr>)"

text \<open>The field that the pointer \<open>dst\<close> of \<open>allowLiterals\<close> names.\<close>

datatype literal_kind = LatestKind | PreviewKind

fun kind_text :: "literal_kind \<Rightarrow> string" where
  "kind_text LatestKind = ''latest''"
| "kind_text PreviewKind = ''preview''"

fun append_literal :: "literal_kind \<Rightarrow> string \<Rightarrow> ('v, 'c) resolver \<Rightarrow> ('v, 'c) resolver" where
  "append_literal LatestKind l rv = rv\<lparr>rv_latest := rv_latest rv @ [l]\<rparr>"
| "append_literal PreviewKind l rv = rv\<lparr>rv_preview := rv_preview rv @ [l]\<rparr>"

fun allow_each :: "literal_kind \<Rightarrow> string list \<Rightarrow> ('v, 'c) resolver \<Rightarrow> unit outcome \<times> ('v, 'c) resolver" where
  "allow_each kind [] rv = (Ret (), rv)"
| "allow_each kind (l # ls) rv =
     (if trim_space l \<noteq> l \<or> l = ''''
      then (Panic (PanicMsg (''dflhttp/version: blank or padded '' @ kind_text kind @ '' literal ''
              @ go_quote l)), rv)
      else if l \<in> set (rv_latest rv) \<or> l \<in> set (rv_preview rv)
      then (Panic (PanicMsg (''dflhttp/version: literal '' @ go_quote l @ '' is already enabled'')), rv)
      else case sc_parse (rv_scheme rv) l of
          Inr v \<Rightarrow> (Panic (PanicMsg (''dflhttp/version: '' @ kind_text kind @ '' literal '' @ go_quote l
              @ '' would shadow a version the scheme parses'')), rv)
        | Inl e \<Rightarrow> allow_each kind ls (append_literal kind l rv))"

definition allow_literals :: "literal_kind \<Rightarrow> string list \<Rightarrow> ('v, 'c) resolver \<Rightarrow>
    unit outcome \<times> ('v, 'c) resolver" where
  "allow_literals kind ls rv =
     (if ls = []
      then (Panic (PanicMsg (''dflhttp/version: enable at least one '' @ kind_text kind @ '' literal'')), rv)
      else allow_each kind ls rv)"

definition allow_latest :: "string list \<Rightarrow> ('v, 'c) resolver \<Rightarrow> unit outcome \<times> ('v, 'c) resolver" where
  "allow_latest = allow_literals LatestKind"

definition allow_preview :: "string list \<Rightarrow> ('v, 'c) resolver \<Rightarrow> unit outcome \<times> ('v, 'c) resolver" where
  "allow_preview = allow_literals PreviewKind"

definition set_fallback :: "string \<Rightarrow> ('v, 'c) resolver \<Rightarrow> unit outcome \<times> ('v, 'c) resolver" where
  "set_fallback raw rv =
     (if trim_space raw = ''''
      then (Panic (PanicMsg ''dflhttp/version: Fallback needs a version or literal''), rv)
      else if rv_fallback rv \<noteq> ''''
      then (Panic (PanicMsg (''dflhttp/version: Fallback is already set to '' @ rv_fallback rv)), rv)
      else if raw \<notin> set (rv_latest rv) \<and> raw \<notin> set (rv_preview rv)
      then (case sc_parse (rv_scheme rv) raw of
              Inl err \<Rightarrow> (Panic (PanicMsg (''dflhttp/version: fallback '' @ go_quote raw
                  @ '' is neither a version nor an enabled literal: '' @ err_text err)), rv)
            | Inr v \<Rightarrow> (Ret (), rv\<lparr>rv_fallback := raw\<rparr>))
      else (Ret (), rv\<lparr>rv_fallback := raw\<rparr>))"

definition set_header :: "string \<Rightarrow> string \<Rightarrow> string \<Rightarrow> string outcome" where
  "set_header dst what name =
     (if trim_space name = ''''
      then Panic (PanicMsg (''dflhttp/version: '' @ what @ '' needs a header name''))
      else if dst \<noteq> ''''
      then Panic (PanicMsg (''dflhttp/version: '' @ what @ '' is already set to '' @ dst))
      else Ret name)"

definition status_header :: "string \<Rightarrow> ('v, 'c) resolver \<Rightarrow> unit outcome \<times> ('v, 'c) resolver" where
  "status_header name rv =
     (case set_header (rv_status_header rv) ''StatusHeader'' name of
        Panic p \<Rightarrow> (Panic p, rv)
      | Ret h \<Rightarrow> (Ret (), rv\<lparr>rv_status_header := h\<rparr>))"

definition warn_unpinned :: "string \<Rightarrow> ('v, 'c) resolver \<Rightarrow> unit outcome \<times> ('v, 'c) resolver" where
  "warn_unpinned name rv =
     (case set_header (rv_warn_header rv) ''WarnUnpinned'' name of
        Panic p \<Rightarrow> (Panic p, rv)
      | Ret h \<Rightarrow> (Ret (), rv\<lparr>rv_warn_header := h\<rparr>))"

section \<open>Resolution\<close>

definition resolve_raw :: "('v, 'c) resolver \<Rightarrow> string \<Rightarrow> 'v \<times> go_error option" where
  "resolve_raw rv raw =
     (let zero = sc_zero (rv_scheme rv)
      in if raw \<in> set (rv_latest rv) then (zero, Some err_latest)
         else if raw \<in> set (rv_preview rv) then (zero, Some err_preview)
         else case sc_parse (rv_scheme rv) raw of
             Inl err \<Rightarrow>
               (zero, Some (EReq (http_wrap err_invalid ''version_invalid''
                  [(''version'', GStr raw)] [err])))
           | Inr v \<Rightarrow> (v, None))"

fun resolve_sources :: "('v, 'c) resolver \<Rightarrow> 'c source list \<Rightarrow> 'c request \<Rightarrow> 'v \<times> bool \<times> go_error option" where
  "resolve_sources rv [] r =
     (if rv_fallback rv \<noteq> ''''
      then (case resolve_raw rv (rv_fallback rv) of (v, err) \<Rightarrow> (v, True, err))
      else (sc_zero (rv_scheme rv), True, Some (EReq (http_wrap err_missing ''version_missing'' [] []))))"
| "resolve_sources rv (source # rest) r =
     (case source r of
        (raw, ok) \<Rightarrow>
          if \<not> ok then resolve_sources rv rest r
          else
            let raw' = trim_space raw
            in if raw' = '''' then resolve_sources rv rest r
               else case resolve_raw rv raw' of (v, err) \<Rightarrow> (v, False, err))"

definition resolve_pin :: "('v, 'c) resolver \<Rightarrow> 'c request \<Rightarrow> 'v \<times> bool \<times> go_error option" where
  "resolve_pin rv r = resolve_sources rv (rv_sources rv) r"

definition resolve :: "('v, 'c) resolver \<Rightarrow> 'c request \<Rightarrow> 'v \<times> go_error option" where
  "resolve rv r = (case resolve_pin rv r of (v, unpinned, err) \<Rightarrow> (v, err))"

section \<open>The wiring invariant\<close>

definition resolver_ok :: "('v, 'c) resolver \<Rightarrow> bool" where
  "resolver_ok rv \<longleftrightarrow>
     distinct (rv_latest rv @ rv_preview rv) \<and>
     (\<forall>l \<in> set (rv_latest rv @ rv_preview rv).
        trim_space l = l \<and> l \<noteq> '''' \<and> (\<exists>e. sc_parse (rv_scheme rv) l = Inl e)) \<and>
     (rv_fallback rv \<noteq> '''' \<longrightarrow>
        rv_fallback rv \<in> set (rv_latest rv @ rv_preview rv) \<or>
        (\<exists>v. sc_parse (rv_scheme rv) (rv_fallback rv) = Inr v))"

datatype wiring =
    AllowLatest "string list"
  | AllowPreview "string list"
  | Fallback string
  | StatusHeader string
  | WarnUnpinned string

fun wire :: "wiring \<Rightarrow> ('v, 'c) resolver \<Rightarrow> unit outcome \<times> ('v, 'c) resolver" where
  "wire (AllowLatest ls) rv = allow_latest ls rv"
| "wire (AllowPreview ls) rv = allow_preview ls rv"
| "wire (Fallback raw) rv = set_fallback raw rv"
| "wire (StatusHeader name) rv = status_header name rv"
| "wire (WarnUnpinned name) rv = warn_unpinned name rv"

text \<open>The resolver after a sequence of calls, a panicking one recovered like any other.\<close>

definition wire_all :: "wiring list \<Rightarrow> ('v, 'c) resolver \<Rightarrow> ('v, 'c) resolver" where
  "wire_all ops rv = fold (\<lambda>op rv. snd (wire op rv)) ops rv"

lemma append_literal_fields [simp]:
  "rv_scheme (append_literal k l rv) = rv_scheme rv"
  "rv_sources (append_literal k l rv) = rv_sources rv"
  "rv_fallback (append_literal k l rv) = rv_fallback rv"
  by (cases k; simp)+

lemma literal_unparsable:
  "resolver_ok rv \<Longrightarrow> l \<in> set (rv_latest rv) \<union> set (rv_preview rv) \<Longrightarrow>
     \<exists>e. sc_parse (rv_scheme rv) l = Inl e"
  unfolding resolver_ok_def by simp

lemma resolver_ok_headers:
  "resolver_ok rv \<Longrightarrow> resolver_ok (rv\<lparr>rv_status_header := x\<rparr>) \<and> resolver_ok (rv\<lparr>rv_warn_header := x\<rparr>)"
  unfolding resolver_ok_def by simp

lemma append_literal_ok:
  assumes "resolver_ok rv" and "trim_space l = l" and "l \<noteq> []"
    and "l \<notin> set (rv_latest rv)" and "l \<notin> set (rv_preview rv)"
    and "sc_parse (rv_scheme rv) l = Inl e"
  shows "resolver_ok (append_literal k l rv)"
  using assms by (cases k) (auto simp: resolver_ok_def)

lemma allow_each_ok:
  "resolver_ok rv \<Longrightarrow> resolver_ok (snd (allow_each k ls rv)) \<and>
     rv_scheme (snd (allow_each k ls rv)) = rv_scheme rv \<and>
     rv_sources (snd (allow_each k ls rv)) = rv_sources rv"
  by (induction k ls rv rule: allow_each.induct) (auto split: sum.splits intro: append_literal_ok)

lemma wire_ok:
  assumes "resolver_ok rv"
  shows "resolver_ok (snd (wire op rv)) \<and> rv_scheme (snd (wire op rv)) = rv_scheme rv \<and>
    rv_sources (snd (wire op rv)) = rv_sources rv"
proof (cases op)
  case (Fallback raw)
  with assms show ?thesis by (auto simp: set_fallback_def resolver_ok_def split: sum.splits)
next
  case (StatusHeader name)
  with assms show ?thesis by (simp add: status_header_def resolver_ok_headers split: outcome.split)
next
  case (WarnUnpinned name)
  with assms show ?thesis by (simp add: warn_unpinned_def resolver_ok_headers split: outcome.split)
qed (simp_all add: assms allow_each_ok allow_latest_def allow_preview_def allow_literals_def)

lemma wire_all_ok:
  "resolver_ok rv \<Longrightarrow> resolver_ok (wire_all ops rv) \<and> rv_scheme (wire_all ops rv) = rv_scheme rv \<and>
     rv_sources (wire_all ops rv) = rv_sources rv"
  unfolding wire_all_def by (induction ops arbitrary: rv) (auto simp: wire_ok)

lemma new_resolver_ok: "new_resolver sc sources = Ret rv \<Longrightarrow> resolver_ok rv \<and> sources \<noteq> []"
  by (auto simp: new_resolver_def resolver_ok_def split: option.splits if_splits)

section \<open>What a request resolves to\<close>

text \<open>The pin a source yields: trimmed, and whitespace only is a miss.\<close>

definition source_pin :: "'c source \<Rightarrow> 'c request \<Rightarrow> string option" where
  "source_pin source r =
     (if snd (source r) \<and> trim_space (fst (source r)) \<noteq> []
      then Some (trim_space (fst (source r))) else None)"

text \<open>The specification: the first pin decides, and only without one the fallback does.\<close>

definition resolve_spec :: "('v, 'c) resolver \<Rightarrow> 'c source list \<Rightarrow> 'c request \<Rightarrow>
    'v \<times> bool \<times> go_error option" where
  "resolve_spec rv sources r =
     (case List.map_filter (\<lambda>source. source_pin source r) sources of
        raw # _ \<Rightarrow> (fst (resolve_raw rv raw), False, snd (resolve_raw rv raw))
      | [] \<Rightarrow>
          if rv_fallback rv = []
          then (sc_zero (rv_scheme rv), True,
                Some (EReq (http_wrap err_missing ''version_missing'' [] [])))
          else (fst (resolve_raw rv (rv_fallback rv)), True, snd (resolve_raw rv (rv_fallback rv))))"

lemma resolve_sources_spec: "resolve_sources rv ss r = resolve_spec rv ss r"
proof (induction ss)
  case (Cons source ss)
  then show ?case
    by (cases "source r") (simp add: map_filter_simps source_pin_def resolve_spec_def Let_def
        case_prod_beta)
qed (simp add: map_filter_simps resolve_spec_def case_prod_beta)

lemma resolve_pin_spec: "resolve_pin rv r = resolve_spec rv (rv_sources rv) r"
  by (simp only: resolve_pin_def resolve_sources_spec)

lemma resolve_raw_version:
  "resolver_ok rv \<Longrightarrow> sc_parse (rv_scheme rv) raw = Inr v \<Longrightarrow> resolve_raw rv raw = (v, None)"
proof -
  assume ok: "resolver_ok rv" and p: "sc_parse (rv_scheme rv) raw = Inr v"
  then have "raw \<notin> set (rv_latest rv)" "raw \<notin> set (rv_preview rv)"
    using literal_unparsable [OF ok, of raw] by auto
  with p show ?thesis by (simp add: resolve_raw_def Let_def)
qed

lemma resolve_raw_fallback:
  assumes "resolver_ok rv" and "rv_fallback rv \<noteq> []"
  shows "(\<exists>v. resolve_raw rv (rv_fallback rv) = (v, None)) \<or>
    snd (resolve_raw rv (rv_fallback rv)) \<in> {Some err_latest, Some err_preview}"
proof -
  from assms consider "rv_fallback rv \<in> set (rv_latest rv)" | "rv_fallback rv \<in> set (rv_preview rv)"
    | v where "sc_parse (rv_scheme rv) (rv_fallback rv) = Inr v"
    by (auto simp: resolver_ok_def)
  then show ?thesis by cases (simp_all add: resolve_raw_def Let_def)
qed

section \<open>Properties\<close>

lemma seq_parse_letters:
  "c \<noteq> CHR ''v'' \<Longrightarrow> c \<noteq> CHR ''V'' \<Longrightarrow> \<not> is_digit c \<Longrightarrow> \<not> is_upper c \<Longrightarrow>
     seq_parse (c # s) = Inl (seq_error (c # s))"
  by (auto simp: seq_parse_def trim_prefix_def lower_ascii_def lower_char_def all_digits_def Let_def)

definition numbered_resolver :: "(int, unit) resolver" where
  "numbered_resolver =
     \<lparr>rv_scheme = seq_scheme, rv_sources = [query_source ''version'', path_value_source ''version''],
      rv_latest = [], rv_preview = [], rv_fallback = '''', rv_status_header = '''', rv_warn_header = ''''\<rparr>"

lemma numbered_resolver_new:
  "new_resolver (Some seq_scheme) [query_source ''version'', path_value_source ''version''] =
     Ret numbered_resolver"
  by (simp add: new_resolver_def numbered_resolver_def)

definition numbered_request :: "string \<Rightarrow> string \<Rightarrow> unit request" where
  "numbered_request q p =
     \<lparr>rq_method = ''GET'', rq_path_values = [(''version'', p)], rq_query = [(''version'', q)],
      rq_header = [], rq_body = '''', rq_remote_addr = '''',
      rq_ctx = \<lparr>ctx_http_logger = None, ctx_request_meta = None, ctx_event_logger = None,
        ctx_tx = None\<rparr>\<rparr>"

lemma numbered_facts:
  "seq_parse ''v2'' = Inr 2" "seq_parse ''latest'' = Inl (seq_error ''latest'')"
  "seq_parse ''beta'' = Inl (seq_error ''beta'')"
  "trim_space ''latest'' = ''latest''" "trim_space ''v2'' = ''v2''" "trim_space ''beta'' = ''beta''"
  using seq_parse_nat [of 2 "''v2''"]
  by (simp_all add: itoa_def itoa_nat.simps digit_chars seq_parse_letters is_digit_def is_upper_def
      trim_space_def strip_front.simps space_encodings_def)

text \<open>However a resolver is wired, panicking calls included, a request that carries no version
  is never answered version_invalid: it resolves to a version, to an enabled channel, or, exactly
  when no fallback was set, to version_missing.\<close>

theorem unpinned_never_invalid:
  assumes "new_resolver sc sources = Ret rv"
    and "resolve_pin (wire_all ops rv) r = (v, True, Some err)"
  shows "if rv_fallback (wire_all ops rv) = ''''
    then err = EReq (http_wrap err_missing ''version_missing'' [] [])
    else err = err_latest \<or> err = err_preview"
proof -
  have "resolver_ok (wire_all ops rv)"
    using new_resolver_ok [OF assms(1)] wire_all_ok by blast
  with resolve_raw_fallback [of "wire_all ops rv"] assms(2) show ?thesis
    by (auto simp: resolve_pin_spec resolve_spec_def split: list.splits if_splits)
qed

theorem unpinned_never_invalid_witness:
  "rv_fallback (wire_all [AllowLatest [''latest''], AllowLatest [''latest'', ''next''], Fallback ''latest'']
     numbered_resolver) = ''latest'' \<and>
   snd (snd (resolve_pin (wire_all [AllowLatest [''latest''], AllowLatest [''latest'', ''next''],
     Fallback ''latest''] numbered_resolver) (numbered_request '''' ''''))) = Some err_latest"
proof -
  let ?rv = "wire_all [AllowLatest [''latest''], AllowLatest [''latest'', ''next''], Fallback ''latest'']
    numbered_resolver"
  have rv: "?rv = numbered_resolver\<lparr>rv_latest := [''latest''], rv_fallback := ''latest''\<rparr>"
    by (simp add: wire_all_def numbered_resolver_def allow_latest_def allow_literals_def
        numbered_facts set_fallback_def seq_scheme_def)
  then have "resolve_pin ?rv (numbered_request '''' '''') = (0, True, Some err_latest)"
    by (simp add: resolve_pin_def numbered_resolver_def numbered_request_def query_source_def
        path_value_source_def query_get_def path_value_def get_value_def resolve_raw_def Let_def
        seq_scheme_def)
  with unpinned_never_invalid [OF numbered_resolver_new this] rv show ?thesis by simp
qed

text \<open>C23: The first source that yields a non-blank value decides, whatever the later sources and
  the fallback hold: a version the scheme parses is the result, never shadowed by a literal, and
  anything else that is not an enabled literal is version_invalid, a 400.\<close>

theorem first_pin_decides:
  assumes "new_resolver sc sources = Ret rv0" and "rv = wire_all ops rv0"
    and "rv_sources rv = before @ source # after"
    and "\<forall>s \<in> set before. source_pin s r = None" and "source_pin source r = Some raw"
  shows "resolve_pin rv r =
    (case sc_parse (rv_scheme rv) raw of
       Inr v \<Rightarrow> (v, False, None)
     | Inl err \<Rightarrow> (sc_zero (rv_scheme rv), False,
         Some (if raw \<in> set (rv_latest rv) then err_latest
               else if raw \<in> set (rv_preview rv) then err_preview
               else EReq (http_wrap err_invalid ''version_invalid'' [(''version'', GStr raw)] [err]))))"
proof -
  have ok: "resolver_ok rv"
    using new_resolver_ok [OF assms(1)] wire_all_ok assms(2) by blast
  have "List.map_filter (\<lambda>s. source_pin s r) (before @ source # after) =
      raw # List.map_filter (\<lambda>s. source_pin s r) after"
    using assms(4,5) by (induction before) auto
  then have "resolve_pin rv r = (fst (resolve_raw rv raw), False, snd (resolve_raw rv raw))"
    by (simp add: resolve_pin_spec resolve_spec_def assms(3))
  moreover have "resolve_raw rv raw = (v, None)" if "sc_parse (rv_scheme rv) raw = Inr v" for v
    by (rule resolve_raw_version [OF ok that])
  ultimately show ?thesis
    by (cases "sc_parse (rv_scheme rv) raw") (simp_all add: resolve_raw_def Let_def)
qed

theorem first_pin_decides_witness:
  "resolve_pin numbered_resolver (numbered_request ''beta'' ''v2'') =
     (0, False, Some (EReq (http_wrap err_invalid ''version_invalid'' [(''version'', GStr ''beta'')]
        [seq_error ''beta''])))"
proof -
  have "numbered_resolver = wire_all [] numbered_resolver"
    "rv_sources numbered_resolver = [] @ query_source ''version'' # [path_value_source ''version'']"
    "source_pin (query_source ''version'') (numbered_request ''beta'' ''v2'') = Some ''beta''"
    by (simp_all add: wire_all_def numbered_resolver_def source_pin_def query_source_def
        numbered_request_def query_get_def get_value_def Let_def numbered_facts)
  from first_pin_decides [OF numbered_resolver_new this(1,2) _ this(3)] show ?thesis
    by (simp add: numbered_resolver_def numbered_facts seq_scheme_def)
qed

end
