(* ===== verification/HttpParser.thy ===== *)
theory HttpParser
  imports HttpCore "HOL-Library.Multiset"
begin

text \<open>
  Package http, \<open>http/parser.go\<close>: the binding plan of a request type (\<open>buildBinder\<close>),
  its cache (\<open>binderFor\<close>) and the binding of path values, query values and body keys
  (\<open>bind\<close>, \<open>bindBody\<close>). Reflection is modelled by a type description (\<open>go_type\<close>)
  and a struct value is the list of its fields' values. \<open>strconv\<close> is modelled; the
  conversions of \<open>encoding/json\<close>, \<open>UnmarshalText\<close> and \<open>ParseFloat\<close> into a field are
  the record \<open>std_env\<close>, a parameter of the definitions.
\<close>

section \<open>Types, tags and values\<close>

datatype go_type =
    TString
  | TBool
  | TInt string nat
  | TUint string nat
  | TFloat string nat
  | TText string \<comment> \<open>a type whose pointer implements \<open>encoding.TextUnmarshaler\<close>\<close>
  | TEmpty
  | TLenientBody
  | TStruct string "struct_field list"
  | TPtr go_type
  | TOther string string \<comment> \<open>any other type: its kind and its name\<close>
and struct_field = Field (fd_name: string) (fd_exported: bool) (fd_type: go_type)
  (fd_tags: "(string \<times> string) list")

definition tag_get :: "struct_field \<Rightarrow> string \<Rightarrow> string" where
  "tag_get f k = get_value (fd_tags f) k"

fun kind_name :: "go_type \<Rightarrow> string" where
  "kind_name TString = ''string''"
| "kind_name TBool = ''bool''"
| "kind_name (TInt k b) = k"
| "kind_name (TUint k b) = k"
| "kind_name (TFloat k b) = k"
| "kind_name (TText n) = ''struct''"
| "kind_name TEmpty = ''struct''"
| "kind_name TLenientBody = ''struct''"
| "kind_name (TStruct n fs) = ''struct''"
| "kind_name (TPtr t) = ''ptr''"
| "kind_name (TOther k n) = k"

fun type_name :: "go_type \<Rightarrow> string" where
  "type_name (TText n) = n"
| "type_name TEmpty = ''http.Empty''"
| "type_name TLenientBody = ''http.LenientBody''"
| "type_name (TStruct n fs) = n"
| "type_name (TPtr t) = CHR ''*'' # type_name t"
| "type_name (TOther k n) = n"
| "type_name t = kind_name t"

datatype 'x fval = VString string | VBool bool | VInt int | VUint nat | VExt 'x

type_synonym 'x setter = "'x fval \<Rightarrow> string \<Rightarrow> 'x fval \<times> go_error option"

text \<open>\<open>json.NewDecoder(r.Body).Decode(&raw)\<close> for a map of raw messages.\<close>

datatype body_decode = BodyEOF | BodyBad go_error | BodyObject "(string \<times> string) list"

record 'x std_env =
  env_text :: "string \<Rightarrow> 'x setter"
  env_float :: "nat \<Rightarrow> 'x setter"
  env_decode :: "string \<Rightarrow> body_decode"
  env_unmarshal :: "go_type \<Rightarrow> string \<Rightarrow> 'x fval \<Rightarrow> 'x fval \<times> go_error option"

section \<open>Field setters\<close>

text \<open>
  \<open>reflect.Value.SetInt\<close> and \<open>SetUint\<close> store the low bits of the 64-bit value: a field of
  \<open>b\<close> bits keeps the number modulo \<open>2 ^ b\<close> and reports nothing.
\<close>

definition set_int :: "nat \<Rightarrow> int \<Rightarrow> int" where
  "set_int b n = signed_take_bit (b - 1) n"

definition set_uint :: "nat \<Rightarrow> nat \<Rightarrow> nat" where
  "set_uint b n = take_bit b n"

definition set_string :: "'x setter" where
  "set_string v s = (VString s, None)"

definition set_bool :: "'x setter" where
  "set_bool v s =
     (case parse_bool s of
        Inl e \<Rightarrow> (v, Some (ErrText (num_error_text ''ParseBool'' s e)))
      | Inr x \<Rightarrow> (VBool x, None))"

definition set_int_field :: "nat \<Rightarrow> 'x setter" where
  "set_int_field b v s =
     (case parse_int s of
        Inl e \<Rightarrow> (v, Some (ErrText (num_error_text ''ParseInt'' s e)))
      | Inr n \<Rightarrow> (VInt (set_int b n), None))"

definition set_uint_field :: "nat \<Rightarrow> 'x setter" where
  "set_uint_field b v s =
     (case parse_uint s of
        Inl e \<Rightarrow> (v, Some (ErrText (num_error_text ''ParseUint'' s e)))
      | Inr n \<Rightarrow> (VUint (set_uint b n), None))"

record 'x param_bind =
  pb_key :: string
  pb_idx :: nat
  pb_setter :: "'x setter"

record body_bind =
  bb_key :: string
  bb_idx :: nat
  bb_type :: go_type

record 'x bind_plan =
  bd_paths :: "'x param_bind list"
  bd_queries :: "'x param_bind list"
  bd_body :: "body_bind list"
  bd_known :: "string list"
  bd_has_body :: bool
  bd_lenient :: bool
  bd_noop :: bool

record 'x request_parser =
  rp_decode_body :: "(string \<Rightarrow> 'x fval list \<Rightarrow> 'x fval list \<times> go_error option) option"
  rp_setters :: "go_type \<Rightarrow> 'x setter option"
  rp_cache :: "go_type \<Rightarrow> 'x bind_plan option"

definition zero_parser :: "'x request_parser" where
  "zero_parser = \<lparr>rp_decode_body = None, rp_setters = (\<lambda>t. None), rp_cache = (\<lambda>t. None)\<rparr>"

definition string_setter :: "'x std_env \<Rightarrow> (go_type \<Rightarrow> 'x setter option) \<Rightarrow> go_type \<Rightarrow>
    go_error + 'x setter" where
  "string_setter env setters t =
     (case setters t of
        Some custom \<Rightarrow> Inr custom
      | None \<Rightarrow>
          (case t of
             TText n \<Rightarrow> Inr (env_text env n)
           | TString \<Rightarrow> Inr set_string
           | TBool \<Rightarrow> Inr set_bool
           | TInt k b \<Rightarrow> Inr (set_int_field b)
           | TUint k b \<Rightarrow> Inr (set_uint_field b)
           | TFloat k b \<Rightarrow> Inr (env_float env b)
           | _ \<Rightarrow> Inl (ErrText (''unsupported field type '' @ type_name t))))"

section \<open>The binding plan\<close>

definition is_empty_type :: "go_type \<Rightarrow> bool" where
  "is_empty_type t \<longleftrightarrow> t = TEmpty \<or> t = TPtr TEmpty"

definition empty_plan :: "'x bind_plan" where
  "empty_plan = \<lparr>bd_paths = [], bd_queries = [], bd_body = [], bd_known = [],
     bd_has_body = False, bd_lenient = False, bd_noop = False\<rparr>"

definition field_error :: "string \<Rightarrow> go_error \<Rightarrow> go_error" where
  "field_error name e = Wrapped (''field '' @ name @ '': '' @ err_text e) [e]"

text \<open>One turn of the loop over the fields: \<open>i\<close> is the field's index.\<close>

definition build_field :: "'x std_env \<Rightarrow> (go_type \<Rightarrow> 'x setter option) \<Rightarrow> nat \<Rightarrow> struct_field \<Rightarrow>
    'x bind_plan \<Rightarrow> go_error + 'x bind_plan" where
  "build_field env setters i f b =
     (if \<not> fd_exported f then Inr b
      else if fd_type f = TLenientBody then Inr (b\<lparr>bd_lenient := True\<rparr>)
      else if tag_get f ''path'' \<noteq> [] then
        (case string_setter env setters (fd_type f) of
           Inl e \<Rightarrow> Inl (field_error (fd_name f) e)
         | Inr s \<Rightarrow> Inr (b\<lparr>bd_paths := bd_paths b @
             [\<lparr>pb_key = tag_get f ''path'', pb_idx = i, pb_setter = s\<rparr>]\<rparr>))
      else if tag_get f ''query'' \<noteq> [] then
        (case string_setter env setters (fd_type f) of
           Inl e \<Rightarrow> Inl (field_error (fd_name f) e)
         | Inr s \<Rightarrow> Inr (b\<lparr>bd_queries := bd_queries b @
             [\<lparr>pb_key = tag_get f ''query'', pb_idx = i, pb_setter = s\<rparr>]\<rparr>))
      else if tag_get f ''json'' \<noteq> [] \<and> tag_get f ''json'' \<noteq> ''-'' then
        (let key = cut_before CHR '','' (tag_get f ''json'')
         in Inr (b\<lparr>bd_body := bd_body b @ [\<lparr>bb_key = key, bb_idx = i, bb_type = fd_type f\<rparr>],
              bd_known := bd_known b @ [key], bd_has_body := True\<rparr>))
      else Inr b)"

fun build_fields :: "'x std_env \<Rightarrow> (go_type \<Rightarrow> 'x setter option) \<Rightarrow> nat \<Rightarrow> struct_field list \<Rightarrow>
    'x bind_plan \<Rightarrow> go_error + 'x bind_plan" where
  "build_fields env setters i [] b = Inr b"
| "build_fields env setters i (f # fs) b =
     (case build_field env setters i f b of
        Inl e \<Rightarrow> Inl e
      | Inr b' \<Rightarrow> build_fields env setters (Suc i) fs b')"

text \<open>The fields of a type of kind struct; \<open>None\<close> for every other kind.\<close>

fun struct_fields :: "go_type \<Rightarrow> struct_field list option" where
  "struct_fields (TStruct n fs) = Some fs"
| "struct_fields (TText n) = Some []"
| "struct_fields TEmpty = Some []"
| "struct_fields TLenientBody = Some []"
| "struct_fields _ = None"

fun elem_type :: "go_type \<Rightarrow> go_type" where
  "elem_type (TPtr t) = t"
| "elem_type t = t"

definition build_binder :: "'x std_env \<Rightarrow> (go_type \<Rightarrow> 'x setter option) \<Rightarrow> go_type \<Rightarrow>
    go_error + 'x bind_plan" where
  "build_binder env setters t =
     (if is_empty_type t then Inr (empty_plan\<lparr>bd_noop := True\<rparr>)
      else case struct_fields (elem_type t) of
          None \<Rightarrow> Inl (ErrText (''req must be a struct, *struct, or http.Empty, got ''
                    @ kind_name (elem_type t)))
        | Some fs \<Rightarrow> build_fields env setters 0 fs empty_plan)"

text \<open>\<open>binderFor\<close>: the cached plan, else build and store; a failed build stores nothing.\<close>

definition binder_for :: "'x std_env \<Rightarrow> go_type \<Rightarrow> 'x request_parser \<Rightarrow>
    (go_error + 'x bind_plan) \<times> 'x request_parser" where
  "binder_for env t p =
     (case rp_cache p t of
        Some b \<Rightarrow> (Inr b, p)
      | None \<Rightarrow>
          (case build_binder env (rp_setters p) t of
             Inl e \<Rightarrow> (Inl e, p)
           | Inr b \<Rightarrow> (Inr b, p\<lparr>rp_cache := (rp_cache p)(t \<mapsto> b)\<rparr>)))"

definition prepare_for :: "'x std_env \<Rightarrow> go_type \<Rightarrow> 'x request_parser \<Rightarrow>
    go_error option \<times> 'x request_parser" where
  "prepare_for env t p =
     (case binder_for env t p of (Inl e, p') \<Rightarrow> (Some e, p') | (Inr b, p') \<Rightarrow> (None, p'))"

section \<open>Binding a request\<close>

definition param_reason :: "string \<Rightarrow> string \<Rightarrow> go_error \<Rightarrow> reason" where
  "param_reason loc field err =
     Reason ''invalid''
       [(''in'', GStr loc), (''field'', GStr field), (''error'', GStr (err_text err))] []"

definition the_json_type :: "go_error \<Rightarrow> (string \<times> string) option" where
  "the_json_type e = (case e of EJsonType ex got t \<Rightarrow> Some (ex, got) | _ \<Rightarrow> None)"

definition body_field_reason :: "string \<Rightarrow> go_error \<Rightarrow> reason" where
  "body_field_reason field err =
     (case errors_as the_json_type err of
        Some (ex, got) \<Rightarrow> Reason ''invalid_type''
          [(''in'', GStr ''body''), (''field'', GStr field), (''expected'', GStr ex),
           (''got'', GStr got)] []
      | None \<Rightarrow> Reason ''invalid''
          [(''in'', GStr ''body''), (''field'', GStr field), (''error'', GStr (err_text err))] [])"

text \<open>The two loops over path and query parameters; an absent value leaves the field alone.\<close>

fun bind_params :: "string \<Rightarrow> (string \<Rightarrow> string) \<Rightarrow> 'x param_bind list \<Rightarrow> 'x fval list \<Rightarrow>
    'x fval list \<times> reason list" where
  "bind_params loc get [] v = (v, [])"
| "bind_params loc get (pb # pbs) v =
     (let val = get (pb_key pb)
      in if val = '''' then bind_params loc get pbs v
         else case pb_setter pb (v ! pb_idx pb) val of
             (x, None) \<Rightarrow> bind_params loc get pbs (v[pb_idx pb := x])
           | (x, Some err) \<Rightarrow>
               (case bind_params loc get pbs (v[pb_idx pb := x]) of
                  (v', rs) \<Rightarrow> (v', param_reason loc (pb_key pb) err # rs)))"

fun bind_body_fields :: "'x std_env \<Rightarrow> (string \<times> string) list \<Rightarrow> body_bind list \<Rightarrow> 'x fval list \<Rightarrow>
    'x fval list \<times> reason list" where
  "bind_body_fields env raw [] v = (v, [])"
| "bind_body_fields env raw (fb # fbs) v =
     (case map_of raw (bb_key fb) of
        None \<Rightarrow> bind_body_fields env raw fbs v
      | Some rm \<Rightarrow>
          (case env_unmarshal env (bb_type fb) rm (v ! bb_idx fb) of
             (x, None) \<Rightarrow> bind_body_fields env raw fbs (v[bb_idx fb := x])
           | (x, Some err) \<Rightarrow>
               (case bind_body_fields env raw fbs (v[bb_idx fb := x]) of
                  (v', rs) \<Rightarrow> (v', body_field_reason (bb_key fb) err # rs))))"

definition unknown_field_reason :: "string \<Rightarrow> reason" where
  "unknown_field_reason key =
     Reason ''unknown_field'' [(''in'', GStr ''body''), (''field'', GStr key)] []"

definition unknown_key_reasons :: "'x bind_plan \<Rightarrow> (string \<times> string) list \<Rightarrow> reason list" where
  "unknown_key_reasons b raw =
     map unknown_field_reason (sort (filter (\<lambda>k. k \<notin> set (bd_known b)) (map fst raw)))"

text \<open>
  \<open>bindBody\<close>. The first component is the struct, the second the failures that collect, the
  third the error that pre-empts binding.
\<close>

definition bind_json :: "'x std_env \<Rightarrow> 'x bind_plan \<Rightarrow> (string \<times> string) list \<Rightarrow> 'x fval list \<Rightarrow>
    'x fval list \<times> reason list" where
  "bind_json env b raw v =
     (case bind_body_fields env raw (bd_body b) v of
        (v', rs) \<Rightarrow> (v', rs @ (if bd_lenient b then [] else unknown_key_reasons b raw)))"

definition bind_body :: "'x std_env \<Rightarrow> 'x request_parser \<Rightarrow> 'x bind_plan \<Rightarrow> 'c request \<Rightarrow> 'x fval list \<Rightarrow>
    'x fval list \<times> reason list \<times> go_error option" where
  "bind_body env p b r v =
     (case rp_decode_body p of
        Some decode \<Rightarrow> (case decode (rq_body r) v of (v', err) \<Rightarrow> (v', [], err))
      | None \<Rightarrow>
          (let ct = header_get r content_type
           in if ct \<noteq> '''' \<and> trim_space (cut_before CHR '';'' ct) \<noteq> ''application/json''
              then (v, [], Some (EReq (http_new ''unsupported_media_type''
                                        [(''content_type'', GStr ct)] [])))
              else case env_decode env (rq_body r) of
                  BodyBad err \<Rightarrow>
                    (v, [Reason ''malformed''
                           [(''in'', GStr ''body''), (''error'', GStr (err_text err))] []], None)
                | BodyEOF \<Rightarrow> (case bind_json env b [] v of (v', rs) \<Rightarrow> (v', rs, None))
                | BodyObject raw \<Rightarrow> (case bind_json env b raw v of (v', rs) \<Rightarrow> (v', rs, None))))"

definition bind_request :: "'x std_env \<Rightarrow> 'x request_parser \<Rightarrow> 'x bind_plan \<Rightarrow> 'c request \<Rightarrow> 'x fval list \<Rightarrow>
    'x fval list \<times> go_error option" where
  "bind_request env p b r v =
     (if bd_noop b then (v, None)
      else
        case bind_params ''path'' (path_value r) (bd_paths b) v of
          (v1, rs1) \<Rightarrow>
        (case bind_params ''query'' (query_get r) (bd_queries b) v1 of
          (v2, rs2) \<Rightarrow>
        (case (if bd_has_body b then bind_body env p b r v2 else (v2, [], None)) of
          (v3, rs3, Some err) \<Rightarrow> (v3, Some err)
        | (v3, rs3, None) \<Rightarrow>
            (if rs1 @ rs2 @ rs3 \<noteq> []
             then (v3, Some (EReq (with_reasons (http_new ''invalid_request'' [] [])
                                     (rs1 @ rs2 @ rs3))))
             else (v3, None)))))"

text \<open>
  \<open>Parse\<close>: the zero value of the struct (\<open>zero\<close>) filled from the request. On a failed build
  the zero value comes back.
\<close>

definition parse_request :: "'x std_env \<Rightarrow> go_type \<Rightarrow> 'x fval list \<Rightarrow> 'c request \<Rightarrow> 'x request_parser \<Rightarrow>
    ('x fval list \<times> go_error option) \<times> 'x request_parser" where
  "parse_request env t zero r p =
     (case binder_for env t p of
        (Inl e, p') \<Rightarrow> ((zero, Some e), p')
      | (Inr b, p') \<Rightarrow> (bind_request env p' b r zero, p'))"

section \<open>The plan cache is transparent\<close>

definition cache_ok :: "'x std_env \<Rightarrow> 'x request_parser \<Rightarrow> bool" where
  "cache_ok env p \<longleftrightarrow>
     (\<forall>t b. rp_cache p t = Some b \<longrightarrow> build_binder env (rp_setters p) t = Inr b)"

lemma cache_ok_zero [simp]: "cache_ok env (zero_parser\<lparr>rp_setters := ss, rp_decode_body := d\<rparr>)"
  by (simp add: cache_ok_def zero_parser_def)

lemma binder_for_cached:
  assumes "cache_ok env p" and "binder_for env t p = (x, p')"
  shows "x = build_binder env (rp_setters p) t \<and> cache_ok env p' \<and>
    rp_setters p' = rp_setters p \<and> rp_decode_body p' = rp_decode_body p"
  using assms
  by (auto simp: binder_for_def cache_ok_def split: option.splits sum.splits if_splits)

lemma bind_request_parser_cong:
  assumes "rp_decode_body p = rp_decode_body p'"
  shows "bind_request env p b r v = bind_request env p' b r v"
proof -
  have "bind_body env p b r = bind_body env p' b r"
    using assms by (simp add: bind_body_def fun_eq_iff)
  then show ?thesis by (simp only: bind_request_def)
qed

text \<open>Requests served one after another, each leaving its plan in the cache.\<close>

fun parse_all :: "'x std_env \<Rightarrow> (go_type \<times> 'x fval list \<times> 'c request) list \<Rightarrow> 'x request_parser \<Rightarrow>
    ('x fval list \<times> go_error option) list" where
  "parse_all env [] p = []"
| "parse_all env ((t, zero, r) # rs) p =
     (case parse_request env t zero r p of (res, p') \<Rightarrow> res # parse_all env rs p')"

lemma parse_request_cached:
  assumes "cache_ok env p" and "parse_request env t zero r p = (res, p')"
  shows "res = (case build_binder env (rp_setters p) t of
      Inl e \<Rightarrow> (zero, Some e) | Inr b \<Rightarrow> bind_request env p b r zero) \<and> cache_ok env p' \<and>
    rp_setters p' = rp_setters p \<and> rp_decode_body p' = rp_decode_body p"
proof -
  obtain x q where bf: "binder_for env t p = (x, q)" by fastforce
  note q = binder_for_cached [OF assms(1) bf]
  then have "bind_request env q b r zero = bind_request env p b r zero" for b
    by (intro bind_request_parser_cong) simp
  with assms(2) bf q show ?thesis
    by (auto simp: parse_request_def split: sum.splits)
qed

lemma parse_all_uncached:
  "cache_ok env p \<Longrightarrow> parse_all env rs p =
     map (\<lambda>(t, zero, r). case build_binder env (rp_setters p) t of
       Inl e \<Rightarrow> (zero, Some e) | Inr b \<Rightarrow> bind_request env p b r zero) rs"
proof (induction rs arbitrary: p)
  case (Cons a rs)
  obtain t zero r where a: "a = (t, zero, r)" by (cases a)
  obtain res p' where pr: "parse_request env t zero r p = (res, p')" by fastforce
  note p' = parse_request_cached [OF Cons.prems pr]
  then have "bind_request env p' b r zero = bind_request env p b r zero" for b r zero
    by (intro bind_request_parser_cong) simp
  with Cons.IH [of p'] p' pr show ?case
    by (auto simp: a split: sum.splits)
qed simp

section \<open>Every field has one source\<close>

definition plan_idxs :: "'x bind_plan \<Rightarrow> nat list" where
  "plan_idxs b = map pb_idx (bd_paths b) @ map pb_idx (bd_queries b) @ map bb_idx (bd_body b)"

definition plan_wf :: "nat \<Rightarrow> 'x bind_plan \<Rightarrow> bool" where
  "plan_wf n b \<longleftrightarrow> distinct (plan_idxs b) \<and> set (plan_idxs b) \<subseteq> {..<n} \<and>
     bd_known b = map bb_key (bd_body b) \<and> (bd_has_body b \<longleftrightarrow> bd_body b \<noteq> [])"

lemma plan_wf_empty: "plan_wf n empty_plan"
  by (simp add: plan_wf_def plan_idxs_def empty_plan_def)

lemma plan_wf_Suc: "plan_wf i b \<Longrightarrow> plan_wf (Suc i) b"
  by (auto simp: plan_wf_def)

lemma plan_wf_fresh: "plan_wf i b \<Longrightarrow> i \<notin> set (plan_idxs b)"
  by (auto simp: plan_wf_def)

lemma plan_wf_path:
  assumes "plan_wf i b"
  shows "plan_wf (Suc i) (b\<lparr>bd_paths := bd_paths b @ [\<lparr>pb_key = k, pb_idx = i, pb_setter = s\<rparr>]\<rparr>)"
  using assms plan_wf_fresh [OF assms] plan_wf_Suc [OF assms]
  by (simp add: plan_wf_def plan_idxs_def)

lemma plan_wf_query:
  assumes "plan_wf i b"
  shows "plan_wf (Suc i) (b\<lparr>bd_queries := bd_queries b @ [\<lparr>pb_key = k, pb_idx = i, pb_setter = s\<rparr>]\<rparr>)"
  using assms plan_wf_fresh [OF assms] plan_wf_Suc [OF assms]
  by (simp add: plan_wf_def plan_idxs_def)

lemma plan_wf_body:
  assumes "plan_wf i b"
  shows "plan_wf (Suc i) (b\<lparr>bd_body := bd_body b @ [\<lparr>bb_key = k, bb_idx = i, bb_type = t\<rparr>],
    bd_known := bd_known b @ [k], bd_has_body := True\<rparr>)"
  using assms plan_wf_fresh [OF assms] plan_wf_Suc [OF assms]
  by (simp add: plan_wf_def plan_idxs_def)

lemma plan_wf_lenient: "plan_wf i b \<Longrightarrow> plan_wf (Suc i) (b\<lparr>bd_lenient := True\<rparr>)"
  by (auto simp: plan_wf_def plan_idxs_def)

lemma build_field_wf:
  assumes "plan_wf i b" and "build_field env ss i f b = Inr b'"
  shows "plan_wf (Suc i) b'"
  using assms(2) plan_wf_Suc [OF assms(1)] plan_wf_path [OF assms(1)] plan_wf_query [OF assms(1)]
    plan_wf_body [OF assms(1)] plan_wf_lenient [OF assms(1)]
  unfolding build_field_def Let_def
  by (simp only: split: if_splits sum.splits) blast+

lemma build_fields_wf:
  "plan_wf i b \<Longrightarrow> build_fields env ss i fs b = Inr b' \<Longrightarrow> plan_wf (i + length fs) b'"
proof (induction fs arbitrary: i b)
  case (Cons f fs)
  then obtain b1 where b1: "build_field env ss i f b = Inr b1"
    and rest: "build_fields env ss (Suc i) fs b1 = Inr b'"
    by (auto split: sum.splits)
  with Cons.IH [OF build_field_wf [OF Cons.prems(1) b1] rest] show ?case by simp
qed simp

lemma build_binder_wf:
  assumes "build_binder env ss t = Inr b"
  shows "\<exists>n. plan_wf n b"
proof (cases "is_empty_type t")
  case True
  with assms show ?thesis
    by (auto simp: build_binder_def plan_wf_def plan_idxs_def empty_plan_def)
next
  case False
  with assms show ?thesis
    by (auto simp: build_binder_def split: option.splits dest!: build_fields_wf [OF plan_wf_empty])
qed

lemma build_binder_disjoint:
  assumes "build_binder env ss t = Inr b" and "pb \<in> set (bd_paths b @ bd_queries b)"
  shows "pb_idx pb \<notin> bb_idx ` set (bd_body b)"
  using build_binder_wf [OF assms(1)] assms(2) by (fastforce simp: plan_wf_def plan_idxs_def)

text \<open>The two results of the parameter loop, one turn at a time.\<close>

lemma bind_params_Cons:
  "fst (bind_params loc get (pb # pbs) v) =
     fst (bind_params loc get pbs (if get (pb_key pb) = [] then v
            else v[pb_idx pb := fst (pb_setter pb (v ! pb_idx pb) (get (pb_key pb)))]))"
  "snd (bind_params loc get (pb # pbs) v) =
     (if get (pb_key pb) = [] then snd (bind_params loc get pbs v)
      else (case snd (pb_setter pb (v ! pb_idx pb) (get (pb_key pb))) of
              None \<Rightarrow> [] | Some err \<Rightarrow> [param_reason loc (pb_key pb) err]) @
           snd (bind_params loc get pbs
             (v[pb_idx pb := fst (pb_setter pb (v ! pb_idx pb) (get (pb_key pb)))])))"
  by (auto simp: Let_def split: prod.splits option.splits)

lemma bind_body_fields_Cons:
  "fst (bind_body_fields env raw (fb # fbs) v) =
     fst (bind_body_fields env raw fbs
       (case map_of raw (bb_key fb) of None \<Rightarrow> v
        | Some rm \<Rightarrow> v[bb_idx fb := fst (env_unmarshal env (bb_type fb) rm (v ! bb_idx fb))]))"
  by (auto split: prod.splits option.splits)

declare bind_params.simps(2) [simp del] bind_body_fields.simps(2) [simp del]

lemma bind_params_length: "length (fst (bind_params loc get pbs v)) = length v"
  by (induction pbs arbitrary: v) (simp_all add: bind_params_Cons)

lemma bind_body_fields_frame:
  "k \<notin> bb_idx ` set fbs \<Longrightarrow> fst (bind_body_fields env raw fbs v) ! k = v ! k"
  by (induction fbs arbitrary: v) (auto simp: bind_body_fields_Cons split: option.splits)

lemma bind_json_frame:
  "k \<notin> bb_idx ` set (bd_body b) \<Longrightarrow> fst (bind_json env b raw v) ! k = v ! k"
  using bind_body_fields_frame [of k "bd_body b" env raw v]
  by (cases "bind_body_fields env raw (bd_body b) v") (simp add: bind_json_def)

lemma bind_body_frame:
  assumes "rp_decode_body p = None" and "k \<notin> bb_idx ` set (bd_body b)"
  shows "fst (bind_body env p b r v) ! k = v ! k"
  using assms(1) bind_json_frame [OF assms(2), of env _ v]
  by (simp add: bind_body_def Let_def case_prod_beta split: body_decode.splits)

lemma bind_request_fst:
  "\<not> bd_noop b \<Longrightarrow> fst (bind_request env p b r v) =
    (let v2 = fst (bind_params ''query'' (query_get r) (bd_queries b)
                (fst (bind_params ''path'' (path_value r) (bd_paths b) v)))
     in if bd_has_body b then fst (bind_body env p b r v2) else v2)"
  by (auto simp: bind_request_def Let_def split: prod.splits option.splits)

lemma bind_request_param_fields:
  assumes "rp_decode_body p = None" and "k \<notin> bb_idx ` set (bd_body b)"
  shows "fst (bind_request env p b r v) ! k =
    (if bd_noop b then v
     else fst (bind_params ''query'' (query_get r) (bd_queries b)
                (fst (bind_params ''path'' (path_value r) (bd_paths b) v)))) ! k"
proof (cases "bd_noop b")
  case True
  then show ?thesis by (simp add: bind_request_def)
next
  case False
  then show ?thesis
    by (simp add: bind_request_fst Let_def bind_body_frame [OF assms])
qed

section \<open>Which reasons a failed binding carries\<close>

lemma bind_params_reasons:
  assumes "\<And>pb v raw. pb \<in> set pbs \<Longrightarrow> snd (pb_setter pb v raw) = bad pb raw"
  shows "snd (bind_params loc get pbs v) =
    List.map_filter (\<lambda>pb. if get (pb_key pb) = [] then None
       else map_option (param_reason loc (pb_key pb)) (bad pb (get (pb_key pb)))) pbs"
  using assms
  by (induction pbs arbitrary: v)
     (auto simp: bind_params_Cons map_filter_simps split: option.splits)

lemma unknown_key_reasons_perm:
  assumes "mset raw = mset raw'"
  shows "unknown_key_reasons b raw = unknown_key_reasons b raw'"
proof -
  let ?u = "\<lambda>raw. filter (\<lambda>k. k \<notin> set (bd_known b)) (map fst raw)"
  from assms have "mset (?u raw) = mset (?u raw')"
    by (metis mset_filter mset_map)
  then have "sort (?u raw) = sort (?u raw')"
    by (intro properties_for_sort) simp_all
  then show ?thesis by (simp add: unknown_key_reasons_def)
qed

lemma bind_body_fields_cong:
  "map_of raw = map_of raw' \<Longrightarrow> bind_body_fields env raw fbs v = bind_body_fields env raw' fbs v"
  by (induction fbs arbitrary: v)
     (auto simp: bind_body_fields.simps(2) split: option.splits prod.splits)

lemma map_of_mset_eq:
  assumes "mset raw = mset raw'" and "distinct (map fst raw)"
  shows "map_of raw = map_of raw'"
proof -
  from assms have "distinct (map fst raw')"
    by (metis distinct_count_atmost_1 mset_map set_mset_mset)
  with assms show ?thesis
    by (metis map_of_inject_set set_mset_mset)
qed

section \<open>Setters that judge the text alone\<close>

definition verdict_fixed :: "'x setter \<Rightarrow> bool" where
  "verdict_fixed s \<longleftrightarrow> (\<forall>v v' raw. snd (s v raw) = snd (s v' raw))"

definition plan_setters :: "('x setter \<Rightarrow> bool) \<Rightarrow> 'x bind_plan \<Rightarrow> bool" where
  "plan_setters P b \<longleftrightarrow> (\<forall>pb \<in> set (bd_paths b @ bd_queries b). P (pb_setter pb))"

lemma string_setter_verdict:
  assumes "\<And>n. verdict_fixed (env_text env n)" and "\<And>b. verdict_fixed (env_float env b)"
    and "string_setter env (\<lambda>t. None) t = Inr s"
  shows "verdict_fixed s"
  using assms
  by (cases t) (auto simp: string_setter_def verdict_fixed_def set_string_def set_bool_def
      set_int_field_def set_uint_field_def split: sum.splits)

lemma build_field_setters:
  assumes "\<And>t s. string_setter env ss t = Inr s \<Longrightarrow> P s"
    and "plan_setters P b" and "build_field env ss i f b = Inr b'"
  shows "plan_setters P b'"
  using assms(3,2) unfolding build_field_def Let_def
  by (simp only: split: if_splits sum.splits) (auto simp: plan_setters_def, (erule assms(1))+)

lemma build_fields_setters:
  assumes "\<And>t s. string_setter env ss t = Inr s \<Longrightarrow> P s"
  shows "plan_setters P b \<Longrightarrow> build_fields env ss i fs b = Inr b' \<Longrightarrow> plan_setters P b'"
proof (induction fs arbitrary: i b)
  case (Cons f fs)
  then obtain b1 where b1: "build_field env ss i f b = Inr b1"
    and rest: "build_fields env ss (Suc i) fs b1 = Inr b'" by (auto split: sum.splits)
  show ?case
    by (rule Cons.IH [OF build_field_setters [OF assms Cons.prems(1) b1] rest])
qed simp

lemma build_binder_setters:
  assumes "\<And>t s. string_setter env ss t = Inr s \<Longrightarrow> P s" and "build_binder env ss t = Inr b"
  shows "plan_setters P b"
proof -
  have e: "plan_setters P empty_plan" by (simp add: plan_setters_def empty_plan_def)
  show ?thesis
  proof (cases "is_empty_type t")
    case True
    with assms(2) show ?thesis by (auto simp: build_binder_def plan_setters_def empty_plan_def)
  next
    case False
    with assms(2) obtain fs where "build_fields env ss 0 fs empty_plan = Inr b"
      by (auto simp: build_binder_def split: option.splits)
    from build_fields_setters [OF assms(1) e this] show ?thesis .
  qed
qed

text \<open>The reasons a list of parameters gives for a request.\<close>

definition bad_params :: "string \<Rightarrow> (string \<Rightarrow> string) \<Rightarrow> 'x param_bind list \<Rightarrow> reason list" where
  "bad_params loc get pbs =
     List.map_filter (\<lambda>pb. if get (pb_key pb) = [] then None
       else map_option (param_reason loc (pb_key pb)) (snd (pb_setter pb (VString []) (get (pb_key pb))))) pbs"

lemma bind_params_bad:
  assumes "\<forall>pb \<in> set pbs. verdict_fixed (pb_setter pb)"
  shows "snd (bind_params loc get pbs v) = bad_params loc get pbs"
  unfolding bad_params_def
  by (rule bind_params_reasons) (use assms in \<open>auto simp: verdict_fixed_def\<close>)

section \<open>Properties\<close>

definition sample_env :: "unit std_env" where
  "sample_env = \<lparr>env_text = (\<lambda>n v s. (v, None)), env_float = (\<lambda>b v s. (v, None)),
     env_decode = (\<lambda>s. if s = [] then BodyEOF else BodyObject [(''name'', s)]),
     env_unmarshal = (\<lambda>t s v. (VString s, None))\<rparr>"

definition sample_type :: go_type where
  "sample_type = TStruct ''Req''
     [Field ''ID'' True (TInt ''int8'' 8) [(''path'', ''id'')],
      Field ''Limit'' True (TUint ''uint'' 64) [(''query'', ''limit'')],
      Field ''Name'' True TString [(''json'', ''name'')]]"

definition sample_query_type :: go_type where
  "sample_query_type = TStruct ''Req''
     [Field ''ID'' True (TInt ''int8'' 8) [(''path'', ''id'')],
      Field ''Limit'' True (TUint ''uint'' 64) [(''query'', ''limit'')]]"

definition sample_http_request :: "string \<Rightarrow> string \<Rightarrow> string \<Rightarrow> unit request" where
  "sample_http_request pid limit body =
     \<lparr>rq_method = ''POST'', rq_path_values = [(''id'', pid)], rq_query = [(''limit'', limit)],
      rq_header = [], rq_body = body, rq_remote_addr = '''',
      rq_ctx = \<lparr>ctx_http_logger = None, ctx_request_meta = None, ctx_event_logger = None,
        ctx_tx = None\<rparr>\<rparr>"

definition sample_plan :: "unit bind_plan" where
  "sample_plan = \<lparr>bd_paths = [\<lparr>pb_key = ''id'', pb_idx = 0, pb_setter = set_int_field 8\<rparr>],
     bd_queries = [\<lparr>pb_key = ''limit'', pb_idx = 1, pb_setter = set_uint_field 64\<rparr>],
     bd_body = [\<lparr>bb_key = ''name'', bb_idx = 2, bb_type = TString\<rparr>], bd_known = [''name''],
     bd_has_body = True, bd_lenient = False, bd_noop = False\<rparr>"

definition sample_query_plan :: "unit bind_plan" where
  "sample_query_plan = sample_plan\<lparr>bd_body := [], bd_known := [], bd_has_body := False\<rparr>"

lemmas sample_plan_simps = build_binder_def is_empty_type_def build_field_def empty_plan_def
  string_setter_def tag_get_def get_value_def cut_before_def sample_plan_def sample_query_plan_def Let_def

lemma sample_plan_built:
  "build_binder sample_env (\<lambda>t. None) sample_type = Inr sample_plan"
  "build_binder sample_env (\<lambda>t. None) sample_query_type = Inr sample_query_plan"
  by (simp_all add: sample_type_def sample_query_type_def sample_plan_simps)

text \<open>C28: The plan cache is invisible: requests parsed one after another through one shared parser,
  of any types and in any order, bind exactly as each would through a parser of its own.\<close>

theorem shared_parser_is_transparent:
  "parse_all env rs (zero_parser\<lparr>rp_setters := ss, rp_decode_body := d\<rparr>) =
     map (\<lambda>(t, zero, r). fst (parse_request env t zero r (zero_parser\<lparr>rp_setters := ss, rp_decode_body := d\<rparr>))) rs"
proof -
  let ?p = "zero_parser\<lparr>rp_setters := ss, rp_decode_body := d\<rparr>"
  have "fst (parse_request env t zero r ?p) = (case build_binder env (rp_setters ?p) t of
      Inl e \<Rightarrow> (zero, Some e) | Inr b \<Rightarrow> bind_request env ?p b r zero)" for t zero and r :: "'b request"
    using parse_request_cached [of env ?p t zero r "fst (parse_request env t zero r ?p)"
        "snd (parse_request env t zero r ?p)"] by simp
  then show ?thesis by (simp add: parse_all_uncached case_prod_beta)
qed

text \<open>C3: A field bound from the path or the query is out of the body's reach: whatever body the
  client sends, known keys, unknown keys or garbage, the field holds what it would hold with any
  other body.\<close>

theorem body_cannot_reach_parameters:
  assumes "build_binder env ss t = Inr b" and "pb \<in> set (bd_paths b @ bd_queries b)"
    and "rp_decode_body p = None"
  shows "fst (bind_request env p b (r\<lparr>rq_body := body\<rparr>) v) ! pb_idx pb =
    fst (bind_request env p b r v) ! pb_idx pb"
proof -
  have eq: "path_value (r\<lparr>rq_body := body\<rparr>) = path_value r" "query_get (r\<lparr>rq_body := body\<rparr>) = query_get r"
    by (simp_all add: fun_eq_iff path_value_def query_get_def)
  note f = bind_request_param_fields [OF assms(3) build_binder_disjoint [OF assms(1,2)]]
  show ?thesis unfolding f eq ..
qed

theorem body_cannot_reach_parameters_witness:
  "fst (bind_request sample_env zero_parser sample_plan (sample_http_request ''7'' '''' ''x'') [VInt 0, VUint 0, VString '''']) ! 0 =
   fst (bind_request sample_env zero_parser sample_plan (sample_http_request ''7'' '''' '''') [VInt 0, VUint 0, VString '''']) ! 0"
  using body_cannot_reach_parameters [OF sample_plan_built(1),
      where pb = "\<lparr>pb_key = ''id'', pb_idx = 0, pb_setter = set_int_field 8\<rparr>" and p = zero_parser
        and r = "sample_http_request ''7'' '''' ''''" and body = "''x''" and v = "[VInt 0, VUint 0, VString '''']"]
  by (simp add: sample_plan_def zero_parser_def sample_http_request_def)



text \<open>The decoded body is a map, but what a client is told does not depend on the order a map
  is ranged over in: any order of the same members binds the same values and gives the same
  reasons, the unknown keys sorted among them.\<close>

theorem body_binding_is_order_independent:
  assumes "mset raw = mset raw'" and "distinct (map fst raw)"
  shows "bind_json env b raw v = bind_json env b raw' v"
  unfolding bind_json_def bind_body_fields_cong [OF map_of_mset_eq [OF assms]]
    unknown_key_reasons_perm [OF assms(1)] ..

theorem body_binding_is_order_independent_witness:
  "bind_json sample_env sample_plan [(''x'', ''1''), (''b'', ''2''), (''name'', ''3'')] [VInt 0, VUint 0, VString ''''] =
   bind_json sample_env sample_plan [(''name'', ''3''), (''x'', ''1''), (''b'', ''2'')] [VInt 0, VUint 0, VString '''']"
  by (rule body_binding_is_order_independent) simp_all

text \<open>A number that fits 64 bits but not its field is not refused: a path value of 300 for an
  int8 field binds 44 with no error.\<close>

theorem narrow_integers_wrap_silently:
  fixes env :: "'x std_env"
  shows "fst (parse_request env (TStruct ''Req'' [Field ''N'' True (TInt ''int8'' 8) [(''path'', ''id'')]])
     [VInt 0] (sample_http_request ''300'' '''' '''') zero_parser) = ([VInt 44], None)"
proof -
  have p: "parse_int ''300'' = Inr 300"
    using parse_int_itoa [of 300] by (simp add: itoa_def itoa_nat.simps digit_chars)
  have "set_int 8 300 = 44" by (simp add: set_int_def)
  with p have "bind_params ''path'' (path_value (sample_http_request ''300'' '''' ''''))
      [\<lparr>pb_key = ''id'', pb_idx = 0, pb_setter = set_int_field 8\<rparr>] [VInt 0] = ([VInt 44 :: 'x fval], [])"
    by (simp add: bind_params.simps set_int_field_def path_value_def sample_http_request_def get_value_def)
  then show ?thesis
    by (simp add: parse_request_def binder_for_def zero_parser_def sample_plan_simps bind_request_def)
qed

end
