(* ===== verification/HttpRouter.thy ===== *)
theory HttpRouter
  imports HttpParser
begin

text \<open>
  Package http: the router (\<open>http/http.go\<close>), the adapter from typed handlers
  (\<open>http/adapt.go\<close>) and the middleware that ships with it (\<open>http/middleware.go\<close>,
  \<open>http/logger.go\<close>). The mux is the list of its registrations; which of them a request
  reaches is the mux's business. The parser's plan cache is transparent (\<open>HttpParser\<close>), so
  the adapter builds the plan where the code looks it up.
\<close>

section \<open>Middleware chains\<close>

definition combine_chain :: "'m list \<Rightarrow> 'm list \<Rightarrow> 'm list" where
  "combine_chain grp perRoute = (if grp = [] then perRoute else grp @ perRoute)"

definition apply_middleware :: "'h \<Rightarrow> ('h \<Rightarrow> 'h) list \<Rightarrow> 'h" where
  "apply_middleware h mw = fold (\<lambda>v h. v h) (rev mw) h"

lemma combine_chain_append [simp]: "combine_chain grp perRoute = grp @ perRoute"
  by (simp add: combine_chain_def)

lemma apply_middleware_Nil [simp]: "apply_middleware h [] = h"
  by (simp add: apply_middleware_def)

lemma apply_middleware_Cons [simp]: "apply_middleware h (v # mw) = v (apply_middleware h mw)"
  by (simp add: apply_middleware_def)

lemma apply_middleware_append [simp]:
  "apply_middleware h (mw @ mw') = apply_middleware (apply_middleware h mw') mw"
  by (induction mw) simp_all

section \<open>The router\<close>

record ('c, 'w, 'x) router =
  rt_coercer :: "coercer option"
  rt_error_writer :: "('c, 'w) error_writer option"
  rt_parser :: "'x request_parser option"
  rt_logger :: "logger option"
  rt_prefix :: string
  rt_middleware :: "('c, 'w) http_middleware list"

datatype mux_kind = MethodMux | PatternMux | OtherMux

datatype ('c, 'w) registration =
    RegMethod string string "('c, 'w) std_handler"
  | RegPattern string "('c, 'w) std_handler"

text \<open>The mux a router and its groups share: its kind and what was registered on it, in order.\<close>

record ('c, 'w) mux =
  mx_kind :: mux_kind
  mx_routes :: "('c, 'w) registration list"

definition with_coercer :: "coercer option \<Rightarrow> ('c, 'w, 'x) router \<Rightarrow> ('c, 'w, 'x) router" where
  "with_coercer c r = r\<lparr>rt_coercer := c\<rparr>"

definition with_error_writer :: "('c, 'w) error_writer option \<Rightarrow> ('c, 'w, 'x) router \<Rightarrow>
    ('c, 'w, 'x) router" where
  "with_error_writer ew r = r\<lparr>rt_error_writer := ew\<rparr>"

definition with_request_parser :: "'x request_parser option \<Rightarrow> ('c, 'w, 'x) router \<Rightarrow>
    ('c, 'w, 'x) router" where
  "with_request_parser p r = r\<lparr>rt_parser := p\<rparr>"

definition with_logger :: "logger option \<Rightarrow> ('c, 'w, 'x) router \<Rightarrow> ('c, 'w, 'x) router" where
  "with_logger l r = r\<lparr>rt_logger := l\<rparr>"

definition new_router :: "mux_kind \<Rightarrow> (('c, 'w, 'x) router \<Rightarrow> ('c, 'w, 'x) router) list \<Rightarrow>
    ('c, 'w, 'x) router outcome" where
  "new_router k opts =
     (if k = OtherMux
      then Panic (PanicMsg (''dflhttp: mux must implement MethodFunc(method, pattern, h) ''
             @ ''or HandleFunc(pattern, h)''))
      else Ret (fold (\<lambda>opt r. opt r) opts
             \<lparr>rt_coercer = Some default_coercer, rt_error_writer = None, rt_parser = None,
              rt_logger = None, rt_prefix = '''', rt_middleware = []\<rparr>))"

definition register :: "string \<Rightarrow> string \<Rightarrow> ('c, 'w) std_handler \<Rightarrow> ('c, 'w) mux \<Rightarrow> ('c, 'w) mux" where
  "register method pattern h m =
     m\<lparr>mx_routes := mx_routes m @
         [if mx_kind m = MethodMux then RegMethod method pattern h
          else RegPattern (method @ '' '' @ pattern) h]\<rparr>"

text \<open>Middleware has no router to ask, so the logger rides the request.\<close>

definition enrich :: "logger option \<Rightarrow> 'c request \<Rightarrow> 'c request" where
  "enrich l req = (case l of None \<Rightarrow> req
     | Some x \<Rightarrow> req\<lparr>rq_ctx := (rq_ctx req)\<lparr>ctx_http_logger := Some x\<rparr>\<rparr>)"

text \<open>The standard handler that a route becomes.\<close>

definition serve_route :: "('c, 'w, 'x) router \<Rightarrow> ('c, 'w) http_handler \<Rightarrow> ('c, 'w) http_middleware list \<Rightarrow>
    ('c, 'w) std_handler" where
  "serve_route r h mw =
     (let wrapped = apply_middleware h (combine_chain (rt_middleware r) mw);
          writeErr = (case rt_error_writer r of
                        Some ew \<Rightarrow> ew
                      | None \<Rightarrow> default_error_writer (rt_coercer r))
      in (\<lambda>req s.
            let req' = enrich (rt_logger r) req
            in case wrapped req' s of
                 (Panic p, s') \<Rightarrow> (Panic p, s')
               | (Ret None, s') \<Rightarrow> (Ret (), s')
               | (Ret (Some err), s') \<Rightarrow> writeErr req' err s'))"

definition router_handle_func :: "('c, 'w, 'x) router \<Rightarrow> string \<Rightarrow> string \<Rightarrow> ('c, 'w) http_handler \<Rightarrow>
    ('c, 'w) http_middleware list \<Rightarrow> ('c, 'w) mux \<Rightarrow> ('c, 'w) mux" where
  "router_handle_func r method path h mw m =
     register method (rt_prefix r @ path) (serve_route r h mw) m"

definition router_group :: "('c, 'w, 'x) router \<Rightarrow> string \<Rightarrow> ('c, 'w, 'x) router" where
  "router_group r pre =
     \<lparr>rt_coercer = rt_coercer r, rt_error_writer = rt_error_writer r, rt_parser = rt_parser r,
      rt_logger = rt_logger r, rt_prefix = rt_prefix r @ pre,
      rt_middleware = [] @ rt_middleware r\<rparr>"

definition router_use :: "('c, 'w, 'x) router \<Rightarrow> ('c, 'w) http_middleware list \<Rightarrow> ('c, 'w, 'x) router" where
  "router_use r mw = r\<lparr>rt_middleware := rt_middleware r @ mw\<rparr>"

section \<open>Typed handlers\<close>

text \<open>
  What reflection tells about a response type: whether it is \<open>Empty\<close> or a pointer to it, the
  status its \<open>SuccessStatus\<close> method returns on a zero value, and how a value encodes.
\<close>

record 'resp resp_type =
  rs_empty :: bool
  rs_status_coder :: "int option"
  rs_encode :: "'resp \<Rightarrow> go_error + json"

text \<open>A typed handler sees the context and the request value, never the response writer.\<close>

type_synonym ('c, 'w, 'x, 'resp) typed_handler =
  "'c go_ctx_scheme \<Rightarrow> 'x fval list \<Rightarrow> 'w world \<Rightarrow> (go_error + 'resp) outcome \<times> 'w world"

definition on_world :: "('w world \<Rightarrow> 'a outcome \<times> 'w world) \<Rightarrow> 'w hworld \<Rightarrow> 'a outcome \<times> 'w hworld" where
  "on_world f s =
     (case f \<lparr>w_default = w_default s, w_log = w_log s, w_app = w_app s\<rparr> of
        (x, t) \<Rightarrow> (x, s\<lparr>w_default := w_default t, w_log := w_log t, w_app := w_app t\<rparr>))"

definition success_status_for :: "'resp resp_type \<Rightarrow> int" where
  "success_status_for rt = (case rs_status_coder rt of None \<Rightarrow> 200 | Some st \<Rightarrow> st)"

definition write_response :: "'resp resp_type \<Rightarrow> 'resp \<Rightarrow> 'w hworld \<Rightarrow> go_error option outcome \<times> 'w hworld" where
  "write_response rt resp s =
     (if rs_empty rt
      then (case on_rw (write_header 204) s of
              (Panic p, s') \<Rightarrow> (Panic p, s') | (Ret _, s') \<Rightarrow> (Ret None, s'))
      else case rs_encode rt resp of
          Inl err \<Rightarrow> (Ret (Some err), s)
        | Inr j \<Rightarrow>
            (let s1 = s\<lparr>h_rw := header_set content_type ''application/json'' (h_rw s)\<rparr>
             in case (if success_status_for rt \<noteq> 200
                      then on_rw (write_header (success_status_for rt)) s1 else (Ret (), s1)) of
                  (Panic p, s2) \<Rightarrow> (Panic p, s2)
                | (Ret _, s2) \<Rightarrow> (Ret None, s2\<lparr>h_rw := write_body (ChunkJson j) (h_rw s2)\<rparr>)))"

definition adapt :: "'x std_env \<Rightarrow> 'x request_parser option \<Rightarrow> go_type \<Rightarrow> 'x fval list \<Rightarrow>
    'resp resp_type \<Rightarrow> ('c, 'w, 'x, 'resp) typed_handler \<Rightarrow> go_error + ('c, 'w) http_handler" where
  "adapt env parser t zero rt handler =
     (let p = (case parser of None \<Rightarrow> zero_parser | Some p \<Rightarrow> p)
      in case build_binder env (rp_setters p) t of
           Inl err \<Rightarrow> Inl err
         | Inr b \<Rightarrow>
             Inr (\<lambda>httpReq s.
               case bind_request env p b httpReq zero of
                 (req, Some err) \<Rightarrow> (Ret (Some err), s)
               | (req, None) \<Rightarrow>
                   (case on_world (handler (rq_ctx httpReq) req) s of
                      (Panic x, s') \<Rightarrow> (Panic x, s')
                    | (Ret (Inl err), s') \<Rightarrow> (Ret (Some err), s')
                    | (Ret (Inr resp), s') \<Rightarrow> write_response rt resp s')))"

definition router_handle :: "'x std_env \<Rightarrow> ('c, 'w, 'x) router \<Rightarrow> string \<Rightarrow> string \<Rightarrow> go_type \<Rightarrow>
    'x fval list \<Rightarrow> 'resp resp_type \<Rightarrow> ('c, 'w, 'x, 'resp) typed_handler \<Rightarrow>
    ('c, 'w) http_middleware list \<Rightarrow> ('c, 'w) mux \<Rightarrow> unit outcome \<times> ('c, 'w) mux" where
  "router_handle env r method path t zero rt handler mw m =
     (case adapt env (rt_parser r) t zero rt handler of
        Inl err \<Rightarrow> (Panic (PanicMsg (''dflhttp: '' @ err_text err)), m)
      | Inr h \<Rightarrow> (Ret (), router_handle_func r method path h mw m))"

section \<open>The middleware in the box\<close>

definition http_logger_from :: "'c go_ctx_scheme \<Rightarrow> ('w, 'z) world_scheme \<Rightarrow> logger" where
  "http_logger_from ctx s = logger_or_default (ctx_http_logger ctx) s"

text \<open>\<open>stack\<close> is what \<open>debug.Stack\<close> returns.\<close>

definition recoverer :: "string \<Rightarrow> ('c, 'w) http_middleware" where
  "recoverer stack next r s =
     (case next r s of
        (Ret e, s') \<Rightarrow> (Ret e, s')
      | (Panic p, s') \<Rightarrow>
          if is_abort_handler p then (Panic p, s')
          else (Ret (Some (EReq (http_new ''unknown'' [] [ErrText (''panic: '' @ panic_text p)]))),
                log_to (http_logger_from (rq_ctx r) s') LevelError ''handler panic''
                  [(''panic'', panic_text p), (''stack'', stack)] s'))"

definition split_host_port :: "string \<Rightarrow> string option" where
  "split_host_port hp =
     (if CHR '':'' \<notin> set hp then None
      else
        let i = length hp - 1 - length (takeWhile (\<lambda>c. c \<noteq> CHR '':'') (rev hp))
        in if hd hp = CHR ''[''
           then (let e = length (takeWhile (\<lambda>c. c \<noteq> CHR '']'') hp)
                 in if e = length hp \<or> e + 1 \<noteq> i then None
                    else if CHR ''['' \<in> set (drop 1 hp) \<or> CHR '']'' \<in> set (drop (e + 1) hp)
                    then None else Some (take (e - 1) (drop 1 hp)))
           else if CHR '':'' \<in> set (take i hp) \<or> CHR ''['' \<in> set hp \<or> CHR '']'' \<in> set hp
           then None else Some (take i hp))"

definition remote_ip :: "'c request \<Rightarrow> string" where
  "remote_ip r =
     (case split_host_port (rq_remote_addr r) of None \<Rightarrow> rq_remote_addr r | Some host \<Rightarrow> host)"

definition forwarded_client_ip :: "'c request \<Rightarrow> string" where
  "forwarded_client_ip r =
     (let fwd = header_get r ''X-Forwarded-For''
      in if fwd = '''' then '''' else trim_space (cut_before CHR '','' fwd))"

definition request_meta_mw :: "bool \<Rightarrow> ('c, 'w) http_middleware" where
  "request_meta_mw trustForwarded next r s =
     (let ip = (if trustForwarded \<and> forwarded_client_ip r \<noteq> '''' then forwarded_client_ip r
                else remote_ip r);
          meta = \<lparr>client_ip = ip, user_agent = header_get r ''User-Agent''\<rparr>
      in next (r\<lparr>rq_ctx := (rq_ctx r)\<lparr>ctx_request_meta := Some meta\<rparr>\<rparr>) s)"

definition ctx_client_ip :: "'c go_ctx_scheme \<Rightarrow> string" where
  "ctx_client_ip ctx = (case ctx_request_meta ctx of Some m \<Rightarrow> client_ip m | None \<Rightarrow> '''')"

definition ctx_user_agent :: "'c go_ctx_scheme \<Rightarrow> string" where
  "ctx_user_agent ctx = (case ctx_request_meta ctx of Some m \<Rightarrow> user_agent m | None \<Rightarrow> '''')"

section \<open>Facts about typed handlers\<close>

lemma on_world_rw [simp]: "on_world f s = (x, s') \<Longrightarrow> h_rw s' = h_rw s"
  by (auto simp: on_world_def split: prod.splits)

lemma on_rw_simps [simp]: "on_rw f s = (fst (f (h_rw s)), s\<lparr>h_rw := snd (f (h_rw s))\<rparr>)"
  by (simp add: on_rw_def split: prod.splits)

text \<open>An error return of the adapted handler never comes with a half-written response.\<close>

lemma write_response_error_clean:
  "write_response rt resp s = (Ret (Some err), s') \<Longrightarrow> h_rw s' = h_rw s"
  by (auto simp: write_response_def Let_def split: if_splits sum.splits prod.splits outcome.splits)

lemma adapt_error_clean:
  assumes "adapt env parser t zero rt handler = Inr h" and "h r s = (Ret (Some err), s')"
  shows "h_rw s' = h_rw s"
proof -
  from assms(1) obtain p b where h: "h = (\<lambda>httpReq s.
      case bind_request env p b httpReq zero of
        (req, Some err) \<Rightarrow> (Ret (Some err), s)
      | (req, None) \<Rightarrow>
          (case on_world (handler (rq_ctx httpReq) req) s of
             (Panic x, s') \<Rightarrow> (Panic x, s')
           | (Ret (Inl err), s') \<Rightarrow> (Ret (Some err), s')
           | (Ret (Inr resp), s') \<Rightarrow> write_response rt resp s'))"
    by (auto simp: adapt_def Let_def split: sum.splits)
  obtain req e where b: "bind_request env p b r zero = (req, e)" by fastforce
  obtain x s1 where c: "on_world (handler (rq_ctx r) req) s = (x, s1)" by fastforce
  from assms(2) b c on_world_rw [OF c] show ?thesis
    by (auto simp: h split: option.splits outcome.splits sum.splits dest!: write_response_error_clean)
qed

section \<open>Facts about routes\<close>

lemma serve_route_eq:
  "serve_route r h mw req s =
     (case apply_middleware h (rt_middleware r @ mw) (enrich (rt_logger r) req) s of
        (Panic p, s') \<Rightarrow> (Panic p, s')
      | (Ret None, s') \<Rightarrow> (Ret (), s')
      | (Ret (Some err), s') \<Rightarrow>
          (case rt_error_writer r of Some ew \<Rightarrow> ew | None \<Rightarrow> default_error_writer (rt_coercer r))
            (enrich (rt_logger r) req) err s')"
  by (simp add: serve_route_def Let_def)

text \<open>Routers cut from one another: each level a \<open>Group\<close> and then a \<open>Use\<close>.\<close>

fun nest :: "('c, 'w, 'x) router \<Rightarrow> (string \<times> ('c, 'w) http_middleware list) list \<Rightarrow>
    ('c, 'w, 'x) router" where
  "nest r [] = r"
| "nest r ((pre, mw) # gs) = nest (router_use (router_group r pre) mw) gs"

lemma nest_fields:
  "rt_prefix (nest r gs) = rt_prefix r @ concat (map fst gs)"
  "rt_middleware (nest r gs) = rt_middleware r @ concat (map snd gs)"
  "rt_coercer (nest r gs) = rt_coercer r"
  "rt_error_writer (nest r gs) = rt_error_writer r"
  "rt_logger (nest r gs) = rt_logger r"
  "rt_parser (nest r gs) = rt_parser r"
  by (induction r gs rule: nest.induct) (simp_all add: router_use_def router_group_def)

text \<open>A middleware that only leaves a label in the application state.\<close>

definition tap :: "'a \<Rightarrow> ('c, 'a list) http_middleware" where
  "tap l next r s = next r (s\<lparr>w_app := w_app s @ [l]\<rparr>)"

lemma apply_taps:
  "apply_middleware h (map tap ls) = (\<lambda>r s. h r (s\<lparr>w_app := w_app s @ ls\<rparr>))"
  by (induction ls) (simp_all add: tap_def fun_eq_iff)

lemma concat_map_taps: "concat (map (\<lambda>(pre, ls). map tap ls) gs) = map tap (concat (map snd gs))"
  by (induction gs) auto

section \<open>Use and Group on the heap\<close>

text \<open>
  The middleware field is a slice and \<open>Use\<close> appends to it in place where it can; \<open>Group\<close>
  starts the child from a fresh copy, \<open>append([]Middleware(nil), r.middleware...)\<close>.
\<close>

definition use_mem :: "'m list \<Rightarrow> 'm slice_heap \<Rightarrow> slice \<Rightarrow> 'm list \<Rightarrow> 'm slice_heap \<times> slice" where
  "use_mem spare h mws mw = slice_append spare h mws mw"

definition group_mem :: "'m list \<Rightarrow> 'm slice_heap \<Rightarrow> slice \<Rightarrow> 'm slice_heap \<times> slice" where
  "group_mem spare h mws = slice_append spare h nil_slice (slice_contents h mws)"

text \<open>Any interleaving of \<open>Use\<close> on the parent (\<open>False\<close>) and on the child (\<open>True\<close>).\<close>

fun run_uses :: "'m slice_heap \<Rightarrow> slice \<Rightarrow> slice \<Rightarrow> (bool \<times> 'm list \<times> 'm list) list \<Rightarrow>
    'm slice_heap \<times> slice \<times> slice" where
  "run_uses h p c [] = (h, p, c)"
| "run_uses h p c ((child, spare, mw) # us) =
     (if child then (case use_mem spare h c mw of (h', c') \<Rightarrow> run_uses h' p c' us)
      else (case use_mem spare h p mw of (h', p') \<Rightarrow> run_uses h' p' c us))"

definition apart :: "'m slice_heap \<Rightarrow> slice \<Rightarrow> slice \<Rightarrow> bool" where
  "apart h p c \<longleftrightarrow> slice_valid h p \<and> slice_valid h c \<and>
     (sl_arr p \<noteq> sl_arr c \<or> sl_cap p = sl_len p \<and> sl_cap c = sl_len c)"

lemma apart_sym: "apart h p c \<Longrightarrow> apart h c p"
  by (auto simp: apart_def)

lemma use_mem_apart:
  assumes "apart h p c" and "use_mem spare h p mw = (h', p')"
  shows "apart h' p' c \<and> slice_contents h' p' = slice_contents h p @ mw \<and>
    slice_contents h' c = slice_contents h c"
proof -
  from assms have app: "slice_append spare h p mw = (h', p')" by (simp add: use_mem_def)
  from assms(1) have p: "slice_valid h p" and c: "slice_valid h c"
    and sep: "sl_arr p \<noteq> sl_arr c \<or> sl_cap p = sl_len p \<and> sl_cap c = sl_len c"
    by (auto simp: apart_def)
  have frame: "slice_contents h' c = slice_contents h c \<and> slice_valid h' c"
    using sep by (intro slice_append_frame [OF c app]) auto
  have "sl_arr p' \<noteq> sl_arr c \<or> sl_cap p' = sl_len p' \<and> sl_cap c = sl_len c"
    using app sep c by (auto simp: slice_append_def slice_valid_def Let_def split: if_splits)
  with frame slice_append_contents [OF p app] slice_append_valid [OF p app] show ?thesis
    by (simp add: apart_def)
qed

lemma run_uses_apart:
  assumes "apart h p c" and "run_uses h p c us = (h', p', c')"
  shows "slice_contents h' p' =
      slice_contents h p @ concat (map (\<lambda>(child, spare, mw). if child then [] else mw) us) \<and>
    slice_contents h' c' =
      slice_contents h c @ concat (map (\<lambda>(child, spare, mw). if child then mw else []) us)"
  using assms
proof (induction us arbitrary: h p c)
  case (Cons u us)
  obtain child spare mw where u: "u = (child, spare, mw)" by (cases u)
  show ?case
  proof (cases child)
    case True
    with Cons.prems(2) u obtain h1 c1 where use: "use_mem spare h c mw = (h1, c1)"
      and rest: "run_uses h1 p c1 us = (h', p', c')" by (auto split: prod.splits)
    note a = use_mem_apart [OF apart_sym [OF Cons.prems(1)] use]
    with Cons.IH [OF apart_sym rest] True show ?thesis by (simp add: u)
  next
    case False
    with Cons.prems(2) u obtain h1 p1 where use: "use_mem spare h p mw = (h1, p1)"
      and rest: "run_uses h1 p1 c us = (h', p', c')" by (auto split: prod.splits)
    note a = use_mem_apart [OF Cons.prems(1) use]
    with Cons.IH [OF _ rest] False show ?thesis by (simp add: u)
  qed
qed simp

lemma group_mem_apart:
  assumes "slice_valid h p" and "arr h 0 = []" and "group_mem spare h p = (h', c)"
  shows "apart h' p c \<and> slice_contents h' p = slice_contents h p \<and>
    slice_contents h' c = slice_contents h p"
proof -
  from assms(1) have brk: "0 < brk h" by (auto simp: slice_valid_def)
  from assms(3) have app: "slice_append spare h nil_slice (slice_contents h p) = (h', c)"
    by (simp add: group_mem_def)
  note nv = nil_slice_valid [OF brk]
  have frame: "slice_contents h' p = slice_contents h p \<and> slice_valid h' p"
    by (rule slice_append_frame [OF assms(1) app]) (simp add: nil_slice_def)
  have "sl_arr p \<noteq> sl_arr c \<or> sl_cap p = sl_len p \<and> sl_cap c = sl_len c"
    using app assms(1,2)
    by (auto simp: slice_append_def slice_valid_def nil_slice_def Let_def split: if_splits)
  with frame slice_append_contents [OF nv app] slice_append_valid [OF nv app] show ?thesis
    by (simp add: apart_def)
qed

section \<open>A recovered panic\<close>

lemma recoverer_ret: "nxt r s = (Ret e, s') \<Longrightarrow> recoverer stack nxt r s = (Ret e, s')"
  by (simp add: recoverer_def)

lemma recoverer_abort:
  "nxt r s = (Panic p, s') \<Longrightarrow> is_abort_handler p \<Longrightarrow> recoverer stack nxt r s = (Panic p, s')"
  by (simp add: recoverer_def)

lemma recoverer_panic:
  assumes "nxt r s = (Panic p, s')" and "\<not> is_abort_handler p"
  shows "\<exists>s''. recoverer stack nxt r s =
      (Ret (Some (EReq (http_new ''unknown'' [] [ErrText (''panic: '' @ panic_text p)]))), s'') \<and>
    h_rw s'' = h_rw s' \<and> w_app s'' = w_app s' \<and>
    w_log s'' = w_log s' @ [\<lparr>le_logger = http_logger_from (rq_ctx r) s', le_level = LevelError,
      le_msg = ''handler panic'', le_attrs = [(''panic'', panic_text p), (''stack'', stack)]\<rparr>]"
  using assms by (simp add: recoverer_def log_to_def)

lemma unknown_json:
  "req_error_json (http_new ''unknown'' [] cs) = Some (JObj [(''code'', JStr ''unknown'')])"
  by (simp add: req_error_json_def http_new_def)

lemma code_statuses_unknown [simp]: "code_statuses ''unknown'' = Some 500"
  by (simp add: code_statuses.simps)

context http_coercer
begin

lemma recovered_route:
  assumes "rt_middleware r @ mw = recoverer stack # rest"
    and "rt_error_writer r = None" and "rt_coercer r = Some coerce"
    and "apply_middleware h rest (enrich (rt_logger r) req) s = (Panic p, s')"
    and "\<not> is_abort_handler p" and "rw_sent (h_rw s') = None"
  shows "\<exists>s''. serve_route r h mw req s = (Ret (), s'') \<and>
    final_status (h_rw s'') = 500 \<and>
    rw_body (h_rw s'') = rw_body (h_rw s') @ [ChunkJson (JObj [(''code'', JStr ''unknown'')])] \<and>
    w_app s'' = w_app s'"
proof -
  let ?e = "http_new ''unknown'' [] [ErrText (''panic: '' @ panic_text p)]"
  from recoverer_panic [where nxt = "apply_middleware h rest" and r = "enrich (rt_logger r) req",
      OF assms(4,5), of stack] obtain t where
    t: "recoverer stack (apply_middleware h rest) (enrich (rt_logger r) req) s = (Ret (Some (EReq ?e)), t)"
      "h_rw t = h_rw s'" "w_app t = w_app s'" by auto
  have "coerce (Some (EReq ?e)) = Some ?e"
    by (rule pass_through) (simp add: errors_as_self the_req_def)
  with t assms(1-3,6) show ?thesis
    by (simp add: serve_route_eq default_error_writer_def unknown_json write_json_ok
        final_status_def)
qed

end

section \<open>Properties\<close>

definition plain_router :: "(unit, string list, unit) router" where
  "plain_router = \<lparr>rt_coercer = Some default_coercer, rt_error_writer = None, rt_parser = None,
     rt_logger = None, rt_prefix = '''', rt_middleware = []\<rparr>"

definition plain_world :: "string list hworld" where
  "plain_world = \<lparr>w_default = ''default'', w_log = [], w_app = [], h_rw = fresh_response\<rparr>"

text \<open>C9: A typed handler's failure is answered whole or not at all: when binding or the handler
  fails, nothing of a success response has been written, and the default error writer then sends
  exactly one JSON body under the status of the coerced error (a bare 500 when its metadata does not
  encode).\<close>

theorem failures_are_answered_whole:
  assumes "adapt env parser t zero rt handler = Inr h" and "h (enrich (rt_logger r) req) s = (Ret (Some err), s')"
    and "rt_middleware r = []" and "rt_error_writer r = None" and "rt_coercer r = Some default_coercer"
    and "default_coercer (Some err) = Some e" and "200 \<le> status_code e" and "status_code e \<le> 999"
    and "rw_sent (h_rw s) = None" and "rw_body (h_rw s) = []"
  shows "\<exists>s''. serve_route r h [] req s = (Ret (), s'') \<and>
    final_status (h_rw s'') = (case req_error_json e of None \<Rightarrow> 500 | Some j \<Rightarrow> status_code e) \<and>
    rw_body (h_rw s'') = (case req_error_json e of None \<Rightarrow> [] | Some j \<Rightarrow> [ChunkJson j])"
proof -
  have "h_rw s' = h_rw s" by (rule adapt_error_clean [OF assms(1,2)])
  with default_http.error_writer_responds [OF _ assms(6-8), of s' "enrich (rt_logger r) req"] assms
  show ?thesis by (simp add: serve_route_eq)
qed

definition missing_handler :: "(unit, string list, unit, unit) typed_handler" where
  "missing_handler ctx v s = (Ret (Inl (EReq (http_new ''not_found'' [] []))), s)"

definition no_content :: "unit resp_type" where
  "no_content = \<lparr>rs_empty = True, rs_status_coder = None, rs_encode = (\<lambda>_. Inr (JObj []))\<rparr>"

lemma missing_adapted:
  "\<exists>h. adapt sample_env None TEmpty [] no_content missing_handler = Inr h \<and>
     (\<forall>r s. h r s = (Ret (Some (EReq (http_new ''not_found'' [] []))), s))"
  by (simp add: adapt_def zero_parser_def build_binder_def is_empty_type_def empty_plan_def
      bind_request_def on_world_def missing_handler_def)

theorem failures_are_answered_whole_witness:
  "\<exists>h s'. adapt sample_env None TEmpty [] no_content missing_handler = Inr h \<and>
     serve_route plain_router h [] (sample_http_request '''' '''' '''') plain_world = (Ret (), s') \<and>
     final_status (h_rw s') = 404 \<and> rw_body (h_rw s') = [ChunkJson (JObj [(''code'', JStr ''not_found'')])]"
proof -
  from missing_adapted obtain h where
    h: "adapt sample_env None TEmpty [] no_content missing_handler = Inr h"
      "\<And>r s. h r s = (Ret (Some (EReq (http_new ''not_found'' [] []))), s)" by blast
  have c: "default_coercer (Some (EReq (http_new ''not_found'' [] []))) = Some (http_new ''not_found'' [] [])"
    by (rule default_http.pass_through) (simp add: errors_as_self the_req_def)
  have st: "status_code (http_new ''not_found'' [] ([] :: go_error list)) = 404"
    by (simp add: code_statuses.simps)
  have j: "req_error_json (http_new ''not_found'' [] ([] :: go_error list)) =
      Some (JObj [(''code'', JStr ''not_found'')])"
    by (simp add: req_error_json_def http_new_def)
  from failures_are_answered_whole [where r = plain_router and req = "sample_http_request '''' '''' ''''"
      and s = plain_world, OF h(1) h(2) _ _ _ c] st j
  obtain s'' where
    "serve_route plain_router h [] (sample_http_request '''' '''' '''') plain_world = (Ret (), s'')"
    "final_status (h_rw s'') = 404" "rw_body (h_rw s'') = [ChunkJson (JObj [(''code'', JStr ''not_found'')])]"
    by (auto simp: plain_router_def plain_world_def fresh_response_def)
  with h(1) show ?thesis by blast
qed

text \<open>Middleware runs outside in: on a route of a router cut from its parents by any number of
  \<open>Group\<close> and \<open>Use\<close> steps, the parents' middleware runs before the group's and the group's
  before the route's, each in the order it was given, then the handler; the route is registered under
  the concatenated prefixes.\<close>

theorem middleware_runs_outside_in:
  "serve_route (nest (r\<lparr>rt_middleware := map tap own\<rparr>) (map (\<lambda>(pre, ls). (pre, map tap ls)) gs)) h
     (map tap perRoute) req s =
   serve_route (r\<lparr>rt_middleware := []\<rparr>) h [] req
     (s\<lparr>w_app := w_app s @ own @ concat (map snd gs) @ perRoute\<rparr>) \<and>
   rt_prefix (nest (r\<lparr>rt_middleware := map tap own\<rparr>) (map (\<lambda>(pre, ls). (pre, map tap ls)) gs)) =
     rt_prefix r @ concat (map fst gs)"
proof -
  have m: "concat (map snd (map (\<lambda>(pre, ls). (pre, map tap ls)) gs)) = map tap (concat (map snd gs))"
    by (induction gs) auto
  have p: "map fst (map (\<lambda>(pre, ls). (pre, map tap ls)) gs) = map fst gs"
    by (induction gs) auto
  have u: "rt_error_writer (r\<lparr>rt_middleware := x\<rparr>) = rt_error_writer r"
    "rt_coercer (r\<lparr>rt_middleware := x\<rparr>) = rt_coercer r" "rt_logger (r\<lparr>rt_middleware := x\<rparr>) = rt_logger r"
    "rt_prefix (r\<lparr>rt_middleware := x\<rparr>) = rt_prefix r" for x
    by simp_all
  show ?thesis
    unfolding serve_route_eq nest_fields m p u by (simp add: apply_taps flip: map_append)
qed

text \<open>C25: A group is a snapshot of its parent: whatever is later added with \<open>Use\<close> to either of
  them, in any interleaving, the parent never sees the group's middleware nor the group the parent's,
  although \<open>Use\<close> appends to slices in place.\<close>

theorem groups_are_snapshots:
  assumes "slice_valid h p" and "arr h 0 = []" and "group_mem spare h p = (h1, c)"
    and "run_uses h1 p c us = (h2, p2, c2)"
  shows "slice_contents h2 p2 =
      slice_contents h p @ concat (map (\<lambda>(child, spare, mw). if child then [] else mw) us) \<and>
    slice_contents h2 c2 =
      slice_contents h p @ concat (map (\<lambda>(child, spare, mw). if child then mw else []) us)"
  using group_mem_apart [OF assms(1-3)] run_uses_apart [OF _ assms(4)] by simp

definition sample_chain_heap :: "string slice_heap" where
  "sample_chain_heap = \<lparr>arr = (\<lambda>_. [])(1 := [''log'', '''', '''']), brk = 2\<rparr>"

theorem groups_are_snapshots_witness:
  "case group_mem [] sample_chain_heap (Slice 1 1 3) of (h1, c) \<Rightarrow>
     (case run_uses h1 (Slice 1 1 3) c [(False, [], [''auth'']), (True, [], [''gzip''])] of (h2, p2, c2) \<Rightarrow>
        slice_contents h2 p2 = [''log'', ''auth''] \<and> slice_contents h2 c2 = [''log'', ''gzip''])"
proof -
  have v: "slice_valid sample_chain_heap (Slice 1 1 3)" "arr sample_chain_heap 0 = []"
    by (simp_all add: slice_valid_def sample_chain_heap_def)
  obtain h1 c where g: "group_mem [] sample_chain_heap (Slice 1 1 3) = (h1, c)" by fastforce
  obtain h2 p2 c2 where u: "run_uses h1 (Slice 1 1 3) c [(False, [], [''auth'']), (True, [], [''gzip''])] = (h2, p2, c2)"
    by (metis prod_cases3)
  from groups_are_snapshots [OF v g u] show ?thesis unfolding g prod.case u
    by (simp add: slice_contents_def sample_chain_heap_def)
qed

text \<open>With \<open>Recoverer\<close> first in the chain a panic becomes a 500 that tells the client
  nothing but the code unknown, provided nothing was written yet; the application state the handler
  left stays. \<open>http.ErrAbortHandler\<close> keeps propagating.\<close>

theorem recovered_panics_answer_unknown:
  assumes "rt_middleware r @ mw = recoverer stack # rest"
    and "rt_error_writer r = None" and "rt_coercer r = Some default_coercer"
    and "apply_middleware h rest (enrich (rt_logger r) req) s = (Panic p, s')"
    and "rw_sent (h_rw s') = None"
  shows "if is_abort_handler p then serve_route r h mw req s = (Panic p, s')
    else \<exists>s''. serve_route r h mw req s = (Ret (), s'') \<and> final_status (h_rw s'') = 500 \<and>
      rw_body (h_rw s'') = rw_body (h_rw s') @ [ChunkJson (JObj [(''code'', JStr ''unknown'')])] \<and>
      w_app s'' = w_app s'"
  using default_http.recovered_route [OF assms(1-4) _ assms(5)] assms
  by (simp add: serve_route_eq recoverer_def)

theorem recovered_panics_answer_unknown_witness:
  "\<exists>s''. serve_route plain_router (\<lambda>r s. (Panic (PanicMsg ''boom''), s)) [recoverer ''stack'']
     (sample_http_request '''' '''' '''') plain_world = (Ret (), s'') \<and> final_status (h_rw s'') = 500"
  using recovered_panics_answer_unknown [where r = plain_router and mw = "[recoverer ''stack'']"
      and stack = "''stack''" and rest = "[]" and h = "\<lambda>r s. (Panic (PanicMsg ''boom''), s)"
      and p = "PanicMsg ''boom''" and req = "sample_http_request '''' '''' ''''" and s = plain_world]
  by (auto simp: plain_router_def plain_world_def fresh_response_def is_abort_handler_def)

end
