(* ===== verification/VersionEndpoint.thy ===== *)
theory VersionEndpoint
  imports VersionResolver HttpRouter
begin

text \<open>
  Package version, \<open>http/version/context.go\<close> and \<open>endpoint.go\<close>: one logical route with
  a handler per version. An endpoint points to a resolver it shares with the others, so the
  resolver is an argument of the operations rather than a field. A nil handler is \<open>None\<close>:
  the marker that \<open>Withdraw\<close> leaves. An operation that panics returns the endpoint as it was.
\<close>

section \<open>The outcome on the context\<close>

record 'v resolved =
  rd_requested :: 'v
  rd_served :: 'v
  rd_latest :: bool
  rd_preview :: bool

record 'v vctx = go_ctx +
  ctx_resolved :: "'v resolved option"

type_synonym ('v, 'w) variant_handler = "(('v, unit) vctx_ext, 'w) http_handler"
type_synonym 'v version_request = "('v, unit) vctx_ext request"
type_synonym 'v version_resolver = "('v, ('v, unit) vctx_ext) resolver"

definition from_context :: "'v vctx \<Rightarrow> 'v resolved option" where
  "from_context ctx = ctx_resolved ctx"

section \<open>The endpoint\<close>

datatype match = MatchCompatible | MatchExact

record ('v, 'w) variant =
  va_version :: 'v
  va_handle :: "('v, 'w) variant_handler option"

record 'x endpoint_config =
  ec_match :: match
  ec_parser :: "'x request_parser option"

record ('v, 'w, 'x) endpoint =
  ep_config :: "'x endpoint_config"
  ep_variants :: "('v, 'w) variant list"
  ep_preview :: "('v, 'w) variant_handler option"

type_synonym 'x endpoint_option = "'x endpoint_config \<Rightarrow> 'x endpoint_config"

definition with_match :: "match \<Rightarrow> 'x endpoint_option" where
  "with_match m c = c\<lparr>ec_match := m\<rparr>"

definition with_parser :: "'x request_parser option \<Rightarrow> 'x endpoint_option" where
  "with_parser p c = c\<lparr>ec_parser := p\<rparr>"

definition new_endpoint :: "'v version_resolver option \<Rightarrow> 'x endpoint_option list \<Rightarrow>
    ('v, 'w, 'x) endpoint outcome" where
  "new_endpoint rv opts =
     (case rv of
        None \<Rightarrow> Panic (PanicMsg ''dflhttp/version: NewEndpoint needs a Resolver'')
      | Some _ \<Rightarrow>
          Ret \<lparr>ep_config = fold (\<lambda>opt c. opt c) opts \<lparr>ec_match = MatchCompatible, ec_parser = None\<rparr>,
               ep_variants = [], ep_preview = None\<rparr>)"

text \<open>
  \<open>search\<close>: the index of the version and true, or its insertion point and false.
\<close>

definition search :: "'v scheme \<Rightarrow> ('v, 'w) variant list \<Rightarrow> 'v \<Rightarrow> nat \<times> bool" where
  "search sc vs v = binary_search_func (\<lambda>x. sc_compare sc (va_version x) v) vs"

definition insert_variant :: "'v version_resolver \<Rightarrow> string \<Rightarrow> ('v, 'w) variant_handler option \<Rightarrow>
    ('v, 'w, 'x) endpoint \<Rightarrow> unit outcome \<times> ('v, 'w, 'x) endpoint" where
  "insert_variant rv raw h e =
     (case sc_parse (rv_scheme rv) raw of
        Inl err \<Rightarrow> (Panic (PanicMsg (''dflhttp/version: bad version '' @ go_quote raw @ '': ''
            @ err_text err)), e)
      | Inr v \<Rightarrow>
          (case search (rv_scheme rv) (ep_variants e) v of
             (at, found) \<Rightarrow>
               if found
               then (Panic (PanicMsg (''dflhttp/version: duplicate variant at ''
                       @ sc_format (rv_scheme rv) v)), e)
               else (Ret (), e\<lparr>ep_variants :=
                       slices_insert (ep_variants e) at \<lparr>va_version = v, va_handle = h\<rparr>\<rparr>)))"

definition endpoint_handle_func :: "'v version_resolver \<Rightarrow> string \<Rightarrow> ('v, 'w) variant_handler option \<Rightarrow>
    ('v, 'w, 'x) endpoint \<Rightarrow> unit outcome \<times> ('v, 'w, 'x) endpoint" where
  "endpoint_handle_func rv raw h e =
     (if raw \<in> set (rv_preview rv)
      then (case ep_preview e of
              Some _ \<Rightarrow> (Panic (PanicMsg ''dflhttp/version: duplicate preview variant''), e)
            | None \<Rightarrow> (Ret (), e\<lparr>ep_preview := h\<rparr>))
      else insert_variant rv raw h e)"

definition endpoint_handle :: "'x std_env \<Rightarrow> 'v version_resolver \<Rightarrow> string \<Rightarrow> go_type \<Rightarrow> 'x fval list \<Rightarrow>
    'resp resp_type \<Rightarrow> (('v, unit) vctx_ext, 'w, 'x, 'resp) typed_handler \<Rightarrow>
    ('v, 'w, 'x) endpoint \<Rightarrow> unit outcome \<times> ('v, 'w, 'x) endpoint" where
  "endpoint_handle env rv raw t zero rt handler e =
     (case adapt env (ec_parser (ep_config e)) t zero rt handler of
        Inl err \<Rightarrow> (Panic (PanicMsg (''dflhttp/version: '' @ err_text err)), e)
      | Inr h \<Rightarrow> endpoint_handle_func rv raw (Some h) e)"

definition withdraw :: "'v version_resolver \<Rightarrow> string \<Rightarrow> ('v, 'w, 'x) endpoint \<Rightarrow>
    unit outcome \<times> ('v, 'w, 'x) endpoint" where
  "withdraw rv raw e =
     (if raw \<in> set (rv_preview rv) \<or> raw \<in> set (rv_latest rv)
      then (Panic (PanicMsg ''dflhttp/version: Withdraw takes a dated version, not a channel literal''), e)
      else insert_variant rv raw None e)"

section \<open>Dispatch\<close>

definition channel :: "bool \<Rightarrow> bool \<Rightarrow> string" where
  "channel latest preview =
     (if preview then ''preview'' else if latest then ''latest'' else ''stable'')"

definition pick :: "'v scheme \<Rightarrow> match \<Rightarrow> ('v, 'w) variant list \<Rightarrow> 'v \<Rightarrow> ('v, 'w) variant option" where
  "pick sc m vs requested =
     (case search sc vs requested of
        (at, found) \<Rightarrow>
          if found then Some (vs ! at)
          else if m = MatchExact \<or> at = 0 then None
          else Some (vs ! (at - 1)))"

definition versions :: "('v, 'w, 'x) endpoint \<Rightarrow> 'v list" where
  "versions e = map va_version (ep_variants e)"

definition supported :: "'v scheme \<Rightarrow> ('v, 'w) variant list \<Rightarrow> string list" where
  "supported sc vs =
     List.map_filter (\<lambda>va. case va_handle va of None \<Rightarrow> None
        | Some _ \<Rightarrow> Some (sc_format sc (va_version va))) vs"

definition unsupported :: "'v scheme \<Rightarrow> ('v, 'w) variant list \<Rightarrow> string \<Rightarrow> go_error" where
  "unsupported sc vs asked =
     EReq (http_wrap err_unsupported ''version_unsupported''
       [(''version'', GStr asked), (''supported'', GStrs (supported sc vs))] [])"

text \<open>What \<open>Serve\<close> settles before it writes anything; \<open>dc_variant\<close> is \<open>chosen\<close>.\<close>

record ('v, 'w) decision =
  dc_requested :: 'v
  dc_variant :: "('v, 'w) variant"
  dc_dated :: bool
  dc_latest :: bool
  dc_preview :: bool
  dc_unpinned :: bool

definition error_is :: "go_error option \<Rightarrow> go_error \<Rightarrow> bool" where
  "error_is err target = (case err of None \<Rightarrow> False | Some e \<Rightarrow> errors_is e target)"

text \<open>A nil handler is a \<open>Withdraw\<close> marker.\<close>

definition refuse_withdrawn :: "'v scheme \<Rightarrow> ('v, 'w) decision \<Rightarrow> go_error + ('v, 'w) decision" where
  "refuse_withdrawn sc d =
     (if dc_dated d \<and> va_handle (dc_variant d) = None
      then Inl (EReq (http_wrap err_withdrawn ''endpoint_withdrawn''
             [(''withdrawn_at'', GStr (sc_format sc (va_version (dc_variant d)))),
              (''channel'', GStr (channel (dc_latest d) (dc_preview d)))] []))
      else Inr d)"

definition choose_variant :: "'v version_resolver \<Rightarrow> ('v, 'w, 'x) endpoint \<Rightarrow> 'v \<Rightarrow> bool \<Rightarrow> bool \<Rightarrow> bool \<Rightarrow>
    go_error + ('v, 'w) decision" where
  "choose_variant rv e requested unpinned latest preview =
     (let sc = rv_scheme rv; vs = ep_variants e;
          chosen = (\<lambda>req va dated.
            refuse_withdrawn sc (\<lparr>dc_requested = req, dc_variant = va, dc_dated = dated,
              dc_latest = latest, dc_preview = preview, dc_unpinned = unpinned\<rparr>))
      in if preview \<and> ep_preview e \<noteq> None
         then chosen requested (\<lparr>va_version = sc_zero sc, va_handle = ep_preview e\<rparr>) False
         else if latest \<or> preview
         then (if vs = [] then Inl (unsupported sc vs (channel latest preview))
               else chosen (va_version (last vs)) (last vs) True)
         else case pick sc (ec_match (ep_config e)) vs requested of
             None \<Rightarrow> Inl (unsupported sc vs (sc_format sc requested))
           | Some va \<Rightarrow> chosen requested va True)"

definition dispatch :: "'v version_resolver \<Rightarrow> ('v, 'w, 'x) endpoint \<Rightarrow> 'v version_request \<Rightarrow>
    go_error + ('v, 'w) decision" where
  "dispatch rv e r =
     (if ep_variants e = [] \<and> ep_preview e = None
      then Inl (EReq (with_status (http_new ''version_unconfigured'' [] []) 500))
      else case resolve_pin rv r of
          (requested, unpinned, err) \<Rightarrow>
            if error_is err err_latest then choose_variant rv e requested unpinned True False
            else if error_is err err_preview then choose_variant rv e requested unpinned False True
            else case err of
                Some x \<Rightarrow> Inl x
              | None \<Rightarrow> choose_variant rv e requested unpinned False False)"

text \<open>The two informational headers of an answered request.\<close>

definition dispatch_headers :: "'v version_resolver \<Rightarrow> ('v, 'w) decision \<Rightarrow> response \<Rightarrow> response" where
  "dispatch_headers rv d w =
     (let sc = rv_scheme rv;
          chan = channel (dc_latest d) (dc_preview d);
          served = sc_format sc (va_version (dc_variant d));
          w1 = (if rv_warn_header rv \<noteq> '''' \<and> dc_unpinned d
                then header_set (rv_warn_header rv) (if dc_dated d then served else chan) w else w)
      in if rv_status_header rv \<noteq> ''''
         then header_set (rv_status_header rv)
                (if dc_dated d then chan @ ''; version='' @ served else chan) w1
         else w1)"

definition serve :: "'v version_resolver \<Rightarrow> ('v, 'w, 'x) endpoint \<Rightarrow> ('v, 'w) variant_handler" where
  "serve rv e r s =
     (case dispatch rv e r of
        Inl err \<Rightarrow> (Ret (Some err), s)
      | Inr d \<Rightarrow>
          (let s' = s\<lparr>h_rw := dispatch_headers rv d (h_rw s)\<rparr>;
               resolved = \<lparr>rd_requested = dc_requested d, rd_served = va_version (dc_variant d),
                           rd_latest = dc_latest d, rd_preview = dc_preview d\<rparr>;
               r' = r\<lparr>rq_ctx := (rq_ctx r)\<lparr>ctx_resolved := Some resolved\<rparr>\<rparr>
           in case va_handle (dc_variant d) of
                None \<Rightarrow> (Panic (PanicMsg ''nil handler''), s')
              | Some h \<Rightarrow> h r' s'))"

section \<open>Ascending variants\<close>

definition ascending :: "'v scheme \<Rightarrow> ('v, 'w) variant list \<Rightarrow> bool" where
  "ascending sc vs = sorted_wrt (\<lambda>a b. sc_compare sc (va_version a) (va_version b) < 0) vs"

context version_order
begin

text \<open>The shape \<open>search\<close> finds: what is older than the version, then what is not.\<close>

lemma search_split:
  assumes "ascending sc vs"
  shows "\<exists>older rest. vs = older @ rest \<and>
    (\<forall>x \<in> set older. sc_compare sc (va_version x) v < 0) \<and>
    (\<forall>x \<in> set (tl rest). 0 < sc_compare sc (va_version x) v) \<and>
    (rest = [] \<or> 0 \<le> sc_compare sc (va_version (hd rest)) v) \<and>
    search sc vs v = (length older, rest \<noteq> [] \<and> sc_compare sc (va_version (hd rest)) v = 0)"
proof -
  let ?p = "\<lambda>x. sc_compare sc (va_version x) v < 0"
  define older where "older = takeWhile ?p vs"
  define rest where "rest = dropWhile ?p vs"
  have vs: "vs = older @ rest" by (simp add: older_def rest_def)
  have old: "\<forall>x \<in> set older. ?p x" by (auto simp: older_def dest: set_takeWhileD)
  have hd: "rest = [] \<or> 0 \<le> sc_compare sc (va_version (hd rest)) v"
    using hd_dropWhile [of ?p vs] by (fastforce simp: rest_def)
  have nth: "\<And>i j. i < j \<Longrightarrow> j < length vs \<Longrightarrow> ?p (vs ! j) \<Longrightarrow> ?p (vs ! i)"
    using assms compare_less_trans [OF _ order_less_imp_le]
    by (metis ascending_def sorted_wrt_nth_less)
  have "fst (search sc vs v) = length older"
    unfolding search_def older_def by (rule binary_search_func_spec) (use nth in blast)
  then have s: "search sc vs v = (length older, rest \<noteq> [] \<and> sc_compare sc (va_version (hd rest)) v = 0)"
    by (cases rest) (auto simp: search_def binary_search_func_def Let_def vs)
  have "0 < sc_compare sc (va_version x) v" if x: "x \<in> set (tl rest)" for x
  proof -
    from x have ne: "rest = hd rest # tl rest" by (cases rest) auto
    have "sorted_wrt (\<lambda>a b. sc_compare sc (va_version a) (va_version b) < 0) rest"
      using assms by (simp add: ascending_def vs sorted_wrt_append)
    with ne x have lt: "sc_compare sc (va_version (hd rest)) (va_version x) < 0"
      by (metis sorted_wrt.simps(2))
    from hd x have "sc_compare sc v (va_version (hd rest)) \<le> 0"
      by (cases rest) (auto simp: compare_le_flip)
    from compare_trans_less [OF this lt] show ?thesis by (simp add: compare_flip)
  qed
  with vs old hd s show ?thesis by blast
qed

lemma search_found_iff:
  assumes "ascending sc vs"
  shows "snd (search sc vs v) \<longleftrightarrow> (\<exists>x \<in> set vs. sc_compare sc (va_version x) v = 0)"
proof -
  from search_split [OF assms, of v] obtain older rest where
    s: "vs = older @ rest" "\<forall>x \<in> set older. sc_compare sc (va_version x) v < 0"
      "\<forall>x \<in> set (tl rest). 0 < sc_compare sc (va_version x) v"
      "search sc vs v = (length older, rest \<noteq> [] \<and> sc_compare sc (va_version (hd rest)) v = 0)"
    by blast
  then show ?thesis by (cases rest) fastforce+
qed

lemma insert_ascending:
  assumes "ascending sc vs" and "search sc vs v = (at, False)"
  shows "ascending sc (slices_insert vs at \<lparr>va_version = v, va_handle = h\<rparr>) \<and>
    set (slices_insert vs at \<lparr>va_version = v, va_handle = h\<rparr>) =
      insert \<lparr>va_version = v, va_handle = h\<rparr> (set vs)"
proof -
  from search_split [OF assms(1), of v] assms(2) obtain older rest where
    s: "vs = older @ rest" "\<forall>x \<in> set older. sc_compare sc (va_version x) v < 0"
      "\<forall>x \<in> set (tl rest). 0 < sc_compare sc (va_version x) v"
      "rest = [] \<or> 0 < sc_compare sc (va_version (hd rest)) v" "at = length older"
    by force
  from s(3,4) have "\<forall>x \<in> set rest. sc_compare sc v (va_version x) < 0"
    by (cases rest) (auto simp: compare_flip)
  with s assms(1) show ?thesis
    by (auto simp: slices_insert_def ascending_def sorted_wrt_append)
qed

lemma pick_split:
  assumes "ascending sc vs"
  shows "\<exists>older rest. vs = older @ rest \<and>
    (\<forall>x \<in> set older. sc_compare sc (va_version x) v < 0) \<and>
    (\<forall>x \<in> set (tl rest). 0 < sc_compare sc (va_version x) v) \<and>
    (rest = [] \<or> 0 \<le> sc_compare sc (va_version (hd rest)) v) \<and>
    pick sc m vs v =
      (if rest \<noteq> [] \<and> sc_compare sc (va_version (hd rest)) v = 0 then Some (hd rest)
       else if m = MatchExact \<or> older = [] then None else Some (last older))"
proof -
  from search_split [OF assms, of v] obtain older rest where
    s: "vs = older @ rest" "\<forall>x \<in> set older. sc_compare sc (va_version x) v < 0"
      "\<forall>x \<in> set (tl rest). 0 < sc_compare sc (va_version x) v"
      "rest = [] \<or> 0 \<le> sc_compare sc (va_version (hd rest)) v"
      "search sc vs v = (length older, rest \<noteq> [] \<and> sc_compare sc (va_version (hd rest)) v = 0)"
    by blast
  then have "pick sc m vs v =
      (if rest \<noteq> [] \<and> sc_compare sc (va_version (hd rest)) v = 0 then Some (hd rest)
       else if m = MatchExact \<or> older = [] then None else Some (last older))"
    by (cases rest; cases older) (auto simp: pick_def nth_append last_conv_nth)
  with s show ?thesis by blast
qed

end

section \<open>What a pin is served\<close>

text \<open>
  The contract of the two rules, over the set of variants: under \<open>MatchExact\<close> the variant at
  the version, under \<open>MatchCompatible\<close> the newest one that is not newer.
\<close>

definition serves :: "'v scheme \<Rightarrow> match \<Rightarrow> ('v, 'w) variant set \<Rightarrow> 'v \<Rightarrow> ('v, 'w) variant \<Rightarrow> bool" where
  "serves sc m V v va \<longleftrightarrow> va \<in> V \<and>
     (if m = MatchExact then sc_compare sc (va_version va) v = 0
      else sc_compare sc (va_version va) v \<le> 0 \<and>
        (\<forall>x \<in> V. sc_compare sc (va_version x) v \<le> 0 \<longrightarrow>
           sc_compare sc (va_version x) (va_version va) \<le> 0))"

context version_order
begin

lemma ascending_inj:
  assumes "ascending sc vs" and "x \<in> set vs" and "y \<in> set vs"
    and "sc_compare sc (va_version x) (va_version y) = 0"
  shows "x = y"
proof -
  from assms(2,3) obtain i j where ij: "i < length vs" "j < length vs" "x = vs ! i" "y = vs ! j"
    by (auto simp: in_set_conv_nth)
  have less: "sc_compare sc (va_version (vs ! a)) (va_version (vs ! b)) < 0"
    if "a < b" "b < length vs" for a b
    using assms(1) that by (metis ascending_def sorted_wrt_nth_less)
  from less [of i j] less [of j i] ij assms(4) compare_zero_sym have "i = j"
    by (metis less_irrefl linorder_neqE_nat)
  with ij show ?thesis by simp
qed

lemma serves_unique:
  assumes "ascending sc vs" and "serves sc m (set vs) v a" and "serves sc m (set vs) v b"
  shows "a = b"
proof (rule ascending_inj [OF assms(1)])
  show "a \<in> set vs" "b \<in> set vs" using assms(2,3) by (auto simp: serves_def)
  show "sc_compare sc (va_version a) (va_version b) = 0"
  proof (cases "m = MatchExact")
    case True
    with assms(2,3) have "sc_compare sc (va_version a) v \<le> 0" "sc_compare sc v (va_version b) \<le> 0"
      "sc_compare sc (va_version b) v \<le> 0" "sc_compare sc v (va_version a) \<le> 0"
      by (auto simp: serves_def compare_le_flip)
    then have "sc_compare sc (va_version a) (va_version b) \<le> 0"
      "sc_compare sc (va_version b) (va_version a) \<le> 0"
      by (blast intro: compare_trans)+
    then show ?thesis by (simp only: compare_le_flip [of "va_version b"])
  next
    case False
    with assms(2,3) have "sc_compare sc (va_version a) (va_version b) \<le> 0"
      "sc_compare sc (va_version b) (va_version a) \<le> 0"
      by (auto simp: serves_def)
    then show ?thesis using compare_le_flip [of "va_version b" "va_version a"] by linarith
  qed
qed

lemma pick_serves:
  assumes "ascending sc vs" and "pick sc m vs v = Some va"
  shows "serves sc m (set vs) v va"
proof -
  from pick_split [OF assms(1), of v m] obtain older rest where
    s: "vs = older @ rest" "\<forall>x \<in> set older. sc_compare sc (va_version x) v < 0"
      "\<forall>x \<in> set (tl rest). 0 < sc_compare sc (va_version x) v"
      "rest = [] \<or> 0 \<le> sc_compare sc (va_version (hd rest)) v"
    and p: "pick sc m vs v =
      (if rest \<noteq> [] \<and> sc_compare sc (va_version (hd rest)) v = 0 then Some (hd rest)
       else if m = MatchExact \<or> older = [] then None else Some (last older))"
    by blast
  show ?thesis
  proof (cases "rest \<noteq> [] \<and> sc_compare sc (va_version (hd rest)) v = 0")
    case True
    with assms(2) p have va: "va = hd rest" by simp
    have "sc_compare sc (va_version x) (va_version va) \<le> 0" if "sc_compare sc (va_version x) v \<le> 0" for x
      using that True va compare_trans [of "va_version x" v "va_version va"] by (simp add: compare_le_flip)
    with True va s(1) show ?thesis by (auto simp: serves_def)
  next
    case False
    with assms(2) p have m: "m \<noteq> MatchExact" and o: "older \<noteq> []" and va: "va = last older"
      by (auto split: if_splits)
    from False s(3,4) have newer: "\<forall>x \<in> set rest. 0 < sc_compare sc (va_version x) v"
      by (cases rest) auto
    from assms(1) s(1) have asc: "ascending sc (butlast older @ [last older])"
      using o by (simp add: ascending_def sorted_wrt_append)
    then have "\<forall>x \<in> set (butlast older). sc_compare sc (va_version x) (va_version va) < 0"
      by (simp add: ascending_def sorted_wrt_append va)
    moreover have "set older = insert va (set (butlast older))"
      using o va by (metis append_butlast_last_id set_append list.set(1,2) Un_insert_right sup_bot_right)
    ultimately have "\<forall>x \<in> set older. sc_compare sc (va_version x) (va_version va) \<le> 0"
      by auto
    moreover have "va \<in> set older" using o va by simp
    ultimately show ?thesis using newer s(1,2) m unfolding serves_def
      by (auto intro: order_less_imp_le dest: leD)
  qed
qed

lemma pick_None:
  assumes "ascending sc vs" and "pick sc m vs v = None" and "serves sc m (set vs) v va"
  shows False
proof -
  from pick_split [OF assms(1), of v m] obtain older rest where
    s: "vs = older @ rest" "\<forall>x \<in> set older. sc_compare sc (va_version x) v < 0"
      "\<forall>x \<in> set (tl rest). 0 < sc_compare sc (va_version x) v"
      "rest = [] \<or> 0 \<le> sc_compare sc (va_version (hd rest)) v"
    and p: "pick sc m vs v =
      (if rest \<noteq> [] \<and> sc_compare sc (va_version (hd rest)) v = 0 then Some (hd rest)
       else if m = MatchExact \<or> older = [] then None else Some (last older))"
    by blast
  from assms(2) p s(3,4) have newer: "\<forall>x \<in> set rest. 0 < sc_compare sc (va_version x) v"
    and m: "m = MatchExact \<or> older = []"
    by (cases rest; auto split: if_splits)+
  from assms(3) have va: "va \<in> set older \<union> set rest" "sc_compare sc (va_version va) v \<le> 0"
    "m = MatchExact \<longrightarrow> sc_compare sc (va_version va) v = 0"
    by (auto simp: serves_def s(1) split: if_splits)
  with newer m s(2) show False by fastforce
qed

lemma pick_iff:
  "ascending sc vs \<Longrightarrow> pick sc m vs v = Some va \<longleftrightarrow> serves sc m (set vs) v va"
  by (metis not_None_eq pick_None pick_serves serves_unique)

text \<open>Two ascending lists of the same variants are the same list.\<close>

lemma ascending_unique:
  "ascending sc xs \<Longrightarrow> ascending sc ys \<Longrightarrow> set xs = set ys \<Longrightarrow> xs = ys"
proof (induction xs arbitrary: ys)
  case (Cons x xs)
  then obtain y ys' where ys: "ys = y # ys'" by (cases ys) auto
  have x: "\<forall>z \<in> set xs. sc_compare sc (va_version x) (va_version z) < 0"
    and y: "\<forall>z \<in> set ys'. sc_compare sc (va_version y) (va_version z) < 0"
    using Cons.prems by (auto simp: ascending_def ys)
  have "x = y"
  proof (rule ccontr)
    assume "x \<noteq> y"
    with Cons.prems(3) have "x \<in> set ys'" "y \<in> set xs" by (auto simp: ys)
    with x y have "sc_compare sc (va_version x) (va_version y) < 0"
      "sc_compare sc (va_version y) (va_version x) < 0" by auto
    then show False by (simp add: compare_flip)
  qed
  moreover have "x \<notin> set xs" "y \<notin> set ys'" using x y by fastforce+
  then have "set xs = set ys'" using Cons.prems(3) \<open>x = y\<close> by (auto simp: ys)
  then have "xs = ys'" using Cons.prems by (intro Cons.IH) (auto simp: ascending_def ys)
  ultimately show ?case by (simp add: ys)
qed simp

end

section \<open>Registration\<close>

text \<open>A declaration on an endpoint; a typed one is the raw one of its adapted handler.\<close>

datatype ('v, 'w) variant_decl =
    DeclHandle string "('v, 'w) variant_handler option"
  | DeclWithdraw string

fun declare_op :: "'v version_resolver \<Rightarrow> ('v, 'w) variant_decl \<Rightarrow> ('v, 'w, 'x) endpoint \<Rightarrow>
    unit outcome \<times> ('v, 'w, 'x) endpoint" where
  "declare_op rv (DeclHandle raw h) e = endpoint_handle_func rv raw h e"
| "declare_op rv (DeclWithdraw raw) e = withdraw rv raw e"

definition declare_all :: "'v version_resolver \<Rightarrow> ('v, 'w) variant_decl list \<Rightarrow> ('v, 'w, 'x) endpoint \<Rightarrow>
    ('v, 'w, 'x) endpoint" where
  "declare_all rv ds e = fold (\<lambda>d e. snd (declare_op rv d e)) ds e"

text \<open>The declarations as one wiring function makes them: the first panic ends it.\<close>

fun declare_seq :: "'v version_resolver \<Rightarrow> ('v, 'w) variant_decl list \<Rightarrow> ('v, 'w, 'x) endpoint \<Rightarrow>
    ('v, 'w, 'x) endpoint outcome" where
  "declare_seq rv [] e = Ret e"
| "declare_seq rv (d # ds) e =
     (case declare_op rv d e of (Panic p, e') \<Rightarrow> Panic p | (Ret _, e') \<Rightarrow> declare_seq rv ds e')"

text \<open>The dated variant a declaration stands for, and its preview handler.\<close>

fun decl_variant :: "'v version_resolver \<Rightarrow> ('v, 'w) variant_decl \<Rightarrow> ('v, 'w) variant option" where
  "decl_variant rv (DeclHandle raw h) =
     (if raw \<in> set (rv_preview rv) then None
      else case sc_parse (rv_scheme rv) raw of
          Inl err \<Rightarrow> None | Inr v \<Rightarrow> Some \<lparr>va_version = v, va_handle = h\<rparr>)"
| "decl_variant rv (DeclWithdraw raw) =
     (case sc_parse (rv_scheme rv) raw of
        Inl err \<Rightarrow> None | Inr v \<Rightarrow> Some \<lparr>va_version = v, va_handle = None\<rparr>)"

fun decl_preview :: "'v version_resolver \<Rightarrow> ('v, 'w) variant_decl \<Rightarrow> ('v, 'w) variant_handler option" where
  "decl_preview rv (DeclHandle raw h) = (if raw \<in> set (rv_preview rv) then h else None)"
| "decl_preview rv (DeclWithdraw raw) = None"

fun is_channel_withdrawal :: "'v version_resolver \<Rightarrow> ('v, 'w) variant_decl \<Rightarrow> bool" where
  "is_channel_withdrawal rv (DeclWithdraw raw) =
     (raw \<in> set (rv_preview rv) \<or> raw \<in> set (rv_latest rv))"
| "is_channel_withdrawal rv (DeclHandle raw h) = False"

abbreviation decl_variants :: "'v version_resolver \<Rightarrow> ('v, 'w) variant_decl list \<Rightarrow> ('v, 'w) variant list" where
  "decl_variants rv ds \<equiv> List.map_filter (decl_variant rv) ds"

abbreviation decl_previews :: "'v version_resolver \<Rightarrow> ('v, 'w) variant_decl list \<Rightarrow>
    ('v, 'w) variant_handler list" where
  "decl_previews rv ds \<equiv> List.map_filter (decl_preview rv) ds"

text \<open>A declaration that names a version or, for a preview, a handler.\<close>

definition decl_ok :: "'v version_resolver \<Rightarrow> ('v, 'w) variant_decl \<Rightarrow> bool" where
  "decl_ok rv d \<longleftrightarrow> (decl_variant rv d \<noteq> None \<or> decl_preview rv d \<noteq> None) \<and>
     \<not> is_channel_withdrawal rv d"

context version_order
begin

lemma insert_variant_eq:
  assumes "rv_scheme rv = sc" and "ascending sc (ep_variants e)"
    and "sc_parse sc raw = Inr v" and va: "va = \<lparr>va_version = v, va_handle = h\<rparr>"
  shows "if \<exists>x \<in> set (ep_variants e). sc_compare sc (va_version x) v = 0
    then insert_variant rv raw h e = (Panic (PanicMsg (''dflhttp/version: duplicate variant at ''
           @ sc_format sc v)), e)
    else \<exists>vs. insert_variant rv raw h e = (Ret (), e\<lparr>ep_variants := vs\<rparr>) \<and>
           ascending sc vs \<and> set vs = insert va (set (ep_variants e))"
proof (cases "search sc (ep_variants e) v")
  case (Pair at found)
  with search_found_iff [OF assms(2), of v] insert_ascending [OF assms(2), of v at h] assms show ?thesis
    by (cases found) (auto simp: insert_variant_def)
qed

lemma insert_variant_ascending:
  assumes "rv_scheme rv = sc" and "ascending sc (ep_variants e)"
  shows "ascending sc (ep_variants (snd (insert_variant rv raw h e)))"
proof (cases "sc_parse sc raw")
  case (Inr v)
  from insert_variant_eq [OF assms Inr refl, of h] assms(2) show ?thesis
    by (auto split: if_splits)
qed (use assms in \<open>simp add: insert_variant_def\<close>)

lemma declare_op_ascending:
  assumes "rv_scheme rv = sc" and "ascending sc (ep_variants e)"
  shows "ascending sc (ep_variants (snd (declare_op rv d e)))"
  using assms insert_variant_ascending [OF assms]
  by (cases d) (auto simp: endpoint_handle_func_def withdraw_def split: option.splits)

lemma declare_all_ascending:
  assumes "rv_scheme rv = sc" and "ascending sc (ep_variants e)"
  shows "ascending sc (ep_variants (declare_all rv ds e))"
  using assms(2) unfolding declare_all_def
  by (induction ds arbitrary: e) (simp_all add: declare_op_ascending [OF assms(1)])

end

text \<open>The declarations that can be made on an endpoint, whatever their order.\<close>

definition declarable :: "'v scheme \<Rightarrow> 'v version_resolver \<Rightarrow> ('v, 'w) variant_decl list \<Rightarrow>
    ('v, 'w, 'x) endpoint \<Rightarrow> bool" where
  "declarable sc rv ds e \<longleftrightarrow>
     sorted_wrt (\<lambda>a b. sc_compare sc (va_version a) (va_version b) \<noteq> 0) (decl_variants rv ds) \<and>
     (\<forall>y \<in> set (decl_variants rv ds). \<forall>x \<in> set (ep_variants e).
        sc_compare sc (va_version x) (va_version y) \<noteq> 0) \<and>
     length (decl_previews rv ds) + (if ep_preview e = None then 0 else 1) \<le> 1"

text \<open>The endpoint after a declaration that is accepted.\<close>

definition declared :: "'v scheme \<Rightarrow> 'v version_resolver \<Rightarrow> ('v, 'w) variant_decl list \<Rightarrow>
    ('v, 'w, 'x) endpoint \<Rightarrow> ('v, 'w, 'x) endpoint \<Rightarrow> bool" where
  "declared sc rv ds e e' \<longleftrightarrow>
     ascending sc (ep_variants e') \<and>
     set (ep_variants e') = set (ep_variants e) \<union> set (decl_variants rv ds) \<and>
     ep_preview e' = (case decl_previews rv ds of [] \<Rightarrow> ep_preview e | h # _ \<Rightarrow> Some h) \<and>
     ep_config e' = ep_config e"

context version_order
begin

lemma declare_op_iff:
  assumes "rv_scheme rv = sc" and "ascending sc (ep_variants e)" and "decl_ok rv d"
  shows "if declarable sc rv [d] e
    then \<exists>e'. declare_op rv d e = (Ret (), e') \<and> declared sc rv [d] e e'
    else \<exists>p. declare_op rv d e = (Panic p, e)"
proof (cases "decl_variant rv d")
  case None
  with assms(3) obtain raw h where "d = DeclHandle raw (Some h)" "raw \<in> set (rv_preview rv)"
    by (cases d) (auto simp: decl_ok_def split: if_splits sum.splits)
  with assms(2) show ?thesis
    by (auto simp: declarable_def declared_def endpoint_handle_func_def map_filter_simps
        split: option.splits)
next
  case (Some va)
  then obtain raw h where ins: "declare_op rv d e = insert_variant rv raw h e"
      "decl_preview rv d = None"
    and p: "sc_parse sc raw = Inr (va_version va)" "va = \<lparr>va_version = va_version va, va_handle = h\<rparr>"
    using assms(1,3)
    by (cases d) (auto simp: decl_ok_def endpoint_handle_func_def withdraw_def split: if_splits sum.splits)
  show ?thesis
  proof (cases "\<exists>x \<in> set (ep_variants e). sc_compare sc (va_version x) (va_version va) = 0")
    case True
    with insert_variant_eq [OF assms(1,2) p] show ?thesis
      by (auto simp: declarable_def Some ins)
  next
    case False
    with insert_variant_eq [OF assms(1,2) p] obtain vs where
      vs: "insert_variant rv raw h e = (Ret (), e\<lparr>ep_variants := vs\<rparr>)"
        "ascending sc vs" "set vs = insert va (set (ep_variants e))" by auto
    with False show ?thesis by (simp add: declarable_def declared_def Some ins)
  qed
qed

lemma declarable_Cons:
  assumes "declared sc rv [d] e e'"
  shows "declarable sc rv (d # ds) e \<longleftrightarrow> declarable sc rv [d] e \<and> declarable sc rv ds e'"
  using assms
  by (cases "decl_variant rv d"; cases "decl_preview rv d")
     (auto simp: declarable_def declared_def map_filter_simps)

lemma declared_Cons:
  "declared sc rv [d] e e' \<Longrightarrow> declared sc rv ds e' e'' \<Longrightarrow> declarable sc rv (d # ds) e \<Longrightarrow>
     declared sc rv (d # ds) e e''"
  by (cases "decl_variant rv d"; cases "decl_preview rv d")
     (auto simp: declarable_def declared_def map_filter_simps split: list.splits)

lemma declare_seq_iff:
  assumes "rv_scheme rv = sc"
  shows "ascending sc (ep_variants e) \<Longrightarrow> \<forall>d \<in> set ds. decl_ok rv d \<Longrightarrow>
    if declarable sc rv ds e then \<exists>e'. declare_seq rv ds e = Ret e' \<and> declared sc rv ds e e'
    else \<exists>p. declare_seq rv ds e = Panic p"
proof (induction ds arbitrary: e)
  case Nil
  then show ?case by (auto simp: declarable_def declared_def map_filter_simps)
next
  case (Cons d ds)
  then have ok: "decl_ok rv d" "\<forall>d \<in> set ds. decl_ok rv d" by auto
  show ?case
  proof (cases "declarable sc rv [d] e")
    case True
    with declare_op_iff [OF assms Cons.prems(1) ok(1)] obtain e1 where
      e1: "declare_op rv d e = (Ret (), e1)" "declared sc rv [d] e e1" by auto
    then have "ascending sc (ep_variants e1)" by (simp add: declared_def)
    from Cons.IH [OF this ok(2)] e1 True declarable_Cons [OF e1(2), of ds] show ?thesis
      by (auto split: if_splits intro: declared_Cons [OF e1(2)])
  next
    case False
    with declare_op_iff [OF assms Cons.prems(1) ok(1)] obtain p where
      p: "declare_op rv d e = (Panic p, e)" by auto
    from False have "\<not> declarable sc rv (d # ds) e"
      by (cases "decl_variant rv d"; cases "decl_preview rv d")
         (auto simp: declarable_def map_filter_simps)
    with p show ?thesis by simp
  qed
qed

lemma declarable_mset:
  assumes "mset ds = mset ds'" and "declarable sc rv ds e"
  shows "declarable sc rv ds' e"
proof -
  have m: "mset (decl_variants rv ds) = mset (decl_variants rv ds')"
    "mset (decl_previews rv ds) = mset (decl_previews rv ds')"
    using assms(1) by (auto intro: mset_map_filter)
  from m have "set (decl_variants rv ds) = set (decl_variants rv ds')"
    "length (decl_previews rv ds) = length (decl_previews rv ds')"
    by (metis set_mset_mset, metis size_mset)
  moreover have "sorted_wrt (\<lambda>a b. sc_compare sc (va_version a) (va_version b) \<noteq> 0) (decl_variants rv ds')"
    by (rule sorted_wrt_mset [OF _ _ m(1)])
      (use assms(2) compare_zero_sym in \<open>auto simp: declarable_def\<close>)
  ultimately show ?thesis using assms(2) by (auto simp: declarable_def)
qed

lemma declared_mset:
  assumes "mset ds = mset ds'" and "declarable sc rv ds e"
    and "declared sc rv ds e e1" and "declared sc rv ds' e e2"
  shows "ep_variants e1 = ep_variants e2 \<and> ep_preview e1 = ep_preview e2 \<and> ep_config e1 = ep_config e2"
proof -
  have m: "mset (decl_variants rv ds) = mset (decl_variants rv ds')"
    "mset (decl_previews rv ds) = mset (decl_previews rv ds')"
    using assms(1) by (auto intro: mset_map_filter)
  have "decl_previews rv ds = decl_previews rv ds'"
    using m(2) assms(2) by (cases "decl_previews rv ds") (auto simp: declarable_def)
  moreover have "set (decl_variants rv ds) = set (decl_variants rv ds')"
    using m(1) by (metis set_mset_mset)
  then have "ep_variants e1 = ep_variants e2"
    using assms(3,4) by (intro ascending_unique) (auto simp: declared_def)
  ultimately show ?thesis using assms(3,4) by (simp add: declared_def)
qed

end

context version_order
begin

lemma declare_op_ret:
  assumes "rv_scheme rv = sc" and "ascending sc (ep_variants e)" and "declare_op rv d e = (Ret (), e')"
  shows "declarable sc rv [d] e \<and> declared sc rv [d] e e'"
proof (cases "decl_ok rv d")
  case True
  from declare_op_iff [OF assms(1,2) True] assms(3) show ?thesis
    by (auto split: if_splits)
next
  case False
  then consider raw where "d = DeclHandle raw None" "raw \<in> set (rv_preview rv)"
    | raw h err where "declare_op rv d e = insert_variant rv raw h e" "sc_parse sc raw = Inl err"
    | "\<exists>p. declare_op rv d e = (Panic p, e)"
    using assms(1) by (cases d)
      (fastforce simp: decl_ok_def endpoint_handle_func_def withdraw_def split: if_splits sum.splits)+
  then show ?thesis
  proof cases
    case 1
    with assms(2,3) show ?thesis
      by (auto simp: endpoint_handle_func_def declarable_def declared_def split: option.splits)
  next
    case 2
    with assms(1,3) show ?thesis by (simp add: insert_variant_def)
  next
    case 3
    with assms(3) show ?thesis by auto
  qed
qed

lemma declare_seq_ret:
  assumes "rv_scheme rv = sc"
  shows "ascending sc (ep_variants e) \<Longrightarrow> declare_seq rv ds e = Ret e' \<Longrightarrow>
    declarable sc rv ds e \<and> declared sc rv ds e e'"
proof (induction ds arbitrary: e)
  case Nil
  then show ?case by (auto simp: declarable_def declared_def)
next
  case (Cons d ds)
  then obtain e1 where e1: "declare_op rv d e = (Ret (), e1)" "declare_seq rv ds e1 = Ret e'"
    by (auto split: prod.splits outcome.splits)
  note op = declare_op_ret [OF assms Cons.prems(1) e1(1)]
  then have "ascending sc (ep_variants e1)" by (simp add: declared_def)
  from Cons.IH [OF this e1(2)] op show ?case
    using declarable_Cons [of rv d e e1 ds] declared_Cons [of rv d e e1 ds e'] by blast
qed

lemma new_endpoint_declared:
  assumes "rv_scheme rv = sc" and "new_endpoint (Some rv) opts = Ret e0"
    and "declare_seq rv ds e0 = Ret e"
  shows "ascending sc (ep_variants e) \<and> set (ep_variants e) = set (decl_variants rv ds) \<and>
    ep_config e = ep_config e0"
proof -
  from assms(2) have "ep_variants e0 = []" by (auto simp: new_endpoint_def)
  then show ?thesis using declare_seq_ret [OF assms(1) _ assms(3)]
    by (simp add: declared_def ascending_def)
qed

text \<open>Declarations newer than a pin leave what it is served alone.\<close>

lemma newer_declarations:
  assumes "rv_scheme rv = sc" and "ascending sc (ep_variants e)" and "declare_seq rv ds e = Ret e'"
    and "\<forall>x \<in> set (decl_variants rv ds). 0 < sc_compare sc (va_version x) v"
  shows "pick sc m (ep_variants e') v = pick sc m (ep_variants e) v"
proof -
  from declare_seq_ret [OF assms(1-3)] have d: "declared sc rv ds e e'" by simp
  have "serves sc m (set (ep_variants e')) v va \<longleftrightarrow> serves sc m (set (ep_variants e)) v va" for va
  proof -
    have "\<forall>x \<in> set (decl_variants rv ds). \<not> sc_compare sc (va_version x) v \<le> 0 \<and>
        sc_compare sc (va_version x) v \<noteq> 0"
      using assms(4) by fastforce
    moreover have "set (ep_variants e') = set (ep_variants e) \<union> set (decl_variants rv ds)"
      using d by (simp add: declared_def)
    ultimately show ?thesis unfolding serves_def by (simp add: ball_Un) blast
  qed
  then have "pick sc m (ep_variants e') v = Some va \<longleftrightarrow> pick sc m (ep_variants e) v = Some va" for va
    using d assms(2) by (simp add: pick_iff declared_def)
  then show ?thesis by (metis not_None_eq)
qed

lemma last_newest:
  assumes "ascending sc vs" and "vs \<noteq> []" and "x \<in> set vs"
  shows "sc_compare sc (va_version x) (va_version (last vs)) \<le> 0"
proof -
  have "vs = butlast vs @ [last vs]" using assms(2) by simp
  moreover from this assms(1) have "\<forall>y \<in> set (butlast vs). sc_compare sc (va_version y) (va_version (last vs)) < 0"
    by (metis (no_types, lifting) ascending_def list.set_intros(1) sorted_wrt_append)
  ultimately show ?thesis using assms(3)
    by (metis compare_self in_set_conv_decomp_first order_less_imp_le order_refl set_ConsD
        UnE set_append list.set(1) empty_iff)
qed

end

lemma error_is_simps [simp]:
  "error_is None t = False"
  "error_is (Some err_latest) err_latest"
  "error_is (Some err_preview) err_preview"
  "\<not> error_is (Some err_preview) err_latest"
  by (simp_all add: error_is_def errors_is_def chain.simps version_sentinels)

section \<open>Requests that resolve\<close>

lemma not_unconfigured: "va \<in> set (ep_variants e) \<Longrightarrow> ep_variants e \<noteq> []"
  by auto

lemma dispatch_pin:
  assumes "resolve_pin rv r = (v, unpinned, None)"
    and "pick (rv_scheme rv) (ec_match (ep_config e)) (ep_variants e) v = Some va"
    and "va \<in> set (ep_variants e)"
  shows "dispatch rv e r = refuse_withdrawn (rv_scheme rv)
    (\<lparr>dc_requested = v, dc_variant = va, dc_dated = True, dc_latest = False, dc_preview = False,
      dc_unpinned = unpinned\<rparr>)"
  using assms not_unconfigured [OF assms(3)]
  by (simp add: dispatch_def choose_variant_def Let_def)

lemma dispatch_unserved:
  assumes "resolve_pin rv r = (v, unpinned, None)" and "ep_variants e \<noteq> []"
    and "pick (rv_scheme rv) (ec_match (ep_config e)) (ep_variants e) v = None"
  shows "dispatch rv e r =
    Inl (unsupported (rv_scheme rv) (ep_variants e) (sc_format (rv_scheme rv) v))"
  using assms by (simp add: dispatch_def choose_variant_def Let_def)

lemma latest_not_preview: "err_latest \<noteq> err_preview" "err_preview \<noteq> err_latest"
  by (simp_all add: version_sentinels)

lemma dispatch_latest:
  assumes "resolve_pin rv r = (z, unpinned, Some err)"
    and "err = err_latest \<or> err = err_preview \<and> ep_preview e = None"
    and "ep_variants e \<noteq> []"
  shows "dispatch rv e r = refuse_withdrawn (rv_scheme rv)
    (\<lparr>dc_requested = va_version (last (ep_variants e)), dc_variant = last (ep_variants e),
      dc_dated = True, dc_latest = (err = err_latest), dc_preview = (err = err_preview),
      dc_unpinned = unpinned\<rparr>)"
  using assms by (auto simp: dispatch_def choose_variant_def Let_def latest_not_preview)

definition withdrawn_error :: "'v scheme \<Rightarrow> 'v \<Rightarrow> string \<Rightarrow> go_error" where
  "withdrawn_error sc v chan =
     EReq (http_wrap err_withdrawn ''endpoint_withdrawn''
       [(''withdrawn_at'', GStr (sc_format sc v)), (''channel'', GStr chan)] [])"

lemma refuse_withdrawn_marker:
  "dc_dated d \<Longrightarrow> va_handle (dc_variant d) = None \<Longrightarrow>
     refuse_withdrawn sc d =
       Inl (withdrawn_error sc (va_version (dc_variant d)) (channel (dc_latest d) (dc_preview d)))"
  by (simp add: refuse_withdrawn_def withdrawn_error_def)

lemma refuse_withdrawn_served:
  "va_handle (dc_variant d) = Some h \<Longrightarrow> refuse_withdrawn sc d = Inr d"
  by (simp add: refuse_withdrawn_def)

lemma withdrawn_error_gone:
  "errors_is (withdrawn_error sc v chan) err_withdrawn \<and>
   default_coercer (Some (withdrawn_error sc v chan)) =
     Some (http_wrap err_withdrawn ''endpoint_withdrawn''
       [(''withdrawn_at'', GStr (sc_format sc v)), (''channel'', GStr chan)] []) \<and>
   code_statuses ''endpoint_withdrawn'' = Some 410"
proof -
  have "errors_is (withdrawn_error sc v chan) err_withdrawn"
    by (rule errors_is_child [of err_withdrawn])
      (simp_all add: withdrawn_error_def http_wrap_def errors_is_self version_sentinels)
  then show ?thesis
    by (simp add: withdrawn_error_def default_coercer_def errors_as_self the_req_def
        code_statuses.simps)
qed

lemma dispatch_headers_frame:
  "rw_sent (dispatch_headers rv d w) = rw_sent w \<and> rw_body (dispatch_headers rv d w) = rw_body w"
  by (simp add: dispatch_headers_def Let_def)

lemma supported_iff:
  "s \<in> set (supported sc vs) \<longleftrightarrow>
     (\<exists>va h. va \<in> set vs \<and> va_handle va = Some h \<and> s = sc_format sc (va_version va))"
  by (induction vs) (auto simp: supported_def split: option.splits)

lemma decl_variants_parsed:
  "va \<in> set (decl_variants rv ds) \<Longrightarrow> \<exists>raw. sc_parse (rv_scheme rv) raw = Inr (va_version va)"
proof (induction ds)
  case (Cons d ds)
  then show ?case by (cases d) (auto split: if_splits sum.splits option.splits)
qed simp

section \<open>Properties\<close>

text \<open>An endpoint of an API versioned by numbers, for the witnesses.\<close>

definition sample_resolver :: "int version_resolver" where
  "sample_resolver =
     \<lparr>rv_scheme = seq_scheme, rv_sources = [query_source ''version''],
      rv_latest = [''latest''], rv_preview = [], rv_fallback = '''', rv_status_header = '''',
      rv_warn_header = ''''\<rparr>"

definition sample_handler :: "(int, nat) variant_handler" where
  "sample_handler r s = (Ret None, s\<lparr>w_app := w_app s + 1\<rparr>)"

definition sample_world :: "nat hworld" where
  "sample_world = \<lparr>w_default = ''default'', w_log = [], w_app = 0, h_rw = fresh_response\<rparr>"

definition sample_request :: "string \<Rightarrow> int version_request" where
  "sample_request pin =
     \<lparr>rq_method = ''GET'', rq_path_values = [], rq_query = [(''version'', pin)],
      rq_header = [], rq_body = '''', rq_remote_addr = '''',
      rq_ctx = \<lparr>ctx_http_logger = None, ctx_request_meta = None, ctx_event_logger = None,
        ctx_tx = None, ctx_resolved = None\<rparr>\<rparr>"

definition sample_decls :: "(int, nat) variant_decl list" where
  "sample_decls = [DeclHandle ''v2'' (Some sample_handler), DeclHandle ''v1'' (Some sample_handler)]"

definition empty_endpoint :: "match \<Rightarrow> (int, nat, unit) endpoint" where
  "empty_endpoint m = \<lparr>ep_config = \<lparr>ec_match = m, ec_parser = None\<rparr>, ep_variants = [], ep_preview = None\<rparr>"

definition sample_endpoint :: "(int, nat, unit) endpoint" where
  "sample_endpoint = (empty_endpoint MatchCompatible)
     \<lparr>ep_variants := [\<lparr>va_version = 1, va_handle = Some sample_handler\<rparr>,
                     \<lparr>va_version = 2, va_handle = Some sample_handler\<rparr>]\<rparr>"

lemma sample_parse:
  "seq_parse ''v1'' = Inr 1" "seq_parse ''v2'' = Inr 2" "seq_parse ''v3'' = Inr 3"
  "seq_parse ''v4'' = Inr 4"
  using seq_parse_nat [of 1 "''v1''"] seq_parse_nat [of 2 "''v2''"]
    seq_parse_nat [of 3 "''v3''"] seq_parse_nat [of 4 "''v4''"]
  by (simp_all add: itoa_def itoa_nat.simps digit_chars)

lemma seq_scheme_simps [simp]:
  "sc_parse seq_scheme = seq_parse" "sc_compare seq_scheme = cmp_compare"
  "sc_format seq_scheme = seq_format" "sc_zero seq_scheme = 0"
  by (simp_all add: seq_scheme_def)

lemma sample_declared:
  "declare_seq sample_resolver sample_decls (empty_endpoint MatchCompatible) = Ret sample_endpoint"
  by (simp add: sample_resolver_def sample_decls_def empty_endpoint_def sample_endpoint_def
      endpoint_handle_func_def insert_variant_def sample_parse search_def binary_search_func_def
      slices_insert_def bsearch_loop.simps cmp_compare_def Let_def)

lemma sample_trim:
  "trim_space ''v1'' = ''v1''" "trim_space ''v3'' = ''v3''" "trim_space ''latest'' = ''latest''"
  by (simp_all add: trim_space_def strip_front.simps space_encodings_def)

lemma sample_pins:
  "resolve_pin sample_resolver (sample_request ''v1'') = (1, False, None)"
  "resolve_pin sample_resolver (sample_request ''v3'') = (3, False, None)"
  "resolve_pin sample_resolver (sample_request ''latest'') = (0, False, Some err_latest)"
  by (simp_all add: resolve_pin_def sample_resolver_def sample_request_def query_source_def
      query_get_def get_value_def Let_def resolve_raw_def sample_trim sample_parse)

text \<open>Whatever is declared on a new endpoint, in whatever order and with whatever panics
  recovered on the way, its variants stand in strictly ascending order of the scheme.\<close>

theorem variants_stay_ascending:
  assumes "version_order (rv_scheme rv)" and "new_endpoint (Some rv) opts = Ret e"
  shows "ascending (rv_scheme rv) (ep_variants (declare_all rv ds e))"
proof -
  have "ascending (rv_scheme rv) (ep_variants e)"
    using assms(2) by (auto simp: new_endpoint_def ascending_def)
  then show ?thesis by (rule version_order.declare_all_ascending [OF assms(1) refl])
qed

lemma sample_order: "version_order (rv_scheme sample_resolver)"
  by (simp add: sample_resolver_def sequential.version_order_axioms)

lemma sample_new_endpoint: "new_endpoint (Some sample_resolver) [] = Ret (empty_endpoint MatchCompatible)"
  by (simp add: new_endpoint_def empty_endpoint_def)

theorem variants_stay_ascending_witness:
  "ascending seq_scheme (ep_variants (declare_all sample_resolver
     (sample_decls @ DeclWithdraw ''v2'' # sample_decls) (empty_endpoint MatchCompatible)))"
  using variants_stay_ascending [OF sample_order sample_new_endpoint]
  by (simp add: sample_resolver_def)

text \<open>C1: A request pinned to a version is answered by the declared variant its Match rule names
  (the newest declared version that is not newer than the pin, or under MatchExact the one at the
  pin), with the pin and the served version on its context and the resolver's informational headers
  set; a variant that is a withdrawal answers with endpoint_withdrawn and writes nothing.\<close>

theorem serve_follows_declarations:
  assumes "version_order (rv_scheme rv)" and "new_endpoint (Some rv) opts = Ret e0"
    and "declare_seq rv ds e0 = Ret e" and "resolve_pin rv r = (v, unpinned, None)"
    and "serves (rv_scheme rv) (ec_match (ep_config e0)) (set (decl_variants rv ds)) v va"
  shows "serve rv e r s =
    (case va_handle va of
       None \<Rightarrow> (Ret (Some (withdrawn_error (rv_scheme rv) (va_version va) ''stable'')), s)
     | Some h \<Rightarrow>
         h (r\<lparr>rq_ctx := (rq_ctx r)\<lparr>ctx_resolved := Some \<lparr>rd_requested = v, rd_served = va_version va,
              rd_latest = False, rd_preview = False\<rparr>\<rparr>\<rparr>)
           (s\<lparr>h_rw := dispatch_headers rv \<lparr>dc_requested = v, dc_variant = va, dc_dated = True,
              dc_latest = False, dc_preview = False, dc_unpinned = unpinned\<rparr> (h_rw s)\<rparr>))"
proof -
  from version_order.new_endpoint_declared [OF assms(1) refl assms(2,3)]
  have e: "ascending (rv_scheme rv) (ep_variants e)" "set (ep_variants e) = set (decl_variants rv ds)"
    "ep_config e = ep_config e0" by auto
  with assms(5) have "pick (rv_scheme rv) (ec_match (ep_config e)) (ep_variants e) v = Some va"
    "va \<in> set (ep_variants e)"
    by (auto simp: version_order.pick_iff [OF assms(1)] serves_def)
  from dispatch_pin [OF assms(4) this] show ?thesis
    by (auto simp: serve_def refuse_withdrawn_marker refuse_withdrawn_served channel_def Let_def
        split: option.splits)
qed

theorem serve_follows_declarations_witness:
  "\<exists>r'. serve sample_resolver sample_endpoint (sample_request ''v3'') sample_world = sample_handler r'
     sample_world \<and> ctx_resolved (rq_ctx r') =
       Some \<lparr>rd_requested = 3, rd_served = 2, rd_latest = False, rd_preview = False\<rparr>"
proof -
  have "serves (rv_scheme sample_resolver) (ec_match (ep_config (empty_endpoint MatchCompatible)))
      (set (decl_variants sample_resolver sample_decls)) 3
      (\<lparr>va_version = 2, va_handle = Some sample_handler\<rparr>)"
    by (auto simp: serves_def sample_resolver_def sample_decls_def sample_parse empty_endpoint_def)
  from serve_follows_declarations [OF sample_order sample_new_endpoint sample_declared sample_pins(2) this, of sample_world]
  show ?thesis by (auto simp: dispatch_headers_def sample_resolver_def Let_def)
qed

text \<open>C13: The order of the declarations does not matter: any other order of the same accepted
  declarations is accepted and builds the same endpoint.\<close>

theorem declaration_order_irrelevant:
  assumes "version_order (rv_scheme rv)" and "ascending (rv_scheme rv) (ep_variants e)"
    and "\<forall>d \<in> set ds. decl_ok rv d" and "declare_seq rv ds e = Ret e'" and "mset ds = mset ds'"
  shows "declare_seq rv ds' e = Ret e'"
proof -
  note iff = version_order.declare_seq_iff [OF assms(1) refl assms(2)]
  from iff [OF assms(3)] assms(4) have d: "declarable (rv_scheme rv) rv ds e"
    "declared (rv_scheme rv) rv ds e e'" by (auto split: if_splits)
  from assms(3) mset_eq_setD [OF assms(5)] have "\<forall>d \<in> set ds'. decl_ok rv d" by simp
  from iff [OF this] version_order.declarable_mset [OF assms(1,5) d(1)] obtain e2 where
    e2: "declare_seq rv ds' e = Ret e2" "declared (rv_scheme rv) rv ds' e e2"
    by (auto split: if_splits)
  from version_order.declared_mset [OF assms(1,5) d e2(2)] have "e2 = e'" by simp
  with e2(1) show ?thesis by simp
qed

theorem declaration_order_irrelevant_witness:
  "declare_seq sample_resolver (rev sample_decls) (empty_endpoint MatchCompatible) = Ret sample_endpoint"
proof (rule declaration_order_irrelevant [OF sample_order _ _ sample_declared])
  show "\<forall>d \<in> set sample_decls. decl_ok sample_resolver d"
    by (simp add: sample_decls_def decl_ok_def sample_resolver_def sample_parse)
qed (simp_all add: empty_endpoint_def ascending_def)

text \<open>A pin is stable: declaring further versions, all newer than the pin, does not change
  which variant answers it, under either Match rule.\<close>

theorem pins_are_stable:
  assumes "version_order (rv_scheme rv)" and "ascending (rv_scheme rv) (ep_variants e)"
    and "declare_seq rv ds e = Ret e'"
    and "\<forall>x \<in> set (decl_variants rv ds). 0 < sc_compare (rv_scheme rv) (va_version x) v"
  shows "pick (rv_scheme rv) m (ep_variants e') v = pick (rv_scheme rv) m (ep_variants e) v"
  by (rule version_order.newer_declarations [OF assms(1) refl assms(2-4)])

definition extended_endpoint :: "(int, nat, unit) endpoint" where
  "extended_endpoint = sample_endpoint\<lparr>ep_variants := ep_variants sample_endpoint @
     [\<lparr>va_version = 3, va_handle = None\<rparr>]\<rparr>"

lemma sample_ascending: "ascending (rv_scheme sample_resolver) (ep_variants sample_endpoint)"
  by (simp add: ascending_def sample_endpoint_def sample_resolver_def)

lemma sample_extended:
  "withdraw sample_resolver ''v3'' sample_endpoint = (Ret (), extended_endpoint)"
  by (simp add: sample_resolver_def withdraw_def sample_endpoint_def empty_endpoint_def
      extended_endpoint_def insert_variant_def sample_parse search_def binary_search_func_def
      slices_insert_def bsearch_loop.simps cmp_compare_def Let_def)

lemma sample_pick:
  "pick seq_scheme MatchCompatible (ep_variants sample_endpoint) 2 =
     Some \<lparr>va_version = 2, va_handle = Some sample_handler\<rparr>"
  by (simp add: pick_def sample_endpoint_def search_def binary_search_func_def bsearch_loop.simps
      cmp_compare_def)

theorem pins_are_stable_witness:
  "pick seq_scheme MatchCompatible (ep_variants extended_endpoint) 2 =
     Some \<lparr>va_version = 2, va_handle = Some sample_handler\<rparr>"
proof -
  have "declare_seq sample_resolver [DeclWithdraw ''v3''] sample_endpoint = Ret extended_endpoint"
    by (simp add: sample_extended)
  from pins_are_stable [OF sample_order sample_ascending this, of 2 MatchCompatible] sample_pick
  show ?thesis by (simp add: sample_resolver_def sample_parse)
qed

text \<open>C27: After \<open>Withdraw\<close> at a version newer than every declared one, under
  MatchCompatible, a request pinned at or past the withdrawal gets endpoint_withdrawn, a 410
  naming the version, and writes nothing; every older pin keeps its variant.\<close>

theorem withdrawn_from_then_on:
  assumes "version_order (rv_scheme rv)" and "ascending (rv_scheme rv) (ep_variants e)"
    and "ec_match (ep_config e) = MatchCompatible" and "withdraw rv raw e = (Ret (), e')"
    and "sc_parse (rv_scheme rv) raw = Inr w"
    and "\<forall>x \<in> set (ep_variants e). sc_compare (rv_scheme rv) (va_version x) w < 0"
    and "resolve_pin rv r = (v, unpinned, None)"
  shows "if sc_compare (rv_scheme rv) w v \<le> 0
    then \<exists>m. serve rv e' r s = (Ret (Some (EReq (http_wrap err_withdrawn ''endpoint_withdrawn''
             ((''withdrawn_at'', GStr (sc_format (rv_scheme rv) w)) # m) []))), s) \<and>
           status_code (http_wrap err_withdrawn ''endpoint_withdrawn'' m []) = 410
    else pick (rv_scheme rv) (ec_match (ep_config e')) (ep_variants e') v =
           pick (rv_scheme rv) MatchCompatible (ep_variants e) v"
proof -
  let ?sc = "rv_scheme rv" and ?w = "\<lparr>va_version = w, va_handle = None\<rparr>"
  have op: "declare_op rv (DeclWithdraw raw) e = (Ret (), e')" using assms(4) by simp
  from version_order.declare_op_ret [OF assms(1) refl assms(2) op] assms(5)
  have e': "ascending ?sc (ep_variants e')" "set (ep_variants e') = insert ?w (set (ep_variants e))"
    "ep_config e' = ep_config e" by (auto simp: declared_def)
  show ?thesis
  proof (cases "sc_compare ?sc w v \<le> 0")
    case True
    with assms(3,6) e'(2,3) version_order.compare_self [OF assms(1)]
    have "serves ?sc (ec_match (ep_config e')) (set (ep_variants e')) v ?w"
      by (auto simp: serves_def intro: order_less_imp_le)
    then have "pick ?sc (ec_match (ep_config e')) (ep_variants e') v = Some ?w"
      by (simp add: version_order.pick_iff [OF assms(1) e'(1)])
    from dispatch_pin [OF assms(7) this] e'(2) True show ?thesis
      by (auto simp: serve_def refuse_withdrawn_marker withdrawn_error_def code_statuses.simps)
  next
    case False
    have "declare_seq rv [DeclWithdraw raw] e = Ret e'" using op by simp
    from version_order.newer_declarations [OF assms(1) refl assms(2) this, of v] False e'(3) assms(3,5)
    show ?thesis by simp
  qed
qed

theorem withdrawn_from_then_on_witness:
  "\<exists>m. serve sample_resolver extended_endpoint (sample_request ''v3'') sample_world =
     (Ret (Some (EReq (http_wrap err_withdrawn ''endpoint_withdrawn''
       ((''withdrawn_at'', GStr (seq_format 3)) # m) []))), sample_world)"
proof -
  have "sc_parse (rv_scheme sample_resolver) ''v3'' = Inr 3"
    "\<forall>x \<in> set (ep_variants sample_endpoint). sc_compare (rv_scheme sample_resolver) (va_version x) 3 < 0"
    "ec_match (ep_config sample_endpoint) = MatchCompatible"
    by (simp_all add: sample_resolver_def sample_parse sample_endpoint_def empty_endpoint_def)
  from withdrawn_from_then_on [OF sample_order sample_ascending this(3) sample_extended this(1,2)
      sample_pins(2), of sample_world]
  show ?thesis by (auto simp: sample_resolver_def)
qed

text \<open>Under MatchExact a withdrawal reaches no further than its own version: a request pinned
  past it gets a 400 version_unsupported, not the 410 that \<open>Withdraw\<close> documents.\<close>

theorem exact_match_outlives_withdrawal:
  assumes "version_order (rv_scheme rv)" and "ascending (rv_scheme rv) (ep_variants e)"
    and "ec_match (ep_config e) = MatchExact" and "withdraw rv raw e = (Ret (), e')"
    and "sc_parse (rv_scheme rv) raw = Inr w"
    and "\<forall>x \<in> set (ep_variants e'). sc_compare (rv_scheme rv) (va_version x) v < 0"
    and "resolve_pin rv r = (v, unpinned, None)"
  shows "sc_compare (rv_scheme rv) w v < 0 \<and>
    (\<exists>m. serve rv e' r s =
       (Ret (Some (EReq (http_wrap err_unsupported ''version_unsupported'' m []))), s) \<and>
     status_code (http_wrap err_unsupported ''version_unsupported'' m []) = 400)"
proof -
  let ?sc = "rv_scheme rv" and ?w = "\<lparr>va_version = w, va_handle = None\<rparr>"
  have op: "declare_op rv (DeclWithdraw raw) e = (Ret (), e')" using assms(4) by simp
  from version_order.declare_op_ret [OF assms(1) refl assms(2) op] assms(5)
  have e': "ascending ?sc (ep_variants e')" "set (ep_variants e') = insert ?w (set (ep_variants e))"
    "ep_config e' = ep_config e" by (auto simp: declared_def)
  have "pick ?sc MatchExact (ep_variants e') v \<noteq> Some va" for va
    using version_order.pick_iff [OF assms(1) e'(1), of MatchExact v va] assms(6)
    by (auto simp: serves_def)
  then have "pick ?sc (ec_match (ep_config e')) (ep_variants e') v = None"
    using assms(3) e'(3) by (cases "pick ?sc MatchExact (ep_variants e') v") auto
  moreover have "ep_variants e' \<noteq> []" "sc_compare ?sc w v < 0" using e'(2) assms(6) by auto
  ultimately have "serve rv e' r s =
      (Ret (Some (unsupported ?sc (ep_variants e') (sc_format ?sc v))), s)" "sc_compare ?sc w v < 0"
    using dispatch_unserved [OF assms(7), of e'] by (simp_all add: serve_def)
  then show ?thesis unfolding unsupported_def by (auto simp: code_statuses.simps)
qed

theorem exact_match_outlives_withdrawal_witness:
  "\<exists>m. serve sample_resolver (empty_endpoint MatchExact\<lparr>ep_variants := [\<lparr>va_version = 2, va_handle = None\<rparr>]\<rparr>)
     (sample_request ''v3'') sample_world =
     (Ret (Some (EReq (http_wrap err_unsupported ''version_unsupported'' m []))), sample_world)"
proof -
  let ?e = "empty_endpoint MatchExact\<lparr>ep_variants := [\<lparr>va_version = 2, va_handle = None\<rparr>]\<rparr>"
  have "withdraw sample_resolver ''v2'' (empty_endpoint MatchExact) = (Ret (), ?e)"
    "sc_parse (rv_scheme sample_resolver) ''v2'' = Inr 2"
    "\<forall>x \<in> set (ep_variants ?e). sc_compare (rv_scheme sample_resolver) (va_version x) 3 < 0"
    "ec_match (ep_config (empty_endpoint MatchExact)) = MatchExact"
    "ascending (rv_scheme sample_resolver) (ep_variants (empty_endpoint MatchExact))"
    by (simp_all add: sample_resolver_def withdraw_def empty_endpoint_def insert_variant_def
        sample_parse search_def binary_search_func_def slices_insert_def bsearch_loop.simps
        Let_def ascending_def)
  from exact_match_outlives_withdrawal [OF sample_order this(5,4,1,2,3) sample_pins(2), of sample_world]
  show ?thesis by blast
qed

text \<open>What an error offers as supported can be pinned: each entry resolves, even against
  the resolver's own literals, to a version whose variant is not withdrawn and formats to that
  entry, under either Match rule.\<close>

theorem supported_is_servable:
  assumes "version_scheme (rv_scheme rv)" and "resolver_ok rv"
    and "new_endpoint (Some rv) opts = Ret e0" and "declare_seq rv ds e0 = Ret e"
    and "entry \<in> set (supported (rv_scheme rv) (ep_variants e))"
  shows "\<exists>w va h. resolve_raw rv entry = (w, None) \<and>
    pick (rv_scheme rv) m (ep_variants e) w = Some va \<and> va_handle va = Some h \<and>
    sc_format (rv_scheme rv) (va_version va) = entry"
proof -
  let ?sc = "rv_scheme rv"
  have vo: "version_order ?sc" using assms(1) by (simp add: version_scheme_def)
  from version_order.new_endpoint_declared [OF vo refl assms(3,4)]
  have e: "ascending ?sc (ep_variants e)" "set (ep_variants e) = set (decl_variants rv ds)" by auto
  from assms(5) obtain va h where va: "va \<in> set (ep_variants e)" "va_handle va = Some h"
    "entry = sc_format ?sc (va_version va)" by (auto simp: supported_iff)
  with e(2) obtain raw where "sc_parse ?sc raw = Inr (va_version va)"
    using decl_variants_parsed by blast
  from version_scheme.reparse [OF assms(1) this] va(3) obtain w where
    w: "sc_parse ?sc entry = Inr w" "sc_compare ?sc w (va_version va) = 0" by auto
  have z: "sc_compare ?sc (va_version va) w = 0"
    using version_order.compare_zero_sym [OF vo] w(2) by blast
  then have "serves ?sc m (set (ep_variants e)) w va"
    using va(1) version_order.compare_trans [OF vo] w(2) by (fastforce simp: serves_def)
  then have "pick ?sc m (ep_variants e) w = Some va"
    by (simp add: version_order.pick_iff [OF vo e(1)])
  with resolve_raw_version [OF assms(2) w(1)] va show ?thesis by blast
qed

theorem supported_is_servable_witness:
  "\<exists>w va h. resolve_raw sample_resolver ''v1'' = (w, None) \<and>
     pick seq_scheme MatchExact (ep_variants sample_endpoint) w = Some va \<and>
     va_handle va = Some h \<and> seq_format (va_version va) = ''v1''"
proof -
  have f: "seq_format 1 = ''v1''"
    by (simp add: seq_format_def itoa_def itoa_nat.simps digit_chars)
  have "version_scheme (rv_scheme sample_resolver)"
    by (simp add: sample_resolver_def sequential.version_scheme_axioms)
  moreover have "seq_parse ''latest'' = Inl (seq_error ''latest'')"
    by (simp add: seq_parse_def trim_prefix_def lower_ascii_def lower_char_def is_upper_def
        all_digits_def is_digit_def Let_def)
  then have "resolver_ok sample_resolver"
    by (simp add: resolver_ok_def sample_resolver_def sample_trim)
  moreover have "''v1'' \<in> set (supported (rv_scheme sample_resolver) (ep_variants sample_endpoint))"
    by (simp add: supported_def sample_endpoint_def sample_resolver_def f)
  ultimately show ?thesis
    using supported_is_servable [OF _ _ sample_new_endpoint sample_declared, of "''v1''" MatchExact]
    by (simp add: sample_resolver_def)
qed

text \<open>A latest pin, and a preview pin on an endpoint without a preview variant, is answered by
  the newest declared version whatever the Match rule, and that version is both the requested and
  the served one on the context.\<close>

theorem latest_is_newest:
  assumes "version_order (rv_scheme rv)" and "new_endpoint (Some rv) opts = Ret e0"
    and "declare_seq rv ds e0 = Ret e" and "va \<in> set (decl_variants rv ds)"
    and "\<forall>x \<in> set (decl_variants rv ds). sc_compare (rv_scheme rv) (va_version x) (va_version va) \<le> 0"
    and "va_handle va = Some h" and "resolve_pin rv r = (z, unpinned, Some err)"
    and "err = err_latest \<or> err = err_preview \<and> ep_preview e = None"
  shows "\<exists>w. serve rv e r s =
    h (r\<lparr>rq_ctx := (rq_ctx r)\<lparr>ctx_resolved := Some \<lparr>rd_requested = va_version va,
         rd_served = va_version va, rd_latest = (err = err_latest), rd_preview = (err = err_preview)\<rparr>\<rparr>\<rparr>)
      (s\<lparr>h_rw := w\<rparr>) \<and> rw_sent w = rw_sent (h_rw s) \<and> rw_body w = rw_body (h_rw s)"
proof -
  let ?sc = "rv_scheme rv"
  from version_order.new_endpoint_declared [OF assms(1) refl assms(2,3)]
  have e: "ascending ?sc (ep_variants e)" "set (ep_variants e) = set (decl_variants rv ds)" by auto
  have ne: "ep_variants e \<noteq> []" using assms(4) e(2) by auto
  from version_order.last_newest [OF assms(1) e(1) ne, of va] assms(4,5) e(2) ne
  have "sc_compare ?sc (va_version va) (va_version (last (ep_variants e))) = 0"
    using version_order.compare_le_flip [OF assms(1)] last_in_set [OF ne] by (metis order_antisym)
  then have va: "va = last (ep_variants e)"
    using version_order.ascending_inj [OF assms(1) e(1)] assms(4) e(2) last_in_set [OF ne] by simp
  from assms(6) dispatch_latest [OF assms(7,8) ne]
  show ?thesis
    by (simp add: serve_def refuse_withdrawn_served Let_def flip: va)
       (rule exI, intro conjI, rule refl, simp_all add: dispatch_headers_frame)
qed

theorem latest_is_newest_witness:
  "\<exists>r' w. serve sample_resolver sample_endpoint (sample_request ''latest'') sample_world =
     sample_handler r' (sample_world\<lparr>h_rw := w\<rparr>) \<and>
     ctx_resolved (rq_ctx r') =
       Some \<lparr>rd_requested = 2, rd_served = 2, rd_latest = True, rd_preview = False\<rparr>"
proof -
  have "\<lparr>va_version = 2, va_handle = Some sample_handler\<rparr>
      \<in> set (decl_variants sample_resolver sample_decls)"
    "\<forall>x \<in> set (decl_variants sample_resolver sample_decls).
       sc_compare (rv_scheme sample_resolver) (va_version x)
         (va_version \<lparr>va_version = 2, va_handle = Some sample_handler\<rparr>) \<le> 0"
    by (simp_all add: sample_decls_def sample_resolver_def sample_parse)
  from latest_is_newest [OF sample_order sample_new_endpoint sample_declared this _ sample_pins(3), of sample_handler sample_world]
  show ?thesis by (auto simp: latest_not_preview)
qed

end
