(* ===== verification/VersionRegistrar.thy ===== *)
theory VersionRegistrar
  imports VersionEndpoint
begin

text \<open>
  Package version, \<open>http/version/registrar.go\<close>: versioned routes declared inline and
  registered, one dispatcher per method and path, by \<open>Build\<close>. The map of endpoints is an
  association list whose order is one iteration order of the Go map. Declarations made after
  \<open>Build\<close> through an \<open>*Endpoint\<close> kept from before it are outside the model: a route
  serves the endpoint as \<open>Build\<close> found it.
\<close>

section \<open>The registrar\<close>

type_synonym route_key = "string \<times> string"

record ('v, 'w, 'x) registrar =
  rg_router :: "(('v, unit) vctx_ext, 'w, 'x) router"
  rg_resolver :: "'v version_resolver"
  rg_opts :: "'x endpoint_option list"
  rg_order :: "route_key list"
  rg_routes :: "(route_key \<times> ('v, 'w, 'x) endpoint) list"
  rg_built :: bool

definition new_registrar :: "(('v, unit) vctx_ext, 'w, 'x) router option \<Rightarrow> 'v version_resolver option \<Rightarrow>
    'x endpoint_option list \<Rightarrow> ('v, 'w, 'x) registrar outcome" where
  "new_registrar rt rv opts =
     (case rt of
        None \<Rightarrow> Panic (PanicMsg ''dflhttp/version: NewRegistrar needs a Router'')
      | Some rt' \<Rightarrow>
          (case rv of
             None \<Rightarrow> Panic (PanicMsg ''dflhttp/version: NewRegistrar needs a Resolver'')
           | Some rv' \<Rightarrow>
               Ret \<lparr>rg_router = rt', rg_resolver = rv', rg_opts = opts, rg_order = [],
                    rg_routes = [], rg_built = False\<rparr>))"

definition already_built :: panic_value where
  "already_built = PanicMsg ''dflhttp/version: Registrar is already built''"

definition registrar_endpoint :: "string \<Rightarrow> string \<Rightarrow> ('v, 'w, 'x) registrar \<Rightarrow>
    ('v, 'w, 'x) endpoint outcome \<times> ('v, 'w, 'x) registrar" where
  "registrar_endpoint method path g =
     (if rg_built g then (Panic already_built, g)
      else case map_of (rg_routes g) (method, path) of
          Some e \<Rightarrow> (Ret e, g)
        | None \<Rightarrow>
            (case new_endpoint (Some (rg_resolver g)) (rg_opts g) of
               Panic p \<Rightarrow> (Panic p, g)
             | Ret e \<Rightarrow> (Ret e, g\<lparr>rg_routes := map_put (method, path) e (rg_routes g),
                                  rg_order := rg_order g @ [(method, path)]\<rparr>)))"

text \<open>A call on the endpoint that the map points to.\<close>

definition on_endpoint :: "string \<Rightarrow> string \<Rightarrow>
    (('v, 'w, 'x) endpoint \<Rightarrow> unit outcome \<times> ('v, 'w, 'x) endpoint) \<Rightarrow>
    ('v, 'w, 'x) registrar \<Rightarrow> unit outcome \<times> ('v, 'w, 'x) registrar" where
  "on_endpoint method path f g =
     (case registrar_endpoint method path g of
        (Panic p, g') \<Rightarrow> (Panic p, g')
      | (Ret e, g') \<Rightarrow>
          (case f e of
             (res, e') \<Rightarrow> (res, g'\<lparr>rg_routes := map_put (method, path) e' (rg_routes g')\<rparr>)))"

definition registrar_handle :: "'x std_env \<Rightarrow> string \<Rightarrow> string \<Rightarrow> string \<Rightarrow> go_type \<Rightarrow> 'x fval list \<Rightarrow>
    'resp resp_type \<Rightarrow> (('v, unit) vctx_ext, 'w, 'x, 'resp) typed_handler \<Rightarrow>
    ('v, 'w, 'x) registrar \<Rightarrow> unit outcome \<times> ('v, 'w, 'x) registrar" where
  "registrar_handle env method path raw t zero rt handler g =
     on_endpoint method path (endpoint_handle env (rg_resolver g) raw t zero rt handler) g"

definition registrar_handle_func :: "string \<Rightarrow> string \<Rightarrow> string \<Rightarrow> ('v, 'w) variant_handler option \<Rightarrow>
    ('v, 'w, 'x) registrar \<Rightarrow> unit outcome \<times> ('v, 'w, 'x) registrar" where
  "registrar_handle_func method path raw h g =
     on_endpoint method path (endpoint_handle_func (rg_resolver g) raw h) g"

definition registrar_withdraw :: "string \<Rightarrow> string \<Rightarrow> string \<Rightarrow>
    ('v, 'w, 'x) registrar \<Rightarrow> unit outcome \<times> ('v, 'w, 'x) registrar" where
  "registrar_withdraw method path raw g = on_endpoint method path (withdraw (rg_resolver g) raw) g"

fun build_routes :: "('v, 'w, 'x) registrar \<Rightarrow> route_key list \<Rightarrow> (('v, unit) vctx_ext, 'w) mux \<Rightarrow>
    (('v, unit) vctx_ext, 'w) mux" where
  "build_routes g [] m = m"
| "build_routes g ((method, path) # ks) m =
     (case map_of (rg_routes g) (method, path) of
        None \<Rightarrow> build_routes g ks m
      | Some e \<Rightarrow>
          build_routes g ks
            (router_handle_func (rg_router g) method path (serve (rg_resolver g) e) [] m))"

definition build :: "('v, 'w, 'x) registrar \<Rightarrow> (('v, unit) vctx_ext, 'w) mux \<Rightarrow>
    unit outcome \<times> ('v, 'w, 'x) registrar \<times> (('v, unit) vctx_ext, 'w) mux" where
  "build g m =
     (if rg_built g then (Panic already_built, g, m)
      else (Ret (), g\<lparr>rg_built := True\<rparr>, build_routes g (rg_order g) m))"

text \<open>The two nested loops of \<open>Latest\<close>, over one iteration order of the map.\<close>

definition newer :: "'v scheme \<Rightarrow> 'v \<Rightarrow> 'v option \<Rightarrow> 'v option" where
  "newer sc v latest =
     (case latest of
        None \<Rightarrow> Some v
      | Some l \<Rightarrow> if sc_compare sc v l > 0 then Some v else Some l)"

definition latest_of :: "'v scheme \<Rightarrow> (route_key \<times> ('v, 'w, 'x) endpoint) list \<Rightarrow> 'v option" where
  "latest_of sc routes =
     fold (\<lambda>(key, e) latest. fold (newer sc) (versions e) latest) routes None"

definition registrar_latest :: "('v, 'w, 'x) registrar \<Rightarrow> 'v option" where
  "registrar_latest g = latest_of (rv_scheme (rg_resolver g)) (rg_routes g)"

section \<open>Declarations on a registrar\<close>

text \<open>
  A call between \<open>NewRegistrar\<close> and \<open>Build\<close>: a declaration on a route, or
  \<open>Endpoint\<close>, which only creates it.
\<close>

datatype ('v, 'w) route_decl = RouteDecl string string "('v, 'w) variant_decl option"

fun route_of :: "('v, 'w) route_decl \<Rightarrow> route_key" where
  "route_of (RouteDecl method path d) = (method, path)"

fun declare_route :: "('v, 'w) route_decl \<Rightarrow> ('v, 'w, 'x) registrar \<Rightarrow>
    unit outcome \<times> ('v, 'w, 'x) registrar" where
  "declare_route (RouteDecl method path (Some (DeclHandle raw h))) g =
     registrar_handle_func method path raw h g"
| "declare_route (RouteDecl method path (Some (DeclWithdraw raw))) g =
     registrar_withdraw method path raw g"
| "declare_route (RouteDecl method path None) g =
     (case registrar_endpoint method path g of
        (Panic p, g') \<Rightarrow> (Panic p, g') | (Ret e, g') \<Rightarrow> (Ret (), g'))"

definition declare_routes :: "('v, 'w) route_decl list \<Rightarrow> ('v, 'w, 'x) registrar \<Rightarrow>
    ('v, 'w, 'x) registrar" where
  "declare_routes ds g = fold (\<lambda>d g. snd (declare_route d g)) ds g"

text \<open>The routes in the order of their first declarations, and a route's own declarations.\<close>

definition first_seen :: "'k list \<Rightarrow> 'k list" where
  "first_seen ks = fold (\<lambda>k seen. if k \<in> set seen then seen else seen @ [k]) ks []"

fun own_decl :: "route_key \<Rightarrow> ('v, 'w) route_decl \<Rightarrow> ('v, 'w) variant_decl option" where
  "own_decl key (RouteDecl method path d) = (if key = (method, path) then d else None)"

abbreviation own_decls :: "route_key \<Rightarrow> ('v, 'w) route_decl list \<Rightarrow> ('v, 'w) variant_decl list" where
  "own_decls key ds \<equiv> List.map_filter (own_decl key) ds"

text \<open>The endpoint a new route starts from.\<close>

definition blank_endpoint :: "('v, 'w, 'x) registrar \<Rightarrow> ('v, 'w, 'x) endpoint" where
  "blank_endpoint g = \<lparr>ep_config = fold (\<lambda>opt c. opt c) (rg_opts g) \<lparr>ec_match = MatchCompatible, ec_parser = None\<rparr>,
     ep_variants = [], ep_preview = None\<rparr>"

lemma new_endpoint_blank: "new_endpoint (Some (rg_resolver g)) (rg_opts g) = Ret (blank_endpoint g)"
  by (simp add: new_endpoint_def blank_endpoint_def)

text \<open>One declaration: the route exists afterwards and its endpoint has made that declaration.\<close>

definition registrar_ok :: "('v, 'w, 'x) registrar \<Rightarrow> bool" where
  "registrar_ok g \<longleftrightarrow> distinct (rg_order g) \<and> set (rg_order g) = dom (map_of (rg_routes g)) \<and>
     distinct (map fst (rg_routes g))"

definition opt_declare :: "'v version_resolver \<Rightarrow> ('v, 'w) variant_decl option \<Rightarrow>
    ('v, 'w, 'x) endpoint \<Rightarrow> ('v, 'w, 'x) endpoint" where
  "opt_declare rv d e = (case d of None \<Rightarrow> e | Some d' \<Rightarrow> snd (declare_op rv d' e))"

lemma declare_route_eq:
  assumes "registrar_ok g" and "\<not> rg_built g"
  shows "let g' = snd (declare_route (RouteDecl method path d) g); key = (method, path);
      old = (case map_of (rg_routes g) key of None \<Rightarrow> blank_endpoint g | Some e \<Rightarrow> e)
    in registrar_ok g' \<and> map_of (rg_routes g') = (map_of (rg_routes g))(key \<mapsto> opt_declare (rg_resolver g) d old) \<and>
       rg_order g' = (if key \<in> set (rg_order g) then rg_order g else rg_order g @ [key]) \<and>
       \<not> rg_built g' \<and> rg_resolver g' = rg_resolver g \<and> rg_router g' = rg_router g \<and>
       rg_opts g' = rg_opts g"
proof (cases d)
  case None
  with assms show ?thesis
    by (cases "map_of (rg_routes g) (method, path)")
       (auto simp: registrar_endpoint_def new_endpoint_blank registrar_ok_def opt_declare_def Let_def
        map_of_map_put distinct_map_put fun_upd_idem insert_absorb domIff
        simp del: map_of_eq_Some_iff)
next
  case (Some d')
  with assms show ?thesis
    by (cases d')
       (auto simp: registrar_handle_func_def registrar_withdraw_def on_endpoint_def
        registrar_endpoint_def new_endpoint_blank registrar_ok_def opt_declare_def
        map_of_map_put distinct_map_put insert_absorb Let_def split: option.splits prod.splits)
qed

lemma declare_routes_eq:
  "registrar_ok g \<Longrightarrow> \<not> rg_built g \<Longrightarrow>
   (let g' = declare_routes ds g in
     registrar_ok g' \<and> \<not> rg_built g' \<and> rg_resolver g' = rg_resolver g \<and> rg_router g' = rg_router g \<and>
     rg_order g' = fold (\<lambda>k seen. if k \<in> set seen then seen else seen @ [k]) (map route_of ds) (rg_order g) \<and>
     (\<forall>key. map_of (rg_routes g') key =
        (case map_of (rg_routes g) key of
           Some e \<Rightarrow> Some (declare_all (rg_resolver g) (own_decls key ds) e)
         | None \<Rightarrow> if key \<in> set (map route_of ds)
             then Some (declare_all (rg_resolver g) (own_decls key ds) (blank_endpoint g)) else None)))"
proof (induction ds arbitrary: g)
  case Nil
  then show ?case by (simp add: declare_routes_def declare_all_def split: option.splits)
next
  case (Cons d ds)
  obtain verb path x where d: "d = RouteDecl verb path x" by (cases d)
  let ?g1 = "snd (declare_route d g)"
  from declare_route_eq [OF Cons.prems, of verb path x]
  have g1: "registrar_ok ?g1" "\<not> rg_built ?g1" "rg_resolver ?g1 = rg_resolver g"
    "rg_router ?g1 = rg_router g" "blank_endpoint ?g1 = blank_endpoint g"
    "rg_order ?g1 = (if (verb, path) \<in> set (rg_order g) then rg_order g else rg_order g @ [(verb, path)])"
    "map_of (rg_routes ?g1) = (map_of (rg_routes g))((verb, path) \<mapsto> opt_declare (rg_resolver g) x
       (case map_of (rg_routes g) (verb, path) of None \<Rightarrow> blank_endpoint g | Some e \<Rightarrow> e))"
    by (auto simp: d Let_def blank_endpoint_def)
  have step: "declare_routes (d # ds) g = declare_routes ds ?g1"
    by (simp add: declare_routes_def)
  have own: "declare_all rv (own_decls (verb, path) (d # ds)) e =
      declare_all rv (own_decls (verb, path) ds) (opt_declare rv x e)" for rv and e :: "('a, 'b, 'c) endpoint"
    by (cases x) (simp_all add: d declare_all_def opt_declare_def)
  have other: "own_decls key (d # ds) = own_decls key ds" if "key \<noteq> (verb, path)" for key
    using that by (simp add: d)
  from Cons.IH [OF g1(1,2), unfolded Let_def g1(3-5)] have ih: "registrar_ok (declare_routes ds ?g1)"
    "\<not> rg_built (declare_routes ds ?g1)"
    "rg_resolver (declare_routes ds ?g1) = rg_resolver g" "rg_router (declare_routes ds ?g1) = rg_router g"
    "rg_order (declare_routes ds ?g1) =
       fold (\<lambda>k seen. if k \<in> set seen then seen else seen @ [k]) (map route_of ds) (rg_order ?g1)"
    and routes: "\<And>key. map_of (rg_routes (declare_routes ds ?g1)) key =
      (case map_of (rg_routes ?g1) key of
         Some e \<Rightarrow> Some (declare_all (rg_resolver g) (own_decls key ds) e)
       | None \<Rightarrow> if key \<in> set (map route_of ds)
           then Some (declare_all (rg_resolver g) (own_decls key ds) (blank_endpoint g)) else None)"
    by blast+
  have "map_of (rg_routes (declare_routes ds ?g1)) key =
      (case map_of (rg_routes g) key of
         Some e \<Rightarrow> Some (declare_all (rg_resolver g) (own_decls key (d # ds)) e)
       | None \<Rightarrow> if key \<in> set (map route_of (d # ds))
           then Some (declare_all (rg_resolver g) (own_decls key (d # ds)) (blank_endpoint g)) else None)" for key
  proof (cases "key = (verb, path)")
    case True
    show ?thesis unfolding routes g1(7) True own by (simp add: d split: option.split)
  next
    case False
    then show ?thesis unfolding routes g1(7) other [OF False] by (simp add: d)
  qed
  with ih show ?case unfolding step Let_def by (simp only: g1(6)) (simp add: d)
qed

lemma build_routes_eq:
  assumes "\<forall>key \<in> set ks. map_of (rg_routes g) key = Some (ep key)"
  shows "build_routes g ks m = fold (\<lambda>(method, path) m.
    router_handle_func (rg_router g) method path (serve (rg_resolver g) (ep (method, path))) [] m) ks m"
  using assms by (induction ks arbitrary: m) auto

lemma first_seen_set: "set (first_seen ks) = set ks" and first_seen_distinct: "distinct (first_seen ks)"
proof -
  have "set (fold (\<lambda>k seen. if k \<in> set seen then seen else seen @ [k]) ks acc) = set acc \<union> set ks \<and>
      (distinct acc \<longrightarrow> distinct (fold (\<lambda>k seen. if k \<in> set seen then seen else seen @ [k]) ks acc))" for acc
    by (induction ks arbitrary: acc) auto
  from this [of "[]"] show "set (first_seen ks) = set ks" "distinct (first_seen ks)"
    by (simp_all add: first_seen_def)
qed

text \<open>The registration a route leaves on a mux.\<close>

definition route_entry :: "mux_kind \<Rightarrow> (('v, unit) vctx_ext, 'w, 'x) router \<Rightarrow> string \<Rightarrow> string \<Rightarrow>
    ('v, 'w) variant_handler \<Rightarrow> (('v, unit) vctx_ext, 'w) registration" where
  "route_entry k rt method path h =
     (if k = MethodMux then RegMethod method (rt_prefix rt @ path) (serve_route rt h [])
      else RegPattern (method @ '' '' @ rt_prefix rt @ path) (serve_route rt h []))"

lemma router_handle_func_entry:
  "router_handle_func rt method path h [] m =
     m\<lparr>mx_routes := mx_routes m @ [route_entry (mx_kind m) rt method path h]\<rparr>"
  by (simp add: router_handle_func_def register_def route_entry_def)

lemma fold_route_entries:
  "fold (\<lambda>(method, path) m. router_handle_func rt method path (f (method, path)) [] m) ks m =
     m\<lparr>mx_routes := mx_routes m @
       map (\<lambda>(method, path). route_entry (mx_kind m) rt method path (f (method, path))) ks\<rparr>"
  by (induction ks arbitrary: m) (auto simp: router_handle_func_entry)

context version_order
begin

lemma fold_newer:
  "case fold (newer sc) vs init of
     None \<Rightarrow> vs = [] \<and> init = None
   | Some l \<Rightarrow> l \<in> set vs \<union> set_option init \<and>
       (\<forall>x \<in> set vs \<union> set_option init. sc_compare sc x l \<le> 0)"
proof (induction vs arbitrary: init)
  case Nil
  then show ?case by (cases init) auto
next
  case (Cons v vs)
  obtain l where l: "newer sc v init = Some l" "l = v \<or> init = Some l" "sc_compare sc v l \<le> 0"
    "\<forall>x \<in> set_option init. sc_compare sc x l \<le> 0"
  proof (cases init)
    case (Some a)
    then show ?thesis using that [of v] that [of a] compare_flip [of a v]
      by (cases "0 < sc_compare sc v a") (auto simp: newer_def)
  qed (use that [of v] in \<open>simp add: newer_def\<close>)
  show ?case
  proof (cases "fold (newer sc) vs (Some l)")
    case None
    with Cons.IH [of "Some l"] show ?thesis by simp
  next
    case (Some n)
    with Cons.IH [of "Some l"] have n: "n \<in> set vs \<or> n = l" "sc_compare sc l n \<le> 0"
      "\<forall>x \<in> set vs. sc_compare sc x n \<le> 0" by auto
    have "sc_compare sc v n \<le> 0" "\<forall>x \<in> set_option init. sc_compare sc x n \<le> 0"
      using l(3,4) compare_trans [OF _ n(2)] by blast+
    with Some l n show ?thesis by auto
  qed
qed

lemma latest_of_concat:
  "latest_of sc routes = fold (newer sc) (concat (map (versions \<circ> snd) routes)) None"
proof -
  have "fold (\<lambda>(key, e) latest. fold (newer sc) (versions e) latest) routes init =
      fold (newer sc) (concat (map (versions \<circ> snd) routes)) init" for init
    by (induction routes arbitrary: init) auto
  then show ?thesis by (simp add: latest_of_def)
qed

lemma latest_of_max:
  "case latest_of sc routes of
     None \<Rightarrow> \<forall>(key, e) \<in> set routes. versions e = []
   | Some l \<Rightarrow> (\<exists>(key, e) \<in> set routes. l \<in> set (versions e)) \<and>
       (\<forall>(key, e) \<in> set routes. \<forall>v \<in> set (versions e). sc_compare sc v l \<le> 0)"
  using fold_newer [of "concat (map (versions \<circ> snd) routes)" None]
  by (cases "latest_of sc routes") (auto simp: latest_of_concat)

end

section \<open>Properties\<close>

definition sample_router :: "((int, unit) vctx_ext, nat, unit) router" where
  "sample_router = \<lparr>rt_coercer = Some default_coercer, rt_error_writer = None, rt_parser = None,
     rt_logger = None, rt_prefix = ''/api'', rt_middleware = []\<rparr>"

definition sample_mux :: "((int, unit) vctx_ext, nat) mux" where
  "sample_mux = \<lparr>mx_kind = MethodMux, mx_routes = []\<rparr>"

definition sample_registrar :: "(int, nat, unit) registrar" where
  "sample_registrar = \<lparr>rg_router = sample_router, rg_resolver = sample_resolver, rg_opts = [],
     rg_order = [], rg_routes = [], rg_built = False\<rparr>"

lemma sample_registrar_new:
  "new_registrar (Some sample_router) (Some sample_resolver) [] = Ret sample_registrar"
  by (simp add: new_registrar_def sample_registrar_def)

text \<open>C30: \<open>Build\<close> registers exactly one dispatcher per declared method and path, in the order
  the routes were first declared, and each dispatches over its own declarations alone, however the
  declarations of different routes were interleaved; afterwards every declaration and a second
  \<open>Build\<close> panic and change nothing.\<close>

theorem build_registers_each_route_once:
  assumes "new_registrar (Some rt) (Some rv) opts = Ret g0"
    and "build (declare_routes ds g0) m = (Ret (), g, m')"
  shows "mx_routes m' = mx_routes m @
      map (\<lambda>(method, path). route_entry (mx_kind m) rt method path
             (serve rv (declare_all rv (own_decls (method, path) ds) (blank_endpoint g0))))
          (first_seen (map route_of ds)) \<and>
    distinct (first_seen (map route_of ds)) \<and>
    build g m' = (Panic already_built, g, m') \<and> declare_route d g = (Panic already_built, g)"
proof -
  from assms(1) have g0: "g0 = \<lparr>rg_router = rt, rg_resolver = rv, rg_opts = opts, rg_order = [],
      rg_routes = [], rg_built = False\<rparr>" by (simp add: new_registrar_def)
  have ok0: "registrar_ok g0" "\<not> rg_built g0" by (simp_all add: g0 registrar_ok_def)
  have f0: "rg_resolver g0 = rv" "rg_router g0 = rt" "rg_order g0 = []" "rg_routes g0 = []"
    by (simp_all add: g0)
  from declare_routes_eq [OF ok0, of ds, unfolded Let_def f0]
  have g1: "\<not> rg_built (declare_routes ds g0)" "rg_resolver (declare_routes ds g0) = rv"
    "rg_router (declare_routes ds g0) = rt"
    and order1: "rg_order (declare_routes ds g0) = fold (\<lambda>k seen. if k \<in> set seen then seen else seen @ [k])
      (map route_of ds) []"
    and routes: "\<And>key. key \<in> set (map route_of ds) \<Longrightarrow> map_of (rg_routes (declare_routes ds g0)) key =
      Some (declare_all rv (own_decls key ds) (blank_endpoint g0))"
    by (simp_all del: split_paired_All)
  let ?g1 = "declare_routes ds g0"
  let ?ep = "\<lambda>key. declare_all rv (own_decls key ds) (blank_endpoint g0)"
  have order: "rg_order ?g1 = first_seen (map route_of ds)"
    unfolding order1 first_seen_def ..
  have "\<forall>key \<in> set (rg_order ?g1). map_of (rg_routes ?g1) key = Some (?ep key)"
    unfolding order first_seen_set using routes by blast
  from build_routes_eq [OF this, of m] assms(2)
  have m': "m' = fold (\<lambda>(method, path) m.
      router_handle_func rt method path (serve rv (?ep (method, path))) [] m) (first_seen (map route_of ds)) m"
    and g: "rg_built g" using g1 by (auto simp: build_def order split: if_splits)
  have "declare_route d g = (Panic already_built, g)"
    using g by (cases "(d, g)" rule: declare_route.cases)
      (simp_all add: registrar_handle_func_def registrar_withdraw_def on_endpoint_def registrar_endpoint_def)
  with g show ?thesis
    using fold_route_entries [where f = "\<lambda>key. serve rv (?ep key)" and rt = rt and m = m
        and ks = "first_seen (map route_of ds)"]
    by (simp add: m' first_seen_distinct build_def)
qed

theorem build_registers_each_route_once_witness:
  "mx_routes (snd (snd (build (declare_routes
       [RouteDecl ''GET'' ''/a'' (Some (DeclHandle ''v1'' (Some sample_handler))),
        RouteDecl ''GET'' ''/b'' None,
        RouteDecl ''GET'' ''/a'' (Some (DeclWithdraw ''v2''))] sample_registrar) sample_mux))) =
     [route_entry MethodMux sample_router ''GET'' ''/a'' (serve sample_resolver
        (declare_all sample_resolver [DeclHandle ''v1'' (Some sample_handler), DeclWithdraw ''v2'']
           (blank_endpoint sample_registrar))),
      route_entry MethodMux sample_router ''GET'' ''/b'' (serve sample_resolver
        (blank_endpoint sample_registrar))]"
proof -
  let ?ds = "[RouteDecl ''GET'' ''/a'' (Some (DeclHandle ''v1'' (Some sample_handler))),
    RouteDecl ''GET'' ''/b'' None, RouteDecl ''GET'' ''/a'' (Some (DeclWithdraw ''v2''))]"
  have "\<not> rg_built (declare_routes ?ds sample_registrar)"
    using declare_routes_eq [of sample_registrar ?ds]
    by (simp add: Let_def sample_registrar_def registrar_ok_def)
  then have "build (declare_routes ?ds sample_registrar) sample_mux =
      (Ret (), fst (snd (build (declare_routes ?ds sample_registrar) sample_mux)),
       snd (snd (build (declare_routes ?ds sample_registrar) sample_mux)))"
    by (simp add: build_def)
  from build_registers_each_route_once [OF sample_registrar_new this] show ?thesis
    by (simp add: sample_mux_def first_seen_def declare_all_def [of _ "[]"])
qed

text \<open>\<open>Latest\<close> is the newest version declared on any route, withdrawals included, and false
  exactly while nothing dated is declared, whichever order the map of routes is ranged over in.\<close>

theorem latest_is_order_independent:
  assumes "version_order (rv_scheme (rg_resolver g))" and "mset routes = mset (rg_routes g)"
  shows "case latest_of (rv_scheme (rg_resolver g)) routes of
      None \<Rightarrow> registrar_latest g = None \<and> (\<forall>(key, e) \<in> set (rg_routes g). ep_variants e = [])
    | Some l \<Rightarrow>
        (\<exists>n. registrar_latest g = Some n \<and> sc_compare (rv_scheme (rg_resolver g)) n l = 0) \<and>
        (\<exists>(key, e) \<in> set (rg_routes g). \<exists>va \<in> set (ep_variants e). l = va_version va) \<and>
        (\<forall>(key, e) \<in> set (rg_routes g). \<forall>va \<in> set (ep_variants e).
           sc_compare (rv_scheme (rg_resolver g)) (va_version va) l \<le> 0)"
proof -
  let ?sc = "rv_scheme (rg_resolver g)"
  note max = version_order.latest_of_max [OF assms(1)]
  have s: "set routes = set (rg_routes g)" by (rule mset_eq_setD [OF assms(2)])
  show ?thesis
  proof (cases "latest_of ?sc routes")
    case None
    with max [of routes] s have "\<forall>(key, e) \<in> set (rg_routes g). versions e = []" by simp
    moreover from this max [of "rg_routes g"] have "registrar_latest g = None"
      by (cases "registrar_latest g") (auto simp: registrar_latest_def)
    ultimately show ?thesis using None by (simp add: versions_def)
  next
    case (Some l)
    with max [of routes] s have l: "\<exists>(key, e) \<in> set (rg_routes g). l \<in> set (versions e)"
      "\<forall>(key, e) \<in> set (rg_routes g). \<forall>v \<in> set (versions e). sc_compare ?sc v l \<le> 0" by simp_all
    with max [of "rg_routes g"] obtain n where n: "registrar_latest g = Some n"
      "\<exists>(key, e) \<in> set (rg_routes g). n \<in> set (versions e)"
      "\<forall>(key, e) \<in> set (rg_routes g). \<forall>v \<in> set (versions e). sc_compare ?sc v n \<le> 0"
      by (cases "registrar_latest g") (auto simp: registrar_latest_def)
    have "sc_compare ?sc n l \<le> 0" "sc_compare ?sc l n \<le> 0" using l n by blast+
    then have "sc_compare ?sc n l = 0"
      using version_order.compare_le_flip [OF assms(1), of l n] by linarith
    with Some n(1) l show ?thesis by (auto simp: versions_def)
  qed
qed

theorem latest_is_order_independent_witness:
  "latest_of seq_scheme (rev [((''GET'', ''/a''), sample_endpoint), ((''GET'', ''/b''), extended_endpoint)]) = Some 3 \<and>
   (\<exists>n. registrar_latest (sample_registrar\<lparr>rg_routes := [((''GET'', ''/a''), sample_endpoint),
      ((''GET'', ''/b''), extended_endpoint)]\<rparr>) = Some n \<and> cmp_compare n 3 = 0)"
proof -
  let ?g = "sample_registrar\<lparr>rg_routes := [((''GET'', ''/a''), sample_endpoint),
    ((''GET'', ''/b''), extended_endpoint)]\<rparr>"
  have l: "latest_of seq_scheme (rev (rg_routes ?g)) = Some 3"
    by (simp add: latest_of_def versions_def sample_endpoint_def extended_endpoint_def newer_def)
  have "version_order (rv_scheme (rg_resolver ?g))"
    by (simp add: sample_registrar_def sample_order)
  from latest_is_order_independent [OF this, of "rev (rg_routes ?g)"] l show ?thesis
    by (simp add: sample_registrar_def sample_resolver_def)
qed

end
