(* ===== verification/GoJsonText.thy ===== *)
theory GoJsonText
  imports GoJson GoBase
begin

text \<open>
  The text of JSON, as \<open>encoding/json\<close> writes and reads it: string literals byte by byte, with
  the escapes of the writer and the UTF-8 repairs of the reader, and whole values. Nothing of this
  theory is code of the repository: the packages http and events send and receive such text.
  Fractions and exponents have no counterpart in \<^typ>\<open>json\<close>, so a number literal that is no
  plain integer is kept as its text. The limit of the reader on nesting (10000 levels) is not modelled.
\<close>

section \<open>UTF-8\<close>

definition char_at :: "nat \<Rightarrow> char" where
  "char_at n = char_of n"

definition encode_rune :: "nat \<Rightarrow> string" where
  "encode_rune r =
     (if r < 128 then [char_at r]
      else if r < 2048 then [char_at (192 + r div 64), char_at (128 + r mod 64)]
      else if (55296 \<le> r \<and> r \<le> 57343) \<or> 1114111 < r then [char_at 239, char_at 191, char_at 189]
      else if r < 65536
      then [char_at (224 + r div 4096), char_at (128 + r div 64 mod 64), char_at (128 + r mod 64)]
      else [char_at (240 + r div 262144), char_at (128 + r div 4096 mod 64),
            char_at (128 + r div 64 mod 64), char_at (128 + r mod 64)])"

definition bad_rune :: "nat \<times> nat \<Rightarrow> bool" where
  "bad_rune rn \<longleftrightarrow> rn = (65533, 1)"

function utf8_valid :: "string \<Rightarrow> bool" where
  "utf8_valid [] = True"
| "utf8_valid (c # s) =
     (\<not> bad_rune (decode_rune c s) \<and> utf8_valid (drop (snd (decode_rune c s) - 1) s))"
  by pat_completeness auto
termination
  by (relation "measure length") auto

lemma utf8_valid_ascii: "list_all (\<lambda>c. byte c < 128) s \<Longrightarrow> utf8_valid s"
  by (induction s) (simp_all add: decode_rune_ascii bad_rune_def)

section \<open>Writing strings\<close>

definition hex4 :: "nat \<Rightarrow> string" where
  "hex4 r = [hex_digit (r div 4096 mod 16), hex_digit (r div 256 mod 16), hex_digit (r div 16 mod 16),
     hex_digit (r mod 16)]"

definition quote_ascii :: "char \<Rightarrow> string" where
  "quote_ascii c =
     (let b = byte c
      in if b = 34 \<or> b = 92 then [CHR 0x5C, c]
         else if b = 8 then [CHR 0x5C, CHR ''b'']
         else if b = 12 then [CHR 0x5C, CHR ''f'']
         else if b = 10 then [CHR 0x5C, CHR ''n'']
         else if b = 13 then [CHR 0x5C, CHR ''r'']
         else if b = 9 then [CHR 0x5C, CHR ''t'']
         else if b < 32 \<or> b = 60 \<or> b = 62 \<or> b = 38 then CHR 0x5C # CHR ''u'' # hex4 b
         else [c])"

function quote_body :: "string \<Rightarrow> string" where
  "quote_body [] = []"
| "quote_body (c # s) =
     (let rn = decode_rune c s; n = snd rn - 1
      in (if byte c < 128 then quote_ascii c
          else if bad_rune rn \<or> fst rn = 8232 \<or> fst rn = 8233 then CHR 0x5C # CHR ''u'' # hex4 (fst rn)
          else c # take n s)
         @ quote_body (drop n s))"
  by pat_completeness auto
termination
  by (relation "measure length") (auto simp: Let_def)

definition quote_json :: "string \<Rightarrow> string" where
  "quote_json s = CHR 0x22 # quote_body s @ [CHR 0x22]"

section \<open>Reading strings\<close>

definition hex_val :: "char \<Rightarrow> nat option" where
  "hex_val c =
     (let b = byte c
      in if 48 \<le> b \<and> b \<le> 57 then Some (b - 48)
         else if 97 \<le> b \<and> b \<le> 102 then Some (b - 87)
         else if 65 \<le> b \<and> b \<le> 70 then Some (b - 55)
         else None)"

fun read_hex4 :: "string \<Rightarrow> (nat \<times> string) option" where
  "read_hex4 (a # b # c # d # s) =
     (case (hex_val a, hex_val b, hex_val c, hex_val d) of
        (Some w, Some x, Some y, Some z) \<Rightarrow> Some (((w * 16 + x) * 16 + y) * 16 + z, s)
      | _ \<Rightarrow> None)"
| "read_hex4 _ = None"

lemma read_hex4_length: "read_hex4 s = Some (r, t) \<Longrightarrow> length s = length t + 4"
  by (induction s rule: read_hex4.induct) (auto split: option.splits)

text \<open>
  The rune after \<open>\u\<close>: a surrogate makes a pair with a second one that follows it, and is
  U+FFFD otherwise.
\<close>

fun surrogate_pair :: "nat \<Rightarrow> string \<Rightarrow> (nat \<times> string) option" where
  "surrogate_pair r (a # b # s) =
     (if a = CHR 0x5C \<and> b = CHR ''u''
      then (case read_hex4 s of
              None \<Rightarrow> None
            | Some (r2, t) \<Rightarrow>
                if 55296 \<le> r \<and> r < 56320 \<and> 56320 \<le> r2 \<and> r2 < 57344
                then Some ((r - 55296) * 1024 + (r2 - 56320) + 65536, t) else None)
      else None)"
| "surrogate_pair r _ = None"

lemma surrogate_pair_length: "surrogate_pair r s = Some (r', t) \<Longrightarrow> length t < length s"
  by (induction r s rule: surrogate_pair.induct)
     (auto split: if_splits option.splits dest: read_hex4_length)

definition escape_rune :: "nat \<Rightarrow> string \<Rightarrow> nat \<times> string" where
  "escape_rune r s =
     (if 55296 \<le> r \<and> r \<le> 57343
      then (case surrogate_pair r s of Some rt \<Rightarrow> rt | None \<Rightarrow> (65533, s))
      else (r, s))"

definition escape_char :: "char \<Rightarrow> char option" where
  "escape_char c =
     (if c \<in> {CHR 0x22, CHR 0x5C, CHR ''/''} then Some c
      else if c = CHR ''b'' then Some (CHR 0x08)
      else if c = CHR ''f'' then Some (CHR 0x0C)
      else if c = CHR ''n'' then Some (CHR 0x0A)
      else if c = CHR ''r'' then Some (CHR 0x0D)
      else if c = CHR ''t'' then Some (CHR 0x09)
      else None)"

text \<open>The rest of a string literal, its opening quote read: its value and the text after it.\<close>

definition emit_text :: "string \<Rightarrow> (string \<times> string) option \<Rightarrow> (string \<times> string) option" where
  "emit_text x r = map_option (\<lambda>(v, t). (x @ v, t)) r"

function read_string :: "string \<Rightarrow> (string \<times> string) option" where
  "read_string [] = None"
| "read_string (c # s) =
     (if c = CHR 0x22 then Some ([], s)
      else if c = CHR 0x5C
      then (case s of
              [] \<Rightarrow> None
            | e # s1 \<Rightarrow>
                if e = CHR ''u''
                then (case read_hex4 s1 of
                        None \<Rightarrow> None
                      | Some (r, s2) \<Rightarrow>
                          emit_text (encode_rune (fst (escape_rune r s2))) (read_string (snd (escape_rune r s2))))
                else (case escape_char e of
                        None \<Rightarrow> None
                      | Some d \<Rightarrow> emit_text [d] (read_string s1)))
      else if byte c < 32 then None
      else if bad_rune (decode_rune c s) then emit_text (encode_rune 65533) (read_string s)
      else emit_text (c # take (snd (decode_rune c s) - 1) s) (read_string (drop (snd (decode_rune c s) - 1) s)))"
  by pat_completeness auto
termination
proof (relation "measure length", goal_cases)
  case (2 c s e s1 p r s2)
  then have "length (snd (escape_rune r s2)) \<le> length s2"
    by (auto simp: escape_rune_def dest: surrogate_pair_length split: option.splits)
  with 2 show ?case by (auto dest: read_hex4_length)
qed auto

fun skip_ws :: "string \<Rightarrow> string" where
  "skip_ws (c # s) = (if c \<in> {CHR '' '', CHR 0x09, CHR 0x0A, CHR 0x0D} then skip_ws s else c # s)"
| "skip_ws [] = []"

section \<open>Reading back the strings that were written\<close>

lemma byte_less [simp]: "byte c < 256"
  by (simp add: byte_def)

lemma char_at_byte [simp]: "char_at (byte c) = c"
  by (simp add: char_at_def byte_def)

lemma byte_char_at: "n < 256 \<Longrightarrow> byte (char_at n) = n"
  by (simp add: char_at_def byte_def of_char_of)

lemma byte_eqI: "byte c = byte d \<Longrightarrow> c = d"
  by (metis char_at_byte)

lemma hex_val_digit: "d < 16 \<Longrightarrow> hex_val (hex_digit d) = Some d"
  by (auto simp: hex_val_def hex_digit_def byte_def of_char_of Let_def)

lemma read_hex4_hex4: "r < 65536 \<Longrightarrow> read_hex4 (hex4 r @ t) = Some (r, t)"
proof -
  define a where "a = r div 16"
  define b where "b = a div 16"
  define c where "c = b div 16"
  assume "r < 65536"
  then have c: "c < 16" by (simp add: a_def b_def c_def)
  have d: "r div 256 = b" "r div 4096 = c" by (simp_all add: a_def b_def c_def flip: div_mult2_eq)
  have "c * 16 + b mod 16 = b" "b * 16 + a mod 16 = a" "a * 16 + r mod 16 = r"
    by (simp_all add: a_def b_def c_def)
  then show ?thesis by (simp add: hex4_def hex_val_digit d c flip: a_def)
qed

lemma decode_rune_width: "decode_rune c s = (r, n) \<Longrightarrow> 1 \<le> n \<and> n - 1 \<le> length s"
  by (auto simp: decode_rune_def Let_def split: if_splits)

text \<open>A well-formed sequence decodes alike whatever text follows it.\<close>

lemma decode_rune_local:
  assumes "decode_rune c s = (r, n)" and "\<not> bad_rune (r, n)"
  shows "decode_rune c (take (n - 1) s @ t) = (r, n)"
proof -
  have nth: "(take (n - 1) s @ t) ! i = s ! i" if "i < n - 1" for i
    using that decode_rune_width [OF assms(1)] by (simp add: nth_append)
  have len: "n - 1 \<le> length (take (n - 1) s @ t)"
    using decode_rune_width [OF assms(1)] by simp
  from assms nth len show ?thesis
    unfolding decode_rune_def Let_def bad_rune_def
    by (auto split: if_splits simp del: take_append)
qed

text \<open>One step of the reader undoes one step of the writer.\<close>

lemma emit_text_simps [simp]:
  "emit_text x None = None" "emit_text x (Some (v, t)) = Some (x @ v, t)"
  by (simp_all add: emit_text_def)

lemma read_escape_u:
  assumes "r < 65536" and "\<not> (55296 \<le> r \<and> r \<le> 57343)"
  shows "read_string (CHR 0x5C # CHR ''u'' # hex4 r @ t) = emit_text (encode_rune r) (read_string t)"
proof -
  have "escape_rune r t = (r, t)" using assms(2) by (auto simp: escape_rune_def)
  with assms(1) show ?thesis by (simp add: read_hex4_hex4)
qed

lemma quote_ascii_cases:
  assumes "byte c < 128"
  shows "read_string (quote_ascii c @ t) = emit_text [c] (read_string t)"
proof -
  let ?b = "byte c"
  have lit: "c = CHR 0x22 \<longleftrightarrow> ?b = 34" "c = CHR 0x5C \<longleftrightarrow> ?b = 92" "c = CHR 0x08 \<longleftrightarrow> ?b = 8"
    "c = CHR 0x0C \<longleftrightarrow> ?b = 12" "c = CHR 0x0A \<longleftrightarrow> ?b = 10" "c = CHR 0x0D \<longleftrightarrow> ?b = 13" "c = CHR 0x09 \<longleftrightarrow> ?b = 9"
    by (auto simp: byte_def intro: byte_eqI)
  have dec: "decode_rune c t = (?b, 1)" by (rule decode_rune_ascii [OF assms])
  have enc: "encode_rune ?b = [c]" using assms by (simp add: encode_rune_def)
  consider "?b = 34 \<or> ?b = 92" | "?b = 8" | "?b = 12" | "?b = 10" | "?b = 13" | "?b = 9"
    | "?b \<notin> {34, 92, 8, 12, 10, 13, 9} \<and> (?b < 32 \<or> ?b = 60 \<or> ?b = 62 \<or> ?b = 38)"
    | "?b \<notin> {34, 92} \<and> \<not> (?b < 32 \<or> ?b = 60 \<or> ?b = 62 \<or> ?b = 38)" by blast
  then show ?thesis
  proof cases
    case 7
    then have "quote_ascii c = CHR 0x5C # CHR ''u'' # hex4 ?b" by (auto simp: quote_ascii_def Let_def)
    with read_escape_u [of ?b t] assms enc show ?thesis by simp
  next
    case 8
    then have "quote_ascii c = [c]" by (auto simp: quote_ascii_def Let_def)
    moreover have "\<not> bad_rune (decode_rune c t)" using assms by (simp add: dec bad_rune_def)
    ultimately show ?thesis using 8 dec by (simp add: lit)
  next
    case 1
    then have "c = CHR 0x22 \<or> c = CHR 0x5C" by (simp add: lit)
    then show ?thesis by (elim disjE) (simp_all add: quote_ascii_def escape_char_def byte_def)
  next
    case 2
    then have "c = CHR 0x08" by (simp add: lit)
    then show ?thesis by (simp add: quote_ascii_def escape_char_def byte_def)
  next
    case 3
    then have "c = CHR 0x0C" by (simp add: lit)
    then show ?thesis by (simp add: quote_ascii_def escape_char_def byte_def)
  next
    case 4
    then have "c = CHR 0x0A" by (simp add: lit)
    then show ?thesis by (simp add: quote_ascii_def escape_char_def byte_def)
  next
    case 5
    then have "c = CHR 0x0D" by (simp add: lit)
    then show ?thesis by (simp add: quote_ascii_def escape_char_def byte_def)
  next
    case 6
    then have "c = CHR 0x09" by (simp add: lit)
    then show ?thesis by (simp add: quote_ascii_def escape_char_def byte_def)
  qed
qed

text \<open>The two line separators that the writer escapes, as bytes.\<close>

lemma decode_rune_separator:
  assumes "decode_rune c s = (r, n)" and "r = 8232 \<or> r = 8233"
  shows "n = 3 \<and> encode_rune r = c # take 2 s"
proof -
  obtain d e u where s: "s = d # e # u" and n: "n = 3" and b: "byte c = 226" "byte d = 128"
    "byte e = (if r = 8232 then 168 else 169)"
  proof -
    have b: "224 \<le> byte c \<and> byte c \<le> 239 \<and> 2 \<le> length s \<and> is_cont (s ! 0) \<and> is_cont (s ! 1) \<and> n = 3 \<and>
        r = (byte c - 224) * 4096 + (byte (s ! 0) - 128) * 64 + (byte (s ! 1) - 128)"
      using assms unfolding decode_rune_def Let_def is_cont_def by (auto split: if_splits)
    then obtain d e u where s: "s = d # e # u" by (cases s; cases "tl s") auto
    define x y z where "x = byte c - 224" and "y = byte d - 128" and "z = byte e - 128"
    with b s have c: "byte c = 224 + x" "byte d = 128 + y" "byte e = 128 + z" and lt: "y < 64" "z < 64"
      and r: "r = x * 4096 + y * 64 + z" by (auto simp: is_cont_def)
    define q where "q = y + x * 64"
    have "r = z + q * 64" by (simp add: r q_def)
    then have z: "z = r mod 64" and q: "q = r div 64" using lt by simp_all
    have "y = q mod 64" "x = q div 64" unfolding q_def using lt(1) by simp_all
    note xy = this [unfolded q]
    with c z xy assms(2) have "byte c = 226" "byte d = 128" "byte e = (if r = 8232 then 168 else 169)" by auto
    with s b that show thesis by blast
  qed
  have "c = char_at 226" "d = char_at 128" "e = char_at (if r = 8232 then 168 else 169)"
    using b by (metis char_at_byte)+
  with s n assms(2) show ?thesis by (auto simp: encode_rune_def)
qed

lemma read_quote_body:
  "utf8_valid s \<Longrightarrow> read_string (quote_body s @ CHR 0x22 # t) = Some (s, t)"
proof (induction s rule: quote_body.induct)
  case 1
  then show ?case by simp
next
  case (2 c s)
  obtain r n where rn: "decode_rune c s = (r, n)" by (cases "decode_rune c s")
  from 2 rn have ih: "read_string (quote_body (drop (n - 1) s) @ CHR 0x22 # t) = Some (drop (n - 1) s, t)"
    and ok: "\<not> bad_rune (r, n)" by (simp_all add: Let_def)
  show ?case
  proof (cases "byte c < 128")
    case True
    with rn have "n = 1" by (simp add: decode_rune_ascii)
    with True rn ih show ?thesis by (simp add: quote_ascii_cases)
  next
    case False
    show ?thesis
    proof (cases "r = 8232 \<or> r = 8233")
      case sep: True
      from decode_rune_separator [OF rn sep] have n: "n = 3" and e: "encode_rune r = c # take 2 s" by auto
      have "r < 65536" "\<not> (55296 \<le> r \<and> r \<le> 57343)" using sep by auto
      from read_escape_u [OF this] n e ih rn sep False show ?thesis by simp
    next
      case plain: False
      let ?u = "take (n - 1) s @ quote_body (drop (n - 1) s) @ CHR 0x22 # t"
      from decode_rune_width [OF rn] have len: "length (take (n - 1) s) = n - 1" by simp
      have dec: "decode_rune c ?u = (r, n)" by (rule decode_rune_local [OF rn ok])
      have "c \<noteq> CHR 0x22" "c \<noteq> CHR 0x5C" using False by (auto simp: byte_def)
      with False dec ok len have "read_string (c # ?u) = emit_text (c # take (n - 1) s) (Some (drop (n - 1) s, t))"
        by (simp add: ih [simplified])
      then have "read_string (c # ?u) = Some (c # s, t)"
        using emit_text_simps(2) [of "c # take (n - 1) s" "drop (n - 1) s" t] by (simp only: append_Cons append_take_drop_id)
      moreover have "quote_body (c # s) @ CHR 0x22 # t = c # ?u"
        using False plain ok rn by (simp add: Let_def)
      ultimately show ?thesis by (simp only:)
    qed
  qed
qed

section \<open>Writing values\<close>

fun json_text :: "json \<Rightarrow> string" where
  "json_text JNull = ''null''"
| "json_text (JBool b) = (if b then ''true'' else ''false'')"
| "json_text (JNum i) = itoa i"
| "json_text (JNumText t) = t"
| "json_text (JStr s) = quote_json s"
| "json_text (JArr vs) = CHR ''['' # str_join '','' (map json_text vs) @ [CHR '']'']"
| "json_text (JObj kvs) =
     CHR ''{'' # str_join '','' (map (\<lambda>(k, v). quote_json k @ CHR '':'' # json_text v) kvs) @ [CHR ''}'']"

text \<open>\<open>json.Encoder\<close> ends what it writes with a newline.\<close>

definition encoder_text :: "json \<Rightarrow> string" where
  "encoder_text j = json_text j @ newline"

section \<open>Reading values\<close>

definition span_digits :: "string \<Rightarrow> string \<times> string" where
  "span_digits s = (takeWhile is_digit s, dropWhile is_digit s)"

text \<open>The integer part of a number: no leading zeros. A fraction and an exponent need a digit.\<close>

definition read_int_part :: "string \<Rightarrow> (string \<times> string) option" where
  "read_int_part s =
     (case s of
        [] \<Rightarrow> None
      | c # t \<Rightarrow>
          if c = CHR ''0'' then Some ([c], t)
          else if is_digit c then Some (span_digits s) else None)"

definition read_fraction :: "string \<Rightarrow> (string \<times> string) option" where
  "read_fraction s =
     (case s of
        [] \<Rightarrow> Some ([], [])
      | c # t \<Rightarrow>
          if c \<noteq> CHR ''.'' then Some ([], s)
          else (case span_digits t of (ds, u) \<Rightarrow> if ds = [] then None else Some (c # ds, u)))"

definition read_exponent :: "string \<Rightarrow> (string \<times> string) option" where
  "read_exponent s =
     (case s of
        [] \<Rightarrow> Some ([], [])
      | c # t \<Rightarrow>
          if c \<notin> {CHR ''e'', CHR ''E''} then Some ([], s)
          else (let sign = (if t \<noteq> [] \<and> hd t \<in> {CHR ''+'', CHR ''-''} then [hd t] else [])
                in case span_digits (drop (length sign) t) of
                     (ds, u) \<Rightarrow> if ds = [] then None else Some (c # sign @ ds, u)))"

definition number_value :: "bool \<Rightarrow> string \<Rightarrow> string \<Rightarrow> json" where
  "number_value neg ds rest =
     (if rest = [] \<and> (neg \<longrightarrow> ds \<noteq> ''0'')
      then JNum (if neg then - int (digits_val 0 ds) else int (digits_val 0 ds))
      else JNumText ((if neg then ''-'' else []) @ ds @ rest))"

definition parse_number :: "string \<Rightarrow> (json \<times> string) option" where
  "parse_number s =
     (let neg = (s \<noteq> [] \<and> hd s = CHR ''-'')
      in case read_int_part (if neg then tl s else s) of
           None \<Rightarrow> None
         | Some (ds, s1) \<Rightarrow>
             (case read_fraction s1 of
                None \<Rightarrow> None
              | Some (fr, s2) \<Rightarrow>
                  (case read_exponent s2 of
                     None \<Rightarrow> None
                   | Some (ex, s3) \<Rightarrow> Some (number_value neg ds (fr @ ex), s3))))"

definition literal :: "string \<Rightarrow> json \<Rightarrow> string \<Rightarrow> (json \<times> string) option" where
  "literal w v s = (if take (length w) s = w then Some (v, drop (length w) s) else None)"

text \<open>
  A value, the text standing at its first byte; the elements of an array and the members of an object,
  the text standing at the first of them. Every nesting level, element and member takes at least one
  byte of the text and two steps, so twice its length is enough fuel.
\<close>

fun parse_value :: "nat \<Rightarrow> string \<Rightarrow> (json \<times> string) option"
  and parse_elems :: "nat \<Rightarrow> string \<Rightarrow> (json list \<times> string) option"
  and parse_members :: "nat \<Rightarrow> string \<Rightarrow> ((string \<times> json) list \<times> string) option" where
  "parse_value 0 s = None"
| "parse_value (Suc n) s =
     (case s of
        [] \<Rightarrow> None
      | c # t \<Rightarrow>
          if c = CHR 0x22 then map_option (\<lambda>(v, u). (JStr v, u)) (read_string t)
          else if c = CHR ''{''
          then (case skip_ws t of
                  [] \<Rightarrow> None
                | d # u \<Rightarrow>
                    if d = CHR ''}'' then Some (JObj [], u)
                    else map_option (\<lambda>(ms, u). (JObj ms, u)) (parse_members n (d # u)))
          else if c = CHR ''[''
          then (case skip_ws t of
                  [] \<Rightarrow> None
                | d # u \<Rightarrow>
                    if d = CHR '']'' then Some (JArr [], u)
                    else map_option (\<lambda>(vs, u). (JArr vs, u)) (parse_elems n (d # u)))
          else if c = CHR ''t'' then literal ''true'' (JBool True) s
          else if c = CHR ''f'' then literal ''false'' (JBool False) s
          else if c = CHR ''n'' then literal ''null'' JNull s
          else parse_number s)"
| "parse_elems 0 s = None"
| "parse_elems (Suc n) s =
     (case parse_value n s of
        None \<Rightarrow> None
      | Some (v, s1) \<Rightarrow>
          (case skip_ws s1 of
             [] \<Rightarrow> None
           | d # s2 \<Rightarrow>
               if d = CHR '']'' then Some ([v], s2)
               else if d = CHR '','' then map_option (\<lambda>(vs, u). (v # vs, u)) (parse_elems n (skip_ws s2))
               else None))"
| "parse_members 0 s = None"
| "parse_members (Suc n) s =
     (case s of
        [] \<Rightarrow> None
      | q # s0 \<Rightarrow>
          if q \<noteq> CHR 0x22 then None
          else (case read_string s0 of
                  None \<Rightarrow> None
                | Some (k, s1) \<Rightarrow>
                    (case skip_ws s1 of
                       [] \<Rightarrow> None
                     | colon # s2 \<Rightarrow>
                         if colon \<noteq> CHR '':'' then None
                         else (case parse_value n (skip_ws s2) of
                                 None \<Rightarrow> None
                               | Some (v, s3) \<Rightarrow>
                                   (case skip_ws s3 of
                                      [] \<Rightarrow> None
                                    | d # s4 \<Rightarrow>
                                        if d = CHR ''}'' then Some ([(k, v)], s4)
                                        else if d = CHR '',''
                                        then map_option (\<lambda>(ms, u). ((k, v) # ms, u)) (parse_members n (skip_ws s4))
                                        else None)))))"

text \<open>The first value of a text, as \<open>json.Decoder\<close> reads it, and a text that is one value.\<close>

definition read_json :: "string \<Rightarrow> (json \<times> string) option" where
  "read_json s = parse_value (Suc (2 * length s)) (skip_ws s)"

definition parse_json :: "string \<Rightarrow> json option" where
  "parse_json s =
     (case read_json s of Some (v, t) \<Rightarrow> if skip_ws t = [] then Some v else None | None \<Rightarrow> None)"

section \<open>Reading back the values that were written\<close>

fun json_ok :: "json \<Rightarrow> bool" where
  "json_ok JNull = True"
| "json_ok (JBool b) = True"
| "json_ok (JNum i) = True"
| "json_ok (JNumText t) = False"
| "json_ok (JStr s) = utf8_valid s"
| "json_ok (JArr vs) = list_all json_ok vs"
| "json_ok (JObj kvs) = list_all (\<lambda>(k, v). utf8_valid k \<and> json_ok v) kvs"

text \<open>A text that cannot go on with a number that ends before it.\<close>

definition number_ends :: "string \<Rightarrow> bool" where
  "number_ends t \<longleftrightarrow> t = [] \<or> \<not> is_digit (hd t) \<and> hd t \<notin> {CHR ''.'', CHR ''e'', CHR ''E''}"

lemma number_ends_delim [simp]:
  "number_ends []" "number_ends (CHR '','' # t)" "number_ends (CHR '']'' # t)" "number_ends (CHR ''}'' # t)"
  "number_ends (CHR 0x0A # t)"
  by (simp_all add: number_ends_def is_digit_def)

lemma hd_itoa_nat_zero: "hd (itoa_nat n) = CHR ''0'' \<longleftrightarrow> n = 0"
proof (induction n rule: itoa_nat.induct)
  case (1 n)
  show ?case
  proof (cases "n < 10")
    case True
    then have v: "digit_val (digit_char n) = n" by (rule digit_char_val)
    have "digit_char 0 = CHR ''0''" by code_simp
    moreover have "digit_val CHR ''0'' = 0" by code_simp
    ultimately have "digit_char n = CHR ''0'' \<longleftrightarrow> n = 0" using v by metis
    with True show ?thesis by (simp add: itoa_nat.simps [of n])
  next
    case False
    with 1 have "hd (itoa_nat (n div 10)) = CHR ''0'' \<longleftrightarrow> n div 10 = 0" by simp
    moreover have "itoa_nat n = itoa_nat (n div 10) @ [digit_char (n mod 10)]" using False by (simp add: itoa_nat.simps [of n])
    ultimately show ?thesis using False by (simp add: hd_append del: itoa_nat.simps)
  qed
qed

lemma span_itoa:
  assumes "number_ends t"
  shows "takeWhile is_digit (itoa_nat n @ t) = itoa_nat n" "dropWhile is_digit (itoa_nat n @ t) = t"
proof -
  have "\<forall>c\<in>set (itoa_nat n). is_digit c" by (simp add: itoa_nat_digits del: itoa_nat.simps)
  moreover have "t = [] \<or> \<not> is_digit (hd t)" using assms by (auto simp: number_ends_def)
  ultimately show "takeWhile is_digit (itoa_nat n @ t) = itoa_nat n" "dropWhile is_digit (itoa_nat n @ t) = t"
    by (cases t; simp add: takeWhile_append2 dropWhile_append2 del: itoa_nat.simps)+
qed

lemma read_int_part_itoa:
  assumes "number_ends t"
  shows "read_int_part (itoa_nat n @ t) = Some (itoa_nat n, t)"
proof (cases "n = 0")
  case True
  have "itoa_nat 0 = ''0''" by code_simp
  with True show ?thesis by (simp add: read_int_part_def del: itoa_nat.simps)
next
  case False
  obtain c cs where i: "itoa_nat n = c # cs" by (cases "itoa_nat n") (auto simp del: itoa_nat.simps)
  with False hd_itoa_nat_zero [of n] hd_itoa_nat_digit [of n] have "c \<noteq> CHR ''0''" "is_digit c" by simp_all
  with span_itoa [OF assms, of n] i show ?thesis by (simp add: read_int_part_def span_digits_def)
qed

lemma read_rest_ends:
  assumes "number_ends t"
  shows "read_fraction t = Some ([], t)" "read_exponent t = Some ([], t)"
  using assms by (cases t; auto simp: number_ends_def read_fraction_def read_exponent_def)+

lemma hd_not_minus: "hd (itoa_nat n) \<noteq> CHR ''-''"
  using not_sign_if_digit [OF hd_itoa_nat_digit] by blast

lemma parse_number_itoa:
  assumes "number_ends t"
  shows "parse_number (itoa i @ t) = Some (JNum i, t)"
proof (cases "i < 0")
  case True
  then have "nat (- i) \<noteq> 0" by simp
  then have "itoa_nat (nat (- i)) \<noteq> ''0''" using hd_itoa_nat_zero [of "nat (- i)"] by (auto simp del: itoa_nat.simps)
  with True show ?thesis
    by (simp add: itoa_def parse_number_def read_int_part_itoa [OF assms] read_rest_ends [OF assms] number_value_def
        digits_val_itoa_nat del: itoa_nat.simps)
next
  case False
  with hd_not_minus [of "nat i"] show ?thesis
    by (simp add: itoa_def parse_number_def read_int_part_itoa [OF assms] read_rest_ends [OF assms] number_value_def
        digits_val_itoa_nat hd_append del: itoa_nat.simps)
qed

text \<open>No value starts with white space, nor with a closing bracket.\<close>

definition starts_value :: "string \<Rightarrow> bool" where
  "starts_value s \<longleftrightarrow> s \<noteq> [] \<and> hd s \<notin> {CHR '' '', CHR 0x09, CHR 0x0A, CHR 0x0D, CHR '']'', CHR ''}''}"

lemma skip_ws_start: "starts_value s \<Longrightarrow> skip_ws (s @ t) = s @ t"
  by (cases s) (auto simp: starts_value_def)

lemma itoa_starts: "hd (itoa i) = CHR ''-'' \<or> is_digit (hd (itoa i))" "itoa i \<noteq> []"
  using hd_itoa_nat_digit by (auto simp: itoa_def simp del: itoa_nat.simps)

lemma json_text_starts: "json_ok j \<Longrightarrow> starts_value (json_text j)"
proof (cases j)
  case (JNum i)
  with itoa_starts [of i] show ?thesis by (auto simp: starts_value_def is_digit_def)
qed (auto simp: starts_value_def quote_json_def)

lemma literal_same: "literal w v (w @ t) = Some (v, t)"
  by (simp add: literal_def)

lemma length_json_text_pos: "json_ok j \<Longrightarrow> 0 < length (json_text j)"
  using json_text_starts by (auto simp: starts_value_def)

text \<open>The elements and the members, given that each value reads back.\<close>

lemma parse_elems_written:
  assumes "vs \<noteq> []" and "2 * length (str_join '','' (map json_text vs)) + 1 < n"
    and "\<And>v. v \<in> set vs \<Longrightarrow> starts_value (json_text v)"
    and "\<And>v m t. v \<in> set vs \<Longrightarrow> 2 * length (json_text v) < m \<Longrightarrow> number_ends t \<Longrightarrow>
      parse_value m (json_text v @ t) = Some (v, t)"
  shows "parse_elems n (str_join '','' (map json_text vs) @ CHR '']'' # t) = Some (vs, t)"
  using assms
proof (induction vs arbitrary: n)
  case (Cons v vs)
  then obtain m where n: "n = Suc m" by (cases n) auto
  from Cons.prems(3) [of v] have pos: "0 < length (json_text v)" by (simp add: starts_value_def)
  show ?case
  proof (cases vs)
    case Nil
    have "parse_value m (json_text v @ CHR '']'' # t) = Some (v, CHR '']'' # t)"
      using Cons.prems(2,4) n Nil by simp
    with n Nil show ?thesis by simp
  next
    case (Cons v' vs')
    let ?rest = "str_join '','' (map json_text vs)"
    have len: "2 * length (json_text v) < m" "2 * length ?rest + 1 < m"
      using Cons.prems(2) n Cons pos by simp_all
    have "parse_value m (json_text v @ CHR '','' # ?rest @ CHR '']'' # t) = Some (v, CHR '','' # ?rest @ CHR '']'' # t)"
      using Cons.prems(4) len(1) by simp
    moreover have "starts_value ?rest"
      using Cons.prems(3) [of v'] Cons by (cases vs') (auto simp: starts_value_def)
    then have "skip_ws (?rest @ CHR '']'' # t) = ?rest @ CHR '']'' # t" by (rule skip_ws_start)
    moreover have "parse_elems m (?rest @ CHR '']'' # t) = Some (vs, t)"
      by (rule Cons.IH) (use Cons Cons.prems(3,4) len(2) in auto)
    ultimately show ?thesis using n Cons by simp
  qed
qed simp

definition pair_text :: "string \<times> json \<Rightarrow> string" where
  "pair_text kv = quote_json (fst kv) @ CHR '':'' # json_text (snd kv)"

lemma json_text_obj: "json_text (JObj kvs) = CHR ''{'' # str_join '','' (map pair_text kvs) @ [CHR ''}'']"
proof -
  have "pair_text = (\<lambda>(k, v). quote_json k @ CHR '':'' # json_text v)"
    by (simp add: fun_eq_iff pair_text_def)
  then show ?thesis by simp
qed

lemma pair_text_starts: "starts_value (pair_text kv @ t)"
  by (simp add: pair_text_def quote_json_def starts_value_def)

lemma parse_member_written:
  assumes "utf8_valid k" and "starts_value (json_text v)" and "parse_value n (json_text v @ t) = Some (v, t)"
    and "skip_ws t = d # u"
  shows "parse_members (Suc n) (pair_text (k, v) @ t) =
    (if d = CHR ''}'' then Some ([(k, v)], u)
     else if d = CHR '','' then map_option (\<lambda>(ms, u). ((k, v) # ms, u)) (parse_members n (skip_ws u))
     else None)"
proof -
  have "read_string (quote_body k @ CHR 0x22 # CHR '':'' # json_text v @ t) = Some (k, CHR '':'' # json_text v @ t)"
    by (rule read_quote_body [OF assms(1)])
  then show ?thesis
    using assms(3,4) by (simp add: pair_text_def quote_json_def skip_ws_start [OF assms(2)])
qed

lemma parse_members_written:
  assumes "kvs \<noteq> []" and "2 * length (str_join '','' (map pair_text kvs)) + 1 < n"
    and "\<And>k v. (k, v) \<in> set kvs \<Longrightarrow> utf8_valid k \<and> starts_value (json_text v)"
    and "\<And>k v m t. (k, v) \<in> set kvs \<Longrightarrow> 2 * length (json_text v) < m \<Longrightarrow> number_ends t \<Longrightarrow>
      parse_value m (json_text v @ t) = Some (v, t)"
  shows "parse_members n (str_join '','' (map pair_text kvs) @ CHR ''}'' # t) = Some (kvs, t)"
  using assms
proof (induction kvs arbitrary: n)
  case (Cons kv kvs)
  obtain k v where kv: "kv = (k, v)" by (cases kv)
  from Cons.prems(2) obtain m where n: "n = Suc m" by (cases n) auto
  have val: "utf8_valid k" "starts_value (json_text v)" using Cons.prems(3) kv by auto
  have short: "length (json_text v) < length (pair_text kv)" by (simp add: kv pair_text_def quote_json_def)
  show ?case
  proof (cases kvs)
    case Nil
    have "parse_value m (json_text v @ CHR ''}'' # t) = Some (v, CHR ''}'' # t)"
      using Cons.prems(2) short n Nil by (intro Cons.prems(4)) (auto simp: kv)
    from parse_member_written [OF val this] show ?thesis by (simp add: n Nil kv)
  next
    case (Cons kv' kvs')
    let ?rest = "str_join '','' (map pair_text kvs)"
    have len: "2 * length (json_text v) < m" "2 * length ?rest + 1 < m"
      using Cons.prems(2) n Cons short by simp_all
    have "parse_value m (json_text v @ CHR '','' # ?rest @ CHR ''}'' # t) = Some (v, CHR '','' # ?rest @ CHR ''}'' # t)"
      using len(1) by (intro Cons.prems(4)) (auto simp: kv)
    note member = parse_member_written [OF val this]
    have "skip_ws (?rest @ CHR ''}'' # t) = ?rest @ CHR ''}'' # t"
      using pair_text_starts [of kv'] Cons by (cases kvs') (simp_all add: starts_value_def pair_text_def quote_json_def)
    moreover have "parse_members m (?rest @ CHR ''}'' # t) = Some (kvs, t)"
    proof (rule Cons.IH [OF _ len(2)])
      show "parse_value i (json_text w @ u) = Some (w, u)"
        if "(j, w) \<in> set kvs" "2 * length (json_text w) < i" "number_ends u" for j w i u
        using Cons.prems(4) [of j w i u] that by simp
    qed (use Cons Cons.prems(3) in auto)
    ultimately show ?thesis using member by (simp add: n Cons kv)
  qed
qed simp

lemma parse_value_written:
  "json_ok j \<Longrightarrow> 2 * length (json_text j) < n \<Longrightarrow> number_ends t \<Longrightarrow> parse_value n (json_text j @ t) = Some (j, t)"
proof (induction j arbitrary: n t)
  case (JNum i)
  then obtain m where n: "n = Suc m" by (cases n) auto
  obtain c cs where i: "itoa i = c # cs" using itoa_starts(2) [of i] by (cases "itoa i") auto
  with itoa_starts(1) [of i] have "c \<notin> {CHR 0x22, CHR ''{'', CHR ''['', CHR ''t'', CHR ''f'', CHR ''n''}"
    by (auto simp: is_digit_def)
  with parse_number_itoa [OF JNum.prems(3), of i] i n show ?case by simp
next
  case (JStr s)
  then obtain m where "n = Suc m" by (cases n) auto
  with JStr read_quote_body show ?case by (simp add: quote_json_def)
next
  case (JArr vs)
  then obtain m where n: "n = Suc m" by (cases n) auto
  show ?case
  proof (cases vs)
    case Nil
    with n show ?thesis by simp
  next
    case (Cons v vs')
    let ?els = "str_join '','' (map json_text vs)"
    have ok: "\<And>v. v \<in> set vs \<Longrightarrow> json_ok v" using JArr.prems(1) by (simp add: list_all_iff)
    have "parse_elems m (?els @ CHR '']'' # t) = Some (vs, t)"
      by (rule parse_elems_written) (use JArr ok Cons n json_text_starts in auto)
    moreover have "starts_value ?els"
      using json_text_starts [OF ok, of v] Cons by (cases vs') (auto simp: starts_value_def)
    then obtain c u where "?els = c # u" "c \<noteq> CHR '']''" "skip_ws (c # u @ CHR '']'' # t) = c # u @ CHR '']'' # t"
      using skip_ws_start [of ?els "CHR '']'' # t"] by (cases ?els) (auto simp: starts_value_def)
    ultimately show ?thesis using n by simp
  qed
next
  case (JObj kvs)
  then obtain m where n: "n = Suc m" by (cases n) auto
  show ?case
  proof (cases kvs)
    case Nil
    with n show ?thesis by simp
  next
    case (Cons kv kvs')
    let ?mems = "str_join '','' (map pair_text kvs)"
    have ok: "\<And>k v. (k, v) \<in> set kvs \<Longrightarrow> utf8_valid k \<and> json_ok v" using JObj.prems(1) by (auto simp: list_all_iff)
    have "parse_members m (?mems @ CHR ''}'' # t) = Some (kvs, t)"
    proof (rule parse_members_written)
      show "2 * length ?mems + 1 < m" using JObj.prems(2) n unfolding json_text_obj by simp
      show "parse_value m (json_text v @ t) = Some (v, t)"
        if "(k, v) \<in> set kvs" "2 * length (json_text v) < m" "number_ends t" for k v m t
        using JObj.IH [of "(k, v)" v] that ok by auto
    qed (use ok json_text_starts Cons in auto)
    moreover have "starts_value ?mems"
      using pair_text_starts [of kv "[]"] Cons by (cases kvs') (auto simp: starts_value_def)
    then obtain c u where "?mems = c # u" "c \<noteq> CHR ''}''" "skip_ws (c # u @ CHR ''}'' # t) = c # u @ CHR ''}'' # t"
      using skip_ws_start [of ?mems "CHR ''}'' # t"] by (cases ?mems) (auto simp: starts_value_def)
    ultimately show ?thesis using n unfolding json_text_obj by simp
  qed
next
  case (JBool b)
  then obtain m where "n = Suc m" by (cases n) auto
  then show ?case by (cases b) (simp_all add: literal_def)
next
  case JNull
  then obtain m where "n = Suc m" by (cases n) auto
  then show ?case by (simp add: literal_def)
qed simp

lemma read_json_text:
  assumes "json_ok j" and "number_ends t"
  shows "read_json (json_text j @ t) = Some (j, t)"
proof -
  have "skip_ws (json_text j @ t) = json_text j @ t" by (rule skip_ws_start [OF json_text_starts [OF assms(1)]])
  moreover have "parse_value (Suc (2 * length (json_text j @ t))) (json_text j @ t) = Some (j, t)"
    by (rule parse_value_written [OF assms(1) _ assms(2)]) simp
  ultimately show ?thesis by (simp only: read_json_def)
qed

lemma parse_json_text: "json_ok j \<Longrightarrow> parse_json (json_text j) = Some j"
  using read_json_text [of j "[]"] by (simp add: parse_json_def)

lemma parse_encoder_text: "json_ok j \<Longrightarrow> parse_json (encoder_text j) = Some j"
  using read_json_text [of j newline] by (simp add: parse_json_def encoder_text_def newline_def)

end
