(* ===== verification/HttpBody.thy ===== *)
theory HttpBody
  imports HttpParser GoJsonText
begin

text \<open>
  Request bodies as text. \<open>bindBody\<close> of \<open>http/parser.go\<close> reads the first JSON value of
  the body into a map of raw messages and unmarshals the message of every field it knows; here are
  the two steps on the body's bytes, as \<open>encoding/json\<close> documents them, which makes a
  \<^typ>\<open>'x std_env\<close> without a guess for strings, booleans and integers. The wording of a
  syntax error (\<open>wording\<close>) and the decoding of other types (the environment that is
  extended) stay parameters.
\<close>

section \<open>Raw messages\<close>

text \<open>The members of an object with the text of each value, the text standing at the first of them.\<close>

fun raw_members :: "nat \<Rightarrow> string \<Rightarrow> ((string \<times> string) list \<times> string) option" where
  "raw_members 0 s = None"
| "raw_members (Suc n) s =
     (case s of
        [] \<Rightarrow> None
      | q # s0 \<Rightarrow>
          if q \<noteq> CHR 0x22 then None
          else (case read_string s0 of
                  None \<Rightarrow> None
                | Some (k, s1) \<Rightarrow>
                    (case skip_ws s1 of
                       [] \<Rightarrow> None
                     | colon # s2 \<Rightarrow>
                         if colon \<noteq> CHR '':'' then None
                         else (let val = skip_ws s2
                               in case parse_value n val of
                                    None \<Rightarrow> None
                                  | Some (v, s3) \<Rightarrow>
                                      (let raw = take (length val - length s3) val
                                       in case skip_ws s3 of
                                            [] \<Rightarrow> None
                                          | d # s4 \<Rightarrow>
                                              if d = CHR ''}'' then Some ([(k, raw)], s4)
                                              else if d = CHR '',''
                                              then map_option (\<lambda>(ms, u). ((k, raw) # ms, u))
                                                     (raw_members n (skip_ws s4))
                                              else None)))))"

definition json_kind :: "json \<Rightarrow> string" where
  "json_kind j =
     (case j of
        JNull \<Rightarrow> ''null'' | JBool b \<Rightarrow> ''bool'' | JNum i \<Rightarrow> ''number'' | JNumText t \<Rightarrow> ''number''
      | JStr s \<Rightarrow> ''string'' | JArr vs \<Rightarrow> ''array'' | JObj kvs \<Rightarrow> ''object'')"

definition type_mismatch :: "string \<Rightarrow> string \<Rightarrow> go_error" where
  "type_mismatch ex got =
     EJsonType ex got (''json: cannot unmarshal '' @ got @ '' into Go value of type '' @ ex)"

text \<open>
  \<open>json.NewDecoder(body).Decode(&raw)\<close>: the decoder stops behind the first value. A key that
  comes twice keeps its last value, and \<open>null\<close> is the map without keys.
\<close>

definition decode_raw :: "(string \<Rightarrow> string) \<Rightarrow> string \<Rightarrow> body_decode" where
  "decode_raw wording s =
     (let bad = BodyBad (ErrText (wording s))
      in case skip_ws s of
           [] \<Rightarrow> BodyEOF
         | c # t \<Rightarrow>
             if c = CHR ''{''
             then (case skip_ws t of
                     [] \<Rightarrow> bad
                   | d # u \<Rightarrow>
                       if d = CHR ''}'' then BodyObject []
                       else (case raw_members (2 * length s) (d # u) of
                               None \<Rightarrow> bad
                             | Some (ms, rest) \<Rightarrow> BodyObject (maps_copy [] ms)))
             else (case read_json s of
                     None \<Rightarrow> bad
                   | Some (v, rest) \<Rightarrow>
                       if v = JNull then BodyObject []
                       else BodyBad (type_mismatch ''map[string]json.RawMessage'' (json_kind v))))"

section \<open>Unmarshalling a field\<close>

definition number_text :: "json \<Rightarrow> string option" where
  "number_text j = (case j of JNum i \<Rightarrow> Some (itoa i) | JNumText t \<Rightarrow> Some t | _ \<Rightarrow> None)"

text \<open>
  \<open>json.Unmarshal\<close> into a field: \<open>null\<close> leaves it alone, and unlike the setters of path
  and query values a number that does not fit is refused.
\<close>

definition unmarshal_int :: "string \<Rightarrow> nat \<Rightarrow> json \<Rightarrow> 'x fval \<Rightarrow> 'x fval \<times> go_error option" where
  "unmarshal_int k b j v =
     (case number_text j of
        None \<Rightarrow> (v, Some (type_mismatch k (json_kind j)))
      | Some t \<Rightarrow>
          (case parse_int t of
             Inl e \<Rightarrow> (v, Some (type_mismatch k (''number '' @ t)))
           | Inr n \<Rightarrow>
               if set_int b n = n then (VInt n, None)
               else (v, Some (type_mismatch k (''number '' @ t)))))"

definition unmarshal_uint :: "string \<Rightarrow> nat \<Rightarrow> json \<Rightarrow> 'x fval \<Rightarrow> 'x fval \<times> go_error option" where
  "unmarshal_uint k b j v =
     (case number_text j of
        None \<Rightarrow> (v, Some (type_mismatch k (json_kind j)))
      | Some t \<Rightarrow>
          (case parse_uint t of
             Inl e \<Rightarrow> (v, Some (type_mismatch k (''number '' @ t)))
           | Inr n \<Rightarrow>
               if set_uint b n = n then (VUint n, None)
               else (v, Some (type_mismatch k (''number '' @ t)))))"

definition unmarshal_value :: "(go_type \<Rightarrow> string \<Rightarrow> 'x fval \<Rightarrow> 'x fval \<times> go_error option) \<Rightarrow>
    go_type \<Rightarrow> string \<Rightarrow> json \<Rightarrow> 'x fval \<Rightarrow> 'x fval \<times> go_error option" where
  "unmarshal_value other t raw j v =
     (case t of
        TString \<Rightarrow>
          (case j of
             JStr s \<Rightarrow> (VString s, None)
           | _ \<Rightarrow> if j = JNull then (v, None) else (v, Some (type_mismatch ''string'' (json_kind j))))
      | TBool \<Rightarrow>
          (case j of
             JBool b \<Rightarrow> (VBool b, None)
           | _ \<Rightarrow> if j = JNull then (v, None) else (v, Some (type_mismatch ''bool'' (json_kind j))))
      | TInt k b \<Rightarrow> if j = JNull then (v, None) else unmarshal_int k b j v
      | TUint k b \<Rightarrow> if j = JNull then (v, None) else unmarshal_uint k b j v
      | _ \<Rightarrow> other t raw v)"

definition unmarshal_raw :: "(string \<Rightarrow> string) \<Rightarrow>
    (go_type \<Rightarrow> string \<Rightarrow> 'x fval \<Rightarrow> 'x fval \<times> go_error option) \<Rightarrow>
    go_type \<Rightarrow> string \<Rightarrow> 'x fval \<Rightarrow> 'x fval \<times> go_error option" where
  "unmarshal_raw wording other t raw v =
     (case parse_json raw of
        None \<Rightarrow> (v, Some (ErrText (wording raw)))
      | Some j \<Rightarrow> unmarshal_value other t raw j v)"

definition json_env :: "(string \<Rightarrow> string) \<Rightarrow> 'x std_env \<Rightarrow> 'x std_env" where
  "json_env wording env =
     env\<lparr>env_decode := decode_raw wording, env_unmarshal := unmarshal_raw wording (env_unmarshal env)\<rparr>"

section \<open>Reading back what was written\<close>

lemma raw_member_written:
  assumes "utf8_valid k" and "starts_value (json_text v)" and "parse_value n (json_text v @ t) = Some (v, t)"
    and "skip_ws t = d # u"
  shows "raw_members (Suc n) (pair_text (k, v) @ t) =
    (if d = CHR ''}'' then Some ([(k, json_text v)], u)
     else if d = CHR '','' then map_option (\<lambda>(ms, u). ((k, json_text v) # ms, u)) (raw_members n (skip_ws u))
     else None)"
proof -
  have "read_string (quote_body k @ CHR 0x22 # CHR '':'' # json_text v @ t) = Some (k, CHR '':'' # json_text v @ t)"
    by (rule read_quote_body [OF assms(1)])
  then show ?thesis
    using assms(3,4) by (simp add: pair_text_def quote_json_def Let_def skip_ws_start [OF assms(2)])
qed

lemma raw_members_written:
  assumes "kvs \<noteq> []" and "2 * length (str_join '','' (map pair_text kvs)) + 1 < n"
    and "\<And>k v. (k, v) \<in> set kvs \<Longrightarrow> utf8_valid k \<and> json_ok v"
  shows "raw_members n (str_join '','' (map pair_text kvs) @ CHR ''}'' # t) =
    Some (map (\<lambda>(k, v). (k, json_text v)) kvs, t)"
  using assms
proof (induction kvs arbitrary: n)
  case (Cons kv kvs)
  obtain k v where kv: "kv = (k, v)" by (cases kv)
  from Cons.prems(2) obtain m where n: "n = Suc m" by (cases n) auto
  have ok: "utf8_valid k" "json_ok v" using Cons.prems(3) kv by auto
  note val = ok(1) json_text_starts [OF ok(2)]
  have short: "length (json_text v) < length (pair_text kv)" by (simp add: kv pair_text_def quote_json_def)
  show ?case
  proof (cases kvs)
    case Nil
    have "parse_value m (json_text v @ CHR ''}'' # t) = Some (v, CHR ''}'' # t)"
      using Cons.prems(2) short n Nil by (intro parse_value_written [OF ok(2)]) auto
    from raw_member_written [OF val this] show ?thesis by (simp add: n Nil kv)
  next
    case (Cons kv' kvs')
    let ?rest = "str_join '','' (map pair_text kvs)"
    have len: "2 * length (json_text v) < m" "2 * length ?rest + 1 < m"
      using Cons.prems(2) n Cons short by simp_all
    have "parse_value m (json_text v @ CHR '','' # ?rest @ CHR ''}'' # t) = Some (v, CHR '','' # ?rest @ CHR ''}'' # t)"
      using len(1) by (intro parse_value_written [OF ok(2)]) auto
    note member = raw_member_written [OF val this]
    have "skip_ws (?rest @ CHR ''}'' # t) = ?rest @ CHR ''}'' # t"
      using pair_text_starts [of kv'] Cons by (cases kvs') (simp_all add: starts_value_def pair_text_def quote_json_def)
    moreover have "raw_members m (?rest @ CHR ''}'' # t) = Some (map (\<lambda>(k, v). (k, json_text v)) kvs, t)"
      by (rule Cons.IH [OF _ len(2)]) (use Cons Cons.prems(3) in auto)
    ultimately show ?thesis using member by (simp add: n Cons kv)
  qed
qed simp

lemma maps_copy_fresh:
  "distinct (map fst m @ map fst ms) \<Longrightarrow> maps_copy m ms = m @ ms"
proof (induction ms arbitrary: m)
  case (Cons kv ms)
  have "k \<notin> set (map fst m) \<Longrightarrow> map_put k v m = m @ [(k, v)]" for k and v :: 'b
    by (induction m) auto
  with Cons show ?case by (cases kv) (simp add: maps_copy_Cons)
qed simp

text \<open>The text of an object decodes to its members, whatever bytes follow it.\<close>

lemma decode_raw_written:
  assumes "list_all (\<lambda>(k, v). utf8_valid k \<and> json_ok v) kvs" and "distinct (map fst kvs)"
  shows "decode_raw wording (json_text (JObj kvs) @ t) = BodyObject (map (\<lambda>(k, v). (k, json_text v)) kvs)"
proof (cases kvs)
  case Nil
  then show ?thesis by (simp add: decode_raw_def)
next
  case (Cons kv kvs')
  let ?mems = "str_join '','' (map pair_text kvs)"
  let ?s = "CHR ''{'' # ?mems @ CHR ''}'' # t"
  have "starts_value ?mems"
    using pair_text_starts [of kv "[]"] Cons by (cases kvs') (auto simp: starts_value_def)
  then obtain c u where mems: "?mems = c # u" "c \<noteq> CHR ''}''"
      "skip_ws (?mems @ CHR ''}'' # t) = c # u @ CHR ''}'' # t"
    using skip_ws_start [of ?mems "CHR ''}'' # t"] by (cases ?mems) (auto simp: starts_value_def)
  have "raw_members (2 * length ?s) (?mems @ CHR ''}'' # t) = Some (map (\<lambda>(k, v). (k, json_text v)) kvs, t)"
    by (rule raw_members_written) (use Cons assms(1) in \<open>auto simp: list_all_iff\<close>)
  moreover have "maps_copy [] (map (\<lambda>(k, v). (k, json_text v)) kvs) = map (\<lambda>(k, v). (k, json_text v)) kvs"
    using assms(2) by (subst maps_copy_fresh) (simp_all add: comp_def case_prod_beta)
  ultimately have "decode_raw wording ?s = BodyObject (map (\<lambda>(k, v). (k, json_text v)) kvs)"
    unfolding decode_raw_def Let_def using mems by simp
  then show ?thesis unfolding json_text_obj by simp
qed

lemma decode_raw_distinct: "decode_raw wording s = BodyObject raw \<Longrightarrow> distinct (map fst raw)"
  by (auto simp: decode_raw_def Let_def distinct_maps_copy split: list.splits option.splits if_splits)

section \<open>Values that a field can hold\<close>

text \<open>What \<open>json.Marshal\<close> makes of a field's value, and which values a field's type has.\<close>

definition value_json :: "'x fval \<Rightarrow> json" where
  "value_json v =
     (case v of
        VString s \<Rightarrow> JStr s
      | VBool b \<Rightarrow> JBool b
      | VInt n \<Rightarrow> JNum n
      | VUint n \<Rightarrow> JNum (int n)
      | VExt x \<Rightarrow> JNull)"

definition fits :: "go_type \<Rightarrow> 'x fval \<Rightarrow> bool" where
  "fits t v =
     (case (t, v) of
        (TString, VString s) \<Rightarrow> utf8_valid s
      | (TBool, VBool b) \<Rightarrow> True
      | (TInt k b, VInt n) \<Rightarrow> 0 < b \<and> b \<le> 64 \<and> - (2 ^ (b - 1)) \<le> n \<and> n < 2 ^ (b - 1)
      | (TUint k b, VUint n) \<Rightarrow> b \<le> 64 \<and> n < 2 ^ b
      | _ \<Rightarrow> False)"

lemma fits_json_ok: "fits t v \<Longrightarrow> json_ok (value_json v)"
  by (auto simp: fits_def value_json_def split: go_type.splits fval.splits)

lemma unmarshal_written:
  assumes "fits t v"
  shows "unmarshal_raw wording other t (json_text (value_json v)) u = (v, None)"
proof -
  have "unmarshal_value other t raw (value_json v) u = (v, None)" for raw
    using assms
  proof (cases t; cases v)
      fix k b n
      assume t: "t = TInt k b" and v: "v = VInt n"
      with assms have b: "0 < b" "b \<le> 64" "- (2 ^ (b - 1)) \<le> n" "n < 2 ^ (b - 1)" by (auto simp: fits_def)
      then have "(2::int) ^ (b - 1) \<le> 2 ^ 63" by (intro power_increasing) auto
      with b have "parse_int (itoa n) = Inr n" by (intro parse_int_itoa) auto
      moreover from b have "set_int b n = n" unfolding set_int_def by (simp add: signed_take_bit_int_eq_self)
      ultimately show ?thesis
        using t v by (simp add: unmarshal_value_def value_json_def unmarshal_int_def number_text_def)
  next
      fix k b n
      assume t: "t = TUint k b" and v: "v = VUint n"
      with assms have b: "b \<le> 64" "n < 2 ^ b" by (auto simp: fits_def)
      then have "(2::nat) ^ b \<le> 2 ^ 64" by (intro power_increasing) auto
      with b have "parse_uint (itoa (int n)) = Inr n" by (simp add: itoa_def parse_uint_itoa max_uint64_def)
      moreover from b have "set_uint b n = n" unfolding set_uint_def by (simp add: take_bit_nat_eq_self)
      ultimately show ?thesis
        using t v by (simp add: unmarshal_value_def value_json_def unmarshal_uint_def number_text_def)
    qed (simp_all add: fits_def unmarshal_value_def value_json_def)
  then show ?thesis using fits_json_ok [OF assms] by (simp add: unmarshal_raw_def parse_json_text)
qed

section \<open>A body arrives as it was sent\<close>

text \<open>What a client sends: a member for every body field, in any order.\<close>

definition body_members :: "'x bind_plan \<Rightarrow> 'x fval list \<Rightarrow> (string \<times> json) list" where
  "body_members b w = map (\<lambda>fb. (bb_key fb, value_json (w ! bb_idx fb))) (bd_body b)"

definition body_fits :: "'x bind_plan \<Rightarrow> 'x fval list \<Rightarrow> bool" where
  "body_fits b w \<longleftrightarrow> distinct (map bb_key (bd_body b)) \<and>
     (\<forall>fb \<in> set (bd_body b). utf8_valid (bb_key fb) \<and> fits (bb_type fb) (w ! bb_idx fb) \<and> bb_idx fb < length w)"

definition json_content :: "'c request \<Rightarrow> bool" where
  "json_content r \<longleftrightarrow> header_get r content_type = '''' \<or>
     trim_space (cut_before CHR '';'' (header_get r content_type)) = ''application/json''"

lemma bind_body_fields_written:
  assumes "\<forall>fb \<in> set fbs. map_of raw (bb_key fb) = Some (json_text (value_json (w ! bb_idx fb))) \<and>
      fits (bb_type fb) (w ! bb_idx fb)"
  shows "bind_body_fields (json_env wording env) raw fbs v =
    (fold (\<lambda>fb v. v[bb_idx fb := w ! bb_idx fb]) fbs v, [])"
  using assms
proof (induction fbs arbitrary: v)
  case (Cons fb fbs)
  then have "env_unmarshal (json_env wording env) (bb_type fb) (json_text (value_json (w ! bb_idx fb))) (v ! bb_idx fb) =
      (w ! bb_idx fb, None)"
    by (simp add: json_env_def unmarshal_written)
  moreover from Cons.prems have "map_of raw (bb_key fb) = Some (json_text (value_json (w ! bb_idx fb)))" by simp
  moreover from Cons have "bind_body_fields (json_env wording env) raw fbs u =
      (fold (\<lambda>fb v. v[bb_idx fb := w ! bb_idx fb]) fbs u, [])" for u by simp
  ultimately show ?case unfolding bind_body_fields.simps by simp
qed simp

lemma nth_fold_update:
  "\<forall>fb \<in> set fbs. g fb < length v \<Longrightarrow>
    fold (\<lambda>fb v. v[g fb := w ! g fb]) fbs v ! i = (if i \<in> g ` set fbs then w ! i else v ! i)"
  by (induction fbs arbitrary: v) (auto simp: nth_list_update)

lemma bind_json_written:
  assumes "body_fits b w" and "bd_known b = map bb_key (bd_body b)" and "length v = length w"
    and "mset kvs = mset (body_members b w)"
  shows "\<exists>v'. bind_json (json_env wording env) b (map (\<lambda>(k, v). (k, json_text v)) kvs) v = (v', []) \<and>
    (\<forall>i. v' ! i = (if i \<in> bb_idx ` set (bd_body b) then w ! i else v ! i))"
proof -
  let ?raw = "map (\<lambda>(k, v). (k, json_text v)) kvs"
  have keys: "map fst ?raw = map fst kvs" by (simp add: comp_def case_prod_beta)
  have "mset (map fst kvs) = mset (map bb_key (bd_body b))"
    using arg_cong [OF assms(4), of "image_mset fst"] by (simp add: body_members_def image_mset.compositionality comp_def)
  then have dist: "distinct (map fst kvs)" and known: "set (map fst kvs) = set (map bb_key (bd_body b))"
    using assms(1) by (metis body_fits_def mset_eq_imp_distinct_iff, metis set_mset_mset)
  have "map_of ?raw (bb_key fb) = Some (json_text (value_json (w ! bb_idx fb)))" if "fb \<in> set (bd_body b)" for fb
  proof (rule map_of_is_SomeI)
    show "distinct (map fst ?raw)" using dist unfolding keys .
    have "(bb_key fb, value_json (w ! bb_idx fb)) \<in> set kvs"
      using that mset_eq_setD [OF assms(4)] by (auto simp: body_members_def)
    then show "(bb_key fb, json_text (value_json (w ! bb_idx fb))) \<in> set ?raw" by force
  qed
  with assms(1) have "bind_body_fields (json_env wording env) ?raw (bd_body b) v =
      (fold (\<lambda>fb v. v[bb_idx fb := w ! bb_idx fb]) (bd_body b) v, [])"
    by (intro bind_body_fields_written) (auto simp: body_fits_def)
  moreover have "unknown_key_reasons b ?raw = []"
  proof -
    have "filter (\<lambda>k. k \<notin> set (bd_known b)) (map fst ?raw) = []"
      unfolding keys assms(2) known [symmetric] by simp
    then show ?thesis by (simp add: unknown_key_reasons_def)
  qed
  ultimately show ?thesis
    using assms(1,3) nth_fold_update [of "bd_body b" bb_idx v w] by (auto simp: bind_json_def body_fits_def)
qed

section \<open>Properties\<close>

text \<open>C21: What a client sends in a JSON body is what the handler gets: the members of a body, written in
  any order, bind to exactly their values with no complaint, whatever bytes follow the object, and
  every field that is not bound from the body stays as it was.\<close>

theorem sent_fields_arrive:
  assumes "build_binder env ss t = Inr b" and "rp_decode_body p = None" and "json_content r"
    and "body_fits b w" and "length v = length w" and "mset kvs = mset (body_members b w)"
  shows "\<exists>v'. bind_body (json_env wording env) p b (r\<lparr>rq_body := encoder_text (JObj kvs) @ rest\<rparr>) v = (v', [], None) \<and>
    (\<forall>i. v' ! i = (if i \<in> bb_idx ` set (bd_body b) then w ! i else v ! i))"
proof -
  from build_binder_wf [OF assms(1)] have known: "bd_known b = map bb_key (bd_body b)"
    by (auto simp: plan_wf_def)
  have ok: "list_all (\<lambda>(k, v). utf8_valid k \<and> json_ok v) kvs"
    using mset_eq_setD [OF assms(6)] assms(4) fits_json_ok
    by (fastforce simp: list_all_iff body_members_def body_fits_def)
  have "mset (map fst kvs) = mset (map bb_key (bd_body b))"
    using arg_cong [OF assms(6), of "image_mset fst"] by (simp add: body_members_def image_mset.compositionality comp_def)
  with assms(4) have "distinct (map fst kvs)" by (metis body_fits_def mset_eq_imp_distinct_iff)
  with ok have "env_decode (json_env wording env) (encoder_text (JObj kvs) @ rest) =
      BodyObject (map (\<lambda>(k, v). (k, json_text v)) kvs)"
    using decode_raw_written [of kvs wording "newline @ rest"] by (simp add: json_env_def encoder_text_def)
  then have "bind_body (json_env wording env) p b (r\<lparr>rq_body := encoder_text (JObj kvs) @ rest\<rparr>) v =
      (case bind_json (json_env wording env) b (map (\<lambda>(k, v). (k, json_text v)) kvs) v of (v', rs) \<Rightarrow> (v', rs, None))"
    using assms(2,3) by (auto simp: bind_body_def json_content_def header_get_def Let_def)
  moreover obtain v' where "bind_json (json_env wording env) b (map (\<lambda>(k, v). (k, json_text v)) kvs) v = (v', [])"
    and "\<forall>i. v' ! i = (if i \<in> bb_idx ` set (bd_body b) then w ! i else v ! i)"
    using bind_json_written [OF assms(4) known assms(5,6)] by blast
  ultimately show ?thesis by simp
qed

definition sample_json_plan :: "unit bind_plan" where
  "sample_json_plan = \<lparr>bd_paths = [\<lparr>pb_key = ''id'', pb_idx = 0, pb_setter = set_int_field 8\<rparr>],
     bd_queries = [], bd_body = [\<lparr>bb_key = ''name'', bb_idx = 1, bb_type = TString\<rparr>,
       \<lparr>bb_key = ''age'', bb_idx = 2, bb_type = TInt ''int8'' 8\<rparr>], bd_known = [''name'', ''age''],
     bd_has_body = True, bd_lenient = False, bd_noop = False\<rparr>"

lemma sample_json_plan_built:
  "build_binder sample_env (\<lambda>t. None) (TStruct ''Req''
     [Field ''ID'' True (TInt ''int8'' 8) [(''path'', ''id'')],
      Field ''Name'' True TString [(''json'', ''name'')],
      Field ''Age'' True (TInt ''int8'' 8) [(''json'', ''age'')]]) = Inr sample_json_plan"
  by (simp add: build_binder_def is_empty_type_def build_field_def string_setter_def tag_get_def get_value_def
      empty_plan_def sample_json_plan_def cut_before_def Let_def)

definition sample_values :: "unit fval list" where
  "sample_values = [VInt 0, VString ''ann'', VInt (- 3)]"

lemma sample_values_fit: "body_fits sample_json_plan sample_values"
  by (simp add: body_fits_def sample_json_plan_def sample_values_def fits_def decode_rune_def bad_rune_def byte_def)

lemma sent_fields_arrive_witness:
  "\<exists>v'. bind_body (json_env (\<lambda>s. ''bad'') sample_env) zero_parser sample_json_plan
      (sample_http_request ''7'' [] []\<lparr>rq_body := encoder_text (JObj [(''age'', JNum (- 3)), (''name'', JStr ''ann'')]) @ ''x''\<rparr>)
      [VInt 7, VString [], VInt 0] = (v', [], None) \<and>
    (\<forall>i. v' ! i = (if i \<in> bb_idx ` set (bd_body sample_json_plan)
       then sample_values ! i else [VInt 7, VString [], VInt 0] ! i))"
proof (rule sent_fields_arrive [OF sample_json_plan_built _ _ sample_values_fit])
  show "mset [(''age'', JNum (- 3)), (''name'', JStr ''ann'')] = mset (body_members sample_json_plan sample_values)"
    by (simp add: body_members_def sample_json_plan_def sample_values_def value_json_def)
qed (simp_all add: zero_parser_def json_content_def header_get_def sample_http_request_def get_value_def
    sample_values_def)

end
