(* ===== verification/HttpMux.thy ===== *)
theory HttpMux
  imports HttpRouter HttpBody
begin

text \<open>
  A mux under the router: \<open>http.ServeMux\<close>, which picks the registered pattern a request
  reaches, and the test requests and response recorder of \<open>net/http/httptest\<close>. It is the
  standard library's part of what \<open>Router.ServeHTTP\<close> of \<open>http/http.go\<close> delegates to,
  so that programs over the router (the conformance suite, the examples) run from the bytes of a
  request to the bytes of its answer. Not modelled of \<open>ServeMux\<close>: host patterns, the
  redirects to a cleaned path or to a trailing slash, and the panic on conflicting patterns.
\<close>

section \<open>Patterns\<close>

datatype segment = SLit string | SWild string | SMulti string | SEnd

fun split_on :: "char \<Rightarrow> string \<Rightarrow> string list" where
  "split_on c [] = [[]]"
| "split_on c (x # s) =
     (if x = c then [] # split_on c s
      else (case split_on c s of [] \<Rightarrow> [[x]] | w # ws \<Rightarrow> (x # w) # ws))"

definition parse_segment :: "string \<Rightarrow> segment" where
  "parse_segment s =
     (if s = ''{$}'' then SEnd
      else if s \<noteq> [] \<and> hd s = CHR ''{'' \<and> last s = CHR ''}''
      then (let n = butlast (tl s)
            in if suffix ''...'' n then SMulti (take (length n - 3) n) else SWild n)
      else SLit s)"

text \<open>A pattern that ends in a slash matches every path below it.\<close>

definition parse_pattern :: "string \<Rightarrow> segment list" where
  "parse_pattern p =
     (let ws = split_on CHR ''/'' (tl p)
      in if last ws = [] then map parse_segment (butlast ws) @ [SMulti []] else map parse_segment ws)"

fun match_segments :: "segment list \<Rightarrow> string list \<Rightarrow> (string \<times> string) list option" where
  "match_segments [] [] = Some []"
| "match_segments [] (x # xs) = None"
| "match_segments (p # ps) [] = None"
| "match_segments (SMulti n # ps) (x # xs) =
     Some (if n = [] then [] else [(n, str_join ''/'' (x # xs))])"
| "match_segments (SEnd # ps) (x # xs) = (if x = [] \<and> xs = [] then Some [] else None)"
| "match_segments (SLit l # ps) (x # xs) = (if x = l then match_segments ps xs else None)"
| "match_segments (SWild n # ps) (x # xs) =
     (if x = [] then None else map_option (Cons (n, x)) (match_segments ps xs))"

fun segment_rank :: "segment \<Rightarrow> nat" where
  "segment_rank (SLit l) = 0"
| "segment_rank SEnd = 0"
| "segment_rank (SWild n) = 1"
| "segment_rank (SMulti n) = 2"

text \<open>A registration as method and path: a pattern without a method takes every one.\<close>

definition reg_method :: "('c, 'w) registration \<Rightarrow> string" where
  "reg_method g =
     (case g of
        RegMethod m p h \<Rightarrow> m
      | RegPattern mp h \<Rightarrow> if CHR '' '' \<in> set mp then cut_before CHR '' '' mp else [])"

definition reg_path :: "('c, 'w) registration \<Rightarrow> string" where
  "reg_path g =
     (case g of
        RegMethod m p h \<Rightarrow> p
      | RegPattern mp h \<Rightarrow>
          if CHR '' '' \<in> set mp then drop (Suc (length (cut_before CHR '' '' mp))) mp else mp)"

definition reg_handler :: "('c, 'w) registration \<Rightarrow> ('c, 'w) std_handler" where
  "reg_handler g = (case g of RegMethod m p h \<Rightarrow> h | RegPattern mp h \<Rightarrow> h)"

section \<open>Serving\<close>

text \<open>
  Among the patterns of a method that match, the most specific one is served: at the first segment
  in which two of them differ a literal goes before a wildcard and a wildcard before a rest.
\<close>

definition candidates :: "('c, 'w) mux \<Rightarrow> string \<Rightarrow> string list \<Rightarrow>
    (nat list \<times> (string \<times> string) list \<times> ('c, 'w) std_handler) list" where
  "candidates m method xs =
     List.map_filter (\<lambda>g.
       if reg_method g = method
       then map_option (\<lambda>vals. (map segment_rank (parse_pattern (reg_path g)), vals, reg_handler g))
              (match_segments (parse_pattern (reg_path g)) xs)
       else None) (mx_routes m)"

definition best_match :: "('c, 'w) mux \<Rightarrow> string \<Rightarrow> string list \<Rightarrow>
    ((string \<times> string) list \<times> ('c, 'w) std_handler) option" where
  "best_match m method xs =
     (case sort_key fst (candidates m method xs) of [] \<Rightarrow> None | c # cs \<Rightarrow> Some (snd c))"

definition find_route :: "('c, 'w) mux \<Rightarrow> string \<Rightarrow> string list \<Rightarrow>
    ((string \<times> string) list \<times> ('c, 'w) std_handler) option" where
  "find_route m method xs =
     (case best_match m method xs of
        Some r \<Rightarrow> Some r
      | None \<Rightarrow>
          (case (if method = ''HEAD'' then best_match m ''GET'' xs else None) of
             Some r \<Rightarrow> Some r
           | None \<Rightarrow> best_match m [] xs))"

definition allowed_methods :: "('c, 'w) mux \<Rightarrow> string list \<Rightarrow> string list" where
  "allowed_methods m xs =
     (let ms = map reg_method (filter (\<lambda>g. match_segments (parse_pattern (reg_path g)) xs \<noteq> None) (mx_routes m))
      in sort (remdups (ms @ (if ''GET'' \<in> set ms then [''HEAD''] else []))))"

fun percent_decode :: "string \<Rightarrow> string" where
  "percent_decode (c # a # b # s) =
     (if c = CHR ''%''
      then (case (hex_val a, hex_val b) of
              (Some x, Some y) \<Rightarrow> char_of (16 * x + y) # percent_decode s
            | _ \<Rightarrow> c # percent_decode (a # b # s))
      else c # percent_decode (a # b # s))"
| "percent_decode s = s"

definition serve_mux :: "('c, 'w) mux \<Rightarrow> string \<Rightarrow> ('c, 'w) std_handler" where
  "serve_mux m path req s =
     (let xs = split_on CHR ''/'' (tl path)
      in case find_route m (rq_method req) xs of
           Some (vals, h) \<Rightarrow>
             h (req\<lparr>rq_path_values := map (\<lambda>(k, v). (k, percent_decode v)) vals\<rparr>) s
         | None \<Rightarrow>
             (case allowed_methods m xs of
                [] \<Rightarrow> on_rw (http_error ''404 page not found'' 404) s
              | ms \<Rightarrow> on_rw (\<lambda>w. http_error ''Method Not Allowed'' 405
                        (header_set ''Allow'' (str_join '', '' ms) w)) s))"

section \<open>Test requests and recorded answers\<close>

definition query_decode :: "string \<Rightarrow> string" where
  "query_decode s = percent_decode (map (\<lambda>c. if c = CHR ''+'' then CHR '' '' else c) s)"

definition parse_query :: "string \<Rightarrow> (string \<times> string) list" where
  "parse_query q =
     map (\<lambda>kv. (query_decode (cut_before CHR ''='' kv),
               query_decode (drop (Suc (length (cut_before CHR ''='' kv))) kv)))
       (filter (\<lambda>kv. kv \<noteq> []) (split_on CHR ''&'' q))"

definition new_request :: "string \<Rightarrow> string \<Rightarrow> string \<Rightarrow> (string \<times> string) list \<Rightarrow> unit request" where
  "new_request method target body headers =
     \<lparr>rq_method = method, rq_path_values = [],
      rq_query = parse_query (drop (Suc (length (cut_before CHR ''?'' target))) target),
      rq_header = foldl (\<lambda>m (k, v). map_put (canonical_key k) v m) [] headers,
      rq_body = body, rq_remote_addr = ''192.0.2.1:1234'', rq_ctx = background\<rparr>"

record recorder =
  rec_code :: int
  rec_header :: "(string \<times> string) list"
  rec_body :: string

fun chunk_text :: "chunk \<Rightarrow> string" where
  "chunk_text (ChunkJson j) = encoder_text j"
| "chunk_text (ChunkText t) = t"

definition recorder_of :: "response \<Rightarrow> recorder" where
  "recorder_of w = \<lparr>rec_code = final_status w, rec_header = rw_header w, rec_body = concat (map chunk_text (rw_body w))\<rparr>"

definition test_world :: "'w \<Rightarrow> 'w hworld" where
  "test_world app = \<lparr>w_default = ''default'', w_log = [], w_app = app, h_rw = fresh_response\<rparr>"

definition serve_request :: "(string \<Rightarrow> (unit, 'w) std_handler) \<Rightarrow> string \<Rightarrow> string \<Rightarrow> string \<Rightarrow>
    (string \<times> string) list \<Rightarrow> 'w \<Rightarrow> recorder outcome \<times> 'w" where
  "serve_request h method target body headers app =
     (case h (cut_before CHR ''?'' target) (new_request method target body headers) (test_world app) of
        (Panic p, s) \<Rightarrow> (Panic p, w_app s)
      | (Ret _, s) \<Rightarrow> (Ret (recorder_of (h_rw s)), w_app s))"

section \<open>Which route is served\<close>

lemma set_candidates:
  "(ks, vals, h) \<in> set (candidates m method xs) \<longleftrightarrow>
     (\<exists>g \<in> set (mx_routes m). reg_method g = method \<and> ks = map segment_rank (parse_pattern (reg_path g)) \<and>
        match_segments (parse_pattern (reg_path g)) xs = Some vals \<and> h = reg_handler g)"
  unfolding candidates_def by (force simp: map_filter_def split: if_splits)

text \<open>The served pattern matches, and no other pattern of its method that matches is more specific.\<close>

lemma best_match_sound:
  assumes "best_match m method xs = Some (vals, h)"
  obtains ks where "(ks, vals, h) \<in> set (candidates m method xs)"
    and "\<forall>c \<in> set (candidates m method xs). ks \<le> fst c"
proof -
  obtain c cs where c: "sort_key fst (candidates m method xs) = c # cs" "snd c = (vals, h)"
    using assms by (auto simp: best_match_def split: list.splits)
  then have set: "set (candidates m method xs) = insert (fst c, vals, h) (set cs)"
    by (metis list.simps(15) prod.collapse set_sort)
  have "sorted (map fst (c # cs))" using c(1) by (metis sorted_sort_key)
  then have "\<forall>d \<in> insert (fst c, vals, h) (set cs). fst c \<le> fst d" by auto
  with that [of "fst c"] set show thesis by simp
qed

lemma best_match_None: "best_match m method xs = None \<longleftrightarrow> candidates m method xs = []"
  unfolding best_match_def by (metis (no_types, lifting) list.case_eq_if option.distinct(1) sort_key_simps(1) set_empty set_sort)

section \<open>Evaluating a request\<close>

declare json_text.simps [simp del] utf8_valid.simps(2) [simp del]

lemma cut_before_app: "c \<notin> set a \<Longrightarrow> cut_before c (a @ c # b) = a"
  by (simp add: cut_before_def takeWhile_append)

lemma canonical_content_type [simp]: "canonical_key content_type = content_type"
  by (simp add: content_type_def canonical_key_def token_char_def is_digit_def is_upper_def is_lower_def
      upper_char_def lower_char_def)

lemma canonical_content_type' [simp]: "canonical_key ''Content-Type'' = content_type"
  using canonical_content_type by (simp add: content_type_def)

lemma coercer_simps [simp]:
  "default_coercer (Some (EReq r)) = Some r"
  "default_coercer (Some (ErrText t)) = Some (http_wrap (ErrText t) ''unknown'' [] [])"
  by (simp_all add: default_coercer_def errors_as_def chain.simps the_req_def)

lemma percent_decode_plain: "CHR ''%'' \<notin> set s \<Longrightarrow> percent_decode s = s"
  by (induction s rule: percent_decode.induct) auto

lemma split_on_plain: "c \<notin> set s \<Longrightarrow> split_on c s = [s]"
  by (induction s) auto

lemma set_int_64: "- (2 ^ 63) \<le> n \<Longrightarrow> n < 2 ^ 63 \<Longrightarrow> set_int 64 n = n"
  by (simp add: set_int_def signed_take_bit_int_eq_self)

lemma err_text_ErrText: "err_text (ErrText t) = t"
  by (simp add: err_text.simps)

definition plain_char :: "char \<Rightarrow> bool" where
  "plain_char c \<longleftrightarrow> 32 \<le> byte c \<and> byte c < 128 \<and> byte c \<notin> {34, 38, 60, 62, 92}"

lemma quote_plain: "list_all plain_char s \<Longrightarrow> quote_json s = CHR 0x22 # s @ [CHR 0x22]"
proof -
  have "list_all plain_char s \<Longrightarrow> quote_body s = s"
    by (induction s) (auto simp: plain_char_def quote_ascii_def decode_rune_def Let_def)
  then show "list_all plain_char s \<Longrightarrow> ?thesis" by (simp add: quote_json_def)
qed

lemmas http_match = parse_pattern_def parse_segment_def suffix_to_prefix cut_before_def
lemmas http_request = new_request_def parse_query_def percent_decode.simps query_decode_def
  header_get_def
lemmas http_plan = adapt_def build_binder_def is_empty_type_def build_field_def string_setter_def tag_get_def
  get_value_def empty_plan_def zero_parser_def cut_before_def Let_def
lemmas http_bind = bind_request_def bind_params.simps path_value_def query_get_def set_string_def set_bool_def
  set_int_field_def set_int_def
lemmas http_serve = serve_route_def apply_middleware_def combine_chain_def enrich_def on_world_def
  test_world_def write_response_def on_rw_def success_status_for_def write_header_def write_body_def header_set_def
  fresh_response_def recorder_of_def final_status_def default_error_writer_def write_json_def
lemmas http_text = parse_int_def parse_uint_def is_digit_def digit_val_def max_uint64_def max_int64_def parse_bool_def
  set_int_64 num_error_text_def go_quote_def quote_char_def

end
