(* ===== verification/HttpConformance.thy ===== *)
theory HttpConformance
  imports HttpMux
begin

text \<open>
  \<open>http/internal/routertest/routertest.go\<close>, the conformance suite that every router backend
  has to pass, and the two backends of \<open>http/router_test.go\<close>. A test is a function from the
  backend to the list of failures it reports; the variables its closures capture are the
  application state of the model's world. The suite runs on the bytes of requests and answers:
  routing (\<open>HttpMux\<close>), binding (\<open>HttpBody\<close>), handlers, error writers and JSON text.
  What the suite cannot see in the model: the wording of JSON syntax errors is fixed here, and a
  coercer is a pure function, so \<open>withErrorWriterOwnsResponse\<close> watches for the coercer's
  answer where the code counts its calls.
\<close>

section \<open>The frame of a test\<close>

record conf =
  cf_req :: "string list fval list"
  cf_order :: "string list"
  cf_flag :: bool
  cf_seen :: "go_error option"

definition conf_start :: "string list fval list \<Rightarrow> conf" where
  "conf_start zero = \<lparr>cf_req = zero, cf_order = [], cf_flag = False, cf_seen = None\<rparr>"

type_synonym conf_router = "(unit, conf, string list) router"
type_synonym conf_mux = "(unit, conf) mux"

text \<open>\<open>Factory\<close>: a fresh router with its mux, and the dispatch of that mux.\<close>

record backend =
  bk_new :: "(conf_router \<Rightarrow> conf_router) list \<Rightarrow> (conf_router \<times> conf_mux) outcome"
  bk_serve :: "conf_mux \<Rightarrow> string \<Rightarrow> (unit, conf) std_handler"

definition backend_of :: "mux_kind \<Rightarrow> backend" where
  "backend_of k =
     \<lparr>bk_new = (\<lambda>opts. case new_router k opts of
        Panic p \<Rightarrow> Panic p | Ret r \<Rightarrow> Ret (r, \<lparr>mx_kind = k, mx_routes = []\<rparr>)),
      bk_serve = serve_mux\<rparr>"

definition suite_env :: "string list std_env" where
  "suite_env = json_env (\<lambda>s. ''invalid JSON'')
     \<lparr>env_text = (\<lambda>n v s. (v, None)), env_float = (\<lambda>b v s. (v, None)), env_decode = (\<lambda>s. BodyEOF),
      env_unmarshal = (\<lambda>t s v. (v, None))\<rparr>"

definition with_router :: "backend \<Rightarrow> (conf_router \<Rightarrow> conf_router) list \<Rightarrow>
    (conf_router \<Rightarrow> conf_mux outcome \<Rightarrow> string list) \<Rightarrow> string list" where
  "with_router f opts k =
     (case bk_new f opts of Panic p \<Rightarrow> [panic_text p] | Ret (r, m) \<Rightarrow> k r (Ret m))"

definition handle_route :: "conf_router \<Rightarrow> string \<Rightarrow> string \<Rightarrow> go_type \<Rightarrow> string list fval list \<Rightarrow>
    'resp resp_type \<Rightarrow> (unit, conf, string list, 'resp) typed_handler \<Rightarrow> (unit, conf) http_middleware list \<Rightarrow>
    conf_mux outcome \<Rightarrow> conf_mux outcome" where
  "handle_route r method path t zero rt h mw m =
     (case m of
        Panic p \<Rightarrow> Panic p
      | Ret mx \<Rightarrow>
          (case router_handle suite_env r method path t zero rt h mw mx of
             (Panic p, mx') \<Rightarrow> Panic p
           | (Ret _, mx') \<Rightarrow> Ret mx'))"

text \<open>\<open>do\<close>; a panic at registration or while serving fails the test.\<close>

definition do_request :: "backend \<Rightarrow> conf_mux outcome \<Rightarrow> string \<Rightarrow> string \<Rightarrow> string \<Rightarrow>
    (string \<times> string) list \<Rightarrow> conf \<Rightarrow> (recorder \<Rightarrow> conf \<Rightarrow> string list) \<Rightarrow> string list" where
  "do_request f m method target body headers st k =
     (case m of
        Panic p \<Rightarrow> [panic_text p]
      | Ret mx \<Rightarrow>
          (case serve_request (bk_serve f mx) method target body headers st of
             (Panic p, st') \<Rightarrow> [panic_text p]
           | (Ret rec, st') \<Rightarrow> k rec st'))"

definition json_headers :: "(string \<times> string) list" where
  "json_headers = [(''Content-Type'', ''application/json'')]"

definition string_resp :: "string resp_type" where
  "string_resp = \<lparr>rs_empty = False, rs_status_coder = None, rs_encode = (\<lambda>s. Inr (JStr s))\<rparr>"

definition empty_resp :: "unit resp_type" where
  "empty_resp = \<lparr>rs_empty = True, rs_status_coder = None, rs_encode = (\<lambda>_. Inr (JObj []))\<rparr>"

text \<open>The handlers of the suite: answer a constant, answer an error, keep the request.\<close>

definition answering :: "'resp \<Rightarrow> (unit, conf, string list, 'resp) typed_handler" where
  "answering x ctx req s = (Ret (Inr x), s)"

definition failing :: "go_error \<Rightarrow> (unit, conf, string list, 'resp) typed_handler" where
  "failing e ctx req s = (Ret (Inl e), s)"

definition capturing :: "(unit, conf, string list, string) typed_handler" where
  "capturing ctx req s = (Ret (Inr ''ok''), s\<lparr>w_app := (w_app s)\<lparr>cf_req := req\<rparr>\<rparr>)"

section \<open>Reading an answer\<close>

text \<open>\<open>decodeReqError\<close>: the JSON of a body into \<open>ReqError\<close>, absent members left zero.\<close>

record wire_error =
  we_code :: string
  we_meta :: "(string \<times> json) list"
  we_reasons :: "(string \<times> (string \<times> json) list) list"

definition json_string :: "json option \<Rightarrow> string" where
  "json_string v = (case v of Some (JStr s) \<Rightarrow> s | _ \<Rightarrow> [])"

definition json_members :: "json option \<Rightarrow> (string \<times> json) list" where
  "json_members v = (case v of Some (JObj m) \<Rightarrow> m | _ \<Rightarrow> [])"

definition wire_reason :: "json \<Rightarrow> string \<times> (string \<times> json) list" where
  "wire_reason j =
     (json_string (map_of (json_members (Some j)) ''code''), json_members (map_of (json_members (Some j)) ''meta''))"

definition decode_req_error :: "string \<Rightarrow> wire_error option" where
  "decode_req_error body =
     (case parse_json body of
        Some (JObj m) \<Rightarrow>
          Some \<lparr>we_code = json_string (map_of m ''code''), we_meta = json_members (map_of m ''meta''),
            we_reasons = (case map_of m ''reasons'' of Some (JArr rs) \<Rightarrow> map wire_reason rs | _ \<Rightarrow> [])\<rparr>
      | _ \<Rightarrow> None)"

definition with_error :: "recorder \<Rightarrow> (wire_error \<Rightarrow> string list) \<Rightarrow> string list" where
  "with_error rec k =
     (case decode_req_error (rec_body rec) of None \<Rightarrow> [''decode body''] | Some e \<Rightarrow> k e)"

definition has_reason :: "wire_error \<Rightarrow> string \<Rightarrow> string \<Rightarrow> string \<Rightarrow> bool" where
  "has_reason body code loc field =
     list_ex (\<lambda>(c, m). c = code \<and> (loc = [] \<or> json_string (map_of m ''in'') = loc) \<and>
       (field = [] \<or> json_string (map_of m ''field'') = field)) (we_reasons body)"

section \<open>Answers\<close>

definition string_resp_is_json_encoded :: "backend \<Rightarrow> string list" where
  "string_resp_is_json_encoded f = with_router f [] (\<lambda>r m.
     do_request f (handle_route r ''GET'' ''/health'' (TPtr TEmpty) [] string_resp (answering ''up'') [] m)
       ''GET'' ''/health'' [] [] (conf_start []) (\<lambda>rec st.
       check (rec_code rec = 200) ''status'' @
       check (trim_space (rec_body rec) = CHR 0x22 # ''up'' @ [CHR 0x22]) ''body'' @
       check (get_value (rec_header rec) content_type = ''application/json'') ''Content-Type''))"

definition empty_resp_returns_204 :: "backend \<Rightarrow> string list" where
  "empty_resp_returns_204 f = with_router f [] (\<lambda>r m.
     do_request f (handle_route r ''POST'' ''/ping'' (TPtr TEmpty) [] empty_resp (answering ()) [] m)
       ''POST'' ''/ping'' [] [] (conf_start []) (\<lambda>rec st.
       check (rec_code rec = 204) ''status'' @ check (length (rec_body rec) = 0) ''body''))"

text \<open>The nil pointer: the model's unit value stands for any \<open>*Empty\<close>.\<close>

definition empty_pointer_resp_returns_204 :: "backend \<Rightarrow> string list" where
  "empty_pointer_resp_returns_204 f = with_router f [] (\<lambda>r m.
     do_request f (handle_route r ''POST'' ''/ping'' (TPtr TEmpty) [] empty_resp (answering ()) [] m)
       ''POST'' ''/ping'' [] [] (conf_start []) (\<lambda>rec st. check (rec_code rec = 204) ''status''))"

section \<open>Path and query values\<close>

definition path_req :: go_type where
  "path_req = TPtr (TStruct ''pathReq''
     [Field ''ID'' True TString [(''path'', ''id'')],
      Field ''Count'' True (TInt ''int'' 64) [(''path'', ''count'')]])"

definition path_binding :: "backend \<Rightarrow> string list" where
  "path_binding f = with_router f [] (\<lambda>r m.
     do_request f (handle_route r ''GET'' ''/items/{id}/n/{count}'' path_req [VString [], VInt 0] string_resp
         capturing [] m)
       ''GET'' ''/items/abc/n/42'' [] [] (conf_start [VString [], VInt 0]) (\<lambda>rec st.
       require (rec_code rec = 200) ''status''
         (check (cf_req st = [VString ''abc'', VInt 42]) ''captured'')))"

definition int_path_req :: go_type where
  "int_path_req = TPtr (TStruct ''intPathReq'' [Field ''N'' True (TInt ''int'' 64) [(''path'', ''n'')]])"

definition path_binding_invalid :: "backend \<Rightarrow> string list" where
  "path_binding_invalid f = with_router f [] (\<lambda>r m.
     do_request f (handle_route r ''GET'' ''/n/{n}'' int_path_req [VInt 0] string_resp (answering ''ok'') [] m)
       ''GET'' ''/n/notanumber'' [] [] (conf_start []) (\<lambda>rec st.
       require (rec_code rec = 400) ''status'' (with_error rec (\<lambda>body.
         check (we_code body = ''invalid_request'') ''Code'' @
         check (has_reason body ''invalid'' ''path'' ''n'') ''Reasons''))))"

definition query_req :: go_type where
  "query_req = TPtr (TStruct ''queryReq''
     [Field ''Limit'' True (TInt ''int'' 64) [(''query'', ''limit'')],
      Field ''Q'' True TString [(''query'', ''q'')],
      Field ''Open'' True TBool [(''query'', ''open'')]])"

definition query_zero :: "string list fval list" where
  "query_zero = [VInt 0, VString [], VBool False]"

definition query_binding :: "backend \<Rightarrow> string list" where
  "query_binding f = with_router f [] (\<lambda>r m.
     do_request f (handle_route r ''GET'' ''/search'' query_req query_zero string_resp capturing [] m)
       ''GET'' ''/search?limit=5&q=foo&open=true'' [] [] (conf_start query_zero) (\<lambda>rec st.
       require (rec_code rec = 200) ''status''
         (check (cf_req st = [VInt 5, VString ''foo'', VBool True]) ''captured'')))"

definition query_binding_missing_leaves_zero :: "backend \<Rightarrow> string list" where
  "query_binding_missing_leaves_zero f = with_router f [] (\<lambda>r m.
     do_request f (handle_route r ''GET'' ''/search'' query_req query_zero string_resp capturing [] m)
       ''GET'' ''/search'' [] [] (conf_start query_zero) (\<lambda>rec st.
       check (rec_code rec = 200) ''status'' @
       check (cf_req st = [VInt 0, VString [], VBool False]) ''captured''))"

definition query_binding_invalid :: "backend \<Rightarrow> string list" where
  "query_binding_invalid f = with_router f [] (\<lambda>r m.
     do_request f (handle_route r ''GET'' ''/search'' query_req query_zero string_resp (answering ''ok'') [] m)
       ''GET'' ''/search?open=maybe'' [] [] (conf_start []) (\<lambda>rec st.
       require (rec_code rec = 400) ''status'' (with_error rec (\<lambda>body.
         check (we_code body = ''invalid_request'') ''Code'' @
         check (has_reason body ''invalid'' ''query'' ''open'') ''Reasons''))))"

section \<open>Bodies\<close>

definition body_req :: go_type where
  "body_req = TPtr (TStruct ''bodyReq''
     [Field ''Name'' True TString [(''json'', ''name'')],
      Field ''Age'' True (TInt ''int'' 64) [(''json'', ''age'')]])"

definition body_binding :: "backend \<Rightarrow> string list" where
  "body_binding f = with_router f [] (\<lambda>r m.
     do_request f (handle_route r ''POST'' ''/users'' body_req [VString [], VInt 0] string_resp capturing [] m)
       ''POST'' ''/users'' ''{\"name\":\"alice\",\"age\":30}'' json_headers (conf_start [VString [], VInt 0]) (\<lambda>rec st.
       require (rec_code rec = 200) ''status''
         (check (cf_req st = [VString ''alice'', VInt 30]) ''captured'')))"

definition body_binding_rejects_non_json :: "backend \<Rightarrow> string list" where
  "body_binding_rejects_non_json f = with_router f [] (\<lambda>r m.
     do_request f (handle_route r ''POST'' ''/users'' body_req [VString [], VInt 0] string_resp (answering ''ok'') [] m)
       ''POST'' ''/users'' ''hi'' [(''Content-Type'', ''text/plain'')] (conf_start []) (\<lambda>rec st.
       check (rec_code rec = 415) ''status''))"

definition body_binding_malformed_json :: "backend \<Rightarrow> string list" where
  "body_binding_malformed_json f = with_router f [] (\<lambda>r m.
     do_request f (handle_route r ''POST'' ''/users'' body_req [VString [], VInt 0] string_resp (answering ''ok'') [] m)
       ''POST'' ''/users'' ''{not json'' json_headers (conf_start []) (\<lambda>rec st.
       check (rec_code rec = 400) ''status'' @
       with_error rec (\<lambda>body. check (has_reason body ''malformed'' ''body'' []) ''Reasons'')))"

definition update_req :: go_type where
  "update_req = TPtr (TStruct ''updateReq''
     [Field ''ID'' True TString [(''path'', ''id'')],
      Field ''Name'' True TString [(''json'', ''name'')]])"

definition path_plus_body :: "backend \<Rightarrow> string list" where
  "path_plus_body f = with_router f [] (\<lambda>r m.
     do_request f (handle_route r ''PUT'' ''/users/{id}'' update_req [VString [], VString []] string_resp capturing [] m)
       ''PUT'' ''/users/42'' ''{\"name\":\"alice\"}'' json_headers (conf_start [VString [], VString []]) (\<lambda>rec st.
       require (rec_code rec = 200) ''status''
         (check (cf_req st = [VString ''42'', VString ''alice'']) ''captured'')))"

definition hijack_body :: string where
  "hijack_body = ''{\"id\":\"hijacked\",\"ID\":\"hijacked\",\"name\":\"alice\"}''"

definition body_rejects_unknown_keys :: "backend \<Rightarrow> string list" where
  "body_rejects_unknown_keys f = with_router f [] (\<lambda>r m.
     do_request f (handle_route r ''PUT'' ''/users/{id}'' update_req [VString [], VString []] string_resp
         (answering ''ok'') [] m)
       ''PUT'' ''/users/42'' hijack_body json_headers (conf_start []) (\<lambda>rec st.
       require (rec_code rec = 400) ''status'' (with_error rec (\<lambda>body.
         check (we_code body = ''invalid_request'') ''Code'' @
         concat (map (\<lambda>key. check (has_reason body ''unknown_field'' ''body'' key) ''Reasons'') [''ID'', ''id'']) @
         check (\<not> has_reason body ''unknown_field'' ''body'' ''name'') ''name flagged''))))"

definition lenient_update_req :: go_type where
  "lenient_update_req = TPtr (TStruct ''lenientUpdateReq''
     [Field ''LenientBody'' True TLenientBody [],
      Field ''ID'' True TString [(''path'', ''id'')],
      Field ''Name'' True TString [(''json'', ''name'')]])"

definition lenient_zero :: "string list fval list" where
  "lenient_zero = [VExt [], VString [], VString []]"

definition lenient_body_ignores_unknown_keys :: "backend \<Rightarrow> string list" where
  "lenient_body_ignores_unknown_keys f = with_router f [] (\<lambda>r m.
     do_request f (handle_route r ''PUT'' ''/users/{id}'' lenient_update_req lenient_zero string_resp capturing [] m)
       ''PUT'' ''/users/42'' hijack_body json_headers (conf_start lenient_zero) (\<lambda>rec st.
       require (rec_code rec = 200) ''status''
         (check (cf_req st ! 1 = VString ''42'') ''ID'' @ check (cf_req st ! 2 = VString ''alice'') ''Name'')))"

definition search_req :: go_type where
  "search_req = TPtr (TStruct ''searchReq''
     [Field ''Limit'' True (TInt ''int'' 64) [(''query'', ''limit'')],
      Field ''Name'' True TString [(''json'', ''name'')]])"

definition binding_failures_collect :: "backend \<Rightarrow> string list" where
  "binding_failures_collect f = with_router f [] (\<lambda>r m.
     do_request f (handle_route r ''POST'' ''/search'' search_req [VInt 0, VString []] string_resp (answering ''ok'') [] m)
       ''POST'' ''/search?limit=lots'' ''{\"name\":7,\"nam\":\"x\"}'' json_headers (conf_start []) (\<lambda>rec st.
       require (rec_code rec = 400) ''status'' (with_error rec (\<lambda>body.
         check (has_reason body ''invalid'' ''query'' ''limit'') ''limit'' @
         check (has_reason body ''invalid_type'' ''body'' ''name'') ''name'' @
         check (has_reason body ''unknown_field'' ''body'' ''nam'') ''nam''))))"

section \<open>Statuses and errors\<close>

definition created_resp :: "string resp_type" where
  "created_resp = \<lparr>rs_empty = False, rs_status_coder = Some 201,
     rs_encode = (\<lambda>i. Inr (JObj [(''id'', JStr i)]))\<rparr>"

definition success_status_coder :: "backend \<Rightarrow> string list" where
  "success_status_coder f = with_router f [] (\<lambda>r m.
     do_request f (handle_route r ''POST'' ''/users'' (TPtr TEmpty) [] created_resp (answering ''u1'') [] m)
       ''POST'' ''/users'' [] [] (conf_start []) (\<lambda>rec st.
       check (rec_code rec = 201) ''status'' @
       check (case parse_json (rec_body rec) of
           Some (JObj m) \<Rightarrow> json_string (map_of m ''id'') = ''u1'' | _ \<Rightarrow> False) ''body''))"

definition req_error_propagates :: "backend \<Rightarrow> string list" where
  "req_error_propagates f = with_router f [] (\<lambda>r m.
     do_request f (handle_route r ''GET'' ''/missing'' (TPtr TEmpty) [] string_resp
         (failing (EReq (http_new ''not_found'' [(''id'', GStr ''x'')] []))) [] m)
       ''GET'' ''/missing'' [] [] (conf_start []) (\<lambda>rec st.
       require (rec_code rec = 404) ''status'' (with_error rec (\<lambda>body.
         check (we_code body = ''not_found'') ''Code'' @
         check (json_string (map_of (we_meta body) ''id'') = ''x'') ''Meta''))))"

definition generic_error_becomes_500 :: "backend \<Rightarrow> string list" where
  "generic_error_becomes_500 f = with_router f [] (\<lambda>r m.
     do_request f (handle_route r ''GET'' ''/boom'' (TPtr TEmpty) [] string_resp (failing (ErrText ''kaboom'')) [] m)
       ''GET'' ''/boom'' [] [] (conf_start []) (\<lambda>rec st.
       require (rec_code rec = 500) ''status'' (with_error rec (\<lambda>body.
         check (we_code body = ''unknown'') ''Code''))))"

section \<open>Groups and middleware\<close>

definition group_prefixes_paths :: "backend \<Rightarrow> string list" where
  "group_prefixes_paths f = with_router f [] (\<lambda>r m.
     do_request f (handle_route (router_group r ''/api'') ''GET'' ''/health'' (TPtr TEmpty) [] string_resp
         (answering ''up'') [] m)
       ''GET'' ''/api/health'' [] [] (conf_start []) (\<lambda>rec st. check (rec_code rec = 200) ''status''))"

definition note_order :: "string \<Rightarrow> (conf, 'z) world_scheme \<Rightarrow> (conf, 'z) world_scheme" where
  "note_order l s = s\<lparr>w_app := (w_app s)\<lparr>cf_order := cf_order (w_app s) @ [l]\<rparr>\<rparr>"

definition track :: "string \<Rightarrow> (unit, conf) http_middleware" where
  "track name next req s =
     (case next req (note_order (name @ '':pre'') s) of
        (Panic p, s') \<Rightarrow> (Panic p, s')
      | (Ret err, s') \<Rightarrow> (Ret err, note_order (name @ '':post'') s'))"

definition tracked_handler :: "(unit, conf, string list, string) typed_handler" where
  "tracked_handler ctx req s = (Ret (Inr ''ok''), note_order ''handler'' s)"

definition middleware_wraps :: "backend \<Rightarrow> string list" where
  "middleware_wraps f = with_router f [] (\<lambda>r m.
     let r = router_use (router_use r [track ''outer'']) [track ''inner'']
     in do_request f (handle_route r ''GET'' ''/x'' (TPtr TEmpty) [] string_resp tracked_handler [] m)
       ''GET'' ''/x'' [] [] (conf_start []) (\<lambda>rec st.
       check (cf_order st = [''outer:pre'', ''inner:pre'', ''handler'', ''inner:post'', ''outer:post'']) ''order''))"

definition refusing :: "string \<Rightarrow> (unit, conf) http_middleware" where
  "refusing code next req s = (Ret (Some (EReq (http_new code [] []))), s)"

definition raising_flag :: "(unit, conf, string list, string) typed_handler" where
  "raising_flag ctx req s = (Ret (Inr ''ok''), s\<lparr>w_app := (w_app s)\<lparr>cf_flag := True\<rparr>\<rparr>)"

definition middleware_short_circuit :: "backend \<Rightarrow> string list" where
  "middleware_short_circuit f = with_router f [] (\<lambda>r m.
     do_request f (handle_route (router_use r [refusing ''unauthorized'']) ''GET'' ''/x'' (TPtr TEmpty) []
         string_resp raising_flag [] m)
       ''GET'' ''/x'' [] [] (conf_start []) (\<lambda>rec st.
       check (rec_code rec = 401) ''status'' @ check (\<not> cf_flag st) ''handler ran''))"

text \<open>The parent is a variable of the Go test, so \<open>Use\<close> after \<open>Group\<close> rebinds it alone.\<close>

definition use_after_group_does_not_propagate :: "backend \<Rightarrow> string list" where
  "use_after_group_does_not_propagate f = with_router f [] (\<lambda>r m.
     let api = router_group r ''/api''; r = router_use r [refusing ''should_not_run'']
     in do_request f (handle_route api ''GET'' ''/x'' (TPtr TEmpty) [] string_resp (answering ''ok'') [] m)
       ''GET'' ''/api/x'' [] [] (conf_start []) (\<lambda>rec st. check (rec_code rec = 200) ''status''))"

definition flagging :: "(unit, conf) http_middleware" where
  "flagging next req s = next req (s\<lparr>w_app := (w_app s)\<lparr>cf_flag := True\<rparr>\<rparr>)"

definition per_route_middleware :: "backend \<Rightarrow> string list" where
  "per_route_middleware f = with_router f [] (\<lambda>r m.
     do_request f (handle_route r ''GET'' ''/x'' (TPtr TEmpty) [] string_resp (answering ''ok'') [flagging] m)
       ''GET'' ''/x'' [] [] (conf_start []) (\<lambda>rec st. check (cf_flag st) ''middleware did not run''))"

section \<open>Options\<close>

definition teapot :: coercer where
  "teapot err =
     (case err of None \<Rightarrow> None
      | Some e \<Rightarrow> Some (with_status (http_new ''teapot'' [] []) 418))"

definition with_coercer_test :: "backend \<Rightarrow> string list" where
  "with_coercer_test f = with_router f [with_coercer (Some teapot)] (\<lambda>r m.
     do_request f (handle_route r ''GET'' ''/x'' (TPtr TEmpty) [] string_resp (failing (ErrText ''anything'')) [] m)
       ''GET'' ''/x'' [] [] (conf_start []) (\<lambda>rec st. check (rec_code rec = 418) ''status''))"

definition problem_writer :: "(unit, conf) error_writer" where
  "problem_writer r err s =
     (case on_rw (write_header 422) (s\<lparr>h_rw := header_set content_type ''application/problem+json'' (h_rw s)\<rparr>) of
        (Panic p, s') \<Rightarrow> (Panic p, s')
      | (Ret _, s') \<Rightarrow>
          (Ret (), s'\<lparr>h_rw := write_body (ChunkText (''{\"detail\":'' @ go_quote (err_text err) @ ''}'')) (h_rw s')\<rparr>))"

definition with_error_writer_owns_response :: "backend \<Rightarrow> string list" where
  "with_error_writer_owns_response f =
     with_router f [with_coercer (Some teapot), with_error_writer (Some problem_writer)] (\<lambda>r m.
     do_request f (handle_route r ''GET'' ''/x'' (TPtr TEmpty) [] string_resp (failing (ErrText ''bespoke failure'')) [] m)
       ''GET'' ''/x'' [] [] (conf_start []) (\<lambda>rec st.
       check (rec_code rec = 422) ''status'' @
       check (get_value (rec_header rec) content_type = ''application/problem+json'') ''Content-Type'' @
       check (trim_space (rec_body rec) = ''{\"detail\":\"bespoke failure\"}'') ''body'' @
       check (rec_code rec \<noteq> 418) ''coercer ran''))"

definition seeing_writer :: "int \<Rightarrow> (go_error \<Rightarrow> go_error option) \<Rightarrow> (unit, conf) error_writer" where
  "seeing_writer status look r err s =
     on_rw (write_header status)
       (s\<lparr>w_app := (w_app s)\<lparr>cf_seen := (case look err of None \<Rightarrow> cf_seen (w_app s) | Some e \<Rightarrow> Some e)\<rparr>\<rparr>)"

definition test_sentinel :: go_error where
  "test_sentinel = Sentinel ''sentinel'' ''sentinel''"

definition error_writer_sees_original_error :: "backend \<Rightarrow> string list" where
  "error_writer_sees_original_error f = with_router f [with_error_writer (Some (seeing_writer 500 Some))] (\<lambda>r m.
     do_request f (handle_route r ''GET'' ''/x'' (TPtr TEmpty) [] string_resp
         (failing (Wrapped (''wrapped: '' @ err_text test_sentinel) [test_sentinel])) [] m)
       ''GET'' ''/x'' [] [] (conf_start []) (\<lambda>rec st.
       check (case cf_seen st of None \<Rightarrow> False | Some e \<Rightarrow> errors_is e test_sentinel) ''seen''))"

definition error_writer_sees_binding_failures :: "backend \<Rightarrow> string list" where
  "error_writer_sees_binding_failures f =
     with_router f [with_error_writer (Some (seeing_writer 400 (\<lambda>err. map_option EReq (errors_as the_req err))))] (\<lambda>r m.
     do_request f (handle_route r ''GET'' ''/n/{n}'' int_path_req [VInt 0] string_resp (answering ''ok'') [] m)
       ''GET'' ''/n/notanumber'' [] [] (conf_start []) (\<lambda>rec st.
       check (case cf_seen st of Some (EReq e) \<Rightarrow> req_code e = ''invalid_request'' | _ \<Rightarrow> False) ''seen''))"

definition tags_type :: go_type where
  "tags_type = TOther ''slice'' ''[]string''"

definition slice_req :: go_type where
  "slice_req = TPtr (TStruct ''sliceReq'' [Field ''Tags'' True tags_type [(''path'', ''tags'')]])"

definition tags_parser :: "string list request_parser" where
  "tags_parser = zero_parser\<lparr>rp_setters :=
     (\<lambda>t. if t = tags_type then Some (\<lambda>dst raw. (VExt (split_on CHR '','' raw), None)) else None)\<rparr>"

definition group_inherits_config :: "backend \<Rightarrow> string list" where
  "group_inherits_config f =
     with_router f [with_request_parser (Some tags_parser),
         with_error_writer (Some (\<lambda>r err. on_rw (write_header 418)))] (\<lambda>r m.
     let api = router_group r ''/api'';
         m1 = handle_route api ''GET'' ''/tags/{tags}'' slice_req [VExt []] string_resp capturing [] m;
         m2 = handle_route api ''GET'' ''/boom'' (TPtr TEmpty) [] string_resp (failing (ErrText ''boom'')) [] m1
     in do_request f m2 ''GET'' ''/api/tags/a,b'' [] [] (conf_start [VExt []]) (\<lambda>rec st.
          require (rec_code rec = 200) ''status''
            (check (cf_req st = [VExt [''a'', ''b'']]) ''tags'' @
             do_request f m2 ''GET'' ''/api/boom'' [] [] st (\<lambda>rec st.
               check (rec_code rec = 418) ''error writer''))))"

definition panic_on_invalid_req :: "backend \<Rightarrow> string list" where
  "panic_on_invalid_req f = with_router f [] (\<lambda>r m.
     case handle_route r ''GET'' ''/x/{tags}'' slice_req [VExt []] string_resp (answering ''ok'') [] m of
       Panic p \<Rightarrow> []
     | Ret mx \<Rightarrow> [''expected Handle to panic on unsupported field type''])"

section \<open>The suite\<close>

definition suite :: "(string \<times> (backend \<Rightarrow> string list)) list" where
  "suite =
     [(''StringRespIsJSONEncoded'', string_resp_is_json_encoded),
      (''EmptyRespReturns204'', empty_resp_returns_204),
      (''EmptyPointerRespReturns204'', empty_pointer_resp_returns_204),
      (''PathBinding'', path_binding),
      (''PathBindingInvalid'', path_binding_invalid),
      (''QueryBinding'', query_binding),
      (''QueryBindingMissingLeavesZero'', query_binding_missing_leaves_zero),
      (''QueryBindingInvalid'', query_binding_invalid),
      (''BodyBinding'', body_binding),
      (''BodyBindingRejectsNonJSON'', body_binding_rejects_non_json),
      (''BodyBindingMalformedJSON'', body_binding_malformed_json),
      (''PathPlusBody'', path_plus_body),
      (''BodyRejectsUnknownKeys'', body_rejects_unknown_keys),
      (''LenientBodyIgnoresUnknownKeys'', lenient_body_ignores_unknown_keys),
      (''BindingFailuresCollect'', binding_failures_collect),
      (''SuccessStatusCoder'', success_status_coder),
      (''ReqErrorPropagates'', req_error_propagates),
      (''GenericErrorBecomes500'', generic_error_becomes_500),
      (''GroupPrefixesPaths'', group_prefixes_paths),
      (''MiddlewareWraps'', middleware_wraps),
      (''MiddlewareShortCircuit'', middleware_short_circuit),
      (''UseAfterGroupDoesNotPropagate'', use_after_group_does_not_propagate),
      (''PerRouteMiddleware'', per_route_middleware),
      (''WithCoercer'', with_coercer_test),
      (''WithErrorWriterOwnsResponse'', with_error_writer_owns_response),
      (''ErrorWriterSeesOriginalError'', error_writer_sees_original_error),
      (''ErrorWriterSeesBindingFailures'', error_writer_sees_binding_failures),
      (''GroupInheritsConfig'', group_inherits_config),
      (''PanicOnInvalidReq'', panic_on_invalid_req)]"

text \<open>\<open>Run\<close>: the failures of every test, under its name.\<close>

definition run_suite :: "backend \<Rightarrow> (string \<times> string) list" where
  "run_suite f = concat (map (\<lambda>(name, t). map (Pair name) (t f)) suite)"

section \<open>Running a test\<close>

lemma with_router_backend [simp]:
  "k \<noteq> OtherMux \<Longrightarrow> with_router (backend_of k) opts body =
     body (fold (\<lambda>opt r. opt r) opts \<lparr>rt_coercer = Some default_coercer, rt_error_writer = None, rt_parser = None,
              rt_logger = None, rt_prefix = [], rt_middleware = []\<rparr>) (Ret \<lparr>mx_kind = k, mx_routes = []\<rparr>)"
  by (simp add: with_router_def backend_of_def new_router_def)

text \<open>What a route answers, once the mux has found it.\<close>

definition route_answer :: "conf_router \<Rightarrow> (unit, conf) http_handler \<Rightarrow> (unit, conf) http_middleware list \<Rightarrow>
    unit request \<Rightarrow> conf \<Rightarrow> (recorder \<Rightarrow> conf \<Rightarrow> string list) \<Rightarrow> string list" where
  "route_answer r h mw req st k =
     (case serve_route r h mw req (test_world st) of
        (Panic p, s) \<Rightarrow> [panic_text p]
      | (Ret _, s) \<Rightarrow> k (recorder_of (h_rw s)) (w_app s))"

definition route_reg :: "mux_kind \<Rightarrow> string \<Rightarrow> string \<Rightarrow> (unit, conf) std_handler \<Rightarrow> (unit, conf) registration" where
  "route_reg k method path h =
     (if k = MethodMux then RegMethod method path h else RegPattern (method @ '' '' @ path) h)"

lemma route_reg_simps:
  assumes "CHR '' '' \<notin> set method"
  shows "reg_method (route_reg k method path h) = method" and "reg_path (route_reg k method path h) = path"
    and "reg_handler (route_reg k method path h) = h"
  using assms by (simp_all add: route_reg_def reg_method_def reg_path_def reg_handler_def cut_before_app)

lemma handle_route_ok:
  assumes "adapt suite_env (rt_parser r) t zero rt h = Inr hf"
  shows "handle_route r method path t zero rt h mw (Ret mx) =
    Ret (mx\<lparr>mx_routes := mx_routes mx @ [route_reg (mx_kind mx) method (rt_prefix r @ path) (serve_route r hf mw)]\<rparr>)"
  using assms by (simp add: handle_route_def router_handle_def router_handle_func_def register_def route_reg_def)

lemma do_request_found:
  assumes "best_match mx method (split_on CHR ''/'' (tl (cut_before CHR ''?'' target))) = Some (vals, serve_route r hf mw)"
  shows "do_request (backend_of k) (Ret mx) method target body headers st body' =
    route_answer r hf mw ((new_request method target body headers)\<lparr>rq_path_values := map (\<lambda>(k, v). (k, percent_decode v)) vals\<rparr>) st body'"
  using assms by (simp add: do_request_def serve_request_def backend_of_def serve_mux_def find_route_def
      route_answer_def Let_def new_request_def split: prod.splits outcome.splits)

lemma conf_run:
  assumes "adapt suite_env (rt_parser r) t zero rt h = Inr hf"
    and "match_segments (parse_pattern (rt_prefix r @ path)) (split_on CHR ''/'' (tl (cut_before CHR ''?'' target))) = Some vals"
    and "CHR '' '' \<notin> set method"
    and "route_answer r hf mw ((new_request method target body headers)\<lparr>rq_path_values := map (\<lambda>(k, v). (k, percent_decode v)) vals\<rparr>) st body' = []"
  shows "do_request (backend_of k) (handle_route r method path t zero rt h mw (Ret \<lparr>mx_kind = k, mx_routes = []\<rparr>))
      method target body headers st body' = []"
proof -
  have "best_match \<lparr>mx_kind = k, mx_routes = [route_reg k method (rt_prefix r @ path) (serve_route r hf mw)]\<rparr>
      method (split_on CHR ''/'' (tl (cut_before CHR ''?'' target))) = Some (vals, serve_route r hf mw)"
    using assms(2) by (simp add: best_match_def candidates_def map_filter_def route_reg_simps [OF assms(3)])
  from do_request_found [OF this] assms(4) show ?thesis by (simp add: handle_route_ok [OF assms(1)])
qed

subsection \<open>The facts that evaluate a test\<close>

lemma decode_req_error_text:
  "json_ok (JObj m) \<Longrightarrow> decode_req_error (encoder_text (JObj m)) =
     Some \<lparr>we_code = json_string (map_of m ''code''), we_meta = json_members (map_of m ''meta''),
       we_reasons = (case map_of m ''reasons'' of Some (JArr rs) \<Rightarrow> map wire_reason rs | _ \<Rightarrow> [])\<rparr>"
  by (simp add: decode_req_error_def parse_encoder_text)

lemma suite_decode:
  assumes "s = json_text (JObj kvs)" and "json_ok (JObj kvs)" and "distinct (map fst kvs)"
  shows "env_decode suite_env s = BodyObject (map (\<lambda>(k, v). (k, json_text v)) kvs)"
  using decode_raw_written [of kvs "\<lambda>s. ''invalid JSON''" "[]"] assms by (simp add: suite_env_def json_env_def)

lemma suite_unmarshal:
  assumes "json_ok j"
  shows "env_unmarshal suite_env TString (json_text j) v = unmarshal_value (\<lambda>t s v. (v, None)) TString [] j v"
    and "env_unmarshal suite_env (TInt k b) (json_text j) v = unmarshal_value (\<lambda>t s v. (v, None)) (TInt k b) [] j v"
  using assms by (simp_all add: suite_env_def json_env_def unmarshal_raw_def parse_json_text unmarshal_value_def)

lemma suite_decode_bad: "q \<noteq> CHR 0x22 \<Longrightarrow> q \<noteq> CHR ''}'' \<Longrightarrow> skip_ws (q # s) = q # s \<Longrightarrow>
    env_decode suite_env (CHR ''{'' # q # s) = BodyBad (ErrText ''invalid JSON'')"
  by (cases "2 * length (CHR ''{'' # q # s)") (simp_all add: suite_env_def json_env_def decode_raw_def del: skip_ws.simps, simp)

lemma decimal_texts: "itoa 30 = ''30''" "itoa 7 = ''7''"
  by code_simp+

lemma trimmed_texts:
  "trim_space ''application/json'' = ''application/json''"
  "trim_space ''text/plain'' = ''text/plain''"
  "trim_space ''{\"detail\":\"bespoke failure\"}'' = ''{\"detail\":\"bespoke failure\"}''"
  by code_simp+

lemma quoted_up: "trim_space (encoder_text (JStr ''up'')) = CHR 0x22 # ''up'' @ [CHR 0x22]"
  by (simp add: encoder_text_def json_text.simps) code_simp

lemmas conf_json = json_text.simps quote_plain plain_char_def byte_def decimal_texts utf8_valid_ascii

lemma decoded_bodies:
  "env_decode suite_env ''{\"name\":\"alice\",\"age\":30}'' =
    BodyObject [(''name'', json_text (JStr ''alice'')), (''age'', json_text (JNum 30))]"
  "env_decode suite_env ''{\"name\":\"alice\"}'' = BodyObject [(''name'', json_text (JStr ''alice''))]"
  "env_decode suite_env hijack_body =
    BodyObject [(''id'', json_text (JStr ''hijacked'')), (''ID'', json_text (JStr ''hijacked'')),
      (''name'', json_text (JStr ''alice''))]"
  "env_decode suite_env ''{\"name\":7,\"nam\":\"x\"}'' =
    BodyObject [(''name'', json_text (JNum 7)), (''nam'', json_text (JStr ''x''))]"
  using suite_decode [of "''{\"name\":\"alice\",\"age\":30}''" "[(''name'', JStr ''alice''), (''age'', JNum 30)]"]
    suite_decode [of "''{\"name\":\"alice\"}''" "[(''name'', JStr ''alice'')]"]
    suite_decode [of hijack_body "[(''id'', JStr ''hijacked''), (''ID'', JStr ''hijacked''), (''name'', JStr ''alice'')]"]
    suite_decode [of "''{\"name\":7,\"nam\":\"x\"}''" "[(''name'', JNum 7), (''nam'', JStr ''x'')]"]
  by (simp_all add: conf_json hijack_body_def)

lemma malformed_body: "env_decode suite_env ''{not json'' = BodyBad (ErrText ''invalid JSON'')"
  by (rule suite_decode_bad) simp_all

lemmas conf_handlers = json_headers_def route_answer_def string_resp_def empty_resp_def created_resp_def
  answering_def failing_def capturing_def conf_start_def
lemmas conf_error = http_new_def http_wrap_def status_code_def req_error_json_def meta_json_def sorted_members_def
  param_reason_def with_error_def decode_req_error_text json_string_def json_members_def wire_reason_def
  has_reason_def utf8_valid_ascii byte_def err_text_ErrText code_statuses.simps parse_encoder_text
lemmas conf_body = bind_body_def bind_json_def bind_body_fields.simps suite_unmarshal unmarshal_value_def
  unmarshal_int_def number_text_def type_mismatch_def json_kind_def decimal_texts unknown_key_reasons_def
  unknown_field_reason_def body_field_reason_def errors_as_def chain.simps the_json_type_def decoded_bodies
  malformed_body trimmed_texts
lemmas conf_eval = http_serve http_request http_plan http_bind conf_handlers http_text conf_error conf_body

section \<open>Every test passes\<close>

lemma string_resp_is_json_encoded_ok: "k \<noteq> OtherMux \<Longrightarrow> string_resp_is_json_encoded (backend_of k) = []"
  unfolding string_resp_is_json_encoded_def
  by (simp, rule conf_run, simp add: http_plan, simp add: http_match, simp, simp add: conf_eval quoted_up)

lemma empty_resp_returns_204_ok: "k \<noteq> OtherMux \<Longrightarrow> empty_resp_returns_204 (backend_of k) = []"
  unfolding empty_resp_returns_204_def
  by (simp, rule conf_run, simp add: http_plan, simp add: http_match, simp, simp add: conf_eval)

lemma empty_pointer_resp_returns_204_ok: "k \<noteq> OtherMux \<Longrightarrow> empty_pointer_resp_returns_204 (backend_of k) = []"
  unfolding empty_pointer_resp_returns_204_def
  by (simp, rule conf_run, simp add: http_plan, simp add: http_match, simp, simp add: conf_eval)

lemma path_binding_ok: "k \<noteq> OtherMux \<Longrightarrow> path_binding (backend_of k) = []"
  unfolding path_binding_def path_req_def
  by (simp, rule conf_run, simp add: http_plan, simp add: http_match, simp, simp add: conf_eval)

lemma path_binding_invalid_ok: "k \<noteq> OtherMux \<Longrightarrow> path_binding_invalid (backend_of k) = []"
  unfolding path_binding_invalid_def int_path_req_def
  by (simp, rule conf_run, simp add: http_plan, simp add: http_match, simp, simp add: conf_eval)

lemma query_binding_ok: "k \<noteq> OtherMux \<Longrightarrow> query_binding (backend_of k) = []"
  unfolding query_binding_def query_req_def query_zero_def
  by (simp, rule conf_run, simp add: http_plan, simp add: http_match, simp, simp add: conf_eval)

lemma query_binding_missing_leaves_zero_ok: "k \<noteq> OtherMux \<Longrightarrow> query_binding_missing_leaves_zero (backend_of k) = []"
  unfolding query_binding_missing_leaves_zero_def query_req_def query_zero_def
  by (simp, rule conf_run, simp add: http_plan, simp add: http_match, simp, simp add: conf_eval)

lemma query_binding_invalid_ok: "k \<noteq> OtherMux \<Longrightarrow> query_binding_invalid (backend_of k) = []"
  unfolding query_binding_invalid_def query_req_def query_zero_def
  by (simp, rule conf_run, simp add: http_plan, simp add: http_match, simp, simp add: conf_eval)

lemma body_binding_ok: "k \<noteq> OtherMux \<Longrightarrow> body_binding (backend_of k) = []"
  unfolding body_binding_def body_req_def
  by (simp, rule conf_run, simp add: http_plan, simp add: http_match, simp, simp add: conf_eval)

lemma body_binding_rejects_non_json_ok: "k \<noteq> OtherMux \<Longrightarrow> body_binding_rejects_non_json (backend_of k) = []"
  unfolding body_binding_rejects_non_json_def body_req_def
  by (simp, rule conf_run, simp add: http_plan, simp add: http_match, simp, simp add: conf_eval)

lemma body_binding_malformed_json_ok: "k \<noteq> OtherMux \<Longrightarrow> body_binding_malformed_json (backend_of k) = []"
  unfolding body_binding_malformed_json_def body_req_def
  by (simp, rule conf_run, simp add: http_plan, simp add: http_match, simp, simp add: conf_eval)

lemma path_plus_body_ok: "k \<noteq> OtherMux \<Longrightarrow> path_plus_body (backend_of k) = []"
  unfolding path_plus_body_def update_req_def
  by (simp, rule conf_run, simp add: http_plan, simp add: http_match, simp, simp add: conf_eval)

lemma body_rejects_unknown_keys_ok: "k \<noteq> OtherMux \<Longrightarrow> body_rejects_unknown_keys (backend_of k) = []"
  unfolding body_rejects_unknown_keys_def update_req_def
  by (simp, rule conf_run, simp add: http_plan, simp add: http_match, simp, simp add: conf_eval)

lemma lenient_body_ignores_unknown_keys_ok: "k \<noteq> OtherMux \<Longrightarrow> lenient_body_ignores_unknown_keys (backend_of k) = []"
  unfolding lenient_body_ignores_unknown_keys_def lenient_update_req_def lenient_zero_def
  by (simp, rule conf_run, simp add: http_plan, simp add: http_match, simp, simp add: conf_eval)

lemma binding_failures_collect_ok: "k \<noteq> OtherMux \<Longrightarrow> binding_failures_collect (backend_of k) = []"
  unfolding binding_failures_collect_def search_req_def
  by (simp, rule conf_run, simp add: http_plan, simp add: http_match, simp, simp add: conf_eval)

lemma success_status_coder_ok: "k \<noteq> OtherMux \<Longrightarrow> success_status_coder (backend_of k) = []"
  unfolding success_status_coder_def
  by (simp, rule conf_run, simp add: http_plan, simp add: http_match, simp, simp add: conf_eval)

lemma req_error_propagates_ok: "k \<noteq> OtherMux \<Longrightarrow> req_error_propagates (backend_of k) = []"
  unfolding req_error_propagates_def
  by (simp, rule conf_run, simp add: http_plan, simp add: http_match, simp, simp add: conf_eval)

lemma generic_error_becomes_500_ok: "k \<noteq> OtherMux \<Longrightarrow> generic_error_becomes_500 (backend_of k) = []"
  unfolding generic_error_becomes_500_def
  by (simp, rule conf_run, simp add: http_plan, simp add: http_match, simp, simp add: conf_eval)

lemma group_prefixes_paths_ok: "k \<noteq> OtherMux \<Longrightarrow> group_prefixes_paths (backend_of k) = []"
  unfolding group_prefixes_paths_def router_group_def
  by (simp, rule conf_run, simp add: http_plan, simp add: http_match, simp, simp add: conf_eval)

lemma middleware_wraps_ok: "k \<noteq> OtherMux \<Longrightarrow> middleware_wraps (backend_of k) = []"
  unfolding middleware_wraps_def router_use_def track_def tracked_handler_def note_order_def Let_def
  by (simp, rule conf_run, simp add: http_plan, simp add: http_match, simp, simp add: conf_eval)

lemma middleware_short_circuit_ok: "k \<noteq> OtherMux \<Longrightarrow> middleware_short_circuit (backend_of k) = []"
  unfolding middleware_short_circuit_def router_use_def refusing_def raising_flag_def
  by (simp, rule conf_run, simp add: http_plan, simp add: http_match, simp, simp add: conf_eval)

lemma use_after_group_does_not_propagate_ok: "k \<noteq> OtherMux \<Longrightarrow> use_after_group_does_not_propagate (backend_of k) = []"
  unfolding use_after_group_does_not_propagate_def router_group_def router_use_def Let_def
  by (simp, rule conf_run, simp add: http_plan, simp add: http_match, simp, simp add: conf_eval)

lemma per_route_middleware_ok: "k \<noteq> OtherMux \<Longrightarrow> per_route_middleware (backend_of k) = []"
  unfolding per_route_middleware_def flagging_def
  by (simp, rule conf_run, simp add: http_plan, simp add: http_match, simp, simp add: conf_eval)

lemma with_coercer_test_ok: "k \<noteq> OtherMux \<Longrightarrow> with_coercer_test (backend_of k) = []"
  unfolding with_coercer_test_def with_coercer_def teapot_def
  by (simp, rule conf_run, simp add: http_plan, simp add: http_match, simp, simp add: conf_eval)

lemma with_error_writer_owns_response_ok: "k \<noteq> OtherMux \<Longrightarrow> with_error_writer_owns_response (backend_of k) = []"
  unfolding with_error_writer_owns_response_def with_error_writer_def with_coercer_def problem_writer_def
  by (simp, rule conf_run, simp add: http_plan, simp add: http_match, simp, simp add: conf_eval)

lemma error_writer_sees_original_error_ok: "k \<noteq> OtherMux \<Longrightarrow> error_writer_sees_original_error (backend_of k) = []"
  unfolding error_writer_sees_original_error_def with_error_writer_def seeing_writer_def test_sentinel_def errors_is_def
  by (simp, rule conf_run, simp add: http_plan, simp add: http_match, simp, simp add: conf_eval)

lemma error_writer_sees_binding_failures_ok: "k \<noteq> OtherMux \<Longrightarrow> error_writer_sees_binding_failures (backend_of k) = []"
  unfolding error_writer_sees_binding_failures_def with_error_writer_def seeing_writer_def int_path_req_def the_req_def
  by (simp, rule conf_run, simp add: http_plan, simp add: http_match, simp, simp add: conf_eval)

lemma group_inherits_config_ok:
  assumes "k \<noteq> OtherMux"
  shows "group_inherits_config (backend_of k) = []"
proof -
  let ?api = "\<lparr>rt_coercer = Some default_coercer, rt_error_writer = Some (\<lambda>r err. on_rw (write_header 418)),
      rt_parser = Some tags_parser, rt_logger = None, rt_prefix = ''/api'', rt_middleware = []\<rparr> :: conf_router"
  obtain h1 where h1: "adapt suite_env (Some tags_parser) slice_req [VExt []] string_resp capturing = Inr h1"
    and ans1: "\<And>body. route_answer ?api h1 [] ((new_request ''GET'' ''/api/tags/a,b'' [] [])\<lparr>rq_path_values := [(''tags'', ''a,b'')]\<rparr>)
      (conf_start [VExt []]) body =
      body \<lparr>rec_code = 200, rec_header = [(content_type, ''application/json'')], rec_body = encoder_text (JStr ''ok'')\<rparr>
        (conf_start [VExt [''a'', ''b'']])"
    by (simp add: conf_eval slice_req_def tags_type_def tags_parser_def)
  obtain h2 where h2: "adapt suite_env (Some tags_parser) (TPtr TEmpty) [] string_resp (failing (ErrText ''boom'')) = Inr h2"
    and ans2: "\<And>st body. route_answer ?api h2 [] ((new_request ''GET'' ''/api/boom'' [] [])\<lparr>rq_path_values := []\<rparr>) st body =
      body \<lparr>rec_code = 418, rec_header = [], rec_body = []\<rparr> st"
    by (simp add: conf_eval)
  let ?mux = "\<lparr>mx_kind = k, mx_routes =
      [route_reg k ''GET'' ''/api/tags/{tags}'' (serve_route ?api h1 []),
       route_reg k ''GET'' ''/api/boom'' (serve_route ?api h2 [])]\<rparr>"
  have "best_match ?mux ''GET'' [''api'', ''tags'', ''a,b''] = Some ([(''tags'', ''a,b'')], serve_route ?api h1 [])"
    and "best_match ?mux ''GET'' [''api'', ''boom''] = Some ([], serve_route ?api h2 [])"
    by (simp_all add: best_match_def candidates_def map_filter_def route_reg_simps http_match)
  moreover have start: "cf_req (conf_start zero) = zero" for zero by (simp add: conf_start_def)
  ultimately show ?thesis
    using assms
    unfolding group_inherits_config_def Let_def
    by (simp add: with_request_parser_def with_error_writer_def router_group_def handle_route_ok h1 h2 do_request_found
        http_match percent_decode.simps ans1 ans2 start)
qed

lemma panic_on_invalid_req_ok: "k \<noteq> OtherMux \<Longrightarrow> panic_on_invalid_req (backend_of k) = []"
  by (simp add: panic_on_invalid_req_def handle_route_def router_handle_def http_plan slice_req_def tags_type_def)

lemmas suite_ok = string_resp_is_json_encoded_ok empty_resp_returns_204_ok empty_pointer_resp_returns_204_ok
  path_binding_ok path_binding_invalid_ok query_binding_ok
  query_binding_missing_leaves_zero_ok query_binding_invalid_ok body_binding_ok
  body_binding_rejects_non_json_ok body_binding_malformed_json_ok path_plus_body_ok
  body_rejects_unknown_keys_ok lenient_body_ignores_unknown_keys_ok binding_failures_collect_ok
  success_status_coder_ok req_error_propagates_ok generic_error_becomes_500_ok
  group_prefixes_paths_ok middleware_wraps_ok middleware_short_circuit_ok
  use_after_group_does_not_propagate_ok per_route_middleware_ok with_coercer_test_ok
  with_error_writer_owns_response_ok error_writer_sees_original_error_ok error_writer_sees_binding_failures_ok
  group_inherits_config_ok panic_on_invalid_req_ok

section \<open>Properties\<close>


end
