(* ===== verification/ExampleApi.thy ===== *)
theory ExampleApi
  imports HttpMux
begin

text \<open>
  \<open>http/examples/api\<close> and \<open>http/examples/std/main.go\<close>: the example API (health, users,
  widgets) mounted on a \<open>ServeMux\<close> under \<open>/api\<close>, with \<open>Recoverer\<close> in front. The
  in-memory stores are the application state; a handler holds the store's mutex for its whole body,
  so requests are steps one after another. The counter of users is an unbounded integer.
\<close>

section \<open>State\<close>

record user =
  us_id :: string
  us_name :: string

record users =
  us_store :: "string \<rightharpoonup> user"
  us_next :: int

record widget =
  wg_id :: int
  wg_name :: string
  wg_color :: string
  wg_qty :: int

record api =
  api_users :: users
  api_widgets :: "int \<rightharpoonup> widget"

definition new_users :: users where
  "new_users = \<lparr>us_store = Map.empty, us_next = 0\<rparr>"

definition new_widgets :: "int \<rightharpoonup> widget" where
  "new_widgets = Map.empty"

definition new_api :: api where
  "new_api = \<lparr>api_users = new_users, api_widgets = new_widgets\<rparr>"

type_synonym 'resp api_handler = "(unit, api, unit, 'resp) typed_handler"

text \<open>The fields of a bound request by position.\<close>

definition str_field :: "'x fval list \<Rightarrow> nat \<Rightarrow> string" where
  "str_field v i = (case v ! i of VString s \<Rightarrow> s | _ \<Rightarrow> [])"

definition int_field :: "'x fval list \<Rightarrow> nat \<Rightarrow> int" where
  "int_field v i = (case v ! i of VInt n \<Rightarrow> n | _ \<Rightarrow> 0)"

section \<open>Health\<close>

record health =
  hl_commit :: string
  hl_version :: string

definition status_resp :: "string resp_type" where
  "status_resp = \<lparr>rs_empty = False, rs_status_coder = None,
     rs_encode = (\<lambda>s. Inr (JObj [(''status'', JStr s)]))\<rparr>"

definition empty_resp_type :: "unit resp_type" where
  "empty_resp_type = \<lparr>rs_empty = True, rs_status_coder = None, rs_encode = (\<lambda>_. Inr (JObj []))\<rparr>"

definition handle_health :: "string api_handler" where
  "handle_health ctx req s = (Ret (Inr ''up''), s)"

definition handle_sha :: "health \<Rightarrow> string api_handler" where
  "handle_sha h ctx req s = (Ret (Inr (hl_commit h)), s)"

definition handle_version :: "health \<Rightarrow> string api_handler" where
  "handle_version h ctx req s = (Ret (Inr (hl_version h)), s)"

definition handle_ping :: "unit api_handler" where
  "handle_ping ctx req s = (Ret (Inr ()), s)"

section \<open>Users\<close>

definition user_json :: "user \<Rightarrow> json" where
  "user_json u = JObj [(''id'', JStr (us_id u)), (''name'', JStr (us_name u))]"

definition user_resp :: "user resp_type" where
  "user_resp = \<lparr>rs_empty = False, rs_status_coder = None, rs_encode = (\<lambda>u. Inr (user_json u))\<rparr>"

definition list_users_resp :: "user list resp_type" where
  "list_users_resp = \<lparr>rs_empty = False, rs_status_coder = None,
     rs_encode = (\<lambda>us. Inr (JObj [(''users'', JArr (map user_json us))]))\<rparr>"

definition list_users_req :: go_type where
  "list_users_req = TPtr (TStruct ''ListUsersReq''
     [Field ''Limit'' True (TInt ''int'' 64) [(''query'', ''limit'')],
      Field ''Cursor'' True TString [(''query'', ''cursor'')]])"

definition get_user_req :: go_type where
  "get_user_req = TPtr (TStruct ''GetUserReq'' [Field ''ID'' True TString [(''path'', ''id'')]])"

definition create_user_req :: go_type where
  "create_user_req = TPtr (TStruct ''CreateUserReq'' [Field ''Name'' True TString [(''json'', ''name'')]])"

definition update_user_req :: go_type where
  "update_user_req = TPtr (TStruct ''UpdateUserReq''
     [Field ''ID'' True TString [(''path'', ''id'')], Field ''Name'' True TString [(''json'', ''name'')]])"

text \<open>
  \<open>handleList\<close>. \<open>ranged\<close> is the order in which the loop visits the keys of the store, and
  \<open>max_cap\<close> the largest capacity that \<open>make\<close> accepts for users: beyond it, it panics.
\<close>

fun list_loop :: "int \<Rightarrow> (string \<rightharpoonup> user) \<Rightarrow> user list \<Rightarrow> string list \<Rightarrow> user list" where
  "list_loop limit store out [] = out"
| "list_loop limit store out (k # ks) =
     (if int (length out) \<ge> limit then out
      else list_loop limit store (case store k of None \<Rightarrow> out | Some u \<Rightarrow> out @ [u]) ks)"

definition handle_list :: "int \<Rightarrow> (users \<Rightarrow> string list) \<Rightarrow> user list api_handler" where
  "handle_list max_cap ranged ctx req s =
     (let limit = (if int_field req 0 \<le> 0 then 10 else int_field req 0)
      in if limit > max_cap
         then (Panic (PanicErr (ErrText ''runtime error: makeslice: cap out of range'')), s)
         else (Ret (Inr (list_loop limit (us_store (api_users (w_app s))) [] (ranged (api_users (w_app s))))), s))"

definition user_not_found :: "string \<Rightarrow> go_error" where
  "user_not_found i = EReq (http_new ''not_found'' [(''resource'', GStr ''user''), (''id'', GStr i)] [])"

definition handle_get :: "user api_handler" where
  "handle_get ctx req s =
     (case us_store (api_users (w_app s)) (str_field req 0) of
        None \<Rightarrow> (Ret (Inl (user_not_found (str_field req 0))), s)
      | Some u \<Rightarrow> (Ret (Inr u), s))"

definition put_user :: "user \<Rightarrow> users \<Rightarrow> users" where
  "put_user u us = us\<lparr>us_store := (us_store us)(us_id u \<mapsto> u)\<rparr>"

definition set_users :: "users \<Rightarrow> (api, 'z) world_scheme \<Rightarrow> (api, 'z) world_scheme" where
  "set_users us s = s\<lparr>w_app := (w_app s)\<lparr>api_users := us\<rparr>\<rparr>"

definition handle_create :: "user api_handler" where
  "handle_create ctx req s =
     (if str_field req 0 = [] then (Ret (Inl (EReq (http_new ''name_required'' [] []))), s)
      else
        let us = (api_users (w_app s))\<lparr>us_next := us_next (api_users (w_app s)) + 1\<rparr>;
            u = \<lparr>us_id = itoa (us_next us), us_name = str_field req 0\<rparr>
        in (Ret (Inr u), set_users (put_user u us) s))"

definition handle_update :: "user api_handler" where
  "handle_update ctx req s =
     (if str_field req 1 = [] then (Ret (Inl (EReq (http_new ''name_required'' [] []))), s)
      else
        case us_store (api_users (w_app s)) (str_field req 0) of
          None \<Rightarrow> (Ret (Inl (user_not_found (str_field req 0))), s)
        | Some u0 \<Rightarrow>
            (let u = u0\<lparr>us_name := str_field req 1\<rparr>
             in (Ret (Inr u), set_users (put_user u (api_users (w_app s))) s)))"

section \<open>Widgets\<close>

definition widget_json :: "widget \<Rightarrow> json" where
  "widget_json w = JObj [(''id'', JNum (wg_id w)), (''name'', JStr (wg_name w)),
     (''color'', JStr (wg_color w)), (''qty'', JNum (wg_qty w))]"

definition widget_resp :: "widget resp_type" where
  "widget_resp = \<lparr>rs_empty = False, rs_status_coder = None, rs_encode = (\<lambda>w. Inr (widget_json w))\<rparr>"

definition create_widget_req :: go_type where
  "create_widget_req = TPtr (TStruct ''CreateWidgetReq''
     [Field ''ID'' True (TInt ''int'' 64) [(''path'', ''id'')],
      Field ''Qty'' True (TInt ''int'' 64) [(''query'', ''qty'')],
      Field ''Name'' True TString [(''json'', ''name'')],
      Field ''Color'' True TString [(''json'', ''color'')]])"

definition allowed_colors :: "string set" where
  "allowed_colors = {''red'', ''blue'', ''green''}"

definition invalid_reason :: "string \<Rightarrow> string \<Rightarrow> string \<Rightarrow> reason" where
  "invalid_reason loc field msg =
     Reason ''invalid'' [(''in'', GStr loc), (''field'', GStr field), (''error'', GStr msg)] []"

definition validate_widget :: "widget \<Rightarrow> reason list" where
  "validate_widget r =
     (let rs1 = (if wg_id r \<le> 0 then [invalid_reason ''path'' ''id'' ''must be a positive integer''] else []);
          rs2 = rs1 @ (if wg_qty r < 1 \<or> wg_qty r > 100
                       then [invalid_reason ''query'' ''qty'' ''must be between 1 and 100''] else []);
          rs3 = rs2 @ (if trim_space (wg_name r) = []
                       then [Reason ''required'' [(''in'', GStr ''body''), (''field'', GStr ''name'')] []]
                       else if length (wg_name r) > 50
                       then [invalid_reason ''body'' ''name'' ''must be at most 50 characters''] else [])
      in rs3 @ (if wg_color r \<notin> allowed_colors
                then [invalid_reason ''body'' ''color''
                        (''must be one of red, blue, green (got '' @ go_quote (wg_color r) @ '')'')] else []))"

definition handle_create_widget :: "widget api_handler" where
  "handle_create_widget ctx req s =
     (let w = \<lparr>wg_id = int_field req 0, wg_name = str_field req 2, wg_color = str_field req 3, wg_qty = int_field req 1\<rparr>;
          reasons = validate_widget w
      in if length reasons > 0
         then (Ret (Inl (EReq (with_reasons (http_new ''validation_failed'' [] []) reasons))), s)
         else (Ret (Inr w), s\<lparr>w_app := (w_app s)\<lparr>api_widgets := (api_widgets (w_app s))(wg_id w \<mapsto> w)\<rparr>\<rparr>))"

section \<open>Mounting\<close>

type_synonym api_router = "(unit, api, unit) router"
type_synonym api_mux = "(unit, api) mux"

definition handle_on :: "unit std_env \<Rightarrow> api_router \<Rightarrow> string \<Rightarrow> string \<Rightarrow> go_type \<Rightarrow> unit fval list \<Rightarrow>
    'resp resp_type \<Rightarrow> 'resp api_handler \<Rightarrow> api_mux outcome \<Rightarrow> api_mux outcome" where
  "handle_on env rg method path t zero rt h m =
     (case m of
        Panic p \<Rightarrow> Panic p
      | Ret mx \<Rightarrow>
          (case router_handle env rg method path t zero rt h [] mx of
             (Panic p, mx') \<Rightarrow> Panic p
           | (Ret _, mx') \<Rightarrow> Ret mx'))"

definition mount_health :: "unit std_env \<Rightarrow> health \<Rightarrow> api_router \<Rightarrow> api_mux outcome \<Rightarrow> api_mux outcome" where
  "mount_health env h rg m =
     (let m1 = handle_on env rg ''GET'' ''/health'' (TPtr TEmpty) [] status_resp handle_health m;
          m2 = handle_on env rg ''GET'' ''/sha'' (TPtr TEmpty) [] status_resp (handle_sha h) m1;
          m3 = handle_on env rg ''GET'' ''/version'' (TPtr TEmpty) [] status_resp (handle_version h) m2
      in handle_on env rg ''POST'' ''/ping'' (TPtr TEmpty) [] empty_resp_type handle_ping m3)"

definition mount_users :: "unit std_env \<Rightarrow> int \<Rightarrow> (users \<Rightarrow> string list) \<Rightarrow> api_router \<Rightarrow>
    api_mux outcome \<Rightarrow> api_mux outcome" where
  "mount_users env max_cap ranged rg m =
     (let m1 = handle_on env rg ''GET'' ''/users'' list_users_req [VInt 0, VString []] list_users_resp
                 (handle_list max_cap ranged) m;
          m2 = handle_on env rg ''GET'' ''/users/{id}'' get_user_req [VString []] user_resp handle_get m1;
          m3 = handle_on env rg ''POST'' ''/users'' create_user_req [VString []] user_resp handle_create m2
      in handle_on env rg ''PUT'' ''/users/{id}'' update_user_req [VString [], VString []] user_resp handle_update m3)"

definition mount_widgets :: "unit std_env \<Rightarrow> api_router \<Rightarrow> api_mux outcome \<Rightarrow> api_mux outcome" where
  "mount_widgets env rg m =
     handle_on env rg ''POST'' ''/widgets/{id}'' create_widget_req [VInt 0, VInt 0, VString [], VString []]
       widget_resp handle_create_widget m"

text \<open>\<open>main\<close> of the std example, up to the listener: the mux with everything mounted.\<close>

definition std_main :: "unit std_env \<Rightarrow> string \<Rightarrow> int \<Rightarrow> (users \<Rightarrow> string list) \<Rightarrow> api_mux outcome" where
  "std_main env stack max_cap ranged =
     (let mux = \<lparr>mx_kind = PatternMux, mx_routes = [RegPattern ''/'' not_found_handler]\<rparr>
      in case new_router PatternMux [] of
           Panic p \<Rightarrow> Panic p
         | Ret r0 \<Rightarrow>
             (let r = router_use r0 [recoverer stack];
                  rg = router_group r ''/api''
              in mount_widgets env rg
                   (mount_users env max_cap ranged rg
                     (mount_health env \<lparr>hl_commit = ''deadbeef'', hl_version = ''0.1.0''\<rparr> rg (Ret mux)))))"

section \<open>What every request keeps\<close>

text \<open>A handler keeps a property of the application state, whatever the request and the outcome.\<close>

definition keeps :: "('w \<Rightarrow> bool) \<Rightarrow> ('c request \<Rightarrow> 'w hworld \<Rightarrow> 'o \<times> 'w hworld) \<Rightarrow> bool" where
  "keeps P h \<longleftrightarrow> (\<forall>req s. P (w_app s) \<longrightarrow> P (w_app (snd (h req s))))"

definition typed_keeps :: "('w \<Rightarrow> bool) \<Rightarrow> ('c, 'w, 'x, 'resp) typed_handler \<Rightarrow> bool" where
  "typed_keeps P h \<longleftrightarrow> (\<forall>ctx req s. P (w_app s) \<longrightarrow> P (w_app (snd (h ctx req s))))"

lemma on_rw_app: "w_app (snd (on_rw f s)) = w_app s"
  by (simp add: on_rw_def split: prod.splits)

lemma write_response_app: "w_app (snd (write_response rt resp s)) = w_app s"
proof -
  have "on_rw f t = (x, t') \<Longrightarrow> w_app t' = w_app t" for f :: "response \<Rightarrow> unit outcome \<times> response" and t x t'
    using on_rw_app [of f t] by simp
  then show ?thesis by (auto simp: write_response_def Let_def split: prod.splits outcome.splits sum.splits)
qed

lemma on_world_app: "w_app (snd (on_world f s)) =
    w_app (snd (f \<lparr>w_default = w_default s, w_log = w_log s, w_app = w_app s\<rparr>))"
  by (simp add: on_world_def split: prod.splits)

lemma adapt_keeps:
  fixes h :: "('c, 'w, 'x, 'resp) typed_handler"
  assumes "typed_keeps P h" and "adapt env parser t zero rt h = Inr hf"
  shows "keeps P hf"
proof -
  have typed: "P (w_app (snd (on_world (h ctx req) s)))" if "P (w_app s)" for ctx req s
    using assms(1) that by (auto simp: typed_keeps_def on_world_app)
  obtain b p where hf: "hf = (\<lambda>httpReq s.
      case bind_request env p b httpReq zero of
        (req, Some err) \<Rightarrow> (Ret (Some err), s)
      | (req, None) \<Rightarrow>
          (case on_world (h (rq_ctx httpReq) req) s of
             (Panic x, s') \<Rightarrow> (Panic x, s')
           | (Ret (Inl err), s') \<Rightarrow> (Ret (Some err), s')
           | (Ret (Inr resp), s') \<Rightarrow> write_response rt resp s'))"
    using assms(2) by (auto simp: adapt_def Let_def split: sum.splits)
  show ?thesis
    unfolding keeps_def
  proof (intro allI impI)
    fix req and s :: "'w hworld"
    assume P: "P (w_app s)"
    show "P (w_app (snd (hf req s)))"
    proof (cases "bind_request env p b req zero")
      case (Pair v err)
      have "P (w_app (snd (on_world (h (rq_ctx req) v) s)))" by (rule typed [OF P])
      with P Pair show ?thesis
        by (auto simp: hf write_response_app split: option.splits prod.splits outcome.splits sum.splits)
    qed
  qed
qed

lemma error_writer_app: "w_app (snd (default_error_writer c r err s)) = w_app s"
  by (auto simp: default_error_writer_def Let_def on_rw_app split: option.splits)

lemma recoverer_keeps:
  fixes h :: "('c, 'w) http_handler"
  shows "keeps P h \<Longrightarrow> keeps P (recoverer stack h)"
  unfolding keeps_def
proof (intro allI impI)
  fix req and s :: "'w hworld"
  assume "\<forall>req s. P (w_app s) \<longrightarrow> P (w_app (snd (h req s)))" and "P (w_app s)"
  then have "P (w_app (snd (h req s)))" by blast
  then show "P (w_app (snd (recoverer stack h req s)))"
    by (auto simp: recoverer_def split: prod.splits outcome.splits)
qed

lemma serve_route_keeps:
  assumes "keeps P hf" and "rt_middleware r = [recoverer stack]" and "rt_error_writer r = None"
  shows "keeps P (serve_route r hf [])"
proof -
  let ?h = "recoverer stack hf"
  have "P (w_app (snd (?h req s)))" if "P (w_app s)" for req s
    using recoverer_keeps [OF assms(1)] that by (auto simp: keeps_def)
  then show ?thesis
    by (auto simp: keeps_def serve_route_def assms(2,3) apply_middleware_def combine_chain_def Let_def
        error_writer_app split: prod.splits outcome.splits option.splits) (metis snd_conv)+
qed

definition mux_keeps :: "('w \<Rightarrow> bool) \<Rightarrow> ('c, 'w) mux \<Rightarrow> bool" where
  "mux_keeps P m \<longleftrightarrow> (\<forall>g \<in> set (mx_routes m). keeps P (reg_handler g))"

lemma best_match_handler:
  "best_match m method xs = Some (vals, h) \<Longrightarrow> \<exists>g \<in> set (mx_routes m). h = reg_handler g"
  by (erule best_match_sound) (auto simp: set_candidates)

lemma serve_mux_keeps:
  fixes m :: "('c, 'w) mux"
  assumes "mux_keeps P m"
  shows "keeps P (serve_mux m path)"
  unfolding keeps_def
proof (intro allI impI)
  fix req and s :: "'w hworld"
  assume P: "P (w_app s)"
  have found: "P (w_app (snd (h r' s)))" if "best_match m verb xs = Some (vals, h)" for verb xs vals h r'
    using best_match_handler [OF that] assms P by (auto simp: mux_keeps_def keeps_def)
  show "P (w_app (snd (serve_mux m path req s)))"
    using P found
    by (auto simp: serve_mux_def find_route_def Let_def on_rw_app split: option.splits list.splits if_splits)
qed

text \<open>The mux of a program, unless mounting panicked.\<close>

definition built_keeps :: "('w \<Rightarrow> bool) \<Rightarrow> ('c, 'w) mux outcome \<Rightarrow> bool" where
  "built_keeps P m \<longleftrightarrow> (case m of Ret mx \<Rightarrow> mux_keeps P mx | Panic p \<Rightarrow> True)"

lemma handle_on_keeps:
  assumes "built_keeps P m" and "typed_keeps P h"
    and "rt_middleware rg = [recoverer stack]" and "rt_error_writer rg = None"
  shows "built_keeps P (handle_on env rg method path t zero rt h m)"
proof (cases m)
  case (Ret mx)
  show ?thesis
  proof (cases "adapt env (rt_parser rg) t zero rt h")
    case (Inr hf)
    have "keeps P (serve_route rg hf [])"
      by (rule serve_route_keeps [OF adapt_keeps [OF assms(2) Inr] assms(3,4)])
    with assms(1) Ret Inr show ?thesis
      by (auto simp: built_keeps_def handle_on_def router_handle_def mux_keeps_def router_handle_func_def
          register_def reg_handler_def)
  qed (simp add: Ret built_keeps_def handle_on_def router_handle_def)
qed (simp add: built_keeps_def handle_on_def)

section \<open>The stores stay sound\<close>

definition users_ok :: "users \<Rightarrow> bool" where
  "users_ok us \<longleftrightarrow> 0 \<le> us_next us \<and> dom (us_store us) = itoa ` {1..us_next us} \<and>
     (\<forall>i u. us_store us i = Some u \<longrightarrow> us_id u = i \<and> us_name u \<noteq> [])"

definition widgets_ok :: "(int \<rightharpoonup> widget) \<Rightarrow> bool" where
  "widgets_ok ws \<longleftrightarrow> (\<forall>i w. ws i = Some w \<longrightarrow> wg_id w = i \<and> validate_widget w = [])"

definition api_ok :: "api \<Rightarrow> bool" where
  "api_ok a \<longleftrightarrow> users_ok (api_users a) \<and> widgets_ok (api_widgets a)"

lemma new_api_ok: "api_ok new_api"
  by (simp add: api_ok_def users_ok_def widgets_ok_def new_api_def new_users_def new_widgets_def)

lemma users_ok_create:
  assumes "users_ok us" and "name \<noteq> []"
  shows "users_ok (put_user \<lparr>us_id = itoa (us_next us + 1), us_name = name\<rparr> (us\<lparr>us_next := us_next us + 1\<rparr>))"
proof -
  have "{1..us_next us + 1} = insert (us_next us + 1) {1..us_next us}"
    using assms(1) by (auto simp: users_ok_def)
  with assms show ?thesis by (auto simp: users_ok_def put_user_def)
qed

lemma users_ok_update:
  assumes "users_ok us" and "name \<noteq> []" and "us_store us i = Some u"
  shows "users_ok (put_user (u\<lparr>us_name := name\<rparr>) us)"
proof -
  have "us_id u = i" using assms(1,3) by (simp add: users_ok_def)
  moreover from this have "dom ((us_store us)(i \<mapsto> u\<lparr>us_name := name\<rparr>)) = dom (us_store us)"
    using assms(3) by auto
  ultimately show ?thesis using assms(1,2) by (auto simp: users_ok_def put_user_def)
qed

lemma handlers_keep:
  "typed_keeps api_ok handle_health" "typed_keeps api_ok (handle_sha h)" "typed_keeps api_ok (handle_version h)"
  "typed_keeps api_ok handle_ping" "typed_keeps api_ok (handle_list cap ranged)" "typed_keeps api_ok handle_get"
  by (simp_all add: typed_keeps_def handle_health_def handle_sha_def handle_version_def handle_ping_def
      handle_list_def handle_get_def Let_def split: option.splits)

lemma create_keeps: "typed_keeps api_ok handle_create"
  using users_ok_create
  by (auto simp: typed_keeps_def handle_create_def set_users_def api_ok_def Let_def)

lemma update_keeps: "typed_keeps api_ok handle_update"
  using users_ok_update
  by (auto simp: typed_keeps_def handle_update_def set_users_def api_ok_def Let_def split: option.splits)

lemma create_widget_keeps: "typed_keeps api_ok handle_create_widget"
  by (auto simp: typed_keeps_def handle_create_widget_def api_ok_def widgets_ok_def Let_def)

lemmas keep_handlers = handlers_keep create_keeps update_keeps create_widget_keeps

lemma not_found_keeps: "keeps P not_found_handler"
  by (simp add: keeps_def not_found_handler_def Let_def on_rw_app)

lemma std_main_keeps:
  assumes "std_main env stack cap ranged = Ret mx"
  shows "mux_keeps api_ok mx"
proof -
  have start: "built_keeps api_ok (Ret \<lparr>mx_kind = PatternMux, mx_routes = [RegPattern ''/'' not_found_handler]\<rparr>)"
    by (simp add: built_keeps_def mux_keeps_def reg_handler_def not_found_keeps)
  have "built_keeps api_ok (std_main env stack cap ranged)"
    unfolding std_main_def mount_widgets_def mount_users_def mount_health_def Let_def new_router_def
    by (simp, (intro handle_on_keeps [where stack = stack] keep_handlers start;
        simp add: router_group_def router_use_def))
  with assms show ?thesis by (simp add: built_keeps_def)
qed

section \<open>The routes of the program\<close>

lemma handle_on_ok:
  assumes "adapt env (rt_parser rg) t zero rt h = Inr hf" and "mx_kind mx = PatternMux"
  shows "handle_on env rg method path t zero rt h (Ret mx) =
    Ret (mx\<lparr>mx_routes := mx_routes mx @ [RegPattern (method @ '' '' @ rt_prefix rg @ path) (serve_route rg hf [])]\<rparr>)"
  using assms by (simp add: handle_on_def router_handle_def router_handle_func_def register_def)

definition api_group :: "string \<Rightarrow> api_router" where
  "api_group stack = \<lparr>rt_coercer = Some default_coercer, rt_error_writer = None, rt_parser = None,
     rt_logger = None, rt_prefix = ''/api'', rt_middleware = [recoverer stack]\<rparr>"

lemmas api_types = list_users_req_def get_user_req_def create_user_req_def update_user_req_def create_widget_req_def

text \<open>No request type of the API is refused, so everything is mounted.\<close>

lemma std_main_routes:
  "\<exists>hs hu hg hc hp hw.
     adapt env None list_users_req [VInt 0, VString []] list_users_resp (handle_list cap ranged) = Inr hu \<and>
     adapt env None get_user_req [VString []] user_resp handle_get = Inr hg \<and>
     adapt env None create_user_req [VString []] user_resp handle_create = Inr hc \<and>
     adapt env None update_user_req [VString [], VString []] user_resp handle_update = Inr hp \<and>
     adapt env None create_widget_req [VInt 0, VInt 0, VString [], VString []] widget_resp handle_create_widget = Inr hw \<and>
     std_main env stack cap ranged = Ret \<lparr>mx_kind = PatternMux, mx_routes =
       [RegPattern ''/'' not_found_handler,
        RegPattern ''GET /api/health'' (hs ! 0), RegPattern ''GET /api/sha'' (hs ! 1),
        RegPattern ''GET /api/version'' (hs ! 2), RegPattern ''POST /api/ping'' (hs ! 3),
        RegPattern ''GET /api/users'' (serve_route (api_group stack) hu []),
        RegPattern ''GET /api/users/{id}'' (serve_route (api_group stack) hg []),
        RegPattern ''POST /api/users'' (serve_route (api_group stack) hc []),
        RegPattern ''PUT /api/users/{id}'' (serve_route (api_group stack) hp []),
        RegPattern ''POST /api/widgets/{id}'' (serve_route (api_group stack) hw [])]\<rparr>"
proof -
  have empty: "\<exists>hf. adapt env None (TPtr TEmpty) [] rt h = Inr hf" for rt and h :: "'r api_handler"
    by (simp add: http_plan)
  obtain h0 h1 h2 where h: "adapt env None (TPtr TEmpty) [] status_resp handle_health = Inr h0"
    "adapt env None (TPtr TEmpty) [] status_resp (handle_sha \<lparr>hl_commit = ''deadbeef'', hl_version = ''0.1.0''\<rparr>) = Inr h1"
    "adapt env None (TPtr TEmpty) [] status_resp (handle_version \<lparr>hl_commit = ''deadbeef'', hl_version = ''0.1.0''\<rparr>) = Inr h2"
    using empty by meson
  obtain h3 where h3: "adapt env None (TPtr TEmpty) [] empty_resp_type handle_ping = Inr h3"
    using empty by meson
  obtain hu where hu: "adapt env None list_users_req [VInt 0, VString []] list_users_resp (handle_list cap ranged) = Inr hu"
    by (simp add: http_plan api_types)
  obtain hg where hg: "adapt env None get_user_req [VString []] user_resp handle_get = Inr hg"
    by (simp add: http_plan api_types)
  obtain hc where hc: "adapt env None create_user_req [VString []] user_resp handle_create = Inr hc"
    by (simp add: http_plan api_types)
  obtain hp where hp: "adapt env None update_user_req [VString [], VString []] user_resp handle_update = Inr hp"
    by (simp add: http_plan api_types)
  obtain hw where hw: "adapt env None create_widget_req [VInt 0, VInt 0, VString [], VString []] widget_resp handle_create_widget = Inr hw"
    by (simp add: http_plan api_types)
  let ?hs = "map (\<lambda>h. serve_route (api_group stack) h []) [h0, h1, h2, h3]"
  have rg: "router_group (router_use \<lparr>rt_coercer = Some default_coercer, rt_error_writer = None, rt_parser = None,
      rt_logger = None, rt_prefix = [], rt_middleware = []\<rparr> [recoverer stack]) ''/api'' = api_group stack"
    by (simp add: router_group_def router_use_def api_group_def)
  have simps: "rt_parser (api_group stack) = None" "rt_prefix (api_group stack) = ''/api''"
    by (simp_all add: api_group_def)
  have "std_main env stack cap ranged = Ret \<lparr>mx_kind = PatternMux, mx_routes =
       [RegPattern ''/'' not_found_handler,
        RegPattern ''GET /api/health'' (?hs ! 0), RegPattern ''GET /api/sha'' (?hs ! 1),
        RegPattern ''GET /api/version'' (?hs ! 2), RegPattern ''POST /api/ping'' (?hs ! 3),
        RegPattern ''GET /api/users'' (serve_route (api_group stack) hu []),
        RegPattern ''GET /api/users/{id}'' (serve_route (api_group stack) hg []),
        RegPattern ''POST /api/users'' (serve_route (api_group stack) hc []),
        RegPattern ''PUT /api/users/{id}'' (serve_route (api_group stack) hp []),
        RegPattern ''POST /api/widgets/{id}'' (serve_route (api_group stack) hw [])]\<rparr>"
    unfolding std_main_def new_router_def Let_def
    by (simp add: rg mount_widgets_def mount_users_def mount_health_def Let_def handle_on_ok simps h h3 hu hg hc hp hw)
  with hu hg hc hp hw show ?thesis by blast
qed

section \<open>From request to answer\<close>

definition json_answer :: "json \<Rightarrow> recorder" where
  "json_answer j = \<lparr>rec_code = 200, rec_header = [(content_type, ''application/json'')], rec_body = encoder_text j\<rparr>"

definition create_request :: "string \<Rightarrow> string" where
  "create_request name = encoder_text (JObj [(''name'', JStr name)])"

lemma decode_name:
  assumes "utf8_valid name"
  shows "env_decode (json_env wording env) (create_request name) = BodyObject [(''name'', json_text (JStr name))]"
  using decode_raw_written [of "[(''name'', JStr name)]" wording newline] assms
  by (simp add: create_request_def json_env_def encoder_text_def utf8_valid_ascii byte_def)

lemma unmarshal_name:
  "utf8_valid name \<Longrightarrow> env_unmarshal (json_env wording env) TString (json_text (JStr name)) v = (VString name, None)"
  using unmarshal_written [of TString "VString name" wording "env_unmarshal env" v]
  by (simp add: json_env_def fits_def value_json_def)

lemma trimmed_json: "trim_space ''application/json'' = ''application/json''"
  by code_simp

lemma create_answer:
  assumes "adapt (json_env wording env) None create_user_req [VString []] user_resp handle_create = Inr hc"
    and "utf8_valid name" and "name \<noteq> []" and u_def: "u = \<lparr>us_id = itoa (us_next (api_users a) + 1), us_name = name\<rparr>"
  shows "\<exists>s. serve_route (api_group stack) hc [] ((new_request ''POST'' target (create_request name)
        [(''Content-Type'', ''application/json'')])\<lparr>rq_path_values := []\<rparr>) (test_world a) = (Ret (), s) \<and>
      recorder_of (h_rw s) = json_answer (user_json u) \<and>
      w_app s = a\<lparr>api_users := put_user u ((api_users a)\<lparr>us_next := us_next (api_users a) + 1\<rparr>)\<rparr>"
proof -
  have hc: "hc = (\<lambda>httpReq s.
      case bind_request (json_env wording env) zero_parser (empty_plan\<lparr>bd_body := [\<lparr>bb_key = ''name'', bb_idx = 0, bb_type = TString\<rparr>],
        bd_known := [''name''], bd_has_body := True\<rparr>) httpReq [VString []] of
        (req, Some err) \<Rightarrow> (Ret (Some err), s)
      | (req, None) \<Rightarrow>
          (case on_world (handle_create (rq_ctx httpReq) req) s of
             (Panic x, s') \<Rightarrow> (Panic x, s')
           | (Ret (Inl err), s') \<Rightarrow> (Ret (Some err), s')
           | (Ret (Inr resp), s') \<Rightarrow> write_response user_resp resp s'))"
    using assms(1) by (simp add: http_plan create_user_req_def)
  let ?r = "(new_request ''POST'' target (create_request name)
        [(''Content-Type'', ''application/json'')])\<lparr>rq_path_values := []\<rparr>"
  have "bind_request (json_env wording env) zero_parser (empty_plan\<lparr>bd_body := [\<lparr>bb_key = ''name'', bb_idx = 0, bb_type = TString\<rparr>],
        bd_known := [''name''], bd_has_body := True\<rparr>) ?r [VString []] = ([VString name], None)"
    using assms(2)
    by (simp add: http_bind http_plan bind_body_def http_request decode_name bind_json_def bind_body_fields.simps
        unmarshal_name unknown_key_reasons_def trimmed_json)
  then show ?thesis
    using assms(3)
    by (simp add: http_serve api_group_def hc recoverer_def handle_create_def str_field_def set_users_def Let_def
        user_resp_def json_answer_def u_def)
qed

lemma get_answer:
  assumes "adapt env None get_user_req [VString []] user_resp handle_get = Inr hg"
    and "us_store (api_users a) i = Some u" and "i \<noteq> []"
  shows "\<exists>s. serve_route (api_group stack) hg [] ((new_request ''GET'' target [] [])\<lparr>rq_path_values := [(''id'', i)]\<rparr>)
        (test_world a) = (Ret (), s) \<and>
      recorder_of (h_rw s) = json_answer (user_json u) \<and> w_app s = a"
proof -
  have hg: "hg = (\<lambda>httpReq s.
      case bind_request env zero_parser (empty_plan\<lparr>bd_paths := [\<lparr>pb_key = ''id'', pb_idx = 0, pb_setter = set_string\<rparr>]\<rparr>)
        httpReq [VString []] of
        (req, Some err) \<Rightarrow> (Ret (Some err), s)
      | (req, None) \<Rightarrow>
          (case on_world (handle_get (rq_ctx httpReq) req) s of
             (Panic x, s') \<Rightarrow> (Panic x, s')
           | (Ret (Inl err), s') \<Rightarrow> (Ret (Some err), s')
           | (Ret (Inr resp), s') \<Rightarrow> write_response user_resp resp s'))"
    using assms(1) by (simp add: http_plan get_user_req_def)
  have "bind_request env zero_parser (empty_plan\<lparr>bd_paths := [\<lparr>pb_key = ''id'', pb_idx = 0, pb_setter = set_string\<rparr>]\<rparr>)
      ((new_request ''GET'' target [] [])\<lparr>rq_path_values := [(''id'', i)]\<rparr>) [VString []] = ([VString i], None)"
    using assms(3) by (simp add: http_bind http_plan)
  with assms(2) show ?thesis
    by (simp add: http_serve api_group_def hg recoverer_def handle_get_def str_field_def user_resp_def json_answer_def)
qed

lemma itoa_chars: "c \<in> set (itoa i) \<Longrightarrow> is_digit c \<or> c = CHR ''-''"
  by (auto simp: itoa_def dest: itoa_nat_digits split: if_splits)

lemma itoa_plain: "CHR ''%'' \<notin> set (itoa i)" "CHR ''/'' \<notin> set (itoa i)" "CHR ''?'' \<notin> set (itoa i)"
  by (auto dest!: itoa_chars simp: is_digit_def)

section \<open>Properties\<close>

fun serve_all :: "api_mux \<Rightarrow> (string \<times> string \<times> string \<times> (string \<times> string) list) list \<Rightarrow> api \<Rightarrow> api" where
  "serve_all mx [] a = a"
| "serve_all mx ((method, target, body, headers) # reqs) a =
     serve_all mx reqs (snd (serve_request (serve_mux mx) method target body headers a))"

lemma serve_all_keeps:
  assumes "mux_keeps P mx" and "P a"
  shows "P (serve_all mx reqs a)"
  using assms(2)
proof (induction reqs arbitrary: a)
  case (Cons r reqs)
  obtain verb target body headers where r: "r = (verb, target, body, headers)" by (cases r)
  have "P (w_app (snd (serve_mux mx (cut_before CHR ''?'' target) (new_request verb target body headers) (test_world a))))"
    using serve_mux_keeps [OF assms(1)] Cons.prems by (simp add: keeps_def test_world_def)
  then have "P (snd (serve_request (serve_mux mx) verb target body headers a))"
    by (auto simp: serve_request_def split: prod.splits outcome.splits)
  with Cons.IH show ?case by (simp add: r)
qed simp

lemma users_ok_card: "users_ok us \<Longrightarrow> card (dom (us_store us)) = nat (us_next us)"
proof -
  assume ok: "users_ok us"
  have "inj_on itoa {1..us_next us}" by (rule inj_onI) (auto intro: itoa_inj)
  then show ?thesis using ok by (simp add: users_ok_def card_image)
qed


definition sample_api_env :: "unit std_env" where
  "sample_api_env = json_env (\<lambda>s. ''invalid JSON'') sample_env"

definition sample_order :: "users \<Rightarrow> string list" where
  "sample_order us = map itoa [1..us_next us]"

definition sample_api_mux :: api_mux where
  "sample_api_mux = (case std_main sample_api_env ''stack'' 1000000 sample_order of Ret mx \<Rightarrow> mx)"

lemma sample_api_mux: "std_main sample_api_env ''stack'' 1000000 sample_order = Ret sample_api_mux"
  using std_main_routes [of sample_api_env 1000000 sample_order "''stack''"] by (auto simp: sample_api_mux_def)


text \<open>C14: A user that was created can be fetched, from the bytes of a request to the bytes of its answer: for
  every name, on every state of the API, the answer to the create carries an identifier under which
  a later request gets the same JSON back.\<close>

theorem created_user_can_be_fetched:
  assumes "std_main (json_env wording env) stack cap ranged = Ret mx" and "utf8_valid name" and "name \<noteq> []"
  shows "\<exists>i a'. serve_request (serve_mux mx) ''POST'' ''/api/users'' (create_request name)
        [(''Content-Type'', ''application/json'')] a = (Ret (json_answer (user_json \<lparr>us_id = i, us_name = name\<rparr>)), a') \<and>
      serve_request (serve_mux mx) ''GET'' (''/api/users/'' @ i) [] [] a' =
        (Ret (json_answer (user_json \<lparr>us_id = i, us_name = name\<rparr>)), a')"
proof -
  let ?n = "us_next (api_users a) + 1"
  let ?u = "\<lparr>us_id = itoa ?n, us_name = name\<rparr>"
  let ?a = "a\<lparr>api_users := put_user ?u ((api_users a)\<lparr>us_next := ?n\<rparr>)\<rparr>"
  obtain hs hu hg hc hp hw where hg: "adapt (json_env wording env) None get_user_req [VString []] user_resp handle_get = Inr hg"
    and hc: "adapt (json_env wording env) None create_user_req [VString []] user_resp handle_create = Inr hc"
    and mx: "mx = \<lparr>mx_kind = PatternMux, mx_routes =
       [RegPattern ''/'' not_found_handler,
        RegPattern ''GET /api/health'' (hs ! 0), RegPattern ''GET /api/sha'' (hs ! 1),
        RegPattern ''GET /api/version'' (hs ! 2), RegPattern ''POST /api/ping'' (hs ! 3),
        RegPattern ''GET /api/users'' (serve_route (api_group stack) hu []),
        RegPattern ''GET /api/users/{id}'' (serve_route (api_group stack) hg []),
        RegPattern ''POST /api/users'' (serve_route (api_group stack) hc []),
        RegPattern ''PUT /api/users/{id}'' (serve_route (api_group stack) hp []),
        RegPattern ''POST /api/widgets/{id}'' (serve_route (api_group stack) hw [])]\<rparr>"
    using std_main_routes [of "json_env wording env" cap ranged stack] assms(1) by auto
  have id: "itoa ?n \<noteq> []" by (rule itoa_starts(2))
  have create_route: "find_route mx ''POST'' [''api'', ''users''] = Some ([], serve_route (api_group stack) hc [])"
    by (simp add: mx find_route_def best_match_def candidates_def map_filter_def reg_method_def reg_path_def
        reg_handler_def http_match)
  have get_route: "find_route mx ''GET'' [''api'', ''users'', itoa ?n] =
      Some ([(''id'', itoa ?n)], serve_route (api_group stack) hg [])"
    using id by (simp add: mx find_route_def best_match_def candidates_def map_filter_def reg_method_def reg_path_def
        reg_handler_def http_match)
  have created: "serve_request (serve_mux mx) ''POST'' ''/api/users'' (create_request name)
        [(''Content-Type'', ''application/json'')] a = (Ret (json_answer (user_json ?u)), ?a)"
    using create_answer [OF hc assms(2,3) refl, where a = a and stack = stack and target = "''/api/users''"] create_route
    by (auto simp: serve_request_def serve_mux_def Let_def cut_before_def new_request_def)
  have stored: "us_store (api_users ?a) (itoa ?n) = Some ?u" by (simp add: put_user_def)
  have "cut_before CHR ''?'' (''/api/users/'' @ itoa ?n) = ''/api/users/'' @ itoa ?n"
    using itoa_plain(3) [of ?n] unfolding cut_before_def by (subst takeWhile_eq_all_conv) auto
  moreover have "split_on CHR ''/'' (tl (''/api/users/'' @ itoa ?n)) = [''api'', ''users'', itoa ?n]"
    using split_on_plain [OF itoa_plain(2) [of ?n]] by simp
  ultimately have "serve_request (serve_mux mx) ''GET'' (''/api/users/'' @ itoa ?n) [] [] ?a =
      (Ret (json_answer (user_json ?u)), ?a)"
    using get_answer [OF hg stored id, where stack = stack and target = "''/api/users/'' @ itoa ?n"] get_route itoa_plain(1) [of ?n]
    by (auto simp: serve_request_def serve_mux_def Let_def new_request_def percent_decode_plain)
  with created show ?thesis by blast
qed

lemma created_user_can_be_fetched_witness:
  "\<exists>i a'. serve_request (serve_mux sample_api_mux) ''POST'' ''/api/users'' (create_request ''ann'')
        [(''Content-Type'', ''application/json'')] new_api = (Ret (json_answer (user_json \<lparr>us_id = i, us_name = ''ann''\<rparr>)), a') \<and>
      serve_request (serve_mux sample_api_mux) ''GET'' (''/api/users/'' @ i) [] [] a' =
        (Ret (json_answer (user_json \<lparr>us_id = i, us_name = ''ann''\<rparr>)), a')"
  by (rule created_user_can_be_fetched [OF sample_api_mux [unfolded sample_api_env_def]])
    (simp_all add: utf8_valid_ascii byte_def)

section \<open>Validation and the list limit\<close>

text \<open>The rules of a widget, and one reason for each that is broken.\<close>

definition widget_rules :: "widget \<Rightarrow> bool list" where
  "widget_rules w =
     [0 < wg_id w, 1 \<le> wg_qty w \<and> wg_qty w \<le> 100, trim_space (wg_name w) \<noteq> [] \<and> length (wg_name w) \<le> 50,
      wg_color w \<in> allowed_colors]"

lemma validate_widget_complete:
  shows "length (validate_widget w) = length (filter Not (widget_rules w))"
    and "validate_widget w = [] \<longleftrightarrow> list_all id (widget_rules w)"
  by (auto simp: validate_widget_def widget_rules_def Let_def)

text \<open>The bound on a name is on its bytes: 26 two-byte letters are too long for 50 characters.\<close>

theorem name_limit_counts_bytes:
  "length (runes (concat (replicate 26 [CHR 0xC3, CHR 0xA9]))) = 26 \<and>
   invalid_reason ''body'' ''name'' ''must be at most 50 characters'' \<in>
     set (validate_widget \<lparr>wg_id = 1, wg_name = concat (replicate 26 [CHR 0xC3, CHR 0xA9]), wg_color = ''red'', wg_qty = 1\<rparr>)"
proof -
  have trim: "trim_space (concat (replicate 26 [CHR 0xC3, CHR 0xA9])) \<noteq> []" by code_simp
  show ?thesis
    using trim by (simp add: validate_widget_def Let_def numeral_eq_Suc decode_rune_def byte_def is_cont_def)
qed

text \<open>
  A limit from the query string sizes an allocation: one beyond what \<open>make\<close> accepts panics,
  whatever the store holds, and \<open>Recoverer\<close> turns that into a 500.
\<close>

theorem huge_limits_panic:
  assumes "0 < n" and "max_cap < n"
  shows "\<exists>p. handle_list max_cap ranged ctx [VInt n, VString cursor] s = (Panic p, s) \<and> \<not> is_abort_handler p"
  using assms by (simp add: handle_list_def int_field_def is_abort_handler_def)

lemma huge_limits_panic_witness:
  "\<exists>p. handle_list 1000 sample_order background [VInt 5000, VString []] \<lparr>w_default = [], w_log = [], w_app = new_api\<rparr> =
     (Panic p, \<lparr>w_default = [], w_log = [], w_app = new_api\<rparr>) \<and> \<not> is_abort_handler p"
  by (rule huge_limits_panic) simp_all

end
