(* ===== verification/HttpCoercers.thy ===== *)
theory HttpCoercers
  imports HttpRouter
begin

text \<open>
  The two opt-in coercers: package cher (\<open>http/cher/cher.go\<close>) and the one for the errors of
  the samber library, the package beside it. Both are interpretations of the interface
  \<open>http_coercer\<close> that the router relies on. The status table of cher and its constant for an
  unknown error belong to that library and are parameters.
\<close>

section \<open>Package cher\<close>

definition convert_meta :: "meta \<Rightarrow> meta" where
  "convert_meta m = (if m = [] then [] else maps_copy [] m)"

fun convert_reason :: "cher_e \<Rightarrow> reason" where
  "convert_reason (CherE code m rs) = Reason code (convert_meta m) (map convert_reason rs)"

definition convert_reasons :: "cher_e list \<Rightarrow> reason list" where
  "convert_reasons es = map convert_reason es"

definition coerce_cher :: "(string \<Rightarrow> int) \<Rightarrow> string \<Rightarrow> go_error \<Rightarrow> cher_e \<Rightarrow> go_error req_error" where
  "coerce_cher status unknown err c =
     (let trimmed = trim_space (cher_code c);
          code = (if trimmed = '''' then unknown else trimmed);
          out = with_status (http_wrap err code (convert_meta (cher_meta c)) []) (status code);
          reasons = convert_reasons (cher_reasons c)
      in if reasons \<noteq> [] then with_reasons out reasons else out)"

definition cher_coerce :: "(string \<Rightarrow> int) \<Rightarrow> string \<Rightarrow> go_error option \<Rightarrow> go_error req_error option" where
  "cher_coerce status unknown err =
     (case err of
        None \<Rightarrow> None
      | Some e \<Rightarrow>
          (case errors_as the_req e of
             Some r \<Rightarrow> Some r
           | None \<Rightarrow>
               (case errors_as the_cher e of
                  Some c \<Rightarrow> Some (coerce_cher status unknown e c)
                | None \<Rightarrow> Some (http_wrap e ''unknown'' [] []))))"

interpretation cher: http_coercer "cher_coerce status unknown" for status unknown
  by unfold_locales (auto simp: cher_coerce_def split: option.splits)

section \<open>The samber coercer\<close>

definition the_samber :: "go_error \<Rightarrow> (samber_fields \<times> string \<times> go_error unwrapping) option" where
  "the_samber e = (case e of ESamber f t u \<Rightarrow> Some (f, t, u) | _ \<Rightarrow> None)"

text \<open>\<open>fmt.Sprintf("%v", c)\<close>.\<close>

fun sprint_v :: "gval \<Rightarrow> string" where
  "sprint_v GNil = ''<nil>''"
| "sprint_v (GBool b) = (if b then ''true'' else ''false'')"
| "sprint_v (GInt i) = itoa i"
| "sprint_v (GStr s) = s"
| "sprint_v (GStrs ss) = ''['' @ str_join '' '' ss @ '']''"
| "sprint_v (GMap m) = ''map['' @ str_join '' '' (sort (map (\<lambda>(k, v). k @ '':'' @ sprint_v v) m)) @ '']''"
| "sprint_v (GOpaque t) = t"

definition normalise_code :: "gval \<Rightarrow> string" where
  "normalise_code c = (if c = GNil then '''' else trim_space (sprint_v c))"

text \<open>
  \<open>strings.ToLower\<close> on UTF-8 bytes as far as ASCII output goes: besides the ASCII letters two
  runes lower to an ASCII letter, the Kelvin sign to k and the dotted capital I to i. Every other rune
  stays outside ASCII, where the next step drops it.
\<close>

fun to_lower :: "string \<Rightarrow> string" where
  "to_lower (c # d # e # s) =
     (if c = CHR 0xE2 \<and> d = CHR 0x84 \<and> e = CHR 0xAA then CHR ''k'' # to_lower s
      else if c = CHR 0xC4 \<and> d = CHR 0xB0 then CHR ''i'' # to_lower (e # s)
      else lower_char c # to_lower (d # e # s))"
| "to_lower [c, d] =
     (if c = CHR 0xC4 \<and> d = CHR 0xB0 then [CHR ''i''] else [lower_char c, lower_char d])"
| "to_lower [c] = [lower_char c]"
| "to_lower [] = []"

definition code_char :: "char \<Rightarrow> bool" where
  "code_char c \<longleftrightarrow> is_lower c \<or> is_digit c \<or> c = CHR ''_''"

fun collapse :: "string \<Rightarrow> string" where
  "collapse (c # d # s) = (if c = CHR ''_'' \<and> d = CHR ''_'' then collapse (d # s) else c # collapse (d # s))"
| "collapse s = s"

text \<open>The pattern \<open>^_|_$\<close> replaced by nothing: one underscore off either end.\<close>

definition trim_ends :: "string \<Rightarrow> string" where
  "trim_ends s =
     (let s1 = (if s \<noteq> [] \<and> hd s = CHR ''_'' then tl s else s)
      in if s1 \<noteq> [] \<and> last s1 = CHR ''_'' then butlast s1 else s1)"

definition code_from_message :: "string \<Rightarrow> string" where
  "code_from_message msg =
     (let s = to_lower (trim_space msg);
          s = map (\<lambda>c. if c = CHR '' '' then CHR ''_'' else c) s;
          s = filter code_char s
      in trim_ends (collapse s))"

definition coerce_samber :: "go_error \<Rightarrow> samber_fields \<times> string \<times> go_error unwrapping \<Rightarrow>
    go_error req_error" where
  "coerce_samber err o_err =
     (case o_err of (f, t, u) \<Rightarrow>
        (let code = normalise_code (sb_code f);
             code = (if code = '''' then
                       (case unwrap_one (ESamber f t u) of
                          Some e \<Rightarrow> code_from_message (err_text e) | None \<Rightarrow> code)
                     else code);
             code = (if code = '''' then ''unknown'' else code);
             m = maps_copy [(''error'', GStr t)] (sb_context f);
             m = (if sb_public f \<noteq> '''' then map_put ''public'' (GStr (sb_public f)) m else m)
         in http_wrap err code m []))"

definition server_error :: "go_error \<Rightarrow> go_error req_error" where
  "server_error err =
     (case errors_as the_samber err of
        Some o_err \<Rightarrow> coerce_samber err o_err
      | None \<Rightarrow>
          (case unwrap_one err of
             Some u \<Rightarrow>
               (let code = code_from_message (err_text u)
                in http_wrap err (if code = '''' then ''unknown'' else code) [] [])
           | None \<Rightarrow> http_wrap err ''unknown'' [] []))"

definition samber_coerce :: "go_error option \<Rightarrow> go_error req_error option" where
  "samber_coerce err =
     (case err of
        None \<Rightarrow> None
      | Some e \<Rightarrow>
          (case errors_as the_req e of
             Some r \<Rightarrow> Some r
           | None \<Rightarrow> Some (with_status (server_error e) 500)))"

interpretation samber: http_coercer samber_coerce
  by unfold_locales (auto simp: samber_coerce_def split: option.splits)

section \<open>Derived codes\<close>

definition double_free :: "string \<Rightarrow> bool" where
  "double_free s \<longleftrightarrow> (\<forall>i. Suc i < length s \<longrightarrow> \<not> (s ! i = CHR ''_'' \<and> s ! Suc i = CHR ''_''))"

definition ident_code :: "string \<Rightarrow> bool" where
  "ident_code s \<longleftrightarrow> (\<forall>c \<in> set s. code_char c) \<and>
     (s \<noteq> [] \<longrightarrow> hd s \<noteq> CHR ''_'' \<and> last s \<noteq> CHR ''_'') \<and>
     successively (\<lambda>a b. \<not> (a = CHR ''_'' \<and> b = CHR ''_'')) s"

lemma set_collapse: "set (collapse s) \<subseteq> set s"
  by (induction s rule: collapse.induct) auto

lemma collapse_hd: "s \<noteq> [] \<Longrightarrow> collapse s \<noteq> [] \<and> hd (collapse s) = hd s"
  by (induction s rule: collapse.induct) auto

lemma collapse_successively: "successively (\<lambda>a b. \<not> (a = CHR ''_'' \<and> b = CHR ''_'')) (collapse s)"
proof (induction s rule: collapse.induct)
  case (1 c d s)
  with collapse_hd [of "d # s"] show ?case
    by (auto simp: successively_Cons)
qed auto

lemma collapse_id: "successively (\<lambda>a b. \<not> (a = CHR ''_'' \<and> b = CHR ''_'')) s \<Longrightarrow> collapse s = s"
  by (induction s rule: collapse.induct) auto

lemma trim_ends_ident:
  assumes "\<forall>c \<in> set s. code_char c" and "successively (\<lambda>a b. \<not> (a = CHR ''_'' \<and> b = CHR ''_'')) s"
  shows "ident_code (trim_ends s)"
proof -
  define t where "t = (if s \<noteq> [] \<and> hd s = CHR ''_'' then tl s else s)"
  have t: "\<forall>c \<in> set t. code_char c" "successively (\<lambda>a b. \<not> (a = CHR ''_'' \<and> b = CHR ''_'')) t"
    "t \<noteq> [] \<longrightarrow> hd t \<noteq> CHR ''_''"
    using assms by (cases s; auto simp: t_def successively_Cons)+
  show ?thesis
  proof (cases "t \<noteq> [] \<and> last t = CHR ''_''")
    case True
    then obtain u where u: "t = u @ [CHR ''_'']" by (metis append_butlast_last_id)
    with t(2) have "successively (\<lambda>a b. \<not> (a = CHR ''_'' \<and> b = CHR ''_'')) u"
      "u \<noteq> [] \<longrightarrow> last u \<noteq> CHR ''_''"
      by (auto simp: successively_append_iff)
    with t(1,3) u have "ident_code u"
      unfolding ident_code_def by (cases u) auto
    moreover have "trim_ends s = u" using True u by (simp add: trim_ends_def flip: t_def)
    ultimately show ?thesis by simp
  next
    case False
    then have "trim_ends s = t" by (auto simp: trim_ends_def simp flip: t_def)
    with False t show ?thesis by (auto simp: ident_code_def)
  qed
qed

lemma code_from_message_ident: "ident_code (code_from_message msg)"
  unfolding code_from_message_def Let_def
  using set_collapse by (intro trim_ends_ident collapse_successively) fastforce

lemma trim_space_code_chars:
  assumes "\<forall>c \<in> set s. code_char c"
  shows "trim_space s = s"
proof -
  have stuck: "strip_front ps t = t"
    if "\<forall>p \<in> set ps. p = [] \<or> \<not> code_char (hd p)" and "\<forall>c \<in> set t. code_char c" for ps t
  proof (rule strip_front_id)
    show "find (\<lambda>p. p \<noteq> [] \<and> prefix p t) ps = None"
      unfolding find_None_iff
    proof
      assume "\<exists>x. x \<in> set ps \<and> x \<noteq> [] \<and> prefix x t"
      then obtain x where "x \<in> set ps" "x \<noteq> []" "hd x \<in> set t"
        by (metis hd_in_set set_mono_prefix subsetD)
      with that show False by blast
    qed
  qed
  have "\<forall>p \<in> set space_encodings. p = [] \<or> \<not> code_char (hd p)"
    "\<forall>p \<in> set (map rev space_encodings). p = [] \<or> \<not> code_char (hd p)"
    by (simp_all add: space_encodings_def code_char_def is_lower_def is_digit_def)
  with assms show ?thesis by (simp add: trim_space_def stuck)
qed

lemma code_char_plain:
  assumes "code_char c"
  shows "c \<noteq> CHR 0xE2" "c \<noteq> CHR 0xC4" "lower_char c = c"
  using assms by (auto simp: code_char_def is_lower_def is_digit_def lower_char_def is_upper_def)

lemma to_lower_code_chars: "\<forall>c \<in> set s. code_char c \<Longrightarrow> to_lower s = s"
  by (induction s rule: to_lower.induct) (simp_all add: code_char_plain)

lemma code_from_message_id:
  assumes "ident_code s"
  shows "code_from_message s = s"
proof -
  from assms have cs: "\<forall>c \<in> set s. code_char c" by (simp add: ident_code_def)
  then have m: "map (\<lambda>c. if c = CHR '' '' then CHR ''_'' else c) s = s"
    by (intro map_idI) (auto simp: code_char_def is_lower_def is_digit_def)
  have f: "filter code_char s = s" using cs by (simp add: filter_id_conv)
  have "collapse s = s" using assms by (intro collapse_id) (simp add: ident_code_def)
  moreover have "trim_ends s = s" using assms by (auto simp: trim_ends_def ident_code_def Let_def)
  ultimately show ?thesis
    by (simp add: code_from_message_def trim_space_code_chars [OF cs] to_lower_code_chars [OF cs] m f
        Let_def)
qed

section \<open>Properties\<close>

text \<open>C39: A code derived from an error message is an identifier, made of lower-case letters, digits
  and single inner underscores, whatever bytes the message holds; and deriving a code from a code
  gives the code back.\<close>

theorem derived_codes_are_identifiers:
  "ident_code (code_from_message msg) \<and>
   code_from_message (code_from_message msg) = code_from_message msg"
  using code_from_message_ident code_from_message_id by blast

text \<open>An error nobody classified tells the client nothing: when its chain holds neither a
  \<open>*ReqError\<close> nor a cher error, the default coercer and cher's answer a 500 whose whole body is
  the code unknown, and the error stays reachable as the cause.\<close>

theorem unclassified_errors_leak_nothing:
  assumes "errors_as the_req err = None" and "errors_as the_cher err = None"
    and "coerce \<in> {default_coercer, cher_coerce status unknown}"
  shows "\<exists>r. coerce (Some err) = Some r \<and> status_code r = 500 \<and> req_causes r = [err] \<and>
    req_error_json r = Some (JObj [(''code'', JStr ''unknown'')])"
  using assms
  by (auto simp: cher_coerce_def default_coercer_def req_error_json_def http_wrap_def status_code_def)

theorem unclassified_errors_leak_nothing_witness:
  "\<exists>r. cher_coerce (\<lambda>_. 418) ''unknown'' (Some (ErrText ''dial tcp: password=secret'')) = Some r \<and>
     req_error_json r = Some (JObj [(''code'', JStr ''unknown'')])"
proof -
  have "errors_as the_req (ErrText ''dial tcp: password=secret'') = None"
    "errors_as the_cher (ErrText ''dial tcp: password=secret'') = None"
    by (auto intro!: errors_as_leaf simp: the_req_def the_cher_def)
  from unclassified_errors_leak_nothing [OF this, of "cher_coerce (\<lambda>_. 418) ''unknown''" "\<lambda>_. 418" "''unknown''"]
  show ?thesis by auto
qed

text \<open>A cher error anywhere on the chain is projected onto cher's own contract: its code (a blank
  one becomes the library's constant), the status cher's table gives that code, its metadata, and its
  tree of reasons with the shape it had.\<close>

theorem cher_projection_keeps_the_contract:
  assumes "errors_as the_req err = None" and "errors_as the_cher err = Some c"
    and "\<And>code. status code \<noteq> 0" and "distinct (map fst (cher_meta c))"
  shows "\<exists>r. cher_coerce status unknown (Some err) = Some r \<and> req_code r =
      (if trim_space (cher_code c) = '''' then unknown else trim_space (cher_code c)) \<and>
    status_code r = status (req_code r) \<and> map_of (req_meta r) = map_of (cher_meta c) \<and>
    req_reasons r = map convert_reason (cher_reasons c) \<and> req_causes r = [err]"
proof -
  have "map_of (convert_meta (cher_meta c)) = map_of (cher_meta c)"
    using assms(4) by (simp add: convert_meta_def map_of_maps_copy)
  with assms(1-3) show ?thesis
    by (auto simp: cher_coerce_def coerce_cher_def Let_def http_wrap_def status_code_def convert_reasons_def)
qed

theorem cher_projection_keeps_the_contract_witness:
  "\<exists>r. cher_coerce (\<lambda>code. if code = ''not_found'' then 404 else 400) ''unknown''
      (Some (Wrapped ''load'' [ECher (CherE ''not_found'' [] [CherE ''gone'' [] []]) ''not_found'' NoUnwrap])) = Some r \<and>
     req_code r = ''not_found'' \<and> status_code r = 404 \<and> req_reasons r = [Reason ''gone'' [] []]"
proof -
  let ?c = "CherE ''not_found'' [] [CherE ''gone'' [] []]"
  let ?e = "Wrapped ''load'' [ECher ?c ''not_found'' NoUnwrap]"
  have "errors_as the_req ?e = None" "errors_as the_cher ?e = Some ?c"
    by (simp_all add: errors_as_def chain.simps the_req_def the_cher_def)
  moreover have "trim_space ''not_found'' = ''not_found''"
    by (rule trim_space_code_chars) (simp add: code_char_def is_lower_def is_digit_def)
  moreover have "(if code = ''not_found'' then 404 else 400) \<noteq> (0::int)" for code by simp
  ultimately obtain r where "cher_coerce (\<lambda>code. if code = ''not_found'' then 404 else 400) ''unknown'' (Some ?e) = Some r"
    "req_code r = ''not_found''" "status_code r = (if req_code r = ''not_found'' then 404 else 400)"
    "req_reasons r = [Reason ''gone'' [] []]"
    using cher_projection_keeps_the_contract [of ?e ?c "\<lambda>code. if code = ''not_found'' then 404 else 400" "''unknown''"]
    by (auto simp: convert_meta_def)
  then show ?thesis by simp
qed

end
