(* ===== verification/ExampleChi.thy ===== *)
theory ExampleChi
  imports ExampleApi HttpCoercers
begin

text \<open>
  \<open>http/examples/chi/main.go\<close>: the API of \<open>ExampleApi\<close> on a go-chi router with the coercer
  for samber errors. The router of go-chi is not part of the repository: what the program gives it is
  recorded, the fallbacks and the registrations made through \<open>MethodFunc\<close>.
\<close>

record chi_mux =
  ch_not_found :: "(unit, api) std_handler"
  ch_not_allowed :: "(unit, api) std_handler"
  ch_mux :: api_mux

definition mount_api :: "unit std_env \<Rightarrow> int \<Rightarrow> (users \<Rightarrow> string list) \<Rightarrow> api_router \<Rightarrow> api_mux outcome \<Rightarrow> api_mux outcome" where
  "mount_api env max_cap ranged rg m =
     mount_widgets env rg
       (mount_users env max_cap ranged rg
         (mount_health env \<lparr>hl_commit = ''deadbeef'', hl_version = ''0.1.0''\<rparr> rg m))"

text \<open>\<open>main\<close> up to the listener.\<close>

definition chi_main :: "unit std_env \<Rightarrow> string \<Rightarrow> int \<Rightarrow> (users \<Rightarrow> string list) \<Rightarrow> chi_mux outcome" where
  "chi_main env stack max_cap ranged =
     (case new_router MethodMux [with_coercer (Some samber_coerce)] of
        Panic p \<Rightarrow> Panic p
      | Ret r0 \<Rightarrow>
          (let r = router_use r0 [recoverer stack];
               rg = router_group r ''/api''
           in case mount_api env max_cap ranged rg (Ret \<lparr>mx_kind = MethodMux, mx_routes = []\<rparr>) of
                Panic p \<Rightarrow> Panic p
              | Ret m \<Rightarrow> Ret \<lparr>ch_not_found = not_found_handler, ch_not_allowed = method_not_allowed_handler, ch_mux = m\<rparr>))"

section \<open>One API on either backend\<close>

definition routes_of :: "api_mux \<Rightarrow> (string \<times> string) list" where
  "routes_of m = map (\<lambda>g. (reg_method g, reg_path g)) (mx_routes m)"

text \<open>A mux that got the routes, or an answer to a build that panicked.\<close>

definition built_with :: "mux_kind \<Rightarrow> (string \<times> string) list \<Rightarrow> api_mux outcome \<Rightarrow> bool" where
  "built_with k rs r \<longleftrightarrow> (\<exists>m. r = Ret m \<and> mx_kind m = k \<and> routes_of m = rs)"

lemma built_with_step:
  assumes "built_with k rs m" and "k \<noteq> OtherMux" and "rt_parser rg = None"
    and "\<exists>hf. adapt env None t zero rt h = Inr hf" and "CHR '' '' \<notin> set verb"
  shows "built_with k (rs @ [(verb, rt_prefix rg @ path)]) (handle_on env rg verb path t zero rt h m)"
proof -
  have "cut_before CHR '' '' (verb @ CHR '' '' # rest) = verb" for rest
    using assms(5) by (induction verb) (auto simp: cut_before_def)
  with assms show ?thesis
    by (auto simp: built_with_def handle_on_def router_handle_def router_handle_func_def register_def routes_of_def
        reg_method_def reg_path_def)
qed

lemma api_adapts:
  "\<exists>hf. adapt env None (TPtr TEmpty) [] status_resp h1 = Inr hf"
  "\<exists>hf. adapt env None (TPtr TEmpty) [] empty_resp_type h2 = Inr hf"
  "\<exists>hf. adapt env None list_users_req [VInt 0, VString []] list_users_resp h3 = Inr hf"
  "\<exists>hf. adapt env None get_user_req [VString []] user_resp h4 = Inr hf"
  "\<exists>hf. adapt env None create_user_req [VString []] user_resp h5 = Inr hf"
  "\<exists>hf. adapt env None update_user_req [VString [], VString []] user_resp h6 = Inr hf"
  "\<exists>hf. adapt env None create_widget_req [VInt 0, VInt 0, VString [], VString []] widget_resp h7 = Inr hf"
  by (simp_all add: http_plan api_types)

definition api_routes :: "string \<Rightarrow> (string \<times> string) list" where
  "api_routes pre = [(''GET'', pre @ ''/health''), (''GET'', pre @ ''/sha''), (''GET'', pre @ ''/version''),
     (''POST'', pre @ ''/ping''), (''GET'', pre @ ''/users''), (''GET'', pre @ ''/users/{id}''), (''POST'', pre @ ''/users''),
     (''PUT'', pre @ ''/users/{id}''), (''POST'', pre @ ''/widgets/{id}'')]"

lemma mount_api_routes:
  assumes "built_with k rs m" and "k \<noteq> OtherMux" and "rt_parser rg = None"
  shows "built_with k (rs @ api_routes (rt_prefix rg)) (mount_api env max_cap ranged rg m)"
proof -
  note step = built_with_step [where rg = rg and env = env, OF _ assms(2,3)]
  have "built_with k (((((((((rs @ [(''GET'', rt_prefix rg @ ''/health'')]) @ [(''GET'', rt_prefix rg @ ''/sha'')]) @
        [(''GET'', rt_prefix rg @ ''/version'')]) @ [(''POST'', rt_prefix rg @ ''/ping'')]) @
        [(''GET'', rt_prefix rg @ ''/users'')]) @ [(''GET'', rt_prefix rg @ ''/users/{id}'')]) @
        [(''POST'', rt_prefix rg @ ''/users'')]) @ [(''PUT'', rt_prefix rg @ ''/users/{id}'')]) @
        [(''POST'', rt_prefix rg @ ''/widgets/{id}'')]) (mount_api env max_cap ranged rg m)"
    unfolding mount_api_def mount_widgets_def mount_users_def mount_health_def Let_def
    by (intro step api_adapts assms(1)) simp_all
  then show ?thesis by (simp add: api_routes_def)
qed

text \<open>The two programs offer the same routes: the std one has the fallback pattern besides, which
  chi has hooks for.\<close>

theorem backends_offer_the_same_routes:
  "\<exists>m c. std_main env stack max_cap ranged = Ret m \<and> chi_main env stack max_cap ranged = Ret c \<and>
     routes_of m = ([], ''/'') # routes_of (ch_mux c) \<and> routes_of (ch_mux c) = api_routes ''/api'' \<and>
     distinct (routes_of m)"
proof -
  let ?start = "\<lparr>mx_kind = PatternMux, mx_routes = [RegPattern ''/'' not_found_handler]\<rparr> :: api_mux"
  have s: "built_with PatternMux [([], ''/'')] (Ret ?start)"
    by (simp add: built_with_def routes_of_def reg_method_def reg_path_def)
  have c: "built_with MethodMux [] (Ret \<lparr>mx_kind = MethodMux, mx_routes = []\<rparr>)"
    by (simp add: built_with_def routes_of_def)
  have std: "std_main env stack max_cap ranged = mount_api env max_cap ranged (api_group stack) (Ret ?start)"
    by (simp add: std_main_def mount_api_def Let_def new_router_def router_group_def router_use_def api_group_def)
  have g: "rt_parser (api_group stack) = None" "rt_prefix (api_group stack) = ''/api''"
    by (simp_all add: api_group_def)
  from mount_api_routes [OF s _ g(1), of env max_cap ranged] obtain m where m: "std_main env stack max_cap ranged = Ret m"
      "routes_of m = ([], ''/'') # api_routes ''/api''"
    by (auto simp: std built_with_def g)
  let ?rg = "(api_group stack)\<lparr>rt_coercer := Some samber_coerce\<rparr>"
  have rg: "rt_parser ?rg = None" "rt_prefix ?rg = ''/api''" by (simp_all add: api_group_def)
  from mount_api_routes [OF c _ rg(1), of env max_cap ranged] obtain m' where m': "mount_api env max_cap ranged ?rg
      (Ret \<lparr>mx_kind = MethodMux, mx_routes = []\<rparr>) = Ret m'" "routes_of m' = api_routes ''/api''"
    by (auto simp: built_with_def rg)
  then have "chi_main env stack max_cap ranged =
      Ret \<lparr>ch_not_found = not_found_handler, ch_not_allowed = method_not_allowed_handler, ch_mux = m'\<rparr>"
    by (simp add: chi_main_def Let_def new_router_def with_coercer_def router_group_def router_use_def api_group_def)
  with m m' show ?thesis by (simp add: api_routes_def)
qed

end
