(* ===== verification/ExampleErrors.thy ===== *)
theory ExampleErrors
  imports HttpMux
begin

text \<open>
  \<open>http/examples/errorwriter\<close>: a service that hands its error responses to a writer of its own,
  so that the errors of its handlers and the binding failures of package http go out in one envelope.
  \<open>strings.ToLower\<close> is written out for ASCII strings; what it makes of the others, by the
  tables of package unicode, is the parameter \<open>unicode_lower\<close>.
\<close>

section \<open>The writer\<close>

definition the_api :: "go_error \<Rightarrow> api_error option" where
  "the_api e = (case e of EApi a \<Rightarrow> Some a | _ \<Rightarrow> None)"

text \<open>\<open>Status\<close> is not part of the JSON form, and an empty list of reasons is left out.\<close>

definition reason_field_json :: "string \<times> string \<Rightarrow> json" where
  "reason_field_json r = JObj [(''field'', JStr (fst r)), (''msg'', JStr (snd r))]"

definition api_error_json :: "api_error \<Rightarrow> json" where
  "api_error_json e =
     JObj ((''code'', JStr (ap_code e)) #
       (if ap_reasons e = [] then [] else [(''reasons'', JArr (map reason_field_json (ap_reasons e)))]))"

text \<open>\<open>writeJSON\<close> of the program: the status first, and the error of \<open>Encode\<close> is dropped.\<close>

definition write_api_json :: "int \<Rightarrow> api_error \<Rightarrow> response \<Rightarrow> unit outcome \<times> response" where
  "write_api_json status e w =
     (case write_header status (header_set content_type ''application/json'' w) of
        (Panic p, w') \<Rightarrow> (Panic p, w')
      | (Ret _, w') \<Rightarrow> (Ret (), write_body (ChunkJson (api_error_json e)) w'))"

definition meta_str :: "meta \<Rightarrow> string \<Rightarrow> string" where
  "meta_str m k = (case map_of m k of Some (GStr t) \<Rightarrow> t | _ \<Rightarrow> [])"

definition flat_reason :: "reason \<Rightarrow> string \<times> string" where
  "flat_reason r =
     (let msg = meta_str (rs_meta r) ''error''
      in (meta_str (rs_meta r) ''field'', if msg = [] then rs_code r else msg))"

definition write_error :: "('c, 'w) error_writer" where
  "write_error req err s =
     (case errors_as the_api err of
        Some apiErr \<Rightarrow> on_rw (write_api_json (ap_status apiErr) apiErr) s
      | None \<Rightarrow>
          (case errors_as the_req err of
             Some reqErr \<Rightarrow>
               (let out = ApiError (req_code reqErr) (status_code reqErr) (map flat_reason (req_reasons reqErr))
                in on_rw (write_api_json (ap_status out) out) s)
           | None \<Rightarrow> on_rw (write_api_json 500 (ApiError ''internal'' 0 [])) s))"

section \<open>The handler\<close>

definition get_team_req :: go_type where
  "get_team_req = TPtr (TStruct ''GetTeamReq''
     [Field ''Slug'' True TString [(''path'', ''slug'')],
      Field ''Size'' True (TInt ''int'' 64) [(''query'', ''size'')]])"

record team =
  tm_slug :: string
  tm_name :: string

definition team_json :: "team \<Rightarrow> json" where
  "team_json t = JObj [(''slug'', JStr (tm_slug t)), (''name'', JStr (tm_name t))]"

definition team_resp :: "team resp_type" where
  "team_resp = \<lparr>rs_empty = False, rs_status_coder = None, rs_encode = (\<lambda>t. Inr (team_json t))\<rparr>"

definition teams :: "string \<rightharpoonup> team" where
  "teams = [''platform'' \<mapsto> \<lparr>tm_slug = ''platform'', tm_name = ''Platform''\<rparr>]"

definition strings_to_lower :: "(string \<Rightarrow> string) \<Rightarrow> string \<Rightarrow> string" where
  "strings_to_lower unicode_lower s = (if list_all (\<lambda>c. byte c < 128) s then lower_ascii s else unicode_lower s)"

definition validate_slug :: "(string \<Rightarrow> string) \<Rightarrow> string \<Rightarrow> (string \<times> string) list" where
  "validate_slug unicode_lower slug =
     (let rs1 = (if list_ex (\<lambda>c. c = CHR '' '' \<or> c = CHR 0x09) slug
                 then [(''slug'', ''must not contain whitespace'')] else [])
      in rs1 @ (if slug \<noteq> strings_to_lower unicode_lower slug then [(''slug'', ''must be lowercase'')] else []))"

definition handle_get_team :: "(string \<Rightarrow> string) \<Rightarrow> ('c, 'w, unit, team) typed_handler" where
  "handle_get_team unicode_lower ctx req s =
     (let slug = (case req ! 0 of VString t \<Rightarrow> t | _ \<Rightarrow> []);
          reasons = validate_slug unicode_lower slug
      in if length reasons > 0 then (Ret (Inl (EApi (ApiError ''invalid_slug'' 422 reasons))), s)
         else case teams slug of
                None \<Rightarrow> (Ret (Inl (EApi (ApiError ''team_not_found'' 404 []))), s)
              | Some t \<Rightarrow> (Ret (Inr t), s))"

text \<open>\<open>main\<close>, up to the listener.\<close>

definition errorwriter_main :: "unit std_env \<Rightarrow> (string \<Rightarrow> string) \<Rightarrow> (unit, 'w) mux outcome" where
  "errorwriter_main env unicode_lower =
     (case new_router PatternMux [with_error_writer (Some write_error)] of
        Panic p \<Rightarrow> Panic p
      | Ret r \<Rightarrow>
          (case router_handle env r ''GET'' ''/teams/{slug}'' get_team_req [VString [], VInt 0] team_resp
                  (handle_get_team unicode_lower) [] \<lparr>mx_kind = PatternMux, mx_routes = []\<rparr> of
             (Panic p, mx) \<Rightarrow> Panic p
           | (Ret _, mx) \<Rightarrow> Ret mx))"

section \<open>What the service answers\<close>

definition api_answer :: "api_error \<Rightarrow> recorder" where
  "api_answer e = \<lparr>rec_code = ap_status e, rec_header = [(content_type, ''application/json'')],
     rec_body = encoder_text (api_error_json e)\<rparr>"

definition team_answer :: "team \<Rightarrow> recorder" where
  "team_answer t = \<lparr>rec_code = 200, rec_header = [(content_type, ''application/json'')],
     rec_body = encoder_text (team_json t)\<rparr>"

text \<open>The envelope that an error becomes.\<close>

definition envelope_of :: "go_error \<Rightarrow> api_error" where
  "envelope_of err =
     (case errors_as the_api err of
        Some a \<Rightarrow> a
      | None \<Rightarrow>
          (case errors_as the_req err of
             Some r \<Rightarrow> ApiError (req_code r) (status_code r) (map flat_reason (req_reasons r))
           | None \<Rightarrow> ApiError ''internal'' 500 []))"

lemma write_error_answers:
  assumes "200 \<le> ap_status (envelope_of err)" and "ap_status (envelope_of err) \<le> 999"
  shows "\<exists>s'. write_error req err (test_world app) = (Ret (), s') \<and> recorder_of (h_rw s') = api_answer (envelope_of err) \<and>
    w_app s' = app"
  using assms
  by (auto simp: write_error_def envelope_of_def api_answer_def api_error_json_def write_api_json_def http_serve Let_def
      split: option.splits)

section \<open>From request to answer\<close>

text \<open>The size of a query, when it is there, is an integer or the request is refused.\<close>

definition size_reasons :: "string \<Rightarrow> (string \<times> string) list" where
  "size_reasons sz =
     (if sz = [] then []
      else case parse_int sz of
             Inl e \<Rightarrow> [(''size'', num_error_text ''ParseInt'' sz e)]
           | Inr n \<Rightarrow> [])"

definition plain_query :: "string \<Rightarrow> bool" where
  "plain_query v \<longleftrightarrow> CHR ''&'' \<notin> set v \<and> CHR ''%'' \<notin> set v \<and> CHR ''+'' \<notin> set v \<and> CHR ''?'' \<notin> set v"

lemma map_plus_plain: "CHR ''+'' \<notin> set v \<Longrightarrow> map (\<lambda>c. if c = CHR ''+'' then CHR '' '' else c) v = v"
  by (rule map_idI) auto

lemma parse_size_query:
  assumes "plain_query v"
  shows "parse_query (''size='' @ v) = [(''size'', v)]"
  using assms split_on_plain [of "CHR ''&''" "''size='' @ v"]
  by (simp add: parse_query_def plain_query_def cut_before_def query_decode_def map_plus_plain percent_decode_plain
      percent_decode.simps del: split_on.simps)

definition team_router :: "(unit, 'w, unit) router" where
  "team_router = \<lparr>rt_coercer = Some default_coercer, rt_error_writer = Some write_error, rt_parser = None,
     rt_logger = None, rt_prefix = [], rt_middleware = []\<rparr>"

lemma team_route:
  assumes "errorwriter_main env lower = Ret mx"
  shows "\<exists>h. adapt env None get_team_req [VString [], VInt 0] team_resp (handle_get_team lower) = Inr h \<and>
    mx = \<lparr>mx_kind = PatternMux, mx_routes = [RegPattern ''GET /teams/{slug}'' (serve_route team_router h [])]\<rparr>"
  using assms by (auto simp: errorwriter_main_def new_router_def with_error_writer_def router_handle_def
      router_handle_func_def register_def team_router_def split: sum.splits)

definition team_plan :: "unit bind_plan" where
  "team_plan = empty_plan\<lparr>bd_paths := [\<lparr>pb_key = ''slug'', pb_idx = 0, pb_setter = set_string\<rparr>],
     bd_queries := [\<lparr>pb_key = ''size'', pb_idx = 1, pb_setter = set_int_field 64\<rparr>]\<rparr>"

lemma team_binds:
  assumes "slug \<noteq> []" and "rq_path_values r = [(''slug'', slug)]"
    and "rq_query r = (if sz = [] then [] else [(''size'', sz)])"
  shows "bind_request env zero_parser team_plan r [VString [], VInt 0] =
    (case size_reasons sz of
       [] \<Rightarrow> ([VString slug, VInt (if sz = [] then 0 else set_int 64 (projr (parse_int sz)))], None)
     | (f, t) # rs \<Rightarrow> ([VString slug, VInt 0],
         Some (EReq (with_reasons (http_new ''invalid_request'' [] []) [param_reason ''query'' ''size'' (ErrText t)]))))"
  using assms
  by (simp add: team_plan_def empty_plan_def bind_request_def bind_params.simps path_value_def query_get_def set_string_def
      set_int_field_def size_reasons_def get_value_def Let_def split: sum.splits)

lemma percent_decode_nonempty: "s \<noteq> [] \<Longrightarrow> percent_decode s \<noteq> []"
  by (cases s rule: percent_decode.cases) (auto simp: percent_decode.simps split: option.splits)

definition team_target :: "string \<Rightarrow> string \<Rightarrow> string" where
  "team_target seg sz = ''/teams/'' @ seg @ (if sz = [] then [] else ''?size='' @ sz)"

lemma team_target_path:
  assumes "CHR ''?'' \<notin> set seg" and "CHR ''/'' \<notin> set seg"
  shows "cut_before CHR ''?'' (team_target seg sz) = ''/teams/'' @ seg"
    and "split_on CHR ''/'' (tl (''/teams/'' @ seg)) = [''teams'', seg]"
    and "drop (Suc (length (''/teams/'' @ seg))) (team_target seg sz) = (if sz = [] then [] else ''size='' @ sz)"
proof -
  have "takeWhile (\<lambda>c. c \<noteq> CHR ''?'') (seg @ t) = seg @ takeWhile (\<lambda>c. c \<noteq> CHR ''?'') t" for t
    using assms(1) by (intro takeWhile_append2) auto
  then show "cut_before CHR ''?'' (team_target seg sz) = ''/teams/'' @ seg"
    by (simp add: cut_before_def team_target_def)
qed (use split_on_plain [OF assms(2)] in \<open>simp_all add: team_target_def\<close>)

lemma team_found:
  assumes "seg \<noteq> []"
  shows "find_route \<lparr>mx_kind = PatternMux, mx_routes = [RegPattern ''GET /teams/{slug}'' h]\<rparr> ''GET'' [''teams'', seg] =
    Some ([(''slug'', seg)], h)"
  using assms by (simp add: find_route_def best_match_def candidates_def map_filter_def reg_method_def reg_path_def
      reg_handler_def http_match)

definition team_reply :: "(string \<Rightarrow> string) \<Rightarrow> string \<Rightarrow> string \<Rightarrow> recorder" where
  "team_reply lower slug sz =
     (if size_reasons sz \<noteq> [] then api_answer (ApiError ''invalid_request'' 400 (size_reasons sz))
      else if validate_slug lower slug \<noteq> [] then api_answer (ApiError ''invalid_slug'' 422 (validate_slug lower slug))
      else case teams slug of
             None \<Rightarrow> api_answer (ApiError ''team_not_found'' 404 [])
           | Some t \<Rightarrow> team_answer t)"

lemma envelopes:
  "envelope_of (EApi a) = a"
  "req_causes r = [] \<Longrightarrow> envelope_of (EReq r) = ApiError (req_code r) (status_code r) (map flat_reason (req_reasons r))"
  by (simp_all add: envelope_of_def errors_as_def chain.simps the_api_def the_req_def)

lemma size_envelope:
  assumes "size_reasons sz = (f, t) # rs"
  shows "envelope_of (EReq (with_reasons (http_new ''invalid_request'' [] []) [param_reason ''query'' ''size'' (ErrText t)])) =
    ApiError ''invalid_request'' 400 (size_reasons sz)"
proof -
  from assms have "f = ''size''" "rs = []" "t \<noteq> []"
    by (auto simp: size_reasons_def num_error_text_def split: if_splits sum.splits)
  with assms show ?thesis
    by (simp add: envelopes flat_reason_def param_reason_def meta_str_def err_text_ErrText http_new_def status_code_def
        code_statuses.simps)
qed

lemma team_served:
  assumes "adapt env None get_team_req [VString [], VInt 0] team_resp (handle_get_team lower) = Inr h"
    and "slug \<noteq> []" and "rq_path_values r = [(''slug'', slug)]" and "rq_query r = (if sz = [] then [] else [(''size'', sz)])"
  shows "\<exists>s. serve_route team_router h [] r (test_world app) = (Ret (), s) \<and>
    recorder_of (h_rw s) = team_reply lower slug sz \<and> w_app s = app"
proof -
  have h: "h = (\<lambda>httpReq s.
      case bind_request env zero_parser team_plan httpReq [VString [], VInt 0] of
        (req, Some err) \<Rightarrow> (Ret (Some err), s)
      | (req, None) \<Rightarrow>
          (case on_world (handle_get_team lower (rq_ctx httpReq) req) s of
             (Panic x, s') \<Rightarrow> (Panic x, s')
           | (Ret (Inl err), s') \<Rightarrow> (Ret (Some err), s')
           | (Ret (Inr resp), s') \<Rightarrow> write_response team_resp resp s'))"
    using assms(1) by (simp add: http_plan get_team_req_def team_plan_def)
  have fails: "200 \<le> ap_status (envelope_of err) \<Longrightarrow> ap_status (envelope_of err) \<le> 999 \<Longrightarrow>
      h r (test_world app) = (Ret (Some err), test_world app) \<Longrightarrow> team_reply lower slug sz = api_answer (envelope_of err) \<Longrightarrow>
      ?thesis" for err
    using write_error_answers [where err = err and req = r and app = app]
    by (simp add: serve_route_def apply_middleware_def combine_chain_def enrich_def team_router_def)
  note bound = team_binds [OF assms(2-4)]
  show ?thesis
  proof (cases "size_reasons sz")
    case (Cons p rs)
    then obtain f t where p: "size_reasons sz = (f, t) # rs" by (cases p) auto
    show ?thesis
      by (rule fails [of "EReq (with_reasons (http_new ''invalid_request'' [] []) [param_reason ''query'' ''size'' (ErrText t)])"])
        (simp_all add: size_envelope [OF p], simp_all add: h bound p team_reply_def)
  next
    case bound_ok: Nil
    show ?thesis
    proof (cases "validate_slug lower slug")
      case (Cons p rs)
      show ?thesis
        by (rule fails [of "EApi (ApiError ''invalid_slug'' 422 (validate_slug lower slug))"])
          (simp_all add: envelopes h bound bound_ok Cons team_reply_def handle_get_team_def on_world_def test_world_def)
    next
      case Nil
      show ?thesis
      proof (cases "teams slug")
        case None
        show ?thesis
          by (rule fails [of "EApi (ApiError ''team_not_found'' 404 [])"])
            (simp_all add: envelopes h bound bound_ok Nil None team_reply_def handle_get_team_def on_world_def test_world_def)
      next
        case (Some t)
        then show ?thesis
          by (simp add: http_serve team_router_def h bound bound_ok Nil handle_get_team_def team_resp_def team_reply_def
              team_answer_def)
      qed
    qed
  qed
qed

section \<open>Properties\<close>


lemma errorwriter_starts: "\<exists>mx. errorwriter_main env lower = Ret mx"
  by (simp add: errorwriter_main_def new_router_def with_error_writer_def router_handle_def http_plan get_team_req_def)


text \<open>An error of the service is found on the chain of any other, a canonical error of package http
  included: it goes out verbatim, with its own status.\<close>

theorem own_errors_win:
  assumes "errors_as the_api err = Some a" and "200 \<le> ap_status a" and "ap_status a \<le> 999"
  shows "\<exists>s'. write_error req err (test_world app) = (Ret (), s') \<and> recorder_of (h_rw s') = api_answer a"
  using write_error_answers [where err = err and req = req and app = app] assms by (auto simp: envelope_of_def)

lemma own_errors_win_witness:
  "\<exists>s'. write_error (new_request ''GET'' ''/'' [] []) (EReq (http_new ''internal'' [] [EApi (ApiError ''gone'' 410 [])]))
      (test_world ()) = (Ret (), s') \<and> recorder_of (h_rw s') = api_answer (ApiError ''gone'' 410 [])"
  by (rule own_errors_win) (simp_all add: errors_as_def chain.simps the_api_def http_new_def)

end
