(* ===== verification/PgErrors.thy ===== *)
theory PgErrors
  imports GoErrors
begin

text \<open>
  Package pgxdb, \<open>db/pgxdb/errors.go\<close>: the constraint-class sentinels, the classification of
  driver errors under them and the predicates on violations. The SQLSTATE constants are those of the
  package pgerrcode, a parameter of every definition that compares a code.
\<close>

section \<open>Codes and sentinels\<close>

record pg_codes =
  pc_unique :: string
  pc_foreign_key :: string
  pc_check :: string
  pc_not_null :: string
  pc_exclusion :: string
  pc_serialization :: string
  pc_deadlock :: string

text \<open>The cases of one Go switch on constants are pairwise different, or it does not compile.\<close>

definition codes_distinct :: "pg_codes \<Rightarrow> bool" where
  "codes_distinct pc = distinct [pc_unique pc, pc_foreign_key pc, pc_check pc, pc_not_null pc,
     pc_exclusion pc, pc_serialization pc, pc_deadlock pc]"

definition err_unique_violation :: go_error where
  "err_unique_violation = Sentinel ''pgxdb.ErrUniqueViolation'' ''pgxdb: unique violation''"

definition err_foreign_key_violation :: go_error where
  "err_foreign_key_violation = Sentinel ''pgxdb.ErrForeignKeyViolation'' ''pgxdb: foreign key violation''"

definition err_check_violation :: go_error where
  "err_check_violation = Sentinel ''pgxdb.ErrCheckViolation'' ''pgxdb: check violation''"

definition err_not_null_violation :: go_error where
  "err_not_null_violation = Sentinel ''pgxdb.ErrNotNullViolation'' ''pgxdb: not null violation''"

definition err_exclusion_violation :: go_error where
  "err_exclusion_violation = Sentinel ''pgxdb.ErrExclusionViolation'' ''pgxdb: exclusion violation''"

definition err_serialization_failure :: go_error where
  "err_serialization_failure = Sentinel ''pgxdb.ErrSerializationFailure'' ''pgxdb: serialization failure''"

lemmas pg_sentinels = err_unique_violation_def err_foreign_key_violation_def err_check_violation_def
  err_not_null_violation_def err_exclusion_violation_def err_serialization_failure_def

definition sentinel_for :: "pg_codes \<Rightarrow> string \<Rightarrow> go_error option" where
  "sentinel_for pc code =
     (if code = pc_unique pc then Some err_unique_violation
      else if code = pc_foreign_key pc then Some err_foreign_key_violation
      else if code = pc_check pc then Some err_check_violation
      else if code = pc_not_null pc then Some err_not_null_violation
      else if code = pc_exclusion pc then Some err_exclusion_violation
      else if code = pc_serialization pc \<or> code = pc_deadlock pc then Some err_serialization_failure
      else None)"

section \<open>Classification\<close>

definition classify :: "pg_codes \<Rightarrow> go_error option \<Rightarrow> go_error option" where
  "classify pc err =
     (case err of
        None \<Rightarrow> None
      | Some e \<Rightarrow>
          (case errors_as the_pg e of
             None \<Rightarrow> Some e
           | Some p \<Rightarrow>
               (case sentinel_for pc (pg_code p) of
                  None \<Rightarrow> Some e
                | Some sentinel \<Rightarrow>
                    if errors_is e sentinel then Some e
                    else Some (Wrapped (err_text sentinel @ '': '' @ err_text e) [sentinel, e]))))"

definition constraint_name :: "go_error \<Rightarrow> string" where
  "constraint_name err = (case errors_as the_pg err of None \<Rightarrow> '''' | Some p \<Rightarrow> pg_constraint p)"

definition is_violation :: "go_error \<Rightarrow> string \<Rightarrow> string \<Rightarrow> bool" where
  "is_violation err code constraint =
     (case errors_as the_pg err of
        None \<Rightarrow> False
      | Some p \<Rightarrow> if pg_code p \<noteq> code then False else constraint = '''' \<or> pg_constraint p = constraint)"

definition is_unique_violation :: "pg_codes \<Rightarrow> go_error \<Rightarrow> string \<Rightarrow> bool" where
  "is_unique_violation pc err constraint = is_violation err (pc_unique pc) constraint"

definition is_exclusion_violation :: "pg_codes \<Rightarrow> go_error \<Rightarrow> string \<Rightarrow> bool" where
  "is_exclusion_violation pc err constraint = is_violation err (pc_exclusion pc) constraint"

definition is_serialization_failure :: "pg_codes \<Rightarrow> go_error \<Rightarrow> bool" where
  "is_serialization_failure pc err =
     (case errors_as the_pg err of
        None \<Rightarrow> False
      | Some p \<Rightarrow> pg_code p = pc_serialization pc \<or> pg_code p = pc_deadlock pc)"

section \<open>Facts\<close>

lemma sentinel_for_is_sentinel:
  assumes "sentinel_for pc code = Some z"
  shows "\<exists>n t. z = Sentinel n t"
  using assms by (auto simp: sentinel_for_def pg_sentinels split: if_splits)

lemma chain_Sentinel [simp]: "chain (Sentinel n t) = [Sentinel n t]"
  by (simp add: chain.simps [of "Sentinel n t"])

text \<open>Classification adds one node above the error and a leaf beside it; what \<open>errors.As\<close> finds
  is the same driver error.\<close>

lemma classify_disj:
  assumes "classify pc (Some e) = Some e'"
  shows "e' = e \<or> (\<exists>p z. errors_as the_pg e = Some p \<and> sentinel_for pc (pg_code p) = Some z \<and>
    \<not> errors_is e z \<and> e' = Wrapped (err_text z @ '': '' @ err_text e) [z, e])"
proof (cases "errors_as the_pg e")
  case None
  then have "classify pc (Some e) = Some e" by (simp add: classify_def)
  with assms show ?thesis by simp
next
  case (Some p)
  show ?thesis
  proof (cases "sentinel_for pc (pg_code p)")
    case None
    with Some have "classify pc (Some e) = Some e" by (simp add: classify_def)
    with assms show ?thesis by simp
  next
    case z: (Some z)
    with Some have "classify pc (Some e) =
        Some (if errors_is e z then e else Wrapped (err_text z @ '': '' @ err_text e) [z, e])"
      by (simp add: classify_def)
    with assms have "e' = (if errors_is e z then e else Wrapped (err_text z @ '': '' @ err_text e) [z, e])"
      by (simp only: option.inject)
    with Some z show ?thesis by (simp split: if_splits)
  qed
qed

lemmas classify_cases = classify_disj [THEN disjE]

lemma classify_Some: "\<exists>e'. classify pc (Some e) = Some e'"
  by (simp add: classify_def split: option.split)

lemma classify_None [simp]: "classify pc None = None"
  by (simp add: classify_def)

lemma classify_None_iff [simp]: "classify pc err = None \<longleftrightarrow> err = None"
  by (cases err) (auto simp: classify_def split: option.splits)

lemma errors_as_pg_sentinel_pair:
  "errors_as the_pg (Wrapped t [Sentinel n u, e]) = errors_as the_pg e"
  by (simp add: errors_as_def chain.simps [of "Wrapped t [Sentinel n u, e]"] the_pg_def)

lemma errors_as_pg_classify:
  assumes "classify pc (Some e) = Some e'"
  shows "errors_as the_pg e' = errors_as the_pg e"
  using assms
proof (rule classify_cases)
  assume "\<exists>p z. errors_as the_pg e = Some p \<and> sentinel_for pc (pg_code p) = Some z \<and>
    \<not> errors_is e z \<and> e' = Wrapped (err_text z @ '': '' @ err_text e) [z, e]"
  then show ?thesis by (auto simp: errors_as_pg_sentinel_pair dest: sentinel_for_is_sentinel)
qed simp

lemma errors_is_classify:
  assumes "classify pc (Some e) = Some e'" and "errors_is e target"
  shows "errors_is e' target"
  using assms(1)
proof (rule classify_cases)
  assume "\<exists>p z. errors_as the_pg e = Some p \<and> sentinel_for pc (pg_code p) = Some z \<and>
    \<not> errors_is e z \<and> e' = Wrapped (err_text z @ '': '' @ err_text e) [z, e]"
  then have "e \<in> set (unwrap e')" by auto
  then show ?thesis using assms(2) by (rule errors_is_child)
qed (use assms(2) in simp)

lemma errors_is_sentinel_for:
  assumes "classify pc (Some e) = Some e'" and "errors_as the_pg e = Some p"
    and "sentinel_for pc (pg_code p) = Some z"
  shows "errors_is e' z"
proof (cases "errors_is e z")
  case True
  then show ?thesis by (rule errors_is_classify [OF assms(1)])
next
  case False
  from sentinel_for_is_sentinel [OF assms(3)] obtain n t where z: "z = Sentinel n t" by blast
  show ?thesis
  proof (rule errors_is_child [of z])
    show "z \<in> set (unwrap e')" using assms False by (auto simp: classify_def)
    show "errors_is z z" by (rule errors_is_self) (simp add: z)
  qed
qed

lemma is_serialization_failure_classify:
  "classify pc (Some e) = Some e' \<Longrightarrow> is_serialization_failure pc e' = is_serialization_failure pc e"
  by (simp add: is_serialization_failure_def errors_as_pg_classify)

lemma sentinel_for_unique_iff:
  assumes "codes_distinct pc"
  shows "sentinel_for pc code = Some err_unique_violation \<longleftrightarrow> code = pc_unique pc"
    and "sentinel_for pc code = Some err_exclusion_violation \<longleftrightarrow> code = pc_exclusion pc"
    and "sentinel_for pc code = Some err_serialization_failure \<longleftrightarrow>
      code = pc_serialization pc \<or> code = pc_deadlock pc"
  using assms by (auto simp: sentinel_for_def pg_sentinels codes_distinct_def)

section \<open>Properties\<close>

text \<open>C35: Classification is a closure: it answers "which class" by \<open>errors.Is\<close> exactly for the
  errors whose first driver error has a code of that class, loses nothing (\<open>errors.As\<close> still finds
  the same driver error, so constraint name, the violation predicates and the decision to retry are
  unchanged, and every target the error matched it still matches), never wraps twice, and passes nil
  and unclassified errors through untouched.\<close>

theorem classification_is_a_closure:
  assumes "classify pc (Some e) = Some e'"
  shows "classify pc (Some e') = Some e' \<and>
    errors_as the_pg e' = errors_as the_pg e \<and>
    constraint_name e' = constraint_name e \<and>
    is_violation e' code con = is_violation e code con \<and>
    is_serialization_failure pc e' = is_serialization_failure pc e \<and>
    (errors_is e target \<longrightarrow> errors_is e' target) \<and>
    (case errors_as the_pg e of
       None \<Rightarrow> e' = e
     | Some p \<Rightarrow> (case sentinel_for pc (pg_code p) of None \<Rightarrow> e' = e | Some z \<Rightarrow> errors_is e' z))"
proof (intro conjI impI)
  note as = errors_as_pg_classify [OF assms]
  show "errors_as the_pg e' = errors_as the_pg e" by (rule as)
  show "classify pc (Some e') = Some e'"
    using errors_is_sentinel_for [OF assms] by (simp add: classify_def as split: option.split)
  show "constraint_name e' = constraint_name e" "is_violation e' code con = is_violation e code con"
    by (simp_all add: constraint_name_def is_violation_def as)
  show "is_serialization_failure pc e' = is_serialization_failure pc e"
    by (rule is_serialization_failure_classify [OF assms])
  show "case errors_as the_pg e of
       None \<Rightarrow> e' = e
     | Some p \<Rightarrow> (case sentinel_for pc (pg_code p) of None \<Rightarrow> e' = e | Some z \<Rightarrow> errors_is e' z)"
    using assms errors_is_sentinel_for [OF assms] by (auto simp: classify_def split: option.splits)
qed (rule errors_is_classify [OF assms])

definition sample_codes :: pg_codes where
  "sample_codes = \<lparr>pc_unique = ''23505'', pc_foreign_key = ''23503'', pc_check = ''23514'',
     pc_not_null = ''23502'', pc_exclusion = ''23P01'', pc_serialization = ''40001'', pc_deadlock = ''40P01''\<rparr>"

definition duplicate_email :: go_error where
  "duplicate_email = Wrapped ''insert user'' [EPg (PgError ''23505'' ''users_email_key'' ''duplicate'') NoUnwrap]"

lemma errors_as_duplicate_email:
  "errors_as the_pg duplicate_email = Some (PgError ''23505'' ''users_email_key'' ''duplicate'')"
  by (simp add: duplicate_email_def errors_as_def chain.simps the_pg_def)

theorem classification_is_a_closure_witness:
  "\<exists>e'. classify sample_codes (Some duplicate_email) = Some e' \<and> errors_is e' err_unique_violation \<and>
     is_violation e' ''23505'' ''users_email_key'' \<and> classify sample_codes (Some e') = Some e'"
proof -
  from classify_Some obtain e' where e: "classify sample_codes (Some duplicate_email) = Some e'" by blast
  have "is_violation duplicate_email ''23505'' ''users_email_key''"
    by (simp add: is_violation_def errors_as_duplicate_email)
  with classification_is_a_closure [OF e, of "''23505''" "''users_email_key''" err_unique_violation] e
  show ?thesis by (auto simp: errors_as_duplicate_email sentinel_for_def sample_codes_def)
qed

end
