(* ===== verification/PgTx.thy ===== *)
theory PgTx
  imports PgErrors GoWorld
begin

text \<open>
  Package pgxdb, \<open>db/pgxdb/pgxdb.go\<close> and \<open>context.go\<close>: the handle on a pool, the
  transaction runner with its deferred rollback, the retries of serializable transactions, the
  transaction on the context, and the scanners. The pool of pgx and its row collectors are parameters;
  what the transactions rely on in them is \<open>pool_contract\<close>. The runner is modelled for functions
  that return or panic: one that ends its goroutine by \<open>runtime.Goexit\<close> is outside the model.
\<close>

section \<open>The pool\<close>

datatype iso_level = ReadCommitted | RepeatableRead | Serializable

datatype access_mode = AnyAccess | ReadOnly

record tx_options =
  to_iso :: iso_level
  to_access :: access_mode

text \<open>A transaction is a handle; a querier is the pool or a transaction.\<close>

datatype querier = FromPool | FromTx nat

record ('c, 'w, 'r) pg_pool =
  po_begin :: "'c go_ctx_scheme \<Rightarrow> tx_options \<Rightarrow> 'w world \<Rightarrow> (go_error + nat) \<times> 'w world"
  po_commit :: "nat \<Rightarrow> 'c go_ctx_scheme \<Rightarrow> 'w world \<Rightarrow> go_error option \<times> 'w world"
  po_rollback :: "nat \<Rightarrow> 'c go_ctx_scheme \<Rightarrow> 'w world \<Rightarrow> go_error option \<times> 'w world"
  po_exec :: "querier \<Rightarrow> 'c go_ctx_scheme \<Rightarrow> string \<Rightarrow> gval list \<Rightarrow> 'w world \<Rightarrow> (go_error + string) \<times> 'w world"
  po_query :: "querier \<Rightarrow> 'c go_ctx_scheme \<Rightarrow> string \<Rightarrow> gval list \<Rightarrow> 'w world \<Rightarrow> (go_error + 'r) \<times> 'w world"
  po_query_row :: "querier \<Rightarrow> 'c go_ctx_scheme \<Rightarrow> string \<Rightarrow> gval list \<Rightarrow> 'w world \<Rightarrow> 'r \<times> 'w world"
  po_ping :: "'c go_ctx_scheme \<Rightarrow> 'w world \<Rightarrow> go_error option \<times> 'w world"
  po_close :: "'w world \<Rightarrow> 'w world"

record ('c, 'w, 'r) pg_db =
  db_pool :: "('c, 'w, 'r) pg_pool"
  db_logger :: "logger option"

definition db_log :: "('c, 'w, 'r) pg_db \<Rightarrow> 'w world \<Rightarrow> logger" where
  "db_log db s = logger_or_default (db_logger db) s"

definition db_close :: "('c, 'w, 'r) pg_db \<Rightarrow> 'w world \<Rightarrow> 'w world" where
  "db_close db s = po_close (db_pool db) s"

definition db_ping :: "('c, 'w, 'r) pg_db \<Rightarrow> 'c go_ctx_scheme \<Rightarrow> 'w world \<Rightarrow> go_error option \<times> 'w world" where
  "db_ping db ctx s = po_ping (db_pool db) ctx s"

text \<open>\<open>Std\<close>: \<open>stdlib.OpenDBFromPool\<close> and the \<open>Close\<close> of what it returns are
  parameters; the second component is the cleanup, which drops the error of \<open>Close\<close>.\<close>

definition db_std :: "(('c, 'w, 'r) pg_pool \<Rightarrow> 'w world \<Rightarrow> 'q \<times> 'w world) \<Rightarrow>
    ('q \<Rightarrow> 'w world \<Rightarrow> go_error option \<times> 'w world) \<Rightarrow> ('c, 'w, 'r) pg_db \<Rightarrow> 'w world \<Rightarrow>
    ('q \<times> ('w world \<Rightarrow> 'w world)) \<times> 'w world" where
  "db_std open_from_pool close_std db s =
     (case open_from_pool (db_pool db) s of
        (stdDB, s1) \<Rightarrow> ((stdDB, \<lambda>s. snd (close_std stdDB s)), s1))"

definition db_exec :: "('c, 'w, 'r) pg_db \<Rightarrow> 'c go_ctx_scheme \<Rightarrow> string \<Rightarrow> gval list \<Rightarrow> 'w world \<Rightarrow>
    (go_error + string) \<times> 'w world" where
  "db_exec db ctx query args s = po_exec (db_pool db) FromPool ctx query args s"

definition db_query :: "('c, 'w, 'r) pg_db \<Rightarrow> 'c go_ctx_scheme \<Rightarrow> string \<Rightarrow> gval list \<Rightarrow> 'w world \<Rightarrow>
    (go_error + 'r) \<times> 'w world" where
  "db_query db ctx query args s = po_query (db_pool db) FromPool ctx query args s"

definition db_query_row :: "('c, 'w, 'r) pg_db \<Rightarrow> 'c go_ctx_scheme \<Rightarrow> string \<Rightarrow> gval list \<Rightarrow> 'w world \<Rightarrow>
    'r \<times> 'w world" where
  "db_query_row db ctx query args s = po_query_row (db_pool db) FromPool ctx query args s"

section \<open>Opening the pool\<close>

text \<open>The execution mode is the one setting of pgx the package makes; \<open>'x\<close> is the rest.\<close>

datatype exec_mode = DescribeExec | OtherMode string

record 'x pg_config =
  cf_exec_mode :: exec_mode
  cf_rest :: 'x
  cf_logger :: "logger option"

type_synonym 'x pg_option = "'x pg_config \<Rightarrow> 'x pg_config"

definition pg_with_logger :: "logger option \<Rightarrow> 'x pg_option" where
  "pg_with_logger l cfg = cfg\<lparr>cf_logger := l\<rparr>"

definition pg_new :: "(string \<Rightarrow> go_error + exec_mode \<times> 'x) \<Rightarrow>
    ('x pg_config \<Rightarrow> 'w world \<Rightarrow> (go_error + ('c, 'w, 'r) pg_pool) \<times> 'w world) \<Rightarrow>
    'c go_ctx_scheme \<Rightarrow> string \<Rightarrow> 'x pg_option list \<Rightarrow> 'w world \<Rightarrow>
    (go_error + ('c, 'w, 'r) pg_db) \<times> 'w world" where
  "pg_new parse_config new_with_config ctx url opts s =
     (case parse_config url of
        Inl err \<Rightarrow> (Inl err, s)
      | Inr (mode, rest) \<Rightarrow>
          (let cfg = fold (\<lambda>opt cfg. opt cfg) opts
                 \<lparr>cf_exec_mode = DescribeExec, cf_rest = rest, cf_logger = None\<rparr>
           in case new_with_config cfg s of
                (Inl err, s1) \<Rightarrow> (Inl err, s1)
              | (Inr pool, s1) \<Rightarrow>
                  (case po_ping pool ctx s1 of
                     (Some err, s2) \<Rightarrow> (Inl err, po_close pool s2)
                   | (None, s2) \<Rightarrow> (Inr \<lparr>db_pool = pool, db_logger = cf_logger cfg\<rparr>, s2))))"

section \<open>Transactions\<close>

type_synonym 'w tx_body = "nat \<Rightarrow> 'w world \<Rightarrow> go_error option outcome \<times> 'w world"

text \<open>
  \<open>BeginTx\<close>, the function, and \<open>Commit\<close>, whose error is classified; the deferred call
  rolls back after a panic and after any error, that of the commit included, and drops what
  \<open>Rollback\<close> returns.
\<close>

definition pg_tx :: "pg_codes \<Rightarrow> ('c, 'w, 'r) pg_db \<Rightarrow> 'c go_ctx_scheme \<Rightarrow> tx_options \<Rightarrow> 'w tx_body \<Rightarrow>
    'w world \<Rightarrow> go_error option outcome \<times> 'w world" where
  "pg_tx pc db ctx opts f s =
     (let pool = db_pool db
      in case po_begin pool ctx opts s of
           (Inl err, s1) \<Rightarrow> (Ret (Some err), s1)
         | (Inr t, s1) \<Rightarrow>
             (case f t s1 of
                (Panic p, s2) \<Rightarrow> (Panic p, snd (po_rollback pool t ctx s2))
              | (Ret (Some err), s2) \<Rightarrow> (Ret (Some err), snd (po_rollback pool t ctx s2))
              | (Ret None, s2) \<Rightarrow>
                  (case po_commit pool t ctx s2 of
                     (committed, s3) \<Rightarrow>
                       (case classify pc committed of
                          None \<Rightarrow> (Ret None, s3)
                        | Some err \<Rightarrow> (Ret (Some err), snd (po_rollback pool t ctx s3))))))"

definition max_serializable_tx_retries :: int where "max_serializable_tx_retries = 3"

text \<open>The loop over the attempts \<open>0, \<dots>, maxRetries\<close>; \<open>ctx_err\<close> is \<open>ctx.Err()\<close>.\<close>

fun serializable_loop :: "pg_codes \<Rightarrow> ('c, 'w, 'r) pg_db \<Rightarrow> ('c go_ctx_scheme \<Rightarrow> 'w world \<Rightarrow> go_error option) \<Rightarrow>
    'c go_ctx_scheme \<Rightarrow> int \<Rightarrow> ('w world \<Rightarrow> go_error option outcome \<times> 'w world) \<Rightarrow> int list \<Rightarrow>
    go_error option \<Rightarrow> 'w world \<Rightarrow> go_error option outcome \<times> 'w world" where
  "serializable_loop pc db ctx_err ctx maxRetries op1 [] err s = (Ret err, s)"
| "serializable_loop pc db ctx_err ctx maxRetries op1 (attempt # rest) _ s =
     (case op1 s of
        (Panic p, s1) \<Rightarrow> (Panic p, s1)
      | (Ret None, s1) \<Rightarrow> (Ret None, s1)
      | (Ret (Some err), s1) \<Rightarrow>
          if ctx_err ctx s1 \<noteq> None \<or> \<not> is_serialization_failure pc err then (Ret (Some err), s1)
          else if attempt = maxRetries then (Ret (Some err), s1)
          else serializable_loop pc db ctx_err ctx maxRetries op1 rest (Some err)
                 (log_to (db_log db s1) LevelWarn ''retrying serializable transaction''
                    [(''attempt'', itoa (attempt + 1)), (''error'', err_text err)] s1))"

definition retry_serializable :: "pg_codes \<Rightarrow> ('c, 'w, 'r) pg_db \<Rightarrow> ('c go_ctx_scheme \<Rightarrow> 'w world \<Rightarrow> go_error option) \<Rightarrow>
    'c go_ctx_scheme \<Rightarrow> int \<Rightarrow> ('w world \<Rightarrow> go_error option outcome \<times> 'w world) \<Rightarrow>
    'w world \<Rightarrow> go_error option outcome \<times> 'w world" where
  "retry_serializable pc db ctx_err ctx maxRetries op1 s =
     serializable_loop pc db ctx_err ctx maxRetries op1 [0..maxRetries] None s"

definition tx :: "pg_codes \<Rightarrow> ('c, 'w, 'r) pg_db \<Rightarrow> 'c go_ctx_scheme \<Rightarrow> 'w tx_body \<Rightarrow>
    'w world \<Rightarrow> go_error option outcome \<times> 'w world" where
  "tx pc db ctx f s = pg_tx pc db ctx \<lparr>to_iso = ReadCommitted, to_access = AnyAccess\<rparr> f s"

definition tx_read :: "pg_codes \<Rightarrow> ('c, 'w, 'r) pg_db \<Rightarrow> 'c go_ctx_scheme \<Rightarrow> 'w tx_body \<Rightarrow>
    'w world \<Rightarrow> go_error option outcome \<times> 'w world" where
  "tx_read pc db ctx f s = pg_tx pc db ctx \<lparr>to_iso = RepeatableRead, to_access = ReadOnly\<rparr> f s"

definition tx_serializable :: "pg_codes \<Rightarrow> ('c, 'w, 'r) pg_db \<Rightarrow> ('c go_ctx_scheme \<Rightarrow> 'w world \<Rightarrow> go_error option) \<Rightarrow>
    'c go_ctx_scheme \<Rightarrow> 'w tx_body \<Rightarrow> 'w world \<Rightarrow> go_error option outcome \<times> 'w world" where
  "tx_serializable pc db ctx_err ctx f s =
     retry_serializable pc db ctx_err ctx max_serializable_tx_retries
       (pg_tx pc db ctx \<lparr>to_iso = Serializable, to_access = AnyAccess\<rparr> f) s"

section \<open>The transaction on the context\<close>

type_synonym ('c, 'w) ctx_body = "'c go_ctx_scheme \<Rightarrow> 'w world \<Rightarrow> go_error option outcome \<times> 'w world"

definition context_with_tx :: "'c go_ctx_scheme \<Rightarrow> nat \<Rightarrow> 'c go_ctx_scheme" where
  "context_with_tx ctx t = ctx\<lparr>ctx_tx := Some t\<rparr>"

definition tx_from_context :: "'c go_ctx_scheme \<Rightarrow> nat option" where
  "tx_from_context ctx = ctx_tx ctx"

definition get_querier :: "'c go_ctx_scheme \<Rightarrow> querier \<Rightarrow> querier" where
  "get_querier ctx fallback = (case tx_from_context ctx of Some t \<Rightarrow> FromTx t | None \<Rightarrow> fallback)"

definition tx_ctx :: "pg_codes \<Rightarrow> ('c, 'w, 'r) pg_db \<Rightarrow> 'c go_ctx_scheme \<Rightarrow> ('c, 'w) ctx_body \<Rightarrow>
    'w world \<Rightarrow> go_error option outcome \<times> 'w world" where
  "tx_ctx pc db ctx f s =
     pg_tx pc db ctx \<lparr>to_iso = ReadCommitted, to_access = AnyAccess\<rparr> (\<lambda>t. f (context_with_tx ctx t)) s"

definition tx_read_ctx :: "pg_codes \<Rightarrow> ('c, 'w, 'r) pg_db \<Rightarrow> 'c go_ctx_scheme \<Rightarrow> ('c, 'w) ctx_body \<Rightarrow>
    'w world \<Rightarrow> go_error option outcome \<times> 'w world" where
  "tx_read_ctx pc db ctx f s =
     pg_tx pc db ctx \<lparr>to_iso = RepeatableRead, to_access = ReadOnly\<rparr> (\<lambda>t. f (context_with_tx ctx t)) s"

definition tx_serializable_ctx :: "pg_codes \<Rightarrow> ('c, 'w, 'r) pg_db \<Rightarrow> ('c go_ctx_scheme \<Rightarrow> 'w world \<Rightarrow> go_error option) \<Rightarrow>
    'c go_ctx_scheme \<Rightarrow> ('c, 'w) ctx_body \<Rightarrow> 'w world \<Rightarrow> go_error option outcome \<times> 'w world" where
  "tx_serializable_ctx pc db ctx_err ctx f s =
     retry_serializable pc db ctx_err ctx max_serializable_tx_retries
       (pg_tx pc db ctx \<lparr>to_iso = Serializable, to_access = AnyAccess\<rparr> (\<lambda>t. f (context_with_tx ctx t))) s"

section \<open>Scanning\<close>

text \<open>
  \<open>pgx.CollectOneRow\<close> and \<open>pgx.CollectRows\<close> are the parameters \<open>collect\<close>; the
  row mapper they get decides how columns become fields.
\<close>

datatype row_mapper = StructByName | StructByNameLax | SingleColumn

definition get_row :: "pg_codes \<Rightarrow> ('c, 'w, 'r) pg_pool \<Rightarrow>
    (row_mapper \<Rightarrow> 'r \<Rightarrow> 'w world \<Rightarrow> ('t \<times> go_error option) \<times> 'w world) \<Rightarrow> 't \<Rightarrow> 'c go_ctx_scheme \<Rightarrow>
    querier \<Rightarrow> row_mapper \<Rightarrow> string \<Rightarrow> gval list \<Rightarrow> 'w world \<Rightarrow> ('t \<times> go_error option) \<times> 'w world" where
  "get_row pc pool collect zero ctx q mapper query args s =
     (case po_query pool q ctx query args s of
        (Inl err, s1) \<Rightarrow> ((zero, classify pc (Some err)), s1)
      | (Inr rows, s1) \<Rightarrow>
          (case collect mapper rows s1 of ((v, err), s2) \<Rightarrow> ((v, classify pc err), s2)))"

definition pg_get :: "pg_codes \<Rightarrow> ('c, 'w, 'r) pg_pool \<Rightarrow>
    (row_mapper \<Rightarrow> 'r \<Rightarrow> 'w world \<Rightarrow> ('t \<times> go_error option) \<times> 'w world) \<Rightarrow> 't \<Rightarrow> 'c go_ctx_scheme \<Rightarrow>
    querier \<Rightarrow> string \<Rightarrow> gval list \<Rightarrow> 'w world \<Rightarrow> ('t \<times> go_error option) \<times> 'w world" where
  "pg_get pc pool collect zero ctx q = get_row pc pool collect zero ctx q StructByName"

definition pg_get_lax :: "pg_codes \<Rightarrow> ('c, 'w, 'r) pg_pool \<Rightarrow>
    (row_mapper \<Rightarrow> 'r \<Rightarrow> 'w world \<Rightarrow> ('t \<times> go_error option) \<times> 'w world) \<Rightarrow> 't \<Rightarrow> 'c go_ctx_scheme \<Rightarrow>
    querier \<Rightarrow> string \<Rightarrow> gval list \<Rightarrow> 'w world \<Rightarrow> ('t \<times> go_error option) \<times> 'w world" where
  "pg_get_lax pc pool collect zero ctx q = get_row pc pool collect zero ctx q StructByNameLax"

definition pg_scalar :: "pg_codes \<Rightarrow> ('c, 'w, 'r) pg_pool \<Rightarrow>
    (row_mapper \<Rightarrow> 'r \<Rightarrow> 'w world \<Rightarrow> ('t \<times> go_error option) \<times> 'w world) \<Rightarrow> 't \<Rightarrow> 'c go_ctx_scheme \<Rightarrow>
    querier \<Rightarrow> string \<Rightarrow> gval list \<Rightarrow> 'w world \<Rightarrow> ('t \<times> go_error option) \<times> 'w world" where
  "pg_scalar pc pool collect zero ctx q = get_row pc pool collect zero ctx q SingleColumn"

definition select_rows :: "pg_codes \<Rightarrow> ('c, 'w, 'r) pg_pool \<Rightarrow>
    (row_mapper \<Rightarrow> 'r \<Rightarrow> 'w world \<Rightarrow> ('t list \<times> go_error option) \<times> 'w world) \<Rightarrow> 'c go_ctx_scheme \<Rightarrow>
    querier \<Rightarrow> row_mapper \<Rightarrow> string \<Rightarrow> gval list \<Rightarrow> 'w world \<Rightarrow> ('t list \<times> go_error option) \<times> 'w world" where
  "select_rows pc pool collect ctx q mapper query args s =
     (case po_query pool q ctx query args s of
        (Inl err, s1) \<Rightarrow> (([], classify pc (Some err)), s1)
      | (Inr rows, s1) \<Rightarrow>
          (case collect mapper rows s1 of ((vs, err), s2) \<Rightarrow> ((vs, classify pc err), s2)))"

definition pg_select :: "pg_codes \<Rightarrow> ('c, 'w, 'r) pg_pool \<Rightarrow>
    (row_mapper \<Rightarrow> 'r \<Rightarrow> 'w world \<Rightarrow> ('t list \<times> go_error option) \<times> 'w world) \<Rightarrow> 'c go_ctx_scheme \<Rightarrow>
    querier \<Rightarrow> string \<Rightarrow> gval list \<Rightarrow> 'w world \<Rightarrow> ('t list \<times> go_error option) \<times> 'w world" where
  "pg_select pc pool collect ctx q = select_rows pc pool collect ctx q StructByName"

definition pg_select_lax :: "pg_codes \<Rightarrow> ('c, 'w, 'r) pg_pool \<Rightarrow>
    (row_mapper \<Rightarrow> 'r \<Rightarrow> 'w world \<Rightarrow> ('t list \<times> go_error option) \<times> 'w world) \<Rightarrow> 'c go_ctx_scheme \<Rightarrow>
    querier \<Rightarrow> string \<Rightarrow> gval list \<Rightarrow> 'w world \<Rightarrow> ('t list \<times> go_error option) \<times> 'w world" where
  "pg_select_lax pc pool collect ctx q = select_rows pc pool collect ctx q StructByNameLax"

section \<open>What the transactions rely on\<close>

text \<open>
  A view of the application's state: the committed data, what a transaction would commit, and the
  transactions that hold a connection.
\<close>

record ('w, 'd) db_view =
  dv_data :: "'w \<Rightarrow> 'd"
  dv_pending :: "nat \<Rightarrow> 'w \<Rightarrow> 'd"
  dv_open :: "'w \<Rightarrow> nat set"

text \<open>
  Documented behaviour of pgx and of PostgreSQL: \<open>BeginTx\<close> takes a connection for a new
  transaction, or fails and takes none; \<open>Commit\<close> that returns nil has made the transaction's
  data the committed data, and one that fails with an error the server sent has changed nothing (after
  any other failure of the commit, such as a lost connection, nothing is promised); \<open>Rollback\<close>
  changes nothing; each of the two releases the connection.
\<close>

definition pool_contract :: "('c, 'w, 'r) pg_pool \<Rightarrow> ('w, 'd) db_view \<Rightarrow> bool" where
  "pool_contract pool v \<longleftrightarrow>
     (\<forall>ctx opts s r s1. po_begin pool ctx opts s = (r, s1) \<longrightarrow>
        dv_data v (w_app s1) = dv_data v (w_app s) \<and>
        (case r of
           Inl err \<Rightarrow> dv_open v (w_app s1) = dv_open v (w_app s)
         | Inr t \<Rightarrow> t \<notin> dv_open v (w_app s) \<and> dv_open v (w_app s1) = insert t (dv_open v (w_app s)))) \<and>
     (\<forall>t ctx s r s1. po_commit pool t ctx s = (r, s1) \<longrightarrow> t \<in> dv_open v (w_app s) \<longrightarrow>
        dv_open v (w_app s1) = dv_open v (w_app s) - {t} \<and>
        (case r of
           None \<Rightarrow> dv_data v (w_app s1) = dv_pending v t (w_app s)
         | Some err \<Rightarrow> errors_as the_pg err \<noteq> None \<longrightarrow> dv_data v (w_app s1) = dv_data v (w_app s))) \<and>
     (\<forall>t ctx s. dv_data v (w_app (snd (po_rollback pool t ctx s))) = dv_data v (w_app s) \<and>
        dv_open v (w_app (snd (po_rollback pool t ctx s))) = dv_open v (w_app s) - {t})"

text \<open>The function works through its transaction: it commits nothing itself and leaves the open
  transactions as they are.\<close>

definition body_contract :: "'w tx_body \<Rightarrow> ('w, 'd) db_view \<Rightarrow> bool" where
  "body_contract f v \<longleftrightarrow>
     (\<forall>t s. dv_data v (w_app (snd (f t s))) = dv_data v (w_app s) \<and>
        dv_open v (w_app (snd (f t s))) = dv_open v (w_app s))"

text \<open>One transaction, begun from \<open>s\<close>, ran the function to nil and its data was committed.\<close>

definition applied :: "('c, 'w, 'r) pg_db \<Rightarrow> 'c go_ctx_scheme \<Rightarrow> tx_options \<Rightarrow> 'w tx_body \<Rightarrow> ('w, 'd) db_view \<Rightarrow>
    'w world \<Rightarrow> 'w world \<Rightarrow> bool" where
  "applied db ctx opts f v s s' \<longleftrightarrow>
     (\<exists>t s1 s2. po_begin (db_pool db) ctx opts s = (Inr t, s1) \<and> f t s1 = (Ret None, s2) \<and>
        dv_data v (w_app s') = dv_pending v t (w_app s2))"

text \<open>The commit itself failed, with an error that did not come from the server.\<close>

definition commit_in_doubt :: "('c, 'w, 'r) pg_db \<Rightarrow> 'c go_ctx_scheme \<Rightarrow> tx_options \<Rightarrow> 'w tx_body \<Rightarrow>
    'w world \<Rightarrow> bool" where
  "commit_in_doubt db ctx opts f s \<longleftrightarrow>
     (\<exists>t s1 s2 err s3. po_begin (db_pool db) ctx opts s = (Inr t, s1) \<and> f t s1 = (Ret None, s2) \<and>
        po_commit (db_pool db) t ctx s2 = (Some err, s3) \<and> errors_as the_pg err = None)"

section \<open>Facts\<close>

lemma pool_contractD:
  assumes "pool_contract pool v"
  shows "po_begin pool ctx opts s = (Inl err, s1) \<Longrightarrow>
      dv_data v (w_app s1) = dv_data v (w_app s) \<and> dv_open v (w_app s1) = dv_open v (w_app s)"
    and "po_begin pool ctx opts s = (Inr t, s1) \<Longrightarrow>
      dv_data v (w_app s1) = dv_data v (w_app s) \<and> t \<notin> dv_open v (w_app s) \<and>
      dv_open v (w_app s1) = insert t (dv_open v (w_app s))"
    and "po_commit pool t ctx s = (None, s1) \<Longrightarrow> t \<in> dv_open v (w_app s) \<Longrightarrow>
      dv_data v (w_app s1) = dv_pending v t (w_app s) \<and> dv_open v (w_app s1) = dv_open v (w_app s) - {t}"
    and "po_commit pool t ctx s = (Some err, s1) \<Longrightarrow> t \<in> dv_open v (w_app s) \<Longrightarrow>
      (errors_as the_pg err \<noteq> None \<longrightarrow> dv_data v (w_app s1) = dv_data v (w_app s)) \<and>
      dv_open v (w_app s1) = dv_open v (w_app s) - {t}"
    and "dv_data v (w_app (snd (po_rollback pool t ctx s))) = dv_data v (w_app s)"
    and "dv_open v (w_app (snd (po_rollback pool t ctx s))) = dv_open v (w_app s) - {t}"
  using assms unfolding pool_contract_def by fastforce+

lemma body_contractD:
  assumes "body_contract f v" and "f t s = (r, s1)"
  shows "dv_data v (w_app s1) = dv_data v (w_app s)" "dv_open v (w_app s1) = dv_open v (w_app s)"
  using assms unfolding body_contract_def by (metis snd_conv)+

text \<open>What one run of the transaction runner does to the database.\<close>

definition tx_outcome :: "('c, 'w, 'r) pg_db \<Rightarrow> 'c go_ctx_scheme \<Rightarrow> tx_options \<Rightarrow> 'w tx_body \<Rightarrow> ('w, 'd) db_view \<Rightarrow>
    'w world \<Rightarrow> go_error option outcome \<Rightarrow> 'w world \<Rightarrow> bool" where
  "tx_outcome db ctx opts f v s r s' \<longleftrightarrow>
     dv_open v (w_app s') = dv_open v (w_app s) \<and>
     (case r of
        Ret None \<Rightarrow> applied db ctx opts f v s s'
      | Ret (Some err) \<Rightarrow> dv_data v (w_app s') = dv_data v (w_app s) \<or>
          commit_in_doubt db ctx opts f s \<and> errors_as the_pg err = None
      | Panic p \<Rightarrow> dv_data v (w_app s') = dv_data v (w_app s))"

lemma pg_tx_outcome:
  assumes pool: "pool_contract (db_pool db) v" and body: "body_contract f v"
    and run: "pg_tx pc db ctx opts f s = (r, s')"
  shows "tx_outcome db ctx opts f v s r s'"
proof (cases "po_begin (db_pool db) ctx opts s")
  case (Pair begun s1)
  note c = pool_contractD [OF pool]
  show ?thesis
  proof (cases begun)
    case (Inl err)
    with run Pair c(1) show ?thesis by (auto simp: pg_tx_def tx_outcome_def)
  next
    case (Inr t)
    with Pair have started: "po_begin (db_pool db) ctx opts s = (Inr t, s1)" by simp
    note b = c(2) [OF started]
    obtain fr s2 where f: "f t s1 = (fr, s2)" by (cases "f t s1")
    note fc = body_contractD [OF body f]
    show ?thesis
    proof (cases "fr = Ret None")
      case False
      then have "s' = snd (po_rollback (db_pool db) t ctx s2)" "r = fr"
        using run by (auto simp: pg_tx_def started f Let_def split: outcome.splits option.splits)
      then show ?thesis using False b fc c(5,6)
        by (auto simp: tx_outcome_def split: outcome.split option.split)
    next
      case True
      obtain cr s3 where commit: "po_commit (db_pool db) t ctx s2 = (cr, s3)"
        by (cases "po_commit (db_pool db) t ctx s2")
      have t: "t \<in> dv_open v (w_app s2)" using b fc by simp
      show ?thesis
      proof (cases cr)
        case None
        with run have "r = Ret None" "s' = s3" by (simp_all add: pg_tx_def started f True commit Let_def)
        with c(3) [OF commit [unfolded None] t] b fc started f True show ?thesis
          by (auto simp: tx_outcome_def applied_def)
      next
        case (Some err)
        obtain err' where cl: "classify pc (Some err) = Some err'" using classify_Some by blast
        with run Some have r: "r = Ret (Some err')" "s' = snd (po_rollback (db_pool db) t ctx s3)"
          by (simp_all add: pg_tx_def started f True commit Let_def)
        have "commit_in_doubt db ctx opts f s" if "errors_as the_pg err = None"
          using started f True commit Some that by (auto simp: commit_in_doubt_def)
        with c(4) [OF commit [unfolded Some] t] b fc c(5,6) r errors_as_pg_classify [OF cl] show ?thesis
          by (auto simp: tx_outcome_def)
      qed
    qed
  qed
qed

text \<open>Retries: a run that the loop repeats changed nothing, so the last run starts from the same
  data as the first.\<close>

lemma serializable_loop_outcome:
  assumes pool: "pool_contract (db_pool db) v" and body: "body_contract f v"
    and run: "serializable_loop pc db ctx_err ctx mx (pg_tx pc db ctx opts f) attempts err s = (r, s')"
    and some: "attempts \<noteq> [] \<or> err \<noteq> None"
  shows "dv_open v (w_app s') = dv_open v (w_app s) \<and>
    (if attempts = [] then r = Ret err \<and> s' = s
     else \<exists>s0. dv_data v (w_app s0) = dv_data v (w_app s) \<and> dv_open v (w_app s0) = dv_open v (w_app s) \<and>
       tx_outcome db ctx opts f v s0 r s')"
  using run some
proof (induction attempts arbitrary: err s)
  case Nil
  then show ?case by simp
next
  case (Cons a rest)
  obtain r1 s1 where one: "pg_tx pc db ctx opts f s = (r1, s1)" by (cases "pg_tx pc db ctx opts f s")
  note out = pg_tx_outcome [OF pool body one]
  show ?case
  proof (cases "r = r1 \<and> s' = s1")
    case True
    with out show ?thesis by (auto simp: tx_outcome_def)
  next
    case False
    with Cons.prems one obtain e where e: "r1 = Ret (Some e)" "is_serialization_failure pc e"
      "serializable_loop pc db ctx_err ctx mx (pg_tx pc db ctx opts f) rest (Some e)
         (log_to (db_log db s1) LevelWarn ''retrying serializable transaction''
            [(''attempt'', itoa (a + 1)), (''error'', err_text e)] s1) = (r, s')"
      by (auto split: outcome.splits option.splits if_splits)
    have same: "dv_data v (w_app s1) = dv_data v (w_app s)" "dv_open v (w_app s1) = dv_open v (w_app s)"
      using out e(1,2) by (auto simp: tx_outcome_def is_serialization_failure_def split: option.splits)
    from Cons.IH [OF e(3)] have ih: "dv_open v (w_app s') = dv_open v (w_app s1) \<and>
       (if rest = [] then r = Ret (Some e) \<and> s' = log_to (db_log db s1) LevelWarn
            ''retrying serializable transaction'' [(''attempt'', itoa (a + 1)), (''error'', err_text e)] s1
        else \<exists>s0. dv_data v (w_app s0) = dv_data v (w_app s1) \<and> dv_open v (w_app s0) = dv_open v (w_app s1) \<and>
          tx_outcome db ctx opts f v s0 r s')"
      by (auto split: if_splits)
    show ?thesis
    proof (cases "rest = []")
      case True
      with ih same out e(1) have "tx_outcome db ctx opts f v s r s'" by (simp add: tx_outcome_def)
      with same ih show ?thesis by (metis list.distinct(1))
    next
      case False
      with ih same show ?thesis by auto
    qed
  qed
qed

lemma serializable_loop_bounded:
  assumes counts: "\<And>s. cnt (w_app (snd (op1 s))) = Suc (cnt (w_app s))"
    and "a \<le> mx" and "serializable_loop pc db ctx_err ctx mx op1 [a..mx] err s = (r, s')"
  shows "\<exists>n. 1 \<le> n \<and> int n \<le> mx - a + 1 \<and> cnt (w_app s') = cnt (w_app s) + n \<and>
    (case r of Ret (Some e) \<Rightarrow>
        int n = mx - a + 1 \<or> \<not> is_serialization_failure pc e \<or> ctx_err ctx s' \<noteq> None
      | _ \<Rightarrow> True)"
  using assms(2,3)
proof (induction "nat (mx - a)" arbitrary: a err s rule: less_induct)
  case less
  obtain r1 s1 where one: "op1 s = (r1, s1)" by (cases "op1 s")
  with counts [of s] have c1: "cnt (w_app s1) = Suc (cnt (w_app s))" by simp
  have unroll: "[a..mx] = a # [a + 1..mx]" using less.prems(1) by (simp add: upto_rec1)
  show ?case
  proof (cases "r = r1 \<and> s' = s1 \<and>
      (case r1 of Ret (Some e) \<Rightarrow> ctx_err ctx s1 \<noteq> None \<or> \<not> is_serialization_failure pc e \<or> a = mx | _ \<Rightarrow> True)")
    case True
    then show ?thesis using c1 less.prems(1)
      by (intro exI [of _ 1]) (auto split: outcome.splits option.splits)
  next
    case False
    with less.prems(2) one obtain e where e: "r1 = Ret (Some e)" "a \<noteq> mx"
      "serializable_loop pc db ctx_err ctx mx op1 [a + 1..mx] (Some e)
         (log_to (db_log db s1) LevelWarn ''retrying serializable transaction''
            [(''attempt'', itoa (a + 1)), (''error'', err_text e)] s1) = (r, s')"
      unfolding unroll by (auto split: outcome.splits option.splits if_splits)
    have "nat (mx - (a + 1)) < nat (mx - a)" "a + 1 \<le> mx" using e(2) less.prems(1) by linarith+
    from less.hyps [OF this e(3)] obtain n where "1 \<le> n" "int n \<le> mx - (a + 1) + 1"
      "cnt (w_app s') = cnt (w_app s1) + n"
      "case r of Ret (Some e) \<Rightarrow>
        int n = mx - (a + 1) + 1 \<or> \<not> is_serialization_failure pc e \<or> ctx_err ctx s' \<noteq> None | _ \<Rightarrow> True"
      by auto
    with c1 show ?thesis
      by (intro exI [of _ "Suc n"]) (auto split: outcome.splits option.splits)
  qed
qed

section \<open>A database for the witnesses\<close>

text \<open>Committed data, the open transactions with their data, the conflicts to come and the runs so far.\<close>

record mem_db =
  md_data :: int
  md_open :: "(nat \<times> int) list"
  md_conflicts :: nat
  md_runs :: nat

definition close_handle :: "nat \<Rightarrow> (nat \<times> int) list \<Rightarrow> (nat \<times> int) list" where
  "close_handle t kvs = filter (\<lambda>kv. fst kv \<noteq> t) kvs"

definition conflict :: go_error where
  "conflict = EPg (PgError ''40001'' '''' ''could not serialize access'') NoUnwrap"

definition mem_pool :: "(unit, mem_db, unit) pg_pool" where
  "mem_pool = \<lparr>
     po_begin = (\<lambda>ctx opts s. let t = Suc (sum_list (map fst (md_open (w_app s)))) in
       (Inr t, s\<lparr>w_app := (w_app s)\<lparr>md_open := (t, md_data (w_app s)) # md_open (w_app s)\<rparr>\<rparr>)),
     po_commit = (\<lambda>t ctx s. let w = (w_app s)\<lparr>md_open := close_handle t (md_open (w_app s))\<rparr> in
       case md_conflicts w of
         Suc n \<Rightarrow> (Some conflict, s\<lparr>w_app := w\<lparr>md_conflicts := n\<rparr>\<rparr>)
       | 0 \<Rightarrow> (None, s\<lparr>w_app := w\<lparr>md_data := the (map_of (md_open (w_app s)) t)\<rparr>\<rparr>)),
     po_rollback = (\<lambda>t ctx s.
       (None, s\<lparr>w_app := (w_app s)\<lparr>md_open := close_handle t (md_open (w_app s))\<rparr>\<rparr>)),
     po_exec = (\<lambda>q ctx query args s. (Inr '''', s)), po_query = (\<lambda>q ctx query args s. (Inr (), s)),
     po_query_row = (\<lambda>q ctx query args s. ((), s)), po_ping = (\<lambda>ctx s. (None, s)), po_close = (\<lambda>s. s)\<rparr>"

definition mem_view :: "(mem_db, int) db_view" where
  "mem_view = \<lparr>dv_data = md_data, dv_pending = (\<lambda>t w. the (map_of (md_open w) t)),
     dv_open = (\<lambda>w. set (map fst (md_open w)))\<rparr>"

text \<open>The function adds one to the data of its transaction.\<close>

definition add_one :: "mem_db tx_body" where
  "add_one t s = (Ret None, s\<lparr>w_app := (w_app s)\<lparr>md_runs := Suc (md_runs (w_app s)),
     md_open := map (\<lambda>(u, x). (u, if u = t then x + 1 else x)) (md_open (w_app s))\<rparr>\<rparr>)"

definition mem_handle :: "(unit, mem_db, unit) pg_db" where
  "mem_handle = \<lparr>db_pool = mem_pool, db_logger = None\<rparr>"

definition mem_world :: "nat \<Rightarrow> mem_db world" where
  "mem_world conflicts = \<lparr>w_default = ''default'', w_log = [],
     w_app = \<lparr>md_data = 41, md_open = [], md_conflicts = conflicts, md_runs = 0\<rparr>\<rparr>"

lemma mem_pool_contract: "pool_contract mem_pool mem_view"
proof -
  have fresh: "(Suc (sum_list (map fst kvs)), x) \<notin> set kvs" for kvs :: "(nat \<times> int) list" and x
  proof
    assume "(Suc (sum_list (map fst kvs)), x) \<in> set kvs"
    then have "Suc (sum_list (map fst kvs)) \<in> set (map fst kvs)" by force
    from member_le_sum_list [OF this] show False by simp
  qed
  show ?thesis
    unfolding pool_contract_def mem_pool_def mem_view_def
    using fresh
    by (auto simp: Let_def close_handle_def conflict_def errors_as_self the_pg_def split: nat.splits)
qed

lemma add_one_contract: "body_contract add_one mem_view"
  unfolding body_contract_def mem_view_def add_one_def by (force simp: case_prod_unfold image_image)

section \<open>Properties\<close>

text \<open>C6: A transaction is all or nothing and never leaks: on a pool that keeps the documented
  contract of pgx, however the function ends (nil, an error, a panic), the runner leaves exactly the
  transactions open that were open before; nil means the data of this very transaction is the committed
  data; a panic goes on after the rollback and an error comes back, both with the committed data
  untouched, except when the commit itself failed without an answer of the server.\<close>

theorem tx_is_all_or_nothing:
  assumes "pool_contract (db_pool db) v" and "body_contract f v"
    and "pg_tx pc db ctx opts f s = (r, s')"
  shows "dv_open v (w_app s') = dv_open v (w_app s) \<and>
    (case r of
       Ret None \<Rightarrow> \<exists>t s1 s2. po_begin (db_pool db) ctx opts s = (Inr t, s1) \<and> f t s1 = (Ret None, s2) \<and>
         dv_data v (w_app s') = dv_pending v t (w_app s2)
     | Ret (Some err) \<Rightarrow> dv_data v (w_app s') = dv_data v (w_app s) \<or> commit_in_doubt db ctx opts f s
     | Panic p \<Rightarrow> dv_data v (w_app s') = dv_data v (w_app s))"
  using pg_tx_outcome [OF assms]
  by (auto simp: tx_outcome_def applied_def split: outcome.splits option.splits)

theorem tx_is_all_or_nothing_witness:
  "\<exists>s'. pg_tx sample_codes mem_handle background \<lparr>to_iso = ReadCommitted, to_access = AnyAccess\<rparr> add_one
      (mem_world 0) = (Ret None, s') \<and> md_data (w_app s') = 42 \<and> md_open (w_app s') = []"
proof -
  let ?o = "\<lparr>to_iso = ReadCommitted, to_access = AnyAccess\<rparr>"
  obtain s' where run: "pg_tx sample_codes mem_handle background ?o add_one (mem_world 0) = (Ret None, s')"
    by (simp add: pg_tx_def mem_handle_def mem_pool_def mem_world_def add_one_def Let_def)
  have "pool_contract (db_pool mem_handle) mem_view" by (simp add: mem_handle_def mem_pool_contract)
  from tx_is_all_or_nothing [OF this add_one_contract run] have "md_open (w_app s') = [] \<and> md_data (w_app s') = 42"
    by (auto simp: mem_view_def mem_handle_def mem_pool_def mem_world_def add_one_def Let_def)
  with run show ?thesis by blast
qed

text \<open>C2: Retries never apply an effect twice: when \<open>TxSerializable\<close> returns nil, the committed
  data is what one run of the function made of the data there was at the call, however many conflicting
  runs came before; when it returns an error from the server or panics, the committed data is
  untouched; and no run leaves its transaction open.\<close>

theorem retries_apply_once:
  assumes "pool_contract (db_pool db) v" and "body_contract f v"
    and "tx_serializable pc db ctx_err ctx f s = (r, s')"
  shows "dv_open v (w_app s') = dv_open v (w_app s) \<and>
    (case r of
       Ret None \<Rightarrow> \<exists>s0 t s1 s2. dv_data v (w_app s0) = dv_data v (w_app s) \<and>
         po_begin (db_pool db) ctx \<lparr>to_iso = Serializable, to_access = AnyAccess\<rparr> s0 = (Inr t, s1) \<and>
         f t s1 = (Ret None, s2) \<and> dv_data v (w_app s') = dv_pending v t (w_app s2)
     | Ret (Some err) \<Rightarrow> errors_as the_pg err \<noteq> None \<longrightarrow> dv_data v (w_app s') = dv_data v (w_app s)
     | Panic p \<Rightarrow> dv_data v (w_app s') = dv_data v (w_app s))"
proof -
  have ne: "[0..max_serializable_tx_retries] \<noteq> []" by (simp add: max_serializable_tx_retries_def)
  from serializable_loop_outcome [OF assms(1,2) assms(3) [unfolded tx_serializable_def retry_serializable_def]] ne
  obtain s0 where "dv_open v (w_app s') = dv_open v (w_app s)" "dv_data v (w_app s0) = dv_data v (w_app s)"
    "tx_outcome db ctx \<lparr>to_iso = Serializable, to_access = AnyAccess\<rparr> f v s0 r s'"
    by auto
  then show ?thesis
    by (auto simp: tx_outcome_def applied_def split: outcome.splits option.splits)
qed

lemma errors_as_conflict [simp]: "errors_as the_pg conflict = Some (PgError ''40001'' '''' ''could not serialize access'')"
  by (simp add: conflict_def errors_as_self the_pg_def)

lemma classify_conflict:
  "classify sample_codes (Some conflict) = Some (Wrapped (err_text err_serialization_failure @ '': '' @ err_text conflict)
     [err_serialization_failure, conflict])"
proof -
  have "\<not> errors_is conflict err_serialization_failure"
    by (simp add: errors_is_def chain.simps conflict_def pg_sentinels)
  then show ?thesis by (simp add: classify_def sentinel_for_def sample_codes_def)
qed

lemma is_serialization_failure_conflict [simp]:
  "is_serialization_failure sample_codes (Wrapped t [err_serialization_failure, conflict])"
  by (simp add: is_serialization_failure_def pg_sentinels errors_as_pg_sentinel_pair sample_codes_def)

lemma mem_run_step:
  "pg_tx sample_codes mem_handle background opts add_one \<lparr>w_default = d, w_log = l,
     w_app = \<lparr>md_data = x, md_open = [], md_conflicts = c, md_runs = n\<rparr>\<rparr> =
   (case c of
      0 \<Rightarrow> (Ret None, \<lparr>w_default = d, w_log = l,
        w_app = \<lparr>md_data = x + 1, md_open = [], md_conflicts = 0, md_runs = Suc n\<rparr>\<rparr>)
    | Suc c' \<Rightarrow> (Ret (Some (Wrapped (err_text err_serialization_failure @ '': '' @ err_text conflict)
          [err_serialization_failure, conflict])), \<lparr>w_default = d, w_log = l,
        w_app = \<lparr>md_data = x, md_open = [], md_conflicts = c', md_runs = Suc n\<rparr>\<rparr>))"
  by (simp add: pg_tx_def mem_handle_def mem_pool_def add_one_def close_handle_def Let_def classify_conflict
      split: nat.split)

lemma mem_conflicts_run:
  "\<exists>l. tx_serializable sample_codes mem_handle (\<lambda>ctx s. None) background add_one (mem_world 2) =
     (Ret None, \<lparr>w_default = ''default'', w_log = l,
        w_app = \<lparr>md_data = 42, md_open = [], md_conflicts = 0, md_runs = 3\<rparr>\<rparr>)"
  by (simp add: tx_serializable_def retry_serializable_def max_serializable_tx_retries_def upto_rec1
      mem_world_def log_to_def mem_run_step numeral_2_eq_2 numeral_3_eq_3)

theorem retries_apply_once_witness:
  "\<exists>s'. tx_serializable sample_codes mem_handle (\<lambda>ctx s. None) background add_one (mem_world 2) = (Ret None, s') \<and>
     md_data (w_app s') = 42 \<and> md_runs (w_app s') = 3 \<and> md_open (w_app s') = []"
proof -
  from mem_conflicts_run obtain l where
    run: "tx_serializable sample_codes mem_handle (\<lambda>ctx s. None) background add_one (mem_world 2) =
     (Ret None, \<lparr>w_default = ''default'', w_log = l,
        w_app = \<lparr>md_data = 42, md_open = [], md_conflicts = 0, md_runs = 3\<rparr>\<rparr>)" by blast
  have "pool_contract (db_pool mem_handle) mem_view" by (simp add: mem_handle_def mem_pool_contract)
  from retries_apply_once [OF this add_one_contract run] run show ?thesis by auto
qed

text \<open>C33: A serializable transaction ends: the function's transaction is run at least once and at most
  four times, and it gives up with an error before the fourth run only for a failure that is not a
  conflict or because the context has ended.\<close>

theorem serializable_attempts_are_bounded:
  assumes "\<And>s. cnt (w_app (snd (pg_tx pc db ctx \<lparr>to_iso = Serializable, to_access = AnyAccess\<rparr> f s))) =
      Suc (cnt (w_app s))"
    and "tx_serializable pc db ctx_err ctx f s = (r, s')"
  shows "\<exists>n. 1 \<le> n \<and> n \<le> 4 \<and> cnt (w_app s') = cnt (w_app s) + n \<and>
    (case r of Ret (Some e) \<Rightarrow> n = 4 \<or> \<not> is_serialization_failure pc e \<or> ctx_err ctx s' \<noteq> None | _ \<Rightarrow> True)"
proof -
  have "0 \<le> max_serializable_tx_retries" by (simp add: max_serializable_tx_retries_def)
  from serializable_loop_bounded [OF assms(1) this assms(2) [unfolded tx_serializable_def retry_serializable_def]]
  show ?thesis by (auto simp: max_serializable_tx_retries_def split: outcome.splits option.splits)
qed

theorem serializable_attempts_are_bounded_witness:
  "\<exists>n s'. tx_serializable sample_codes mem_handle (\<lambda>ctx s. None) background add_one (mem_world 2) = (Ret None, s') \<and>
     md_runs (w_app s') = n \<and> 1 \<le> n \<and> n \<le> 4"
proof -
  from mem_conflicts_run obtain s' where
    run: "tx_serializable sample_codes mem_handle (\<lambda>ctx s. None) background add_one (mem_world 2) = (Ret None, s')"
    by blast
  have "md_runs (w_app (snd (pg_tx sample_codes mem_handle background
      \<lparr>to_iso = Serializable, to_access = AnyAccess\<rparr> add_one s))) = Suc (md_runs (w_app s))" for s
    by (auto simp: pg_tx_def mem_handle_def mem_pool_def add_one_def Let_def classify_conflict split: nat.split)
  from serializable_attempts_are_bounded [of md_runs, OF this run] run show ?thesis
    by (auto simp: mem_world_def)
qed

end
