(* ===== verification/EventErr.thy ===== *)
theory EventErr
  imports GoWorld GoJson
begin

text \<open>
  Package events, \<open>events/eventerr.go\<close>: the canonical error \<open>*EventError\<close>, the copy
  that stamps the name of an event on it, and the default coercer. The interface \<open>Coercer\<close> is
  the locale \<open>event_coercer\<close>.
\<close>

section \<open>Construction\<close>

definition event_new :: "string \<Rightarrow> meta \<Rightarrow> 'e list \<Rightarrow> 'e event_error" where
  "event_new code m causes = EventError None code [] m causes"

definition event_wrap :: "'e \<Rightarrow> string \<Rightarrow> meta \<Rightarrow> 'e list \<Rightarrow> 'e event_error" where
  "event_wrap err code m causes = EventError None code [] m (err # causes)"

text \<open>A copy is a new allocation; an error that already names an event is returned itself.\<close>

fun with_event :: "'e event_error \<Rightarrow> string \<Rightarrow> 'e event_error" where
  "with_event (EventError self code event m causes) name =
     (if event \<noteq> '''' then EventError self code event m causes
      else EventError None code name m causes)"

definition event_default_coercer :: "go_error option \<Rightarrow> go_error event_error option" where
  "event_default_coercer err =
     (case err of
        None \<Rightarrow> None
      | Some e \<Rightarrow>
          (case errors_as the_event e of
             Some r \<Rightarrow> Some r
           | None \<Rightarrow> Some (event_wrap e ''unknown'' [] [])))"

type_synonym event_coercion = "go_error option \<Rightarrow> go_error event_error option"

definition event_error_json :: "'e event_error \<Rightarrow> json option" where
  "event_error_json e =
     map_option (\<lambda>jm. JObj ((''code'', JStr (evt_code e))
       # (if evt_event e = [] then [] else [(''event'', JStr (evt_event e))])
       @ (if evt_meta e = [] then [] else [(''meta'', jm)]))) (meta_json (evt_meta e))"

lemma with_event_simps [simp]:
  "evt_code (with_event e n) = evt_code e" "evt_meta (with_event e n) = evt_meta e"
  "evt_causes (with_event e n) = evt_causes e"
  "evt_event (with_event e n) = (if evt_event e \<noteq> [] then evt_event e else n)"
  by (cases e; simp)+

lemma with_event_twice: "n \<noteq> [] \<Longrightarrow> with_event (with_event e n) m = with_event e n"
  by (cases e) simp

lemma errors_is_event_causes:
  assumes "e \<in> set (evt_causes r)" and "errors_is e target"
  shows "errors_is (EEvent (with_event r name)) target"
  by (rule errors_is_child [of e]) (use assms in simp_all)

section \<open>The interface Coercer\<close>

locale event_coercer =
  fixes coerce :: event_coercion
  assumes nil_in: "coerce None = None"
    and some_out: "coerce (Some e) \<noteq> None"
    and pass_through: "errors_as the_event e = Some r \<Longrightarrow> coerce (Some e) = Some r"
begin

lemma coerce_None_iff: "coerce err = None \<longleftrightarrow> err = None"
  using nil_in some_out by (cases err) auto

lemma own_error: "coerce (Some (EEvent r)) = Some r"
  by (rule pass_through) (simp add: errors_as_self the_event_def)

end

interpretation default_events: event_coercer event_default_coercer
  by unfold_locales (auto simp: event_default_coercer_def split: option.splits)

end
