(* ===== verification/EventBus.thy ===== *)
theory EventBus
  imports EventErr
begin

text \<open>
  Package events: the envelope and the optional interfaces of an event (\<open>events/event.go\<close>), the
  codec (\<open>codec.go\<close>), the validator (\<open>validate.go\<close>), the logger (\<open>logger.go\<close>)
  and the bus (\<open>events.go\<close>): plugins, middleware, \<open>On\<close> with the delivery it
  subscribes, and \<open>Emit\<close>. The events of a program are one type; what Go finds out about a
  value by asserting an interface, and what \<open>encoding/json\<close> makes of it, is the record
  \<open>event_env\<close>, a parameter.
\<close>

section \<open>Events and envelopes\<close>

record envelope =
  en_name :: string
  en_payload :: string
  en_headers :: "(string \<times> string) list"

text \<open>
  The methods of an event value: \<open>EventName\<close>, \<open>Validate\<close> and \<open>URLSafeName\<close> where
  its type has them (\<open>None\<close> where it has not), and its JSON form.
\<close>

record 'e event_env =
  ee_name :: "'e \<Rightarrow> string"
  ee_validate :: "'e \<Rightarrow> go_error option option"
  ee_url_name :: "'e \<Rightarrow> string option"
  ee_marshal :: "'e \<Rightarrow> go_error + string"
  ee_unmarshal :: "string \<Rightarrow> 'e \<Rightarrow> 'e \<times> go_error option"

text \<open>
  An event type: the zero value of it (\<open>var e E\<close>), and, where it is a pointer type, the freshly
  allocated value that \<open>zeroEvent\<close> uses instead.
\<close>

record 'e event_type =
  et_zero :: 'e
  et_new :: "'e option"

definition zero_event :: "'e event_type \<Rightarrow> 'e" where
  "zero_event t = (case et_new t of Some e \<Rightarrow> e | None \<Rightarrow> et_zero t)"

definition name_of :: "'e event_env \<Rightarrow> 'e event_type \<Rightarrow> string" where
  "name_of env t = ee_name env (zero_event t)"

section \<open>The codec and the validator\<close>

record 'e codec =
  cd_marshal :: "('e \<Rightarrow> go_error + string) option"
  cd_unmarshal :: "(string \<Rightarrow> 'e \<Rightarrow> 'e \<times> go_error option) option"
  cd_prepare :: "('e \<Rightarrow> go_error option) option"

definition default_codec :: "'e codec" where
  "default_codec = \<lparr>cd_marshal = None, cd_unmarshal = None, cd_prepare = None\<rparr>"

definition encode :: "'e event_env \<Rightarrow> 'e codec \<Rightarrow> 'e \<Rightarrow> go_error + string" where
  "encode env c e =
     (case (case cd_marshal c of None \<Rightarrow> ee_marshal env | Some f \<Rightarrow> f) e of
        Inl err \<Rightarrow> Inl (EEvent (event_new ''encode_failed'' [(''error'', GStr (err_text err))] [err]))
      | Inr payload \<Rightarrow> Inr payload)"

definition decode :: "'e event_env \<Rightarrow> 'e codec \<Rightarrow> 'e event_type \<Rightarrow> string \<Rightarrow> 'e \<times> go_error option" where
  "decode env c t payload =
     (case (case cd_unmarshal c of None \<Rightarrow> ee_unmarshal env | Some f \<Rightarrow> f) payload (et_zero t) of
        (e, Some err) \<Rightarrow>
          (e, Some (EEvent (event_new ''decode_failed'' [(''error'', GStr (err_text err))] [err])))
      | (e, None) \<Rightarrow> (e, None))"

definition codec_prepare_for :: "'e codec \<Rightarrow> 'e event_type \<Rightarrow> go_error option" where
  "codec_prepare_for c t = (case cd_prepare c of None \<Rightarrow> None | Some f \<Rightarrow> f (et_zero t))"

type_synonym 'e validator = "'e \<Rightarrow> go_error option"

definition default_validator :: "'e event_env \<Rightarrow> 'e validator" where
  "default_validator env e = (case ee_validate env e of Some result \<Rightarrow> result | None \<Rightarrow> None)"

section \<open>Handlers, middleware and plugins\<close>

type_synonym ('c, 'w) handler =
  "'c go_ctx_scheme \<Rightarrow> envelope \<Rightarrow> 'w world \<Rightarrow> go_error option outcome \<times> 'w world"

type_synonym ('c, 'w) delivery_mw = "('c, 'w) handler \<Rightarrow> ('c, 'w) handler"

text \<open>A publish function gets a pointer to the envelope, so it returns the envelope too.\<close>

type_synonym ('c, 'w) publisher =
  "'c go_ctx_scheme \<Rightarrow> envelope \<Rightarrow> 'w world \<Rightarrow> go_error option outcome \<times> envelope \<times> 'w world"

type_synonym ('c, 'w) publish_mw = "('c, 'w) publisher \<Rightarrow> ('c, 'w) publisher"

type_synonym ('c, 'w) error_handler =
  "'c go_ctx_scheme \<Rightarrow> envelope \<Rightarrow> go_error event_error \<Rightarrow> 'w world \<Rightarrow> unit outcome \<times> 'w world"

record ('c, 'w) plugin =
  pl_publish :: "('c, 'w) publish_mw option"
  pl_deliver :: "('c, 'w) delivery_mw option"

definition wrap_publish :: "('c, 'w) plugin \<Rightarrow> ('c, 'w) publish_mw" where
  "wrap_publish p next = (case pl_publish p of None \<Rightarrow> next | Some mw \<Rightarrow> mw next)"

definition wrap_deliver :: "('c, 'w) plugin \<Rightarrow> ('c, 'w) delivery_mw" where
  "wrap_deliver p next = (case pl_deliver p of None \<Rightarrow> next | Some mw \<Rightarrow> mw next)"

definition combine_deliver :: "'m list \<Rightarrow> 'm list \<Rightarrow> 'm list" where
  "combine_deliver grp own = (if grp = [] then own else grp @ own)"

definition apply_deliver :: "('c, 'w) handler \<Rightarrow> ('c, 'w) delivery_mw list \<Rightarrow> ('c, 'w) handler" where
  "apply_deliver h mw = fold (\<lambda>v h. v h) (rev mw) h"

definition apply_publish :: "('c, 'w) publisher \<Rightarrow> ('c, 'w) publish_mw list \<Rightarrow> ('c, 'w) publisher" where
  "apply_publish p mw = fold (\<lambda>v p. v p) (rev mw) p"

section \<open>The bus\<close>

text \<open>
  The sink is the interface \<open>Sink\<close>: publishing is a function of the world (\<open>bs_publish\<close>),
  and \<open>Subscribe\<close> is an operation of the concrete sink that the caller of \<open>On\<close> passes.
\<close>

record ('c, 'w, 'e) bus =
  bs_publish :: "'c go_ctx_scheme \<Rightarrow> envelope \<Rightarrow> 'w world \<Rightarrow> go_error option outcome \<times> 'w world"
  bs_codec :: "'e codec"
  bs_validator :: "'e validator"
  bs_coercer :: event_coercion
  bs_on_error :: "('c, 'w) error_handler"
  bs_logger :: "logger option"
  bs_middleware :: "('c, 'w) delivery_mw list"
  bs_publish_mw :: "('c, 'w) publish_mw list"

type_synonym ('c, 'w, 'e) bus_option = "('c, 'w, 'e) bus \<Rightarrow> ('c, 'w, 'e) bus"

definition with_codec :: "'e codec \<Rightarrow> ('c, 'w, 'e) bus_option" where
  "with_codec c b = b\<lparr>bs_codec := c\<rparr>"

definition with_event_coercer :: "event_coercion \<Rightarrow> ('c, 'w, 'e) bus_option" where
  "with_event_coercer c b = b\<lparr>bs_coercer := c\<rparr>"

definition with_error_handler :: "('c, 'w) error_handler \<Rightarrow> ('c, 'w, 'e) bus_option" where
  "with_error_handler h b = b\<lparr>bs_on_error := h\<rparr>"

definition with_validator :: "'e validator \<Rightarrow> ('c, 'w, 'e) bus_option" where
  "with_validator v b = b\<lparr>bs_validator := v\<rparr>"

definition with_bus_logger :: "logger option \<Rightarrow> ('c, 'w, 'e) bus_option" where
  "with_bus_logger l b = b\<lparr>bs_logger := l\<rparr>"

definition with_plugins :: "('c, 'w) plugin list \<Rightarrow> ('c, 'w, 'e) bus_option" where
  "with_plugins ps b = fold (\<lambda>p b. b\<lparr>bs_middleware := bs_middleware b @ [wrap_deliver p],
     bs_publish_mw := bs_publish_mw b @ [wrap_publish p]\<rparr>) ps b"

definition events_logger_from :: "'c go_ctx_scheme \<Rightarrow> ('w, 'z) world_scheme \<Rightarrow> logger" where
  "events_logger_from ctx s = logger_or_default (ctx_event_logger ctx) s"

definition default_error_handler :: "('c, 'w) error_handler" where
  "default_error_handler ctx env err s =
     (Ret (), log_to (events_logger_from ctx s) LevelError ''events: handler failed''
        [(''event'', en_name env), (''error'', event_error_text err)] s)"

definition new_bus :: "'e event_env \<Rightarrow>
    ('c go_ctx_scheme \<Rightarrow> envelope \<Rightarrow> 'w world \<Rightarrow> go_error option outcome \<times> 'w world) \<Rightarrow>
    ('c, 'w, 'e) bus_option list \<Rightarrow> ('c, 'w, 'e) bus" where
  "new_bus env publish opts = fold (\<lambda>opt b. opt b) opts
     \<lparr>bs_publish = publish, bs_codec = default_codec, bs_validator = default_validator env,
      bs_coercer = event_default_coercer, bs_on_error = default_error_handler, bs_logger = None,
      bs_middleware = [], bs_publish_mw = []\<rparr>"

definition bus_use :: "('c, 'w) delivery_mw list \<Rightarrow> ('c, 'w, 'e) bus \<Rightarrow> ('c, 'w, 'e) bus" where
  "bus_use mw b = b\<lparr>bs_middleware := bs_middleware b @ mw\<rparr>"

definition on_ctx :: "('c, 'w, 'e) bus \<Rightarrow> 'c go_ctx_scheme \<Rightarrow> 'c go_ctx_scheme" where
  "on_ctx b ctx = (case bs_logger b of None \<Rightarrow> ctx | Some l \<Rightarrow> ctx\<lparr>ctx_event_logger := Some l\<rparr>)"

section \<open>On\<close>

type_synonym ('c, 'w, 'e) event_handler =
  "'c go_ctx_scheme \<Rightarrow> 'e \<Rightarrow> 'w world \<Rightarrow> go_error option outcome \<times> 'w world"

text \<open>Decode, validate, then the handler.\<close>

definition base_handler :: "'e event_env \<Rightarrow> ('c, 'w, 'e) bus \<Rightarrow> 'e event_type \<Rightarrow>
    ('c, 'w, 'e) event_handler \<Rightarrow> ('c, 'w) handler" where
  "base_handler env b t handler ctx ev s =
     (case decode env (bs_codec b) t (en_payload ev) of
        (e, Some err) \<Rightarrow> (Ret (Some err), s)
      | (e, None) \<Rightarrow>
          (case bs_validator b e of
             Some err \<Rightarrow> (Ret (Some err), s)
           | None \<Rightarrow> handler ctx e s))"

text \<open>What \<open>On\<close> subscribes: the coerced error goes to the error handler and to the sink.\<close>

definition deliver :: "'e event_env \<Rightarrow> ('c, 'w, 'e) bus \<Rightarrow> 'e event_type \<Rightarrow>
    ('c, 'w, 'e) event_handler \<Rightarrow> ('c, 'w) delivery_mw list \<Rightarrow> ('c, 'w) handler" where
  "deliver env b t handler mw =
     (let wrapped = apply_deliver (base_handler env b t handler) (combine_deliver (bs_middleware b) mw)
      in (\<lambda>ctx ev s.
            case wrapped (on_ctx b ctx) ev s of
              (Panic p, s1) \<Rightarrow> (Panic p, s1)
            | (Ret None, s1) \<Rightarrow> (Ret None, s1)
            | (Ret (Some err), s1) \<Rightarrow>
                (case bs_coercer b (Some err) of
                   None \<Rightarrow> (Ret None, s1)
                 | Some coerced \<Rightarrow>
                     (case bs_on_error b (on_ctx b ctx) ev (with_event coerced (en_name ev)) s1 of
                        (Panic p, s2) \<Rightarrow> (Panic p, s2)
                      | (Ret _, s2) \<Rightarrow> (Ret (Some (EEvent coerced)), s2)))))"

definition on_event :: "'e event_env \<Rightarrow> ('c, 'w, 'e) bus \<Rightarrow> 'e event_type \<Rightarrow>
    ('c, 'w, 'e) event_handler \<Rightarrow> ('c, 'w) delivery_mw list \<Rightarrow>
    (string \<Rightarrow> ('c, 'w) handler \<Rightarrow> 's \<Rightarrow> 's) \<Rightarrow> 's \<Rightarrow> unit outcome \<times> 's" where
  "on_event env b t handler mw subscribe sink =
     (case codec_prepare_for (bs_codec b) t of
        Some err \<Rightarrow> (Panic (PanicMsg (''dflevents: '' @ err_text err)), sink)
      | None \<Rightarrow> (Ret (), subscribe (name_of env t) (deliver env b t handler mw) sink))"

section \<open>Emit\<close>

definition bus_coerce :: "('c, 'w, 'e) bus \<Rightarrow> go_error \<Rightarrow> string \<Rightarrow> go_error option" where
  "bus_coerce b err name =
     (case bs_coercer b (Some err) of
        None \<Rightarrow> None
      | Some e \<Rightarrow> Some (EEvent (with_event e name)))"

definition base_publisher :: "('c, 'w, 'e) bus \<Rightarrow> ('c, 'w) publisher" where
  "base_publisher b ctx ev s = (case bs_publish b ctx ev s of (r, s') \<Rightarrow> (r, ev, s'))"

definition emit :: "'e event_env \<Rightarrow> ('c, 'w, 'e) bus \<Rightarrow> 'c go_ctx_scheme \<Rightarrow> 'e \<Rightarrow> 'w world \<Rightarrow>
    go_error option outcome \<times> 'w world" where
  "emit env b ctx e s =
     (let name = ee_name env e
      in case bs_validator b e of
           Some err \<Rightarrow> (Ret (bus_coerce b err name), s)
         | None \<Rightarrow>
             (case encode env (bs_codec b) e of
                Inl err \<Rightarrow> (Ret (bus_coerce b err name), s)
              | Inr payload \<Rightarrow>
                  (case apply_publish (base_publisher b) (bs_publish_mw b) ctx
                          \<lparr>en_name = name, en_payload = payload, en_headers = []\<rparr> s of
                     (Panic p, ev, s') \<Rightarrow> (Panic p, s')
                   | (Ret None, ev, s') \<Rightarrow> (Ret None, s')
                   | (Ret (Some err), ev, s') \<Rightarrow> (Ret (bus_coerce b err name), s'))))"

section \<open>Facts about delivery and emission\<close>

lemma combine_deliver_append [simp]: "combine_deliver grp own = grp @ own"
  by (simp add: combine_deliver_def)

lemma apply_deliver_simps [simp]:
  "apply_deliver h [] = h" "apply_deliver h (v # mw) = v (apply_deliver h mw)"
  by (simp_all add: apply_deliver_def)

lemma apply_publish_simps [simp]:
  "apply_publish p [] = p" "apply_publish p (v # mw) = v (apply_publish p mw)"
  by (simp_all add: apply_publish_def)

text \<open>What the handler chain of \<open>On\<close> comes to, before errors are handled.\<close>

definition delivery_chain :: "'e event_env \<Rightarrow> ('c, 'w, 'e) bus \<Rightarrow> 'e event_type \<Rightarrow>
    ('c, 'w, 'e) event_handler \<Rightarrow> ('c, 'w) delivery_mw list \<Rightarrow> ('c, 'w) handler" where
  "delivery_chain env b t handler mw ctx =
     apply_deliver (base_handler env b t handler) (bs_middleware b @ mw) (on_ctx b ctx)"

lemma deliver_eq:
  "deliver env b t handler mw ctx ev s =
     (case delivery_chain env b t handler mw ctx ev s of
        (Panic p, s1) \<Rightarrow> (Panic p, s1)
      | (Ret None, s1) \<Rightarrow> (Ret None, s1)
      | (Ret (Some err), s1) \<Rightarrow>
          (case bs_coercer b (Some err) of
             None \<Rightarrow> (Ret None, s1)
           | Some coerced \<Rightarrow>
               (case bs_on_error b (on_ctx b ctx) ev (with_event coerced (en_name ev)) s1 of
                  (Panic p, s2) \<Rightarrow> (Panic p, s2)
                | (Ret _, s2) \<Rightarrow> (Ret (Some (EEvent coerced)), s2))))"
  by (simp add: deliver_def delivery_chain_def Let_def)

lemma base_handler_rejects:
  "snd (decode env (bs_codec b) t (en_payload ev)) = Some err \<Longrightarrow>
     base_handler env b t handler ctx ev s = (Ret (Some err), s)"
  "decode env (bs_codec b) t (en_payload ev) = (e, None) \<Longrightarrow> bs_validator b e = Some err \<Longrightarrow>
     base_handler env b t handler ctx ev s = (Ret (Some err), s)"
  by (cases "decode env (bs_codec b) t (en_payload ev)"; simp add: base_handler_def)+

lemma base_handler_accepts:
  "decode env (bs_codec b) t (en_payload ev) = (e, None) \<Longrightarrow> bs_validator b e = None \<Longrightarrow>
     base_handler env b t handler ctx ev s = handler ctx e s"
  by (simp add: base_handler_def)

lemma decode_encode:
  assumes "cd_marshal (bs_codec b) = None" and "cd_unmarshal (bs_codec b) = None"
    and "\<And>p. ee_marshal env e = Inr p \<Longrightarrow> ee_unmarshal env p (et_zero t) = (e, None)"
    and "encode env (bs_codec b) e = Inr payload"
  shows "decode env (bs_codec b) t payload = (e, None)"
  using assms by (auto simp: encode_def decode_def split: sum.splits)

section \<open>Properties\<close>

text \<open>A bus over events that are strings, for the witnesses.\<close>

definition text_env :: "string event_env" where
  "text_env = \<lparr>ee_name = (\<lambda>e. ''note''),
     ee_validate = (\<lambda>e. Some (if e = [] then Some (EEvent (event_new ''invalid'' [] [])) else None)),
     ee_url_name = (\<lambda>e. None), ee_marshal = Inr, ee_unmarshal = (\<lambda>p e. (p, None))\<rparr>"

definition text_type :: "string event_type" where
  "text_type = \<lparr>et_zero = [], et_new = None\<rparr>"

definition text_world :: "string list world" where
  "text_world = \<lparr>w_default = ''default'', w_log = [], w_app = []\<rparr>"

definition text_publish :: "unit go_ctx_scheme \<Rightarrow> envelope \<Rightarrow> string list world \<Rightarrow>
    go_error option outcome \<times> string list world" where
  "text_publish ctx ev s = (Ret None, s\<lparr>w_app := w_app s @ [en_payload ev]\<rparr>)"

definition text_bus :: "(unit, string list, string) bus" where
  "text_bus = new_bus text_env text_publish []"

lemma text_bus_fields [simp]:
  "bs_publish text_bus = text_publish" "bs_codec text_bus = default_codec"
  "bs_validator text_bus = default_validator text_env" "bs_coercer text_bus = event_default_coercer"
  "bs_on_error text_bus = default_error_handler" "bs_logger text_bus = None"
  "bs_middleware text_bus = []" "bs_publish_mw text_bus = []"
  by (simp_all add: text_bus_def new_bus_def)



text \<open>A failed delivery is reported once and handed back: when the chain of an \<open>On\<close>
  subscription returns an error, the default error handler logs exactly one entry, to the bus's
  logger where one is set, naming the event, and the sink gets the coerced error, which is the
  handler's own \<open>*EventError\<close> where the chain holds one, unstamped, so that
  \<open>errors.Is\<close> still recognises a sentinel.\<close>

theorem failed_delivery_is_reported_once:
  assumes "event_coercer (bs_coercer b)" and "bs_on_error b = default_error_handler"
    and "delivery_chain env b t handler mw ctx ev s = (Ret (Some err), s1)"
  shows "\<exists>c s2. bs_coercer b (Some err) = Some c \<and>
    deliver env b t handler mw ctx ev s = (Ret (Some (EEvent c)), s2) \<and> w_app s2 = w_app s1 \<and>
    w_log s2 = w_log s1 @ [\<lparr>le_logger = (case bs_logger b of Some l \<Rightarrow> l | None \<Rightarrow> events_logger_from ctx s1),
      le_level = LevelError, le_msg = ''events: handler failed'',
      le_attrs = [(''event'', en_name ev), (''error'', event_error_text (with_event c (en_name ev)))]\<rparr>] \<and>
    (case errors_as the_event err of Some r \<Rightarrow> c = r | None \<Rightarrow> True)"
proof -
  from event_coercer.some_out [OF assms(1), of err] obtain c where c: "bs_coercer b (Some err) = Some c"
    by blast
  have "case errors_as the_event err of Some r \<Rightarrow> c = r | None \<Rightarrow> True"
    using event_coercer.pass_through [OF assms(1), of err] c by (auto split: option.splits)
  with c show ?thesis
    by (simp add: deliver_eq assms(2,3) default_error_handler_def log_to_def on_ctx_def
        events_logger_from_def logger_or_default_def split: option.split)
qed

theorem failed_delivery_is_reported_once_witness:
  "\<exists>c s2. deliver text_env text_bus text_type (\<lambda>ctx e s. (Ret None, s)) [] background
      \<lparr>en_name = ''note'', en_payload = [], en_headers = []\<rparr> text_world = (Ret (Some (EEvent c)), s2) \<and>
     evt_code c = ''invalid'' \<and> length (w_log s2) = 1"
proof -
  let ?ev = "\<lparr>en_name = ''note'', en_payload = [], en_headers = []\<rparr>"
  let ?err = "EEvent (event_new ''invalid'' [] [])"
  have c: "event_coercer (bs_coercer text_bus)" by (simp add: default_events.event_coercer_axioms)
  have "delivery_chain text_env text_bus text_type (\<lambda>ctx e s. (Ret None, s)) [] background ?ev text_world =
      (Ret (Some ?err), text_world)"
    by (simp add: delivery_chain_def base_handler_def decode_def default_codec_def text_env_def
        default_validator_def)
  from failed_delivery_is_reported_once [OF c _ this] show ?thesis
    by (auto simp: text_world_def event_default_coercer_def errors_as_self the_event_def event_new_def)
qed

text \<open>What a handler sees is what was emitted: the payload \<open>Emit\<close> encodes, delivered to a
  subscription of the same type on a JSON bus, decodes to the event itself, is validated again, and
  reaches the handler with no other event in between; the hypothesis is that the event's JSON form
  round-trips.\<close>

theorem emitted_event_reaches_the_handler:
  assumes "bs_codec b = default_codec" and "bs_codec b' = default_codec"
    and "\<And>p. ee_marshal env e = Inr p \<Longrightarrow> ee_unmarshal env p (et_zero t) = (e, None)"
    and "bs_validator b' e = None" and "bs_middleware b' = []"
    and "encode env (bs_codec b) e = Inr payload"
  shows "delivery_chain env b' t handler [] ctx \<lparr>en_name = n, en_payload = payload, en_headers = hs\<rparr> s =
    handler (on_ctx b' ctx) e s"
proof -
  have "decode env (bs_codec b') t payload = (e, None)"
    by (rule decode_encode) (use assms in \<open>simp_all add: default_codec_def\<close>)
  then show ?thesis using assms(4,5) by (simp add: delivery_chain_def base_handler_accepts)
qed

theorem emitted_event_reaches_the_handler_witness:
  "delivery_chain text_env text_bus text_type (\<lambda>ctx e s. (Ret None, s\<lparr>w_app := [e]\<rparr>)) [] background
     \<lparr>en_name = ''note'', en_payload = ''hi'', en_headers = []\<rparr> text_world =
   (Ret None, text_world\<lparr>w_app := [''hi'']\<rparr>)"
  by (subst emitted_event_reaches_the_handler [where b = text_bus and e = "''hi''"])
     (simp_all add: text_env_def text_type_def default_validator_def encode_def default_codec_def)

end
