(* ===== verification/EventSinks.thy ===== *)
theory EventSinks
  imports EventBus
begin

text \<open>
  Package events: the interface \<open>Sink\<close> (\<open>events/sink.go\<close>), the synchronous registry
  \<open>Dispatcher\<close> (\<open>dispatcher.go\<close>) and the in-process \<open>MemSink\<close> (\<open>mem.go\<close>).
  The \<open>Subscribe\<close> half of the interface is the locale \<open>subscriptions\<close>, with both as
  interpretations. \<open>MemSink\<close> starts one goroutine per subscriber: a goroutine is a task in a pool,
  and the relation \<open>mem_step\<close> lets any task of the pool run next. A task runs as a whole, and the
  handlers of the model do not publish to the sink that runs them. The mutexes guard each map
  operation, which is one step here.
\<close>

section \<open>The interface Sink\<close>

locale subscriptions =
  fixes handlers_of :: "'s \<Rightarrow> string \<Rightarrow> 'h list"
    and subscribe :: "string \<Rightarrow> 'h \<Rightarrow> 's \<Rightarrow> 's"
  assumes subscribed: "handlers_of (subscribe name h s) =
    (handlers_of s)(name := handlers_of s name @ [h])"
begin

text \<open>Subscribing at boot: every handler of a name is kept, in order, and names do not mix.\<close>

lemma subscribed_all:
  "handlers_of (fold (\<lambda>(name, h) s. subscribe name h s) subs s) name =
     handlers_of s name @ map snd (filter (\<lambda>(n, h). n = name) subs)"
  by (induction subs arbitrary: s) (auto simp: subscribed)

lemma subscribe_commute:
  "n \<noteq> m \<Longrightarrow> handlers_of (subscribe n h (subscribe m k s)) = handlers_of (subscribe m k (subscribe n h s))"
  by (auto simp: subscribed)

end

section \<open>Dispatcher\<close>

record ('c, 'w) dispatcher =
  dp_subs :: "(string \<times> ('c, 'w) handler list) list"

definition new_dispatcher :: "('c, 'w) dispatcher" where
  "new_dispatcher = \<lparr>dp_subs = []\<rparr>"

definition subs_of :: "(string \<times> 'h list) list \<Rightarrow> string \<Rightarrow> 'h list" where
  "subs_of m name = (case map_of m name of Some hs \<Rightarrow> hs | None \<Rightarrow> [])"

definition dispatcher_subscribe :: "string \<Rightarrow> ('c, 'w) handler \<Rightarrow> ('c, 'w) dispatcher \<Rightarrow> ('c, 'w) dispatcher" where
  "dispatcher_subscribe name h d =
     d\<lparr>dp_subs := map_put name (subs_of (dp_subs d) name @ [h]) (dp_subs d)\<rparr>"

text \<open>The loop collects the errors, then joins them; a panic ends it.\<close>

fun dispatch_each :: "('c, 'w) handler list \<Rightarrow> 'c go_ctx_scheme \<Rightarrow> envelope \<Rightarrow> go_error list \<Rightarrow> 'w world \<Rightarrow>
    go_error option outcome \<times> 'w world" where
  "dispatch_each [] ctx ev errs s = (Ret (errors_join (map Some errs)), s)"
| "dispatch_each (d # ds) ctx ev errs s =
     (case d ctx ev s of
        (Panic p, s') \<Rightarrow> (Panic p, s')
      | (Ret None, s') \<Rightarrow> dispatch_each ds ctx ev errs s'
      | (Ret (Some err), s') \<Rightarrow> dispatch_each ds ctx ev (errs @ [err]) s')"

definition dispatcher_dispatch :: "('c, 'w) dispatcher \<Rightarrow> ('c, 'w) handler" where
  "dispatcher_dispatch d ctx ev s = dispatch_each (subs_of (dp_subs d) (en_name ev)) ctx ev [] s"

interpretation dispatcher: subscriptions "\<lambda>d. subs_of (dp_subs d)" dispatcher_subscribe
  by unfold_locales (auto simp: dispatcher_subscribe_def subs_of_def map_of_map_put fun_eq_iff)

section \<open>MemSink\<close>

record ('c, 'w) mem_sink =
  ms_subs :: "(string \<times> ('c, 'w) handler list) list"

definition new_mem_sink :: "('c, 'w) mem_sink" where
  "new_mem_sink = \<lparr>ms_subs = []\<rparr>"

definition mem_subscribe :: "string \<Rightarrow> ('c, 'w) handler \<Rightarrow> ('c, 'w) mem_sink \<Rightarrow> ('c, 'w) mem_sink" where
  "mem_subscribe name h s =
     s\<lparr>ms_subs := map_put name (subs_of (ms_subs s) name @ [h]) (ms_subs s)\<rparr>"

interpretation mem_sink: subscriptions "\<lambda>s. subs_of (ms_subs s)" mem_subscribe
  by unfold_locales (auto simp: mem_subscribe_def subs_of_def map_of_map_put fun_eq_iff)

text \<open>
  The program as far as deliveries go: its world and the goroutines that are yet to run. The model's
  contexts carry values only, so \<open>context.WithoutCancel\<close> leaves them alone.
\<close>

record ('c, 'w) mem_state =
  mm_world :: "'w world"
  mm_tasks :: "(('c, 'w) handler \<times> 'c go_ctx_scheme \<times> envelope) list"

definition mem_publish :: "('c, 'w) mem_sink \<Rightarrow> 'c go_ctx_scheme \<Rightarrow> envelope \<Rightarrow> ('c, 'w) mem_state \<Rightarrow>
    go_error option \<times> ('c, 'w) mem_state" where
  "mem_publish sink ctx ev st =
     (None, st\<lparr>mm_tasks := mm_tasks st @ map (\<lambda>d. (d, ctx, ev)) (subs_of (ms_subs sink) (en_name ev))\<rparr>)"

text \<open>One goroutine runs; what its handler returns is dropped, a panic is not.\<close>

inductive mem_step :: "('c, 'w) mem_state \<Rightarrow> ('c, 'w) mem_state \<Rightarrow> bool" where
  run: "mm_tasks st = before @ (d, ctx, ev) # after \<Longrightarrow> d ctx ev (mm_world st) = (Ret r, w') \<Longrightarrow>
    mem_step st (st\<lparr>mm_world := w', mm_tasks := before @ after\<rparr>)"

inductive_cases mem_stepE: "mem_step st st'"

inductive mem_runs :: "('c, 'w) mem_state \<Rightarrow> ('c, 'w) mem_state \<Rightarrow> bool" where
  stop: "mem_runs st st"
| step: "mem_step st st' \<Longrightarrow> mem_runs st' st'' \<Longrightarrow> mem_runs st st''"

section \<open>Facts\<close>

lemma errors_join_map_Some: "errors_join (map Some es) = (if es = [] then None else Some (Joined es))"
  by (simp add: errors_join_def map_filter_id_Some Let_def)

text \<open>What each handler of a list does when run in turn, from a world on.\<close>

fun run_all :: "('c, 'w) handler list \<Rightarrow> 'c go_ctx_scheme \<Rightarrow> envelope \<Rightarrow> 'w world \<Rightarrow>
    (go_error option outcome \<times> 'w world) list" where
  "run_all [] ctx ev s = []"
| "run_all (d # ds) ctx ev s = d ctx ev s # run_all ds ctx ev (snd (d ctx ev s))"

definition run_errors :: "(go_error option outcome \<times> 'w world) list \<Rightarrow> go_error list" where
  "run_errors rs = List.map_filter (\<lambda>(r, s). case r of Ret e \<Rightarrow> e | Panic p \<Rightarrow> None) rs"

lemma dispatch_each_runs_all:
  "list_all (\<lambda>(r, s). case r of Ret e \<Rightarrow> True | Panic p \<Rightarrow> False) (run_all ds ctx ev s) \<Longrightarrow>
     dispatch_each ds ctx ev errs s =
       (Ret (errors_join (map Some (errs @ run_errors (run_all ds ctx ev s)))),
        last (s # map snd (run_all ds ctx ev s)))"
proof (induction ds arbitrary: s errs)
  case (Cons d ds)
  obtain r s' where d: "d ctx ev s = (r, s')" by fastforce
  with Cons.prems obtain e where r: "r = Ret e" by (cases r) auto
  from Cons.prems d have ok: "list_all (\<lambda>(r, s). case r of Ret e \<Rightarrow> True | Panic p \<Rightarrow> False) (run_all ds ctx ev s')"
    by simp
  show ?case
    using Cons.IH [OF ok, of errs] Cons.IH [OF ok, of "errs @ [the e]"] d r
    by (cases e) (simp_all add: run_errors_def)
qed (simp add: run_errors_def)

text \<open>The effect of a task on the world, when it does not panic.\<close>

definition task_ok :: "(('c, 'w) handler \<times> 'c go_ctx_scheme \<times> envelope) \<Rightarrow> bool" where
  "task_ok t \<longleftrightarrow> (case t of (d, ctx, ev) \<Rightarrow> \<forall>s. \<exists>r s'. d ctx ev s = (Ret r, s'))"

definition task_effect :: "(('c, 'w) handler \<times> 'c go_ctx_scheme \<times> envelope) \<Rightarrow> 'w world \<Rightarrow> 'w world" where
  "task_effect t s = (case t of (d, ctx, ev) \<Rightarrow> snd (d ctx ev s))"

lemma mem_step_effect:
  "mem_step st st' \<Longrightarrow> \<exists>t. mset (mm_tasks st) = add_mset t (mset (mm_tasks st')) \<and>
     mm_world st' = task_effect t (mm_world st)"
proof (erule mem_stepE)
  fix before d ctx ev "after" r w'
  assume "st' = st\<lparr>mm_world := w', mm_tasks := before @ after\<rparr>"
    and "mm_tasks st = before @ (d, ctx, ev) # after" and "d ctx ev (mm_world st) = (Ret r, w')"
  then show ?thesis by (intro exI [of _ "(d, ctx, ev)"]) (simp add: task_effect_def)
qed

text \<open>An execution runs a sequence of tasks, each of the pool's once, and leaves the rest.\<close>

lemma mem_runs_effect:
  "mem_runs st st' \<Longrightarrow> \<exists>ts. mset (mm_tasks st) = mset ts + mset (mm_tasks st') \<and>
     mm_world st' = fold task_effect ts (mm_world st)"
proof (induction rule: mem_runs.induct)
  case (stop st)
  show ?case by (rule exI [of _ "[]"]) simp
next
  case (step st st' st'')
  from mem_step_effect [OF step.hyps(1)] obtain t where
    t: "mset (mm_tasks st) = add_mset t (mset (mm_tasks st'))" "mm_world st' = task_effect t (mm_world st)"
    by blast
  from step.IH obtain ts where "mset (mm_tasks st') = mset ts + mset (mm_tasks st'')"
    "mm_world st'' = fold task_effect ts (mm_world st')" by blast
  with t show ?case by (intro exI [of _ "t # ts"]) simp
qed

text \<open>Every order of the tasks is an execution.\<close>

lemma mem_runs_order:
  "mset (mm_tasks st) = mset ts \<Longrightarrow> list_all task_ok ts \<Longrightarrow>
     mem_runs st (st\<lparr>mm_world := fold task_effect ts (mm_world st), mm_tasks := []\<rparr>)"
proof (induction ts arbitrary: st)
  case Nil
  then show ?case by (cases st) (simp add: mem_runs.stop)
next
  case (Cons t ts)
  obtain d ctx ev where t: "t = (d, ctx, ev)" by (cases t)
  from Cons.prems(1) have "t \<in> set (mm_tasks st)" by (metis list.set_intros(1) mset_eq_setD)
  then obtain before "after" where split: "mm_tasks st = before @ (d, ctx, ev) # after"
    by (auto simp: t dest: split_list)
  from Cons.prems(2) have "\<forall>s. \<exists>r s'. d ctx ev s = (Ret r, s')" by (simp add: t task_ok_def)
  then obtain r w' where run: "d ctx ev (mm_world st) = (Ret r, w')" by blast
  let ?st = "st\<lparr>mm_world := w', mm_tasks := before @ after\<rparr>"
  have "mem_runs ?st (?st\<lparr>mm_world := fold task_effect ts (mm_world ?st), mm_tasks := []\<rparr>)"
    by (rule Cons.IH) (use Cons.prems split t in simp_all)
  moreover have "task_effect t (mm_world st) = w'" by (simp add: t task_effect_def run)
  ultimately show ?case using mem_runs.step [OF mem_step.run [OF split run]] by simp
qed

section \<open>Properties\<close>

definition note_handler :: "string \<Rightarrow> (unit, string list) handler" where
  "note_handler l ctx ev s = (Ret None, s\<lparr>w_app := w_app s @ [l]\<rparr>)"

definition failing_handler :: "(unit, string list) handler" where
  "failing_handler ctx ev s = (Ret (Some (Sentinel ''app.ErrBusy'' ''busy'')), s)"

definition note_envelope :: envelope where
  "note_envelope = \<lparr>en_name = ''note'', en_payload = ''hi'', en_headers = []\<rparr>"

text \<open>A published event is certain to fire: \<open>MemSink.Publish\<close> returns nil, and every
  execution of the goroutines it started that runs to the end has run each subscriber of the name
  exactly once, in some order; every order is possible.\<close>

theorem mem_sink_fires_every_subscriber:
  assumes "mm_tasks st = []" and "mem_publish sink ctx ev st = (r, st1)"
    and "list_all task_ok (mm_tasks st1)"
  shows "r = None \<and>
    (mem_runs st1 st2 \<and> mm_tasks st2 = [] \<longleftrightarrow>
      (\<exists>ts. mset ts = mset (map (\<lambda>d. (d, ctx, ev)) (subs_of (ms_subs sink) (en_name ev))) \<and>
        st2 = st1\<lparr>mm_world := fold task_effect ts (mm_world st1), mm_tasks := []\<rparr>))"
proof -
  let ?tasks = "map (\<lambda>d. (d, ctx, ev)) (subs_of (ms_subs sink) (en_name ev))"
  from assms(1,2) have r: "r = None" and t1: "mm_tasks st1 = ?tasks" by (auto simp: mem_publish_def)
  have "\<exists>ts. mset ts = mset ?tasks \<and> st2 = st1\<lparr>mm_world := fold task_effect ts (mm_world st1), mm_tasks := []\<rparr>"
    if run: "mem_runs st1 st2" and fin: "mm_tasks st2 = []"
  proof -
    from mem_runs_effect [OF run] obtain ts where
      "mset (mm_tasks st1) = mset ts" "mm_world st2 = fold task_effect ts (mm_world st1)"
      using fin by auto
    moreover from this fin have "st2 = st1\<lparr>mm_world := fold task_effect ts (mm_world st1), mm_tasks := []\<rparr>"
      by (cases st1; cases st2) simp
    ultimately show ?thesis using t1 by auto
  qed
  moreover have "mem_runs st1 st2 \<and> mm_tasks st2 = []"
    if ts: "mset ts = mset ?tasks" and st2: "st2 = st1\<lparr>mm_world := fold task_effect ts (mm_world st1), mm_tasks := []\<rparr>" for ts
  proof -
    have "list_all task_ok ts"
      using assms(3) mset_eq_setD [OF ts] by (simp add: t1 list_all_iff)
    moreover have "mset (mm_tasks st1) = mset ts" by (simp only: t1 ts)
    ultimately show ?thesis using mem_runs_order [of st1 ts] by (simp add: st2)
  qed
  ultimately show ?thesis using r by blast
qed

theorem mem_sink_fires_every_subscriber_witness:
  "\<exists>st2. mem_runs (snd (mem_publish (mem_subscribe ''note'' (note_handler ''b'')
       (mem_subscribe ''note'' (note_handler ''a'') new_mem_sink)) background note_envelope
       \<lparr>mm_world = text_world, mm_tasks = []\<rparr>)) st2 \<and> mm_tasks st2 = [] \<and>
     w_app (mm_world st2) = [''b'', ''a'']"
proof -
  let ?sink = "mem_subscribe ''note'' (note_handler ''b'') (mem_subscribe ''note'' (note_handler ''a'') new_mem_sink)"
  let ?st = "\<lparr>mm_world = text_world, mm_tasks = []\<rparr>"
  have subs: "subs_of (ms_subs ?sink) ''note'' = [note_handler ''a'', note_handler ''b'']"
    by (simp add: mem_subscribe_def new_mem_sink_def subs_of_def)
  let ?st1 = "\<lparr>mm_world = text_world, mm_tasks = [(note_handler ''a'', background, note_envelope),
    (note_handler ''b'', background, note_envelope)]\<rparr>"
  have p: "mem_publish ?sink background note_envelope ?st = (None, ?st1)"
    by (simp add: mem_publish_def note_envelope_def subs)
  have ok: "list_all task_ok (mm_tasks ?st1)" by (simp add: task_ok_def note_handler_def)
  let ?ts = "[(note_handler ''b'', background, note_envelope), (note_handler ''a'', background, note_envelope)]"
  let ?st2 = "?st1\<lparr>mm_world := fold task_effect ?ts (mm_world ?st1), mm_tasks := []\<rparr>"
  have m: "mset ?ts = mset (map (\<lambda>d. (d, background, note_envelope)) (subs_of (ms_subs ?sink) (en_name note_envelope)))"
    by (simp add: note_envelope_def subs)
  have t0: "mm_tasks ?st = []" by simp
  have "mem_runs ?st1 ?st2 \<and> mm_tasks ?st2 = []"
    by (rule iffD2 [OF conjunct2 [OF mem_sink_fires_every_subscriber [OF t0 p ok]]])
       (intro exI [of _ ?ts] conjI m refl)
  moreover have "w_app (mm_world ?st2) = [''b'', ''a'']"
    by (simp add: task_effect_def note_handler_def text_world_def)
  ultimately show ?thesis unfolding p snd_conv by blast
qed

text \<open>\<open>Dispatch\<close> stops at no failure: every handler subscribed for the name runs, in
  subscription order, whatever the others returned; the delivery is acked (nil) exactly when all of
  them returned nil, and otherwise the joined error exposes each handler's error to
  \<open>errors.Is\<close>.\<close>

theorem dispatch_runs_every_handler:
  assumes "d = fold (\<lambda>(name, h) d. dispatcher_subscribe name h d) subs new_dispatcher"
    and "hs = map snd (filter (\<lambda>(n, h). n = en_name ev) subs)"
    and "list_all (\<lambda>(r, s). case r of Ret e \<Rightarrow> True | Panic p \<Rightarrow> False) (run_all hs ctx ev s)"
  shows "\<exists>res. dispatcher_dispatch d ctx ev s = (Ret res, last (s # map snd (run_all hs ctx ev s))) \<and>
    (res = None \<longleftrightarrow> run_errors (run_all hs ctx ev s) = []) \<and>
    (case res of None \<Rightarrow> True
     | Some err \<Rightarrow> list_all (errors_is err) (filter (\<lambda>e. same_error e e) (run_errors (run_all hs ctx ev s))))"
proof -
  have "subs_of (dp_subs d) (en_name ev) = hs"
    using dispatcher.subscribed_all [of subs new_dispatcher "en_name ev"] assms(1,2)
    by (simp add: new_dispatcher_def subs_of_def)
  then have "dispatcher_dispatch d ctx ev s =
      (Ret (errors_join (map Some (run_errors (run_all hs ctx ev s)))), last (s # map snd (run_all hs ctx ev s)))"
    using dispatch_each_runs_all [OF assms(3), of "[]"] by (simp add: dispatcher_dispatch_def)
  then show ?thesis
    by (auto simp: errors_join_map_Some list_all_iff intro: errors_is_child errors_is_self)
qed

theorem dispatch_runs_every_handler_witness:
  "\<exists>res. dispatcher_dispatch (dispatcher_subscribe ''note'' (note_handler ''a'')
       (dispatcher_subscribe ''note'' failing_handler new_dispatcher)) background note_envelope text_world =
     (Ret (Some res), text_world\<lparr>w_app := [''a'']\<rparr>) \<and>
     errors_is res (Sentinel ''app.ErrBusy'' ''busy'')"
proof -
  let ?subs = "[(''note'', failing_handler), (''note'', note_handler ''a'')]"
  let ?hs = "[failing_handler, note_handler ''a'']"
  have d: "dispatcher_subscribe ''note'' (note_handler ''a'') (dispatcher_subscribe ''note'' failing_handler new_dispatcher) =
      fold (\<lambda>(name, h) d. dispatcher_subscribe name h d) ?subs new_dispatcher" by simp
  have hs: "?hs = map snd (filter (\<lambda>(n, h). n = en_name note_envelope) ?subs)"
    by (simp add: note_envelope_def)
  have run: "run_all ?hs background note_envelope text_world =
      [(Ret (Some (Sentinel ''app.ErrBusy'' ''busy'')), text_world), (Ret None, text_world\<lparr>w_app := [''a'']\<rparr>)]"
    by (simp add: failing_handler_def note_handler_def text_world_def)
  from dispatch_runs_every_handler [OF d hs, of background text_world] show ?thesis
    unfolding run by (auto simp: run_errors_def)
qed

end
