(* ===== verification/EventHeaders.thy ===== *)
theory EventHeaders
  imports EventBus GoJsonText
begin

text \<open>
  The header attribute that the packages sqs, sns and pubsub share: \<open>marshalHeaders\<close> and
  \<open>unmarshalHeaders\<close> (\<open>events/aws/sqs/sqs.go\<close>, \<open>events/aws/sns/sns.go\<close>,
  \<open>events/gcp/pubsub/pubsub.go\<close>, the same functions in each). Both are \<open>encoding/json\<close>
  on a \<open>map[string]string\<close>: the writer sorts the keys and escapes them, the reader takes any
  JSON object whose members are strings or null. Every other text, valid or not, is an error to
  \<open>json.Unmarshal\<close> and so nil here, which is why no other JSON value has to be read.
\<close>

section \<open>Writing\<close>

definition member_text :: "string \<times> string \<Rightarrow> string" where
  "member_text kv = quote_json (fst kv) @ CHR '':'' # quote_json (snd kv)"

definition marshal_headers :: "(string \<times> string) list \<Rightarrow> string" where
  "marshal_headers h =
     (if h = [] then []
      else CHR ''{'' # str_join '','' (map member_text (sort_key fst h)) @ [CHR ''}''])"

section \<open>Reading\<close>

text \<open>A member's value: a string, or null, which leaves the zero value of the element type.\<close>

definition read_member_value :: "string \<Rightarrow> (string \<times> string) option" where
  "read_member_value s =
     (case s of
        [] \<Rightarrow> None
      | c # t \<Rightarrow>
          if c = CHR 0x22 then read_string t
          else if take 4 s = ''null'' then Some ([], drop 4 s)
          else None)"

text \<open>
  The members of an object, the text standing at a key. Every member takes at least one byte of the
  text, so the text's length is enough fuel.
\<close>

fun read_members :: "nat \<Rightarrow> (string \<times> string) list \<Rightarrow> string \<Rightarrow> ((string \<times> string) list \<times> string) option" where
  "read_members 0 h s = None"
| "read_members (Suc n) h s =
     (case s of
        [] \<Rightarrow> None
      | q # s0 \<Rightarrow>
          if q \<noteq> CHR 0x22 then None
          else (case read_string s0 of
                  None \<Rightarrow> None
                | Some (k, s1) \<Rightarrow>
                    (case skip_ws s1 of
                       [] \<Rightarrow> None
                     | colon # s2 \<Rightarrow>
                         if colon \<noteq> CHR '':'' then None
                         else (case read_member_value (skip_ws s2) of
                                 None \<Rightarrow> None
                               | Some (v, s3) \<Rightarrow>
                                   (case skip_ws s3 of
                                      [] \<Rightarrow> None
                                    | d # s4 \<Rightarrow>
                                        if d = CHR ''}'' then Some (map_put k v h, s4)
                                        else if d = CHR '','' then read_members n (map_put k v h) (skip_ws s4)
                                        else None)))))"

definition unmarshal_headers :: "string \<Rightarrow> (string \<times> string) list" where
  "unmarshal_headers s =
     (case skip_ws s of
        [] \<Rightarrow> []
      | c # t \<Rightarrow>
          if c \<noteq> CHR ''{'' then []
          else (case skip_ws t of
                  [] \<Rightarrow> []
                | d # t' \<Rightarrow>
                    if d = CHR ''}'' then []
                    else (case read_members (length s) [] (d # t') of
                            None \<Rightarrow> []
                          | Some (h, u) \<Rightarrow> if skip_ws u = [] then h else [])))"

section \<open>Reading back what was written\<close>

lemma read_quote_json: "utf8_valid s \<Longrightarrow> read_member_value (quote_json s @ t) = Some (s, t)"
  by (simp add: read_member_value_def quote_json_def read_quote_body)

lemma skip_ws_quote [simp]: "skip_ws (quote_json s @ t) = quote_json s @ t"
  by (simp add: quote_json_def)

definition headers_valid :: "(string \<times> string) list \<Rightarrow> bool" where
  "headers_valid h \<longleftrightarrow> distinct (map fst h) \<and> list_all (\<lambda>(k, v). utf8_valid k \<and> utf8_valid v) h"

lemma skip_ws_member [simp]: "skip_ws (member_text kv @ t) = member_text kv @ t"
  by (simp add: member_text_def)

lemma read_members_member:
  assumes "utf8_valid k" and "utf8_valid v" and "skip_ws t = d # u"
  shows "read_members (Suc n) h (member_text (k, v) @ t) =
    (if d = CHR ''}'' then Some (map_put k v h, u)
     else if d = CHR '','' then read_members n (map_put k v h) (skip_ws u)
     else None)"
proof -
  let ?rest = "CHR '':'' # quote_json v @ t"
  have s: "member_text (k, v) @ t = CHR 0x22 # quote_body k @ CHR 0x22 # ?rest"
    by (simp add: member_text_def quote_json_def)
  have "read_string (quote_body k @ CHR 0x22 # ?rest) = Some (k, ?rest)"
    by (rule read_quote_body [OF assms(1)])
  then show ?thesis unfolding s
    by (simp add: read_quote_json [OF assms(2)] assms(3))
qed

lemma read_members_written:
  assumes "kvs \<noteq> []" and "list_all (\<lambda>(k, v). utf8_valid k \<and> utf8_valid v) kvs" and "length kvs \<le> n"
  shows "read_members n h (str_join '','' (map member_text kvs) @ CHR ''}'' # t) = Some (maps_copy h kvs, t)"
  using assms
proof (induction kvs arbitrary: h n)
  case (Cons kv kvs)
  obtain k v where kv: "kv = (k, v)" by (cases kv)
  from Cons.prems(3) obtain m where n: "n = Suc m" and m: "length kvs \<le> m" by (cases n) auto
  from Cons.prems kv have valid: "utf8_valid k" "utf8_valid v" by simp_all
  show ?case
  proof (cases kvs)
    case Nil
    have "skip_ws (CHR ''}'' # t) = CHR ''}'' # t" by simp
    from read_members_member [OF valid this] show ?thesis
      by (simp add: Nil n kv maps_copy_Cons)
  next
    case (Cons kv' kvs')
    let ?u = "str_join '','' (map member_text kvs) @ CHR ''}'' # t"
    have "skip_ws (CHR '','' # ?u) = CHR '','' # ?u" by simp
    moreover have "skip_ws ?u = ?u" by (cases kvs') (simp_all add: Cons)
    moreover have "read_members m (map_put k v h) ?u = Some (maps_copy (map_put k v h) kvs, t)"
      using Cons.IH Cons.prems(2) m Cons by simp
    ultimately have "read_members (Suc m) h (member_text (k, v) @ CHR '','' # ?u) = Some (maps_copy h (kv # kvs), t)"
      using read_members_member [OF valid] by (simp add: kv maps_copy_Cons)
    moreover have "str_join '','' (map member_text (kv # kvs)) @ CHR ''}'' # t = member_text (k, v) @ CHR '','' # ?u"
      by (simp add: kv Cons)
    ultimately show ?thesis by (simp only: n)
  qed
qed simp

lemma length_str_join: "(\<And>x. x \<in> set xs \<Longrightarrow> x \<noteq> []) \<Longrightarrow> length xs \<le> length (str_join sep xs)"
proof (induction xs rule: induct_list012)
  case (3 x y zs)
  then have "x \<noteq> []" by simp
  with 3 show ?case by (cases x) (auto simp: not_less_eq_eq)
qed (auto simp: Suc_le_eq)

lemma unmarshal_marshal_eq:
  assumes "headers_valid h"
  shows "unmarshal_headers (marshal_headers h) = maps_copy [] (sort_key fst h)"
proof (cases "h = []")
  case True
  then show ?thesis by (simp add: marshal_headers_def unmarshal_headers_def)
next
  case False
  let ?kvs = "sort_key fst h"
  have ne: "?kvs \<noteq> []" using False by (metis length_0_conv length_sort)
  then obtain kv kvs' where kvs: "?kvs = kv # kvs'" by (cases ?kvs) auto
  let ?body = "str_join '','' (map member_text ?kvs) @ [CHR ''}'']"
  have start: "\<exists>u. ?body = CHR 0x22 # u"
    by (cases kvs') (simp_all add: kvs member_text_def quote_json_def)
  then obtain u where u: "?body = CHR 0x22 # u" by blast
  have "length (map member_text ?kvs) \<le> length (str_join '','' (map member_text ?kvs))"
    by (rule length_str_join) (auto simp: member_text_def quote_json_def)
  then have "length ?kvs \<le> length (marshal_headers h)"
    using False by (simp add: marshal_headers_def)
  moreover have "list_all (\<lambda>(k, v). utf8_valid k \<and> utf8_valid v) ?kvs"
    using assms by (simp add: headers_valid_def list_all_iff)
  ultimately have "read_members (length (marshal_headers h)) [] ?body = Some (maps_copy [] ?kvs, [])"
    using read_members_written [OF ne] by blast
  moreover have "marshal_headers h = CHR ''{'' # ?body" using False by (simp add: marshal_headers_def)
  ultimately show ?thesis unfolding u by (simp add: unmarshal_headers_def)
qed

lemma unmarshal_marshal:
  assumes "headers_valid h"
  shows "map_of (unmarshal_headers (marshal_headers h)) = map_of h"
proof -
  have "distinct (map fst (sort_key fst h))"
    using assms by (metis distinct_map headers_valid_def distinct_sort set_sort)
  then have "map_of (unmarshal_headers (marshal_headers h)) = map_of (sort_key fst h)"
    by (simp add: unmarshal_marshal_eq [OF assms] map_of_maps_copy)
  also have "\<dots> = map_of h"
    using assms \<open>distinct (map fst (sort_key fst h))\<close>
    by (simp add: map_of_inject_set headers_valid_def)
  finally show ?thesis .
qed

lemma marshal_headers_Nil_iff [simp]: "marshal_headers h = [] \<longleftrightarrow> h = []"
  by (simp add: marshal_headers_def)

lemma unmarshal_Nil [simp]: "unmarshal_headers [] = []"
  by (simp add: unmarshal_headers_def)

section \<open>Transports\<close>

text \<open>
  The interface between the two ends of a transport: what the publisher makes of an envelope, and
  the envelope the receiver makes of what arrives. A transport carries the whole envelope; headers are
  maps, so only their lookups count.
\<close>

definition same_envelope :: "envelope \<Rightarrow> envelope \<Rightarrow> bool" where
  "same_envelope a b \<longleftrightarrow> en_name a = en_name b \<and> en_payload a = en_payload b \<and>
     map_of (en_headers a) = map_of (en_headers b)"

locale transport =
  fixes wrap :: "envelope \<Rightarrow> 'm" and unwrap_msg :: "'m \<Rightarrow> envelope"
  assumes carries: "headers_valid (en_headers ev) \<Longrightarrow> same_envelope (unwrap_msg (wrap ev)) ev"
begin

lemma carries_name: "headers_valid (en_headers ev) \<Longrightarrow> en_name (unwrap_msg (wrap ev)) = en_name ev"
  and carries_payload: "headers_valid (en_headers ev) \<Longrightarrow> en_payload (unwrap_msg (wrap ev)) = en_payload ev"
  and carries_headers: "headers_valid (en_headers ev) \<Longrightarrow>
    map_of (en_headers (unwrap_msg (wrap ev))) = map_of (en_headers ev)"
  using carries by (simp_all add: same_envelope_def)

text \<open>So a codec that reads what it wrote reads it on the other side of the transport.\<close>

lemma carried_event_decodes:
  assumes "headers_valid (en_headers ev)" and "encode env c e = Inr (en_payload ev)"
    and "cd_marshal c = None" and "cd_unmarshal c = None"
    and "\<And>p. ee_marshal env e = Inr p \<Longrightarrow> ee_unmarshal env p (et_zero t) = (e, None)"
  shows "decode env c t (en_payload (unwrap_msg (wrap ev))) = (e, None)"
  using assms by (auto simp: carries_payload encode_def decode_def split: sum.splits)

end

end
