(* ===== verification/EventOutbox.thy ===== *)
theory EventOutbox
  imports PgTx EventSinks EventHeaders
begin

text \<open>
  The transactional outbox, \<open>events/examples/outbox\<close>: a sink that publishes by writing to a
  table of the application's database, on the transaction of its caller, and the relay that moves the
  rows of the table on to the sink that carries events. It is where the packages events and pgxdb meet.
  What PostgreSQL makes of the statements is a parameter; \<open>outbox_contract\<close> and
  \<open>insert_contract\<close> state what the outbox relies on.
\<close>

section \<open>The statements\<close>

definition outbox_schema :: string where
  "outbox_schema = newline @
     ''CREATE TABLE IF NOT EXISTS event_outbox ('' @ newline @
     tabs 1 @ ''id           BIGSERIAL PRIMARY KEY,'' @ newline @
     tabs 1 @ ''name         TEXT        NOT NULL,'' @ newline @
     tabs 1 @ ''payload      JSONB       NOT NULL,'' @ newline @
     tabs 1 @ ''headers      JSONB       NOT NULL DEFAULT '' @ [CHR 0x27] @ ''{}'' @ [CHR 0x27] @ '','' @ newline @
     tabs 1 @ ''created_at   TIMESTAMPTZ NOT NULL DEFAULT now(),'' @ newline @
     tabs 1 @ ''published_at TIMESTAMPTZ'' @ newline @
     '');'' @ newline @ newline @
     ''CREATE INDEX IF NOT EXISTS event_outbox_unpublished'' @ newline @
     tabs 1 @ ''ON event_outbox (id) WHERE published_at IS NULL;'' @ newline"

definition insert_event_sql :: string where
  "insert_event_sql = ''INSERT INTO event_outbox (name, payload, headers) VALUES ($1, $2, $3)''"

definition pending_events_sql :: string where
  "pending_events_sql = newline @
     tabs 3 @ ''SELECT id, name, payload, headers'' @ newline @
     tabs 3 @ ''FROM event_outbox'' @ newline @
     tabs 3 @ ''WHERE published_at IS NULL'' @ newline @
     tabs 3 @ ''ORDER BY id'' @ newline @
     tabs 3 @ ''LIMIT $1'' @ newline @
     tabs 3 @ ''FOR UPDATE SKIP LOCKED''"

definition mark_event_sql :: string where
  "mark_event_sql = ''UPDATE event_outbox SET published_at = now() WHERE id = $1''"

definition users_schema :: string where
  "users_schema = ''CREATE TABLE IF NOT EXISTS users ('' @ newline @
     tabs 2 @ ''id    BIGSERIAL PRIMARY KEY,'' @ newline @
     tabs 2 @ ''email TEXT NOT NULL'' @ newline @
     tabs 1 @ '')''"

definition insert_user_sql :: string where
  "insert_user_sql = ''INSERT INTO users (email) VALUES ($1) RETURNING id''"

section \<open>The sink\<close>

text \<open>\<open>'s\<close> is the inner sink; its \<open>Publish\<close> and \<open>Subscribe\<close> are arguments.\<close>

record ('c, 'w, 'r, 's) outbox_sink =
  os_db :: "('c, 'w, 'r) pg_db"
  os_next :: 's

definition new_outbox_sink :: "('c, 'w, 'r) pg_db \<Rightarrow> 's \<Rightarrow> ('c, 'w, 'r, 's) outbox_sink" where
  "new_outbox_sink db inner = \<lparr>os_db = db, os_next = inner\<rparr>"

text \<open>
  \<open>json.Marshal\<close> of a header map, which cannot fail. The map of an envelope that \<open>Emit\<close>
  made is never nil, so one without headers is \<open>{}\<close>; a nil map would be \<open>null\<close>, which
  reads back as no headers too.
\<close>

definition outbox_headers :: "envelope \<Rightarrow> string" where
  "outbox_headers ev = (if en_headers ev = [] then ''{}'' else marshal_headers (en_headers ev))"

definition outbox_publish :: "('c, 'w, 'r, 's) outbox_sink \<Rightarrow> 'c go_ctx_scheme \<Rightarrow> envelope \<Rightarrow> 'w world \<Rightarrow>
    go_error option outcome \<times> 'w world" where
  "outbox_publish sink ctx ev s =
     (case po_exec (db_pool (os_db sink)) (get_querier ctx FromPool) ctx insert_event_sql
             [GStr (en_name ev), GStr (en_payload ev), GStr (outbox_headers ev)] s of
        (Inl err, s1) \<Rightarrow> (Ret (Some err), s1)
      | (Inr tag, s1) \<Rightarrow> (Ret None, s1))"

definition outbox_subscribe :: "(string \<Rightarrow> ('c, 'w) handler \<Rightarrow> 's \<Rightarrow> 's) \<Rightarrow> string \<Rightarrow> ('c, 'w) handler \<Rightarrow>
    ('c, 'w, 'r, 's) outbox_sink \<Rightarrow> ('c, 'w, 'r, 's) outbox_sink" where
  "outbox_subscribe subscribe name h sink = sink\<lparr>os_next := subscribe name h (os_next sink)\<rparr>"

interpretation outbox_over_mem: subscriptions
  "\<lambda>s. subs_of (ms_subs (os_next s))" "outbox_subscribe mem_subscribe"
  by unfold_locales (simp add: outbox_subscribe_def mem_sink.subscribed)

section \<open>A variable that a closure captures\<close>

text \<open>
  \<open>relayBatch\<close> passes a closure to \<open>TxCtx\<close> that writes a local variable. The variable is a
  second component of the state while the transaction runs; the pool sees the first only.
\<close>

definition without_local :: "('w \<times> 'l) world \<Rightarrow> 'w world" where
  "without_local s = \<lparr>w_default = w_default s, w_log = w_log s, w_app = fst (w_app s)\<rparr>"

definition with_var :: "'l \<Rightarrow> 'w world \<Rightarrow> ('w \<times> 'l) world" where
  "with_var l s = \<lparr>w_default = w_default s, w_log = w_log s, w_app = (w_app s, l)\<rparr>"

definition beside :: "('w world \<Rightarrow> 'a \<times> 'w world) \<Rightarrow> ('w \<times> 'l) world \<Rightarrow> 'a \<times> ('w \<times> 'l) world" where
  "beside f s = (case f (without_local s) of (r, s1) \<Rightarrow> (r, with_var (snd (w_app s)) s1))"

definition set_var :: "'l \<Rightarrow> ('w \<times> 'l) world \<Rightarrow> ('w \<times> 'l) world" where
  "set_var l s = with_var l (without_local s)"

definition pool_beside :: "('c, 'w, 'r) pg_pool \<Rightarrow> ('c, 'w \<times> 'l, 'r) pg_pool" where
  "pool_beside pool = \<lparr>
     po_begin = (\<lambda>ctx opts. beside (po_begin pool ctx opts)),
     po_commit = (\<lambda>t ctx. beside (po_commit pool t ctx)),
     po_rollback = (\<lambda>t ctx. beside (po_rollback pool t ctx)),
     po_exec = (\<lambda>q ctx query args. beside (po_exec pool q ctx query args)),
     po_query = (\<lambda>q ctx query args. beside (po_query pool q ctx query args)),
     po_query_row = (\<lambda>q ctx query args. beside (po_query_row pool q ctx query args)),
     po_ping = (\<lambda>ctx. beside (po_ping pool ctx)),
     po_close = (\<lambda>s. with_var (snd (w_app s)) (po_close pool (without_local s)))\<rparr>"

definition db_beside :: "('c, 'w, 'r) pg_db \<Rightarrow> ('c, 'w \<times> 'l, 'r) pg_db" where
  "db_beside db = \<lparr>db_pool = pool_beside (db_pool db), db_logger = db_logger db\<rparr>"

section \<open>The relay\<close>

record outbox_row =
  ob_id :: int
  ob_name :: string
  ob_payload :: string
  ob_headers :: "(string \<times> string) list"

definition row_envelope :: "outbox_row \<Rightarrow> envelope" where
  "row_envelope row = \<lparr>en_name = ob_name row, en_payload = ob_payload row, en_headers = ob_headers row\<rparr>"

text \<open>The operations of the program the relay runs on: the inner sink's \<open>Publish\<close> and the
  collector of pgx.\<close>

type_synonym ('c, 'w, 's) inner_publish =
  "'s \<Rightarrow> 'c go_ctx_scheme \<Rightarrow> envelope \<Rightarrow> 'w world \<Rightarrow> go_error option outcome \<times> 'w world"

type_synonym ('w, 'r) row_collector =
  "row_mapper \<Rightarrow> 'r \<Rightarrow> 'w world \<Rightarrow> (outbox_row list \<times> go_error option) \<times> 'w world"

fun relay_rows :: "('c, 'w, 's) inner_publish \<Rightarrow> ('c, 'w, 'r, 's) outbox_sink \<Rightarrow> 'c go_ctx_scheme \<Rightarrow> querier \<Rightarrow>
    outbox_row list \<Rightarrow> ('w \<times> int) world \<Rightarrow> go_error option outcome \<times> ('w \<times> int) world" where
  "relay_rows publish sink ctx q [] s = (Ret None, s)"
| "relay_rows publish sink ctx q (row # rows) s =
     (case beside (publish (os_next sink) ctx (row_envelope row)) s of
        (Panic p, s1) \<Rightarrow> (Panic p, s1)
      | (Ret (Some err), s1) \<Rightarrow> (Ret (Some err), s1)
      | (Ret None, s1) \<Rightarrow>
          (case beside (po_exec (db_pool (os_db sink)) q ctx mark_event_sql [GInt (ob_id row)]) s1 of
             (Inl err, s2) \<Rightarrow> (Ret (Some err), s2)
           | (Inr tag, s2) \<Rightarrow>
               relay_rows publish sink ctx q rows (set_var (snd (w_app s2) + 1) s2)))"

definition relay_body :: "pg_codes \<Rightarrow> ('c, 'w, 's) inner_publish \<Rightarrow> ('w, 'r) row_collector \<Rightarrow>
    ('c, 'w, 'r, 's) outbox_sink \<Rightarrow> int \<Rightarrow> ('c, 'w \<times> int) ctx_body" where
  "relay_body pc publish collect sink limit ctx s =
     (let q = get_querier ctx FromPool
      in case beside (pg_select pc (db_pool (os_db sink)) collect ctx q pending_events_sql [GInt limit])
                (set_var 0 s) of
           ((rows, Some err), s1) \<Rightarrow> (Ret (Some err), s1)
         | ((rows, None), s1) \<Rightarrow> relay_rows publish sink ctx q rows s1)"

definition relay_batch :: "pg_codes \<Rightarrow> ('c, 'w, 's) inner_publish \<Rightarrow> ('w, 'r) row_collector \<Rightarrow>
    ('c, 'w, 'r, 's) outbox_sink \<Rightarrow> 'c go_ctx_scheme \<Rightarrow> int \<Rightarrow> 'w world \<Rightarrow>
    (int \<times> go_error option) outcome \<times> 'w world" where
  "relay_batch pc publish collect sink ctx limit s =
     (case tx_ctx pc (db_beside (os_db sink)) ctx (relay_body pc publish collect sink limit) (with_var 0 s) of
        (Panic p, s1) \<Rightarrow> (Panic p, without_local s1)
      | (Ret (Some err), s1) \<Rightarrow> (Ret (0, Some err), without_local s1)
      | (Ret None, s1) \<Rightarrow> (Ret (snd (w_app s1), None), without_local s1))"

text \<open>
  \<open>drain\<close> and \<open>Relay\<close> are loops that may not end: \<open>None\<close> is not returning.
  \<open>tick\<close> is the select of \<open>Relay\<close>: whether the context's end was chosen, not the ticker.
\<close>

partial_function (option) drain :: "pg_codes \<Rightarrow> ('c, 'w, 's) inner_publish \<Rightarrow> ('w, 'r) row_collector \<Rightarrow>
    ('c, 'w, 'r, 's) outbox_sink \<Rightarrow> 'c go_ctx_scheme \<Rightarrow> int \<Rightarrow> 'w world \<Rightarrow> (unit outcome \<times> 'w world) option" where
  "drain pc publish collect sink ctx batch s =
     (case relay_batch pc publish collect sink ctx batch s of
        (Panic p, s1) \<Rightarrow> Some (Panic p, s1)
      | (Ret (moved, Some err), s1) \<Rightarrow>
          Some (Ret (), log_to (w_default s1) LevelError ''outbox: relay batch failed''
            [(''error'', err_text err)] s1)
      | (Ret (moved, None), s1) \<Rightarrow>
          if moved < batch then Some (Ret (), s1)
          else drain pc publish collect sink ctx batch s1)"

partial_function (option) relay_from :: "pg_codes \<Rightarrow> ('c, 'w, 's) inner_publish \<Rightarrow> ('w, 'r) row_collector \<Rightarrow>
    ('c go_ctx_scheme \<Rightarrow> 'w world \<Rightarrow> go_error option) \<Rightarrow> ('c go_ctx_scheme \<Rightarrow> 'w world \<Rightarrow> bool \<times> 'w world) \<Rightarrow>
    ('c, 'w, 'r, 's) outbox_sink \<Rightarrow> 'c go_ctx_scheme \<Rightarrow> int \<Rightarrow> 'w world \<Rightarrow>
    (go_error option outcome \<times> 'w world) option" where
  "relay_from pc publish collect ctx_err tick sink ctx batch s =
     (case drain pc publish collect sink ctx batch s of
        None \<Rightarrow> None
      | Some (r, s1) \<Rightarrow>
          (case r of
             Panic p \<Rightarrow> Some (Panic p, s1)
           | Ret u \<Rightarrow>
               (case tick ctx s1 of
                  (finished, s2) \<Rightarrow>
                    if finished then Some (Ret (ctx_err ctx s2), s2)
                    else relay_from pc publish collect ctx_err tick sink ctx batch s2)))"

text \<open>\<open>time.NewTicker\<close> panics on an interval that is not positive.\<close>

definition relay :: "pg_codes \<Rightarrow> ('c, 'w, 's) inner_publish \<Rightarrow> ('w, 'r) row_collector \<Rightarrow>
    ('c go_ctx_scheme \<Rightarrow> 'w world \<Rightarrow> go_error option) \<Rightarrow> ('c go_ctx_scheme \<Rightarrow> 'w world \<Rightarrow> bool \<times> 'w world) \<Rightarrow>
    ('c, 'w, 'r, 's) outbox_sink \<Rightarrow> 'c go_ctx_scheme \<Rightarrow> int \<Rightarrow> int \<Rightarrow> 'w world \<Rightarrow>
    (go_error option outcome \<times> 'w world) option" where
  "relay pc publish collect ctx_err tick sink ctx interval batch s =
     (if interval \<le> 0 then Some (Panic (PanicMsg ''non-positive interval for NewTicker''), s)
      else relay_from pc publish collect ctx_err tick sink ctx batch s)"

section \<open>Its use\<close>

text \<open>\<open>createUser\<close> and \<open>setup\<close> of the example; \<open>user_created\<close> is the event it emits.\<close>

definition create_user_body :: "pg_codes \<Rightarrow> ('c, 'w, 'r) pg_db \<Rightarrow>
    (row_mapper \<Rightarrow> 'r \<Rightarrow> 'w world \<Rightarrow> (int \<times> go_error option) \<times> 'w world) \<Rightarrow> 'e event_env \<Rightarrow>
    (int \<Rightarrow> string \<Rightarrow> 'e) \<Rightarrow> ('c, 'w, 'e) bus \<Rightarrow> string \<Rightarrow> ('c, 'w) ctx_body option \<Rightarrow> ('c, 'w) ctx_body" where
  "create_user_body pc db collect env user_created b email after ctx s =
     (case pg_scalar pc (db_pool db) collect 0 ctx (get_querier ctx FromPool) insert_user_sql [GStr email] s of
        ((uid, Some err), s1) \<Rightarrow> (Ret (Some err), s1)
      | ((uid, None), s1) \<Rightarrow>
          (case emit env b ctx (user_created uid email) s1 of
             (Panic p, s2) \<Rightarrow> (Panic p, s2)
           | (Ret (Some err), s2) \<Rightarrow> (Ret (Some err), s2)
           | (Ret None, s2) \<Rightarrow> (case after of Some g \<Rightarrow> g ctx s2 | None \<Rightarrow> (Ret None, s2))))"

definition create_user :: "pg_codes \<Rightarrow> ('c, 'w, 'r) pg_db \<Rightarrow>
    (row_mapper \<Rightarrow> 'r \<Rightarrow> 'w world \<Rightarrow> (int \<times> go_error option) \<times> 'w world) \<Rightarrow> 'e event_env \<Rightarrow>
    (int \<Rightarrow> string \<Rightarrow> 'e) \<Rightarrow> 'c go_ctx_scheme \<Rightarrow> ('c, 'w, 'e) bus \<Rightarrow> string \<Rightarrow> ('c, 'w) ctx_body option \<Rightarrow>
    'w world \<Rightarrow> go_error option outcome \<times> 'w world" where
  "create_user pc db collect env user_created ctx b email after s =
     tx_ctx pc db ctx (create_user_body pc db collect env user_created b email after) s"

definition outbox_setup :: "('c, 'w, 'r) pg_db \<Rightarrow> 'c go_ctx_scheme \<Rightarrow> 'w world \<Rightarrow> go_error option \<times> 'w world" where
  "outbox_setup db ctx s =
     (case db_exec db ctx users_schema [] s of
        (Inl err, s1) \<Rightarrow> (Some err, s1)
      | (Inr tag, s1) \<Rightarrow>
          (case db_exec db ctx outbox_schema [] s1 of
             (Inl err, s2) \<Rightarrow> (Some err, s2)
           | (Inr tag, s2) \<Rightarrow> (None, s2)))"

section \<open>What the outbox relies on\<close>

text \<open>The two tables, each row of the outbox with whether its \<open>published_at\<close> is set; what the
  inner sink has accepted; the rows that other relays hold locks on.\<close>

record example_data =
  ed_users :: "(int \<times> string) list"
  ed_events :: "(outbox_row \<times> bool) list"

record 'w outbox_view =
  ov_db :: "('w, example_data) db_view"
  ov_sent :: "'w \<Rightarrow> envelope list"
  ov_locked :: "'w \<Rightarrow> int set"

definition event_ids :: "example_data \<Rightarrow> int list" where
  "event_ids d = map (\<lambda>x. ob_id (fst x)) (ed_events d)"

definition mark_row :: "int \<Rightarrow> example_data \<Rightarrow> example_data" where
  "mark_row i d = d\<lparr>ed_events := map (\<lambda>(row, p). (row, p \<or> ob_id row = i)) (ed_events d)\<rparr>"

text \<open>The rows that wait and that no other relay holds, in the order of their ids.\<close>

definition due_rows :: "int set \<Rightarrow> example_data \<Rightarrow> outbox_row list" where
  "due_rows locked d =
     filter (\<lambda>row. ob_id row \<notin> locked) (sort_key ob_id (map fst (filter (\<lambda>x. \<not> snd x) (ed_events d))))"

definition due :: "'w outbox_view \<Rightarrow> 'w world \<Rightarrow> outbox_row list" where
  "due v s = due_rows (ov_locked v (w_app s)) (dv_data (ov_db v) (w_app s))"

text \<open>Committed data, open transactions and the locks of others are as they were.\<close>

definition stays :: "'w outbox_view \<Rightarrow> 'w \<Rightarrow> 'w \<Rightarrow> bool" where
  "stays v w w' \<longleftrightarrow> dv_data (ov_db v) w' = dv_data (ov_db v) w \<and> dv_open (ov_db v) w' = dv_open (ov_db v) w \<and>
     ov_locked v w' = ov_locked v w"

text \<open>
  The pool keeps \<open>pool_contract\<close>, starts a transaction on the committed data and has nothing to
  do with the inner sink; the select returns the first due rows and changes nothing; the update marks
  its row; the inner sink accepts the envelope when it returns nil, may have accepted it when it does
  not, and leaves the database alone.
\<close>

definition quiet :: "'w outbox_view \<Rightarrow> 'w \<Rightarrow> 'w \<Rightarrow> bool" where
  "quiet v w w' \<longleftrightarrow> ov_sent v w' = ov_sent v w \<and> ov_locked v w' = ov_locked v w"

definition tx_laws :: "('c, 'w, 'r) pg_pool \<Rightarrow> 'w outbox_view \<Rightarrow> bool" where
  "tx_laws pool v \<longleftrightarrow>
     (\<forall>ctx opts s. quiet v (w_app s) (w_app (snd (po_begin pool ctx opts s)))) \<and>
     (\<forall>ctx opts s t s1. po_begin pool ctx opts s = (Inr t, s1) \<longrightarrow>
        dv_pending (ov_db v) t (w_app s1) = dv_data (ov_db v) (w_app s)) \<and>
     (\<forall>t ctx s. quiet v (w_app s) (w_app (snd (po_commit pool t ctx s)))) \<and>
     (\<forall>t ctx s. quiet v (w_app s) (w_app (snd (po_rollback pool t ctx s))))"

definition select_law :: "('c, 'w, 'r) pg_pool \<Rightarrow> ('w, 'r) row_collector \<Rightarrow> 'w outbox_view \<Rightarrow> bool" where
  "select_law pool collect v \<longleftrightarrow>
     (\<forall>t ctx n s r s1. po_query pool (FromTx t) ctx pending_events_sql [GInt n] s = (r, s1) \<longrightarrow>
        stays v (w_app s) (w_app s1) \<and> ov_sent v (w_app s1) = ov_sent v (w_app s) \<and>
        dv_pending (ov_db v) t (w_app s1) = dv_pending (ov_db v) t (w_app s) \<and>
        (\<forall>rows vs err s2. r = Inr rows \<longrightarrow> collect StructByName rows s1 = ((vs, err), s2) \<longrightarrow>
           stays v (w_app s) (w_app s2) \<and> ov_sent v (w_app s2) = ov_sent v (w_app s) \<and>
           dv_pending (ov_db v) t (w_app s2) = dv_pending (ov_db v) t (w_app s) \<and>
           (err = None \<longrightarrow>
              vs = take (nat n) (due_rows (ov_locked v (w_app s)) (dv_pending (ov_db v) t (w_app s))))))"

definition mark_law :: "('c, 'w, 'r) pg_pool \<Rightarrow> 'w outbox_view \<Rightarrow> bool" where
  "mark_law pool v \<longleftrightarrow>
     (\<forall>t ctx i s r s1. po_exec pool (FromTx t) ctx mark_event_sql [GInt i] s = (r, s1) \<longrightarrow>
        stays v (w_app s) (w_app s1) \<and> ov_sent v (w_app s1) = ov_sent v (w_app s) \<and>
        (\<forall>tag. r = Inr tag \<longrightarrow>
           dv_pending (ov_db v) t (w_app s1) = mark_row i (dv_pending (ov_db v) t (w_app s))))"

definition inner_law :: "('c go_ctx_scheme \<Rightarrow> envelope \<Rightarrow> 'w world \<Rightarrow> go_error option outcome \<times> 'w world) \<Rightarrow>
    'w outbox_view \<Rightarrow> bool" where
  "inner_law publish v \<longleftrightarrow>
     (\<forall>ctx ev s r s1. publish ctx ev s = (r, s1) \<longrightarrow>
        stays v (w_app s) (w_app s1) \<and>
        (\<forall>t. dv_pending (ov_db v) t (w_app s1) = dv_pending (ov_db v) t (w_app s)) \<and>
        (ov_sent v (w_app s1) = ov_sent v (w_app s) @ [ev] \<or>
         r \<noteq> Ret None \<and> ov_sent v (w_app s1) = ov_sent v (w_app s)))"

definition outbox_contract :: "('c, 'w, 'r) pg_pool \<Rightarrow> ('c go_ctx_scheme \<Rightarrow> envelope \<Rightarrow> 'w world \<Rightarrow>
    go_error option outcome \<times> 'w world) \<Rightarrow> ('w, 'r) row_collector \<Rightarrow> 'w outbox_view \<Rightarrow> bool" where
  "outbox_contract pool publish collect v \<longleftrightarrow> pool_contract pool (ov_db v) \<and> tx_laws pool v \<and>
     select_law pool collect v \<and> mark_law pool v \<and> inner_law publish v"

text \<open>
  The inserts run in the transaction they are given, and the bigserial key of a new row of the outbox
  is new; \<open>jsonb\<close> is what storing a text as \<open>JSONB\<close> makes of it.
\<close>

definition user_insert_law :: "('c, 'w, 'r) pg_pool \<Rightarrow>
    (row_mapper \<Rightarrow> 'r \<Rightarrow> 'w world \<Rightarrow> (int \<times> go_error option) \<times> 'w world) \<Rightarrow> ('w, example_data) db_view \<Rightarrow> bool" where
  "user_insert_law pool collect v \<longleftrightarrow>
     (\<forall>t ctx email s r s1. po_query pool (FromTx t) ctx insert_user_sql [GStr email] s = (r, s1) \<longrightarrow>
        dv_data v (w_app s1) = dv_data v (w_app s) \<and> dv_open v (w_app s1) = dv_open v (w_app s) \<and>
        (\<forall>rows uid err s2. r = Inr rows \<longrightarrow> collect SingleColumn rows s1 = ((uid, err), s2) \<longrightarrow>
           dv_data v (w_app s2) = dv_data v (w_app s) \<and> dv_open v (w_app s2) = dv_open v (w_app s) \<and>
           (err = None \<longrightarrow> dv_pending v t (w_app s2) = (dv_pending v t (w_app s))
              \<lparr>ed_users := ed_users (dv_pending v t (w_app s)) @ [(uid, email)]\<rparr>)))"

definition event_insert_law :: "('c, 'w, 'r) pg_pool \<Rightarrow> (string \<Rightarrow> string) \<Rightarrow> ('w, example_data) db_view \<Rightarrow> bool" where
  "event_insert_law pool jsonb v \<longleftrightarrow>
     (\<forall>t ctx name payload headers s r s1.
        po_exec pool (FromTx t) ctx insert_event_sql [GStr name, GStr payload, GStr headers] s = (r, s1) \<longrightarrow>
        dv_data v (w_app s1) = dv_data v (w_app s) \<and> dv_open v (w_app s1) = dv_open v (w_app s) \<and>
        (\<forall>tag. r = Inr tag \<longrightarrow> (\<exists>i. i \<notin> set (event_ids (dv_pending v t (w_app s))) \<and>
           dv_pending v t (w_app s1) = (dv_pending v t (w_app s))
             \<lparr>ed_events := ed_events (dv_pending v t (w_app s)) @
               [(\<lparr>ob_id = i, ob_name = name, ob_payload = jsonb payload,
                  ob_headers = unmarshal_headers headers\<rparr>, False)]\<rparr>)))"

definition insert_contract :: "('c, 'w, 'r) pg_pool \<Rightarrow>
    (row_mapper \<Rightarrow> 'r \<Rightarrow> 'w world \<Rightarrow> (int \<times> go_error option) \<times> 'w world) \<Rightarrow> (string \<Rightarrow> string) \<Rightarrow>
    ('w, example_data) db_view \<Rightarrow> bool" where
  "insert_contract pool collect jsonb v \<longleftrightarrow> pool_contract pool v \<and>
     (\<forall>ctx opts s t s1. po_begin pool ctx opts s = (Inr t, s1) \<longrightarrow>
        dv_pending v t (w_app s1) = dv_data v (w_app s)) \<and>
     user_insert_law pool collect v \<and> event_insert_law pool jsonb v"

text \<open>What else the request does in the transaction leaves these two tables alone.\<close>

definition leaves_tables :: "('c, 'w) ctx_body \<Rightarrow> ('w, example_data) db_view \<Rightarrow> bool" where
  "leaves_tables g v \<longleftrightarrow>
     (\<forall>ctx s r s1. g ctx s = (r, s1) \<longrightarrow>
        dv_data v (w_app s1) = dv_data v (w_app s) \<and> dv_open v (w_app s1) = dv_open v (w_app s) \<and>
        (\<forall>t. dv_pending v t (w_app s1) = dv_pending v t (w_app s)))"

section \<open>Facts about the tables\<close>

lemma event_ids_mark [simp]: "event_ids (mark_row i d) = event_ids d"
  by (simp add: event_ids_def mark_row_def case_prod_unfold)

lemma event_ids_marks [simp]: "event_ids (fold mark_row is d) = event_ids d"
  by (induction "is" arbitrary: d) simp_all

lemma due_rows_mark: "due_rows locked (mark_row i d) = filter (\<lambda>row. ob_id row \<noteq> i) (due_rows locked d)"
proof -
  have "map fst (filter (\<lambda>x. \<not> snd x) (map (\<lambda>(row, p). (row, p \<or> ob_id row = i)) kvs)) =
      filter (\<lambda>row. ob_id row \<noteq> i) (map fst (filter (\<lambda>x. \<not> snd x) kvs))" for kvs
    by (induction kvs) (auto split: prod.split)
  then have "map fst (filter (\<lambda>x. \<not> snd x) (ed_events (mark_row i d))) =
      filter (\<lambda>row. ob_id row \<noteq> i) (map fst (filter (\<lambda>x. \<not> snd x) (ed_events d)))"
    by (simp add: mark_row_def)
  then show ?thesis
    unfolding due_rows_def by (simp only: filter_sort [symmetric] filter_filter conj_commute)
qed

lemma due_rows_marks:
  "due_rows locked (fold mark_row is d) = filter (\<lambda>row. ob_id row \<notin> set is) (due_rows locked d)"
  by (induction "is" arbitrary: d) (auto simp: due_rows_mark intro: filter_cong)

lemma distinct_due: "distinct (event_ids d) \<Longrightarrow> distinct (map ob_id (due_rows locked d))"
proof -
  assume d: "distinct (event_ids d)"
  let ?waiting = "map fst (filter (\<lambda>x. \<not> snd x) (ed_events d))"
  have "map ob_id ?waiting = map (\<lambda>x. ob_id (fst x)) (filter (\<lambda>x. \<not> snd x) (ed_events d))"
    by (simp add: comp_def)
  moreover have "distinct (map (\<lambda>x. ob_id (fst x)) (filter (\<lambda>x. \<not> snd x) (ed_events d)))"
    by (rule distinct_map_filter) (use d in \<open>simp only: event_ids_def\<close>)
  ultimately have "distinct (map ob_id ?waiting)" by (simp only:)
  then have "distinct (map ob_id (sort_key ob_id ?waiting))"
    unfolding distinct_map [of ob_id] distinct_sort set_sort by blast
  then show ?thesis unfolding due_rows_def by (rule distinct_map_filter)
qed

lemma filter_take_drop:
  "distinct (map f xs) \<Longrightarrow> filter (\<lambda>x. f x \<notin> set (map f (take n xs))) xs = drop n xs"
proof -
  assume "distinct (map f xs)"
  then have "distinct (map f (take n xs @ drop n xs))" by simp
  then have "\<forall>x\<in>set (drop n xs). f x \<notin> set (map f (take n xs))" by (auto simp: distinct_map simp del: append_take_drop_id)
  then have "filter (\<lambda>x. f x \<notin> set (map f (take n xs))) (take n xs @ drop n xs) = drop n xs"
    by (auto simp del: append_take_drop_id simp: filter_empty_conv filter_id_conv)
  then show ?thesis by simp
qed

lemma due_after_batch:
  assumes "distinct (event_ids d)"
  shows "due_rows locked (fold mark_row (map ob_id (take n (due_rows locked d))) d) = drop n (due_rows locked d)"
  unfolding due_rows_marks by (rule filter_take_drop [OF distinct_due [OF assms]])

section \<open>Facts about the captured variable\<close>

lemma local_simps [simp]:
  "w_app (without_local s) = fst (w_app s)" "w_app (with_var l s') = (w_app s', l)"
  "w_app (set_var l s) = (fst (w_app s), l)" "without_local (with_var l s') = s'"
  "w_log (without_local s) = w_log s" "w_default (without_local s) = w_default s"
  by (simp_all add: without_local_def with_var_def set_var_def)

lemma besideE:
  assumes "beside f s = (r, s')"
  obtains w where "f (without_local s) = (r, w)" and "s' = with_var (snd (w_app s)) w"
  using assms by (auto simp: beside_def split: prod.splits)

definition view_beside :: "('w, 'd) db_view \<Rightarrow> ('w \<times> 'l, 'd) db_view" where
  "view_beside v = \<lparr>dv_data = (\<lambda>w. dv_data v (fst w)), dv_pending = (\<lambda>t w. dv_pending v t (fst w)),
     dv_open = (\<lambda>w. dv_open v (fst w))\<rparr>"

lemma view_beside_simps [simp]:
  "dv_data (view_beside v) w = dv_data v (fst w)" "dv_pending (view_beside v) t w = dv_pending v t (fst w)"
  "dv_open (view_beside v) w = dv_open v (fst w)"
  by (simp_all add: view_beside_def)

lemma pool_beside_simps [simp]:
  "po_begin (pool_beside pool) ctx opts = beside (po_begin pool ctx opts)"
  "po_commit (pool_beside pool) t ctx = beside (po_commit pool t ctx)"
  "po_rollback (pool_beside pool) t ctx = beside (po_rollback pool t ctx)"
  "db_pool (db_beside db) = pool_beside (db_pool db)"
  by (simp_all add: pool_beside_def db_beside_def)

lemma pool_contract_beside:
  assumes "pool_contract pool v"
  shows "pool_contract (pool_beside pool) (view_beside v)"
proof -
  note c = pool_contractD [OF assms]
  show ?thesis
    unfolding pool_contract_def pool_beside_simps view_beside_simps
  proof (intro conjI allI impI)
    fix ctx opts s r s1 assume "beside (po_begin pool ctx opts) s = (r, s1)"
    then obtain w where "po_begin pool ctx opts (without_local s) = (r, w)" "s1 = with_var (snd (w_app s)) w"
      by (rule besideE)
    with c(1,2) [of ctx opts "without_local s"]
    show "dv_data v (fst (w_app s1)) = dv_data v (fst (w_app s))"
      "case r of Inl err \<Rightarrow> dv_open v (fst (w_app s1)) = dv_open v (fst (w_app s))
       | Inr t \<Rightarrow> t \<notin> dv_open v (fst (w_app s)) \<and> dv_open v (fst (w_app s1)) = insert t (dv_open v (fst (w_app s)))"
      by (cases r; simp)+
  next
    fix t ctx s r s1 assume "beside (po_commit pool t ctx) s = (r, s1)" and t: "t \<in> dv_open v (fst (w_app s))"
    then obtain w where "po_commit pool t ctx (without_local s) = (r, w)" "s1 = with_var (snd (w_app s)) w"
      by (elim besideE)
    with c(3,4) [of t ctx "without_local s"] t
    show "dv_open v (fst (w_app s1)) = dv_open v (fst (w_app s)) - {t}"
      "case r of None \<Rightarrow> dv_data v (fst (w_app s1)) = dv_pending v t (fst (w_app s))
       | Some err \<Rightarrow> errors_as the_pg err \<noteq> None \<longrightarrow> dv_data v (fst (w_app s1)) = dv_data v (fst (w_app s))"
      by (cases r; simp)+
  next
    fix t ctx s
    show "dv_data v (fst (w_app (snd (beside (po_rollback pool t ctx) s)))) = dv_data v (fst (w_app s))"
      "dv_open v (fst (w_app (snd (beside (po_rollback pool t ctx) s)))) = dv_open v (fst (w_app s)) - {t}"
      using c(5,6) [of t ctx "without_local s"] by (simp_all add: beside_def case_prod_unfold)
  qed
qed

section \<open>Facts about the relay\<close>

lemma outbox_contractD:
  assumes "outbox_contract pool publish collect v"
  shows "pool_contract pool (ov_db v)" and "tx_laws pool v" and "select_law pool collect v"
    and "mark_law pool v" and "inner_law publish v"
  using assms by (simp_all add: outbox_contract_def)

lemma tx_lawsD:
  assumes "tx_laws pool v"
  shows "po_begin pool ctx opts s = (r, s1) \<Longrightarrow> quiet v (w_app s) (w_app s1)"
    and "po_begin pool ctx opts s = (Inr t, s1) \<Longrightarrow>
      dv_pending (ov_db v) t (w_app s1) = dv_data (ov_db v) (w_app s)"
    and "po_commit pool t ctx s = (rc, s1) \<Longrightarrow> quiet v (w_app s) (w_app s1)"
    and "quiet v (w_app s) (w_app (snd (po_rollback pool t ctx s)))"
  using assms unfolding tx_laws_def by (metis snd_conv)+

lemma mark_lawD:
  assumes "mark_law pool v" and "po_exec pool (FromTx t) ctx mark_event_sql [GInt i] s = (r, s1)"
  shows "stays v (w_app s) (w_app s1)" and "ov_sent v (w_app s1) = ov_sent v (w_app s)"
    and "r = Inr tag \<Longrightarrow> dv_pending (ov_db v) t (w_app s1) = mark_row i (dv_pending (ov_db v) t (w_app s))"
  using assms unfolding mark_law_def by metis+

lemma inner_lawD:
  assumes "inner_law publish v" and "publish ctx ev s = (r, s1)"
  shows "stays v (w_app s) (w_app s1)"
    and "dv_pending (ov_db v) t (w_app s1) = dv_pending (ov_db v) t (w_app s)"
    and "ov_sent v (w_app s1) = ov_sent v (w_app s) @ [ev] \<or>
      r \<noteq> Ret None \<and> ov_sent v (w_app s1) = ov_sent v (w_app s)"
  using assms unfolding inner_law_def by metis+

text \<open>What the select of the relay gets, by its two calls.\<close>

lemma outbox_select:
  assumes "outbox_contract pool publish collect v"
    and run: "pg_select pc pool collect ctx (FromTx t) pending_events_sql [GInt n] s = ((vs, err), s2)"
  shows "stays v (w_app s) (w_app s2) \<and> ov_sent v (w_app s2) = ov_sent v (w_app s) \<and>
    dv_pending (ov_db v) t (w_app s2) = dv_pending (ov_db v) t (w_app s) \<and>
    (err = None \<longrightarrow> vs = take (nat n) (due_rows (ov_locked v (w_app s)) (dv_pending (ov_db v) t (w_app s))))"
proof -
  obtain r s1 where q: "po_query pool (FromTx t) ctx pending_events_sql [GInt n] s = (r, s1)"
    by (cases "po_query pool (FromTx t) ctx pending_events_sql [GInt n] s")
  from assms(1) q have law: "stays v (w_app s) (w_app s1) \<and> ov_sent v (w_app s1) = ov_sent v (w_app s) \<and>
      dv_pending (ov_db v) t (w_app s1) = dv_pending (ov_db v) t (w_app s) \<and>
      (\<forall>rows vs err s2. r = Inr rows \<longrightarrow> collect StructByName rows s1 = ((vs, err), s2) \<longrightarrow>
         stays v (w_app s) (w_app s2) \<and> ov_sent v (w_app s2) = ov_sent v (w_app s) \<and>
         dv_pending (ov_db v) t (w_app s2) = dv_pending (ov_db v) t (w_app s) \<and>
         (err = None \<longrightarrow>
            vs = take (nat n) (due_rows (ov_locked v (w_app s)) (dv_pending (ov_db v) t (w_app s)))))"
    using outbox_contractD(3) unfolding select_law_def by blast
  show ?thesis
  proof (cases r)
    case (Inl e)
    with run q law classify_Some [of pc e] show ?thesis by (auto simp: pg_select_def select_rows_def)
  next
    case (Inr rows)
    obtain ws e s3 where c: "collect StructByName rows s1 = ((ws, e), s3)"
      by (cases "collect StructByName rows s1") auto
    with run q Inr have "vs = ws" "err = classify pc e" "s2 = s3"
      by (simp_all add: pg_select_def select_rows_def)
    with law Inr c show ?thesis by simp
  qed
qed

lemma stays_refl [simp]: "stays v w w"
  by (simp add: stays_def)

lemma stays_trans: "stays v w w' \<Longrightarrow> stays v w' w'' \<Longrightarrow> stays v w w''"
  by (simp add: stays_def)

lemma relay_rows_progress:
  assumes contract: "outbox_contract (db_pool (os_db sink)) (publish (os_next sink)) collect v"
    and "relay_rows publish sink ctx (FromTx t) rows s = (r, s')"
  shows "stays v (fst (w_app s)) (fst (w_app s')) \<and>
    (\<exists>k\<le>length rows. ov_sent v (fst (w_app s')) = ov_sent v (fst (w_app s)) @ map row_envelope (take k rows)) \<and>
    (r = Ret None \<longrightarrow>
       ov_sent v (fst (w_app s')) = ov_sent v (fst (w_app s)) @ map row_envelope rows \<and>
       dv_pending (ov_db v) t (fst (w_app s')) =
         fold mark_row (map ob_id rows) (dv_pending (ov_db v) t (fst (w_app s))) \<and>
       snd (w_app s') = snd (w_app s) + int (length rows))"
  using assms(2)
proof (induction rows arbitrary: s)
  case Nil
  then show ?case by simp
next
  case (Cons row rows)
  note marks = mark_lawD [OF outbox_contractD(4) [OF contract]]
  obtain r1 s1 where p: "beside (publish (os_next sink) ctx (row_envelope row)) s = (r1, s1)"
    by (cases "beside (publish (os_next sink) ctx (row_envelope row)) s")
  from besideE [OF p] obtain w1 where p': "publish (os_next sink) ctx (row_envelope row) (without_local s) = (r1, w1)"
    and s1: "s1 = with_var (snd (w_app s)) w1" .
  note inner = outbox_contractD(5) [OF contract]
  from inner_lawD(1,3) [OF inner p'] inner_lawD(2) [OF inner p', of t] s1 have pub: "stays v (fst (w_app s)) (fst (w_app s1))"
    "dv_pending (ov_db v) t (fst (w_app s1)) = dv_pending (ov_db v) t (fst (w_app s))"
    "\<exists>k\<le>Suc 0. (r1 = Ret None \<longrightarrow> k = Suc 0) \<and>
       ov_sent v (fst (w_app s1)) = ov_sent v (fst (w_app s)) @ map row_envelope (take k [row])"
    by (auto intro: exI [of _ "Suc 0"] exI [of _ 0])
  from pub(3) obtain k where k: "k \<le> Suc 0" "r1 = Ret None \<longrightarrow> k = Suc 0"
    "ov_sent v (fst (w_app s1)) = ov_sent v (fst (w_app s)) @ map row_envelope (take k [row])"
    by blast
  from k(1) have "take k [row] = take k (row # rows)" by (auto simp: le_Suc_eq)
  note k = k(1,2) k(3) [unfolded this]
  show ?case
  proof (cases "r1 = Ret None")
    case False
    with Cons.prems p have "r = r1" "s' = s1" by (auto split: outcome.splits option.splits)
    with False pub k show ?thesis by (auto intro!: exI [of _ k])
  next
    case True
    obtain r2 s2 where m: "beside (po_exec (db_pool (os_db sink)) (FromTx t) ctx mark_event_sql [GInt (ob_id row)]) s1 = (r2, s2)"
      by (cases "beside (po_exec (db_pool (os_db sink)) (FromTx t) ctx mark_event_sql [GInt (ob_id row)]) s1")
    from besideE [OF m] obtain w2 where
      m': "po_exec (db_pool (os_db sink)) (FromTx t) ctx mark_event_sql [GInt (ob_id row)] (without_local s1) = (r2, w2)"
      and s2: "s2 = with_var (snd (w_app s1)) w2" .
    from marks(1,2) [OF m'] s2 pub(1) have st: "stays v (fst (w_app s)) (fst (w_app s2))"
      and sent: "ov_sent v (fst (w_app s2)) = ov_sent v (fst (w_app s)) @ [row_envelope row]"
      using k True by (auto intro: stays_trans)
    show ?thesis
    proof (cases r2)
      case (Inl err)
      with Cons.prems p m True have "r = Ret (Some err)" "s' = s2" by simp_all
      with st sent show ?thesis by (auto intro!: exI [of _ 1])
    next
      case (Inr tag)
      let ?s3 = "set_var (snd (w_app s2) + 1) s2"
      from Inr Cons.prems p m True have rest: "relay_rows publish sink ctx (FromTx t) rows ?s3 = (r, s')" by simp
      from Cons.IH [OF this] obtain j where j: "j \<le> length rows"
        "ov_sent v (fst (w_app s')) = ov_sent v (fst (w_app s2)) @ map row_envelope (take j rows)" by auto
      from marks(3) [OF m' Inr] s2 pub(2)
      have "dv_pending (ov_db v) t (fst (w_app s2)) = mark_row (ob_id row) (dv_pending (ov_db v) t (fst (w_app s)))"
        by simp
      with Cons.IH [OF rest] st sent s1 s2 j show ?thesis
        by (auto intro: stays_trans intro!: exI [of _ "Suc j"])
    qed
  qed
qed

text \<open>The closure of \<open>relayBatch\<close> in its transaction.\<close>

lemma relay_body_progress:
  fixes sink :: "('c, 'w, 'r, 's) outbox_sink" and s :: "('w \<times> int) world"
  assumes contract: "outbox_contract (db_pool (os_db sink)) (publish (os_next sink)) collect v"
    and run: "relay_body pc publish collect sink limit (context_with_tx ctx t) s = (r, s')"
  defines "rows \<equiv> take (nat limit) (due_rows (ov_locked v (fst (w_app s))) (dv_pending (ov_db v) t (fst (w_app s))))"
  shows "stays v (fst (w_app s)) (fst (w_app s')) \<and>
    (\<exists>k\<le>length rows. ov_sent v (fst (w_app s')) = ov_sent v (fst (w_app s)) @ map row_envelope (take k rows)) \<and>
    (r = Ret None \<longrightarrow>
       ov_sent v (fst (w_app s')) = ov_sent v (fst (w_app s)) @ map row_envelope rows \<and>
       dv_pending (ov_db v) t (fst (w_app s')) =
         fold mark_row (map ob_id rows) (dv_pending (ov_db v) t (fst (w_app s))) \<and>
       snd (w_app s') = int (length rows))"
proof -
  let ?ctx = "context_with_tx ctx t"
  have q: "get_querier ?ctx FromPool = FromTx t"
    by (simp add: get_querier_def context_with_tx_def tx_from_context_def)
  obtain vs err s1 where sel: "beside (pg_select pc (db_pool (os_db sink)) collect ?ctx (FromTx t)
      pending_events_sql [GInt limit]) (set_var 0 s) = ((vs, err), s1)"
    by (cases "beside (pg_select pc (db_pool (os_db sink)) collect ?ctx (FromTx t)
      pending_events_sql [GInt limit]) (set_var 0 s)") auto
  from besideE [OF sel] obtain w where
    sel': "pg_select pc (db_pool (os_db sink)) collect ?ctx (FromTx t) pending_events_sql [GInt limit]
        (without_local (set_var 0 s)) = ((vs, err), w)"
    and s1: "s1 = with_var 0 w" by auto
  note law = outbox_select [OF contract sel', simplified]
  show ?thesis
  proof (cases err)
    case (Some e)
    with run q sel have "r = Ret (Some e)" "s' = s1" by (simp_all add: relay_body_def Let_def)
    with law s1 show ?thesis by auto
  next
    case None
    with law have vs: "vs = rows" by (simp add: rows_def)
    from run q sel None have "relay_rows publish sink ?ctx (FromTx t) rows s1 = (r, s')"
      by (simp add: relay_body_def Let_def vs)
    from relay_rows_progress [OF contract this] law s1 show ?thesis by (auto intro: stays_trans)
  qed
qed

text \<open>The ways a run of the transaction runner goes.\<close>

lemma pg_tx_ways:
  assumes "pg_tx pc db ctx opts f s = (r, s')"
  shows "(\<exists>err. po_begin (db_pool db) ctx opts s = (Inl err, s') \<and> r = Ret (Some err)) \<or>
    (\<exists>t s1 fr s2. po_begin (db_pool db) ctx opts s = (Inr t, s1) \<and> f t s1 = (fr, s2) \<and>
       (fr \<noteq> Ret None \<and> r = fr \<and> s' = snd (po_rollback (db_pool db) t ctx s2) \<or>
        fr = Ret None \<and> (\<exists>cr s3. po_commit (db_pool db) t ctx s2 = (cr, s3) \<and> r = Ret (classify pc cr) \<and>
          s' = (if cr = None then s3 else snd (po_rollback (db_pool db) t ctx s3)))))"
proof (cases "po_begin (db_pool db) ctx opts s")
  case (Pair begun s1)
  show ?thesis
  proof (cases begun)
    case (Inl err)
    with Pair assms show ?thesis by (auto simp: pg_tx_def)
  next
    case (Inr t)
    obtain fr s2 where f: "f t s1 = (fr, s2)" by (cases "f t s1")
    obtain cr s3 where commit: "po_commit (db_pool db) t ctx s2 = (cr, s3)"
      by (cases "po_commit (db_pool db) t ctx s2")
    show ?thesis
    proof (cases "fr = Ret None")
      case True
      with assms Pair Inr f commit show ?thesis by (auto simp: pg_tx_def Let_def split: option.splits)
    next
      case False
      with assms Pair Inr f show ?thesis
        by (auto simp: pg_tx_def Let_def split: option.splits outcome.splits)
    qed
  qed
qed

lemma relay_body_contract:
  assumes "outbox_contract (db_pool (os_db sink)) (publish (os_next sink)) collect v"
  shows "body_contract (\<lambda>t. relay_body pc publish collect sink limit (context_with_tx ctx t)) (view_beside (ov_db v))"
proof -
  have "stays v (fst (w_app s)) (fst (w_app (snd (relay_body pc publish collect sink limit (context_with_tx ctx t) s))))"
    for t and s :: "('b \<times> int) world"
    using relay_body_progress [where sink = sink and publish = publish, OF assms prod.collapse [symmetric]]
    by blast
  then show ?thesis by (simp add: body_contract_def stays_def)
qed

text \<open>What one batch does, whatever happens in it.\<close>

definition batch_outcome :: "'w outbox_view \<Rightarrow> int \<Rightarrow> 'w world \<Rightarrow> (int \<times> go_error option) outcome \<Rightarrow> 'w world \<Rightarrow> bool" where
  "batch_outcome v limit s r s' \<longleftrightarrow>
     (let rows = take (nat limit) (due v s); v' = ov_db v;
          all_sent = (ov_sent v (w_app s') = ov_sent v (w_app s) @ map row_envelope rows);
          untouched = (dv_data v' (w_app s') = dv_data v' (w_app s))
      in dv_open v' (w_app s') = dv_open v' (w_app s) \<and> ov_locked v (w_app s') = ov_locked v (w_app s) \<and>
         (\<exists>k\<le>length rows. ov_sent v (w_app s') = ov_sent v (w_app s) @ map row_envelope (take k rows)) \<and>
         (case r of
            Ret (n, None) \<Rightarrow> n = int (length rows) \<and> all_sent \<and>
              dv_data v' (w_app s') = fold mark_row (map ob_id rows) (dv_data v' (w_app s))
          | Ret (n, Some err) \<Rightarrow> n = 0 \<and> (untouched \<or> all_sent \<and> errors_as the_pg err = None)
          | Panic p \<Rightarrow> untouched))"

lemma quiet_trans: "quiet v w w' \<Longrightarrow> quiet v w' w'' \<Longrightarrow> quiet v w w''"
  by (simp add: quiet_def)

lemma beside_quiet:
  assumes "tx_laws pool v"
  shows "beside (po_begin pool ctx opts) s = (rb, s1) \<Longrightarrow> quiet v (fst (w_app s)) (fst (w_app s1))"
    and "beside (po_begin pool ctx opts) s = (Inr t, s1) \<Longrightarrow>
      dv_pending (ov_db v) t (fst (w_app s1)) = dv_data (ov_db v) (fst (w_app s))"
    and "beside (po_commit pool t ctx) s = (rc, s1) \<Longrightarrow>
      quiet v (fst (w_app s)) (fst (w_app s1)) \<and> snd (w_app s1) = snd (w_app s)"
    and "quiet v (fst (w_app s)) (fst (w_app (snd (beside (po_rollback pool t ctx) s))))"
proof -
  show "quiet v (fst (w_app s)) (fst (w_app (snd (beside (po_rollback pool t ctx) s))))"
    using tx_lawsD(4) [OF assms, where t = t and ctx = ctx and s = "without_local s"]
    by (simp add: beside_def case_prod_unfold)
qed (auto elim!: besideE dest: tx_lawsD(1-3) [OF assms])

lemma relay_tx_outcome:
  fixes sink :: "('c, 'w, 'r, 's) outbox_sink"
  assumes contract: "outbox_contract (db_pool (os_db sink)) (publish (os_next sink)) collect v"
    and run: "tx_ctx pc (db_beside (os_db sink)) ctx (relay_body pc publish collect sink limit) (with_var 0 s) = (r, s1)"
  shows "batch_outcome v limit s (case r of Panic p \<Rightarrow> Panic p | Ret (Some err) \<Rightarrow> Ret (0, Some err)
      | Ret None \<Rightarrow> Ret (snd (w_app s1), None)) (without_local s1)"
proof -
  let ?opts = "\<lparr>to_iso = ReadCommitted, to_access = AnyAccess\<rparr>"
  let ?f = "\<lambda>t. relay_body pc publish collect sink limit (context_with_tx ctx t)"
  let ?pool = "db_pool (os_db sink)" let ?rows = "take (nat limit) (due v s)"
  note tl = beside_quiet [OF outbox_contractD(2) [OF contract]]
  from run have run': "pg_tx pc (db_beside (os_db sink)) ctx ?opts ?f (with_var 0 s) = (r, s1)"
    by (simp add: tx_ctx_def)
  have "pool_contract (db_pool (db_beside (os_db sink))) (view_beside (ov_db v))"
    by (simp add: pool_contract_beside outbox_contractD(1) [OF contract])
  from pg_tx_outcome [OF this relay_body_contract [where sink = sink and publish = publish, OF contract] run']
  have out: "tx_outcome (db_beside (os_db sink)) ctx ?opts ?f (view_beside (ov_db v)) (with_var 0 s) r s1" .
  from pg_tx_ways [OF run'] show ?thesis
  proof (elim disjE exE conjE)
    fix err assume "po_begin (db_pool (db_beside (os_db sink))) ctx ?opts (with_var 0 s) = (Inl err, s1)"
      and r: "r = Ret (Some err)"
    then have b: "beside (po_begin ?pool ctx ?opts) (with_var 0 s) = (Inl err, s1)" by simp
    from tl(1) [OF b] r out show ?thesis
      by (auto simp: batch_outcome_def Let_def quiet_def tx_outcome_def commit_in_doubt_def b intro!: exI [of _ 0])
  next
    fix t sb fr sf
    assume "po_begin (db_pool (db_beside (os_db sink))) ctx ?opts (with_var 0 s) = (Inr t, sb)"
      and f: "?f t sb = (fr, sf)"
    then have b: "beside (po_begin ?pool ctx ?opts) (with_var 0 s) = (Inr t, sb)" by simp
    from tl(1,2) [OF b] have
      rows: "?rows = take (nat limit) (due_rows (ov_locked v (fst (w_app sb))) (dv_pending (ov_db v) t (fst (w_app sb))))"
      and qb: "quiet v (w_app s) (fst (w_app sb))"
      by (simp_all add: due_def quiet_def)
    note body = relay_body_progress [where sink = sink and publish = publish, OF contract f, folded rows]
    note began = tl(1,2) [OF b]
    {
      assume "fr \<noteq> Ret None" and "r = fr" and "s1 = snd (po_rollback (db_pool (db_beside (os_db sink))) t ctx sf)"
      moreover from this tl(4) have "quiet v (fst (w_app sf)) (fst (w_app s1))" by simp
      ultimately show ?thesis using body began out b f
        by (auto simp: batch_outcome_def Let_def quiet_def stays_def tx_outcome_def commit_in_doubt_def
            split: outcome.splits option.splits)
    next
      fix cr sc
      assume "fr = Ret None" and "po_commit (db_pool (db_beside (os_db sink))) t ctx sf = (cr, sc)"
        and r: "r = Ret (classify pc cr)"
        and s1: "s1 = (if cr = None then sc else snd (po_rollback (db_pool (db_beside (os_db sink))) t ctx sc))"
      then have fr: "fr = Ret None" and c: "beside (po_commit ?pool t ctx) sf = (cr, sc)" by simp_all
      have "quiet v (fst (w_app sf)) (fst (w_app s1))"
        using tl(3) [OF c] tl(4) [where t = t and ctx = ctx and s = sc] s1 by (auto intro: quiet_trans)
      moreover have "cr = None \<longrightarrow> snd (w_app s1) = snd (w_app sf)" using tl(3) [OF c] s1 by simp
      ultimately show ?thesis using body began out b f fr r classify_None_iff [of pc cr]
        by (cases cr) (auto simp: batch_outcome_def Let_def quiet_def stays_def tx_outcome_def applied_def
            split: option.splits)
    }
  qed
qed

lemma relay_batch_outcome:
  assumes "outbox_contract (db_pool (os_db sink)) (publish (os_next sink)) collect v"
    and "relay_batch pc publish collect sink ctx limit s = (r, s')"
  shows "batch_outcome v limit s r s'"
proof -
  obtain r1 s1 where run: "tx_ctx pc (db_beside (os_db sink)) ctx (relay_body pc publish collect sink limit)
      (with_var 0 s) = (r1, s1)"
    by (cases "tx_ctx pc (db_beside (os_db sink)) ctx (relay_body pc publish collect sink limit) (with_var 0 s)")
  from relay_tx_outcome [where sink = sink and publish = publish, OF assms(1) run] assms(2) run show ?thesis
    by (auto simp: relay_batch_def split: outcome.splits option.splits)
qed

lemma batch_moved:
  assumes "batch_outcome v limit s (Ret (n, None)) s'" and "distinct (event_ids (dv_data (ov_db v) (w_app s)))"
  shows "due v s' = drop (nat limit) (due v s)"
    and "distinct (event_ids (dv_data (ov_db v) (w_app s')))"
    and "n = int (length (take (nat limit) (due v s)))"
    and "ov_sent v (w_app s') = ov_sent v (w_app s) @ map row_envelope (take (nat limit) (due v s))"
    and "dv_open (ov_db v) (w_app s') = dv_open (ov_db v) (w_app s)"
proof -
  from assms(1) have marked: "dv_data (ov_db v) (w_app s') =
      fold mark_row (map ob_id (take (nat limit) (due v s))) (dv_data (ov_db v) (w_app s))"
    and locked: "ov_locked v (w_app s') = ov_locked v (w_app s)"
    by (simp_all add: batch_outcome_def Let_def)
  show "due v s' = drop (nat limit) (due v s)"
    using due_after_batch [OF assms(2)] by (simp only: due_def marked locked)
  show "distinct (event_ids (dv_data (ov_db v) (w_app s')))" using assms(2) by (simp add: marked)
qed (use assms(1) in \<open>simp_all add: batch_outcome_def Let_def\<close>)

text \<open>What a pass of \<open>drain\<close> comes to: the inner sink got a prefix of what was due, all of it
  unless the pass panicked or logged a failure.\<close>

definition drained :: "'w outbox_view \<Rightarrow> 'w world \<Rightarrow> unit outcome \<Rightarrow> 'w world \<Rightarrow> bool" where
  "drained v s r s' \<longleftrightarrow>
     dv_open (ov_db v) (w_app s') = dv_open (ov_db v) (w_app s) \<and>
     (\<exists>k\<le>length (due v s). ov_sent v (w_app s') = ov_sent v (w_app s) @ map row_envelope (take k (due v s))) \<and>
     (r = Ret () \<longrightarrow>
        due v s' = [] \<and> ov_sent v (w_app s') = ov_sent v (w_app s) @ map row_envelope (due v s) \<or>
        (\<exists>s1 e. s' = log_to (w_default s1) LevelError ''outbox: relay batch failed'' [(''error'', e)] s1))"

lemma drained_step:
  assumes "batch_outcome v limit s (Ret (n, None)) s1" and "distinct (event_ids (dv_data (ov_db v) (w_app s)))"
    and "drained v s1 r s'"
  shows "drained v s r s'"
proof -
  let ?n = "nat limit"
  note moved = batch_moved [OF assms(1,2)]
  from assms(3) obtain k where k: "k \<le> length (due v s1)"
    "ov_sent v (w_app s') = ov_sent v (w_app s1) @ map row_envelope (take k (due v s1))"
    by (auto simp: drained_def)
  have "take ?n (due v s) @ take k (drop ?n (due v s)) = take (?n + k) (due v s)" by (rule take_add [symmetric])
  then have "ov_sent v (w_app s') = ov_sent v (w_app s) @ map row_envelope (take (?n + k) (due v s))"
    using k(2) moved(1,4) by (metis append_assoc map_append)
  then have "ov_sent v (w_app s') = ov_sent v (w_app s) @
      map row_envelope (take (min (?n + k) (length (due v s))) (due v s))"
    by (simp add: min_def)
  moreover have "map row_envelope (take ?n (due v s)) @ map row_envelope (drop ?n (due v s)) =
      map row_envelope (due v s)"
    by (metis append_take_drop_id map_append)
  ultimately show ?thesis using assms(3) moved(1,4,5)
    unfolding drained_def by (metis append_assoc min.cobounded2)
qed

lemma drain_ends:
  assumes contract: "outbox_contract (db_pool (os_db sink)) (publish (os_next sink)) collect v"
    and "0 < batch" and "distinct (event_ids (dv_data (ov_db v) (w_app s)))"
  shows "\<exists>r s'. drain pc publish collect sink ctx batch s = Some (r, s') \<and> drained v s r s'"
  using assms(3)
proof (induction "length (due v s)" arbitrary: s rule: less_induct)
  case less
  obtain r1 s1 where run: "relay_batch pc publish collect sink ctx batch s = (r1, s1)"
    by (cases "relay_batch pc publish collect sink ctx batch s")
  from relay_batch_outcome [where sink = sink and publish = publish, OF contract run]
  have out: "batch_outcome v batch s r1 s1" .
  show ?case
  proof (cases "\<exists>n. r1 = Ret (n, None)")
    case False
    with run out show ?thesis
      by (subst drain.simps)
         (auto simp: drained_def batch_outcome_def Let_def due_def split: outcome.splits option.splits
           intro: order_trans)
  next
    case True
    then obtain n where n: "r1 = Ret (n, None)" by blast
    note moved = batch_moved [OF out [unfolded n] less.prems]
    show ?thesis
    proof (cases "n < batch")
      case True
      with moved(3) have "length (due v s) \<le> nat batch" by (simp add: min_def split: if_splits)
      then have "drained v s (Ret ()) s1"
        using moved by (auto simp: drained_def intro!: exI [of _ "length (due v s)"])
      with True run n show ?thesis by (subst drain.simps) simp
    next
      case False
      with moved(3) assms(2) have "length (due v s1) < length (due v s)"
        by (auto simp: moved(1) min_def split: if_splits)
      from less.hyps [OF this moved(2)] obtain r s' where
        "drain pc publish collect sink ctx batch s1 = Some (r, s')" "drained v s1 r s'" by blast
      with False run n drained_step [OF out [unfolded n] less.prems] show ?thesis
        by (subst drain.simps) auto
    qed
  qed
qed

text \<open>With a batch of nothing, every batch is full: \<open>drain\<close> returns only when one fails.\<close>

lemma drain_of_nothing:
  "drain pc publish collect sink ctx batch s = Some res \<Longrightarrow> batch \<le> 0 \<Longrightarrow>
   (\<And>s. \<exists>s1. relay_batch pc publish collect sink ctx batch s = (Ret (0, None), s1)) \<Longrightarrow> False"
proof (induct pc publish collect sink ctx batch s res rule: drain.raw_induct [rotated, consumes 1])
  case (1 rec pc publish collect sink ctx batch s res)
  obtain s1 where "relay_batch pc publish collect sink ctx batch s = (Ret (0, None), s1)" using 1(4) by blast
  with 1(2,3) have "rec pc publish collect sink ctx batch s1 = Some res" by simp
  from 1(1) [OF this 1(3,4)] show ?case .
qed

text \<open>\<open>Relay\<close> returns with the error of the context, or lets a panic out.\<close>

lemma relay_from_returns:
  "relay_from pc publish collect ctx_err tick sink ctx batch s = Some res \<Longrightarrow>
   (\<exists>p. fst res = Panic p) \<or> fst res = Ret (ctx_err ctx (snd res))"
proof (induct pc publish collect ctx_err tick sink ctx batch s res rule: relay_from.raw_induct [rotated, consumes 1])
  case (1 rec pc publish collect ctx_err tick sink ctx batch s res)
  then show ?case by (auto split: option.splits outcome.splits if_splits prod.splits)
qed

section \<open>Facts about the inserts\<close>

lemma outbox_no_headers [simp]: "unmarshal_headers ''{}'' = []"
  by (simp add: unmarshal_headers_def)

lemma outbox_publish_inserts:
  assumes "event_insert_law (db_pool (os_db sink)) jsonb v"
    and "outbox_publish sink (context_with_tx ctx t) ev s = (r, s1)"
  shows "dv_data v (w_app s1) = dv_data v (w_app s)" "dv_open v (w_app s1) = dv_open v (w_app s)"
    and "r = Ret None \<Longrightarrow> \<exists>i. i \<notin> set (event_ids (dv_pending v t (w_app s))) \<and>
      dv_pending v t (w_app s1) = (dv_pending v t (w_app s))
        \<lparr>ed_events := ed_events (dv_pending v t (w_app s)) @
          [(\<lparr>ob_id = i, ob_name = en_name ev, ob_payload = jsonb (en_payload ev),
             ob_headers = unmarshal_headers (outbox_headers ev)\<rparr>, False)]\<rparr>"
proof -
  let ?args = "[GStr (en_name ev), GStr (en_payload ev), GStr (outbox_headers ev)]"
  have q: "get_querier (context_with_tx ctx t) FromPool = FromTx t"
    by (simp add: get_querier_def context_with_tx_def tx_from_context_def)
  obtain re se where run: "po_exec (db_pool (os_db sink)) (FromTx t) (context_with_tx ctx t) insert_event_sql ?args s = (re, se)"
    by (cases "po_exec (db_pool (os_db sink)) (FromTx t) (context_with_tx ctx t) insert_event_sql ?args s")
  with assms(2) q have r: "s1 = se" "r = (case re of Inl err \<Rightarrow> Ret (Some err) | Inr tag \<Rightarrow> Ret None)"
    by (simp_all add: outbox_publish_def split: sum.splits)
  from assms(1) run have law: "dv_data v (w_app se) = dv_data v (w_app s) \<and> dv_open v (w_app se) = dv_open v (w_app s) \<and>
      (\<forall>tag. re = Inr tag \<longrightarrow> (\<exists>i. i \<notin> set (event_ids (dv_pending v t (w_app s))) \<and>
         dv_pending v t (w_app se) = (dv_pending v t (w_app s))
           \<lparr>ed_events := ed_events (dv_pending v t (w_app s)) @
             [(\<lparr>ob_id = i, ob_name = en_name ev, ob_payload = jsonb (en_payload ev),
                ob_headers = unmarshal_headers (outbox_headers ev)\<rparr>, False)]\<rparr>))"
    unfolding event_insert_law_def by blast
  then show "dv_data v (w_app s1) = dv_data v (w_app s)" "dv_open v (w_app s1) = dv_open v (w_app s)"
    by (simp_all add: r)
  show "r = Ret None \<Longrightarrow> \<exists>i. i \<notin> set (event_ids (dv_pending v t (w_app s))) \<and>
      dv_pending v t (w_app s1) = (dv_pending v t (w_app s))
        \<lparr>ed_events := ed_events (dv_pending v t (w_app s)) @
          [(\<lparr>ob_id = i, ob_name = en_name ev, ob_payload = jsonb (en_payload ev),
             ob_headers = unmarshal_headers (outbox_headers ev)\<rparr>, False)]\<rparr>"
    using law by (simp add: r split: sum.splits)
qed

lemma user_insert:
  assumes "user_insert_law pool collect v"
    and run: "pg_scalar pc pool collect 0 ctx (FromTx t) insert_user_sql [GStr email] s = ((uid, err), s2)"
  shows "dv_data v (w_app s2) = dv_data v (w_app s)" "dv_open v (w_app s2) = dv_open v (w_app s)"
    and "err = None \<Longrightarrow> dv_pending v t (w_app s2) = (dv_pending v t (w_app s))
      \<lparr>ed_users := ed_users (dv_pending v t (w_app s)) @ [(uid, email)]\<rparr>"
proof -
  obtain r s1 where q: "po_query pool (FromTx t) ctx insert_user_sql [GStr email] s = (r, s1)"
    by (cases "po_query pool (FromTx t) ctx insert_user_sql [GStr email] s")
  from assms(1) q have law: "dv_data v (w_app s1) = dv_data v (w_app s) \<and> dv_open v (w_app s1) = dv_open v (w_app s) \<and>
      (\<forall>rows uid err s2. r = Inr rows \<longrightarrow> collect SingleColumn rows s1 = ((uid, err), s2) \<longrightarrow>
         dv_data v (w_app s2) = dv_data v (w_app s) \<and> dv_open v (w_app s2) = dv_open v (w_app s) \<and>
         (err = None \<longrightarrow> dv_pending v t (w_app s2) = (dv_pending v t (w_app s))
            \<lparr>ed_users := ed_users (dv_pending v t (w_app s)) @ [(uid, email)]\<rparr>))"
    unfolding user_insert_law_def by blast
  have "dv_data v (w_app s2) = dv_data v (w_app s) \<and> dv_open v (w_app s2) = dv_open v (w_app s) \<and>
    (err = None \<longrightarrow> dv_pending v t (w_app s2) = (dv_pending v t (w_app s))
      \<lparr>ed_users := ed_users (dv_pending v t (w_app s)) @ [(uid, email)]\<rparr>)"
  proof (cases r)
    case (Inl e)
    with run q law classify_Some [of pc e] show ?thesis by (auto simp: pg_scalar_def get_row_def)
  next
    case (Inr rows)
    obtain u e s3 where c: "collect SingleColumn rows s1 = ((u, e), s3)"
      by (cases "collect SingleColumn rows s1") auto
    with run q Inr have "uid = u" "err = classify pc e" "s2 = s3"
      by (simp_all add: pg_scalar_def get_row_def)
    with law Inr c show ?thesis by simp
  qed
  then show "dv_data v (w_app s2) = dv_data v (w_app s)" "dv_open v (w_app s2) = dv_open v (w_app s)"
    "err = None \<Longrightarrow> dv_pending v t (w_app s2) = (dv_pending v t (w_app s))
      \<lparr>ed_users := ed_users (dv_pending v t (w_app s)) @ [(uid, email)]\<rparr>"
    by simp_all
qed

text \<open>The data that a committed \<open>createUser\<close> leaves.\<close>

definition user_and_event :: "'e event_env \<Rightarrow> (int \<Rightarrow> string \<Rightarrow> 'e) \<Rightarrow> (string \<Rightarrow> string) \<Rightarrow> string \<Rightarrow>
    example_data \<Rightarrow> example_data \<Rightarrow> bool" where
  "user_and_event env user_created jsonb email d d' \<longleftrightarrow>
     (\<exists>uid i payload. encode env default_codec (user_created uid email) = Inr payload \<and> i \<notin> set (event_ids d) \<and>
        ed_users d' = ed_users d @ [(uid, email)] \<and>
        ed_events d' = ed_events d @ [(\<lparr>ob_id = i, ob_name = ee_name env (user_created uid email),
          ob_payload = jsonb payload, ob_headers = []\<rparr>, False)])"

lemma emit_through_outbox:
  fixes sink :: "('c, 'w, 'r, 's) outbox_sink"
  assumes law: "event_insert_law (db_pool (os_db sink)) jsonb v"
    and run: "emit env (new_bus env (outbox_publish sink) []) (context_with_tx ctx t) e s = (r, s1)"
  shows "dv_data v (w_app s1) = dv_data v (w_app s)" "dv_open v (w_app s1) = dv_open v (w_app s)"
    and "r = Ret None \<Longrightarrow> \<exists>i payload. encode env default_codec e = Inr payload \<and>
      i \<notin> set (event_ids (dv_pending v t (w_app s))) \<and>
      dv_pending v t (w_app s1) = (dv_pending v t (w_app s))
        \<lparr>ed_events := ed_events (dv_pending v t (w_app s)) @
          [(\<lparr>ob_id = i, ob_name = ee_name env e, ob_payload = jsonb payload, ob_headers = []\<rparr>, False)]\<rparr>"
proof -
  let ?b = "new_bus env (outbox_publish sink) []"
  have never: "bus_coerce ?b err name = None \<longleftrightarrow> False" for err name
    using event_coercer.some_out [OF default_events.event_coercer_axioms, of err]
    by (auto simp: bus_coerce_def new_bus_def)
  have fields: "bs_publish ?b = outbox_publish sink" "bs_codec ?b = default_codec" "bs_publish_mw ?b = []"
    by (simp_all add: new_bus_def)
  have ways: "s1 = s \<and> r \<noteq> Ret None \<or>
    (\<exists>payload rp. encode env default_codec e = Inr payload \<and>
       outbox_publish sink (context_with_tx ctx t) \<lparr>en_name = ee_name env e, en_payload = payload, en_headers = []\<rparr> s = (rp, s1) \<and>
       (r = Ret None \<longrightarrow> rp = Ret None))"
    using run
    by (auto simp: emit_def base_publisher_def fields Let_def never
        split: option.splits sum.splits prod.splits outcome.splits)
  then show "dv_data v (w_app s1) = dv_data v (w_app s)" "dv_open v (w_app s1) = dv_open v (w_app s)"
    using outbox_publish_inserts(1,2) [where sink = sink, OF law] by blast+
  assume "r = Ret None"
  with ways obtain payload where enc: "encode env default_codec e = Inr payload" and
    pub: "outbox_publish sink (context_with_tx ctx t)
      \<lparr>en_name = ee_name env e, en_payload = payload, en_headers = []\<rparr> s = (Ret None, s1)" by blast
  from outbox_publish_inserts(3) [where sink = sink, OF law pub] enc
  show "\<exists>i payload. encode env default_codec e = Inr payload \<and>
      i \<notin> set (event_ids (dv_pending v t (w_app s))) \<and>
      dv_pending v t (w_app s1) = (dv_pending v t (w_app s))
        \<lparr>ed_events := ed_events (dv_pending v t (w_app s)) @
          [(\<lparr>ob_id = i, ob_name = ee_name env e, ob_payload = jsonb payload, ob_headers = []\<rparr>, False)]\<rparr>"
    by (auto simp: outbox_headers_def)
qed

lemma create_user_body_inserts:
  assumes contract: "insert_contract (db_pool db) collect jsonb v"
    and quiet: "\<And>g. after = Some g \<Longrightarrow> leaves_tables g v"
    and run: "create_user_body pc db collect env user_created
      (new_bus env (outbox_publish (new_outbox_sink db inner)) []) email after (context_with_tx ctx t) s = (r, s')"
  shows "dv_data v (w_app s') = dv_data v (w_app s) \<and> dv_open v (w_app s') = dv_open v (w_app s) \<and>
    (r = Ret None \<longrightarrow> user_and_event env user_created jsonb email (dv_pending v t (w_app s)) (dv_pending v t (w_app s')))"
proof -
  let ?ctx = "context_with_tx ctx t" and ?sink = "new_outbox_sink db inner"
  let ?bus = "new_bus env (outbox_publish ?sink) []"
  have q: "get_querier ?ctx FromPool = FromTx t"
    by (simp add: get_querier_def context_with_tx_def tx_from_context_def)
  have laws: "user_insert_law (db_pool db) collect v" "event_insert_law (db_pool (os_db ?sink)) jsonb v"
    using contract by (simp_all add: insert_contract_def new_outbox_sink_def)
  obtain uid err s1 where ins: "pg_scalar pc (db_pool db) collect 0 ?ctx (FromTx t) insert_user_sql [GStr email] s =
      ((uid, err), s1)"
    by (cases "pg_scalar pc (db_pool db) collect 0 ?ctx (FromTx t) insert_user_sql [GStr email] s") auto
  note user = user_insert [OF laws(1) ins]
  show ?thesis
  proof (cases err)
    case (Some e)
    with run ins q user(1,2) show ?thesis by (auto simp: create_user_body_def)
  next
    case None
    obtain re s2 where em: "emit env ?bus ?ctx (user_created uid email) s1 = (re, s2)"
      by (cases "emit env ?bus ?ctx (user_created uid email) s1")
    note event = emit_through_outbox [where sink = ?sink, OF laws(2) em]
    show ?thesis
    proof (cases "re = Ret None")
      case False
      with run ins q None em have "r = re" "s' = s2"
        by (auto simp: create_user_body_def split: outcome.splits option.splits)
      with False user(1,2) event(1,2) show ?thesis by simp
    next
      case True
      with run ins q None em have rest: "(case after of Some g \<Rightarrow> g ?ctx s2 | None \<Rightarrow> (Ret None, s2)) = (r, s')"
        by (simp add: create_user_body_def)
      have same: "dv_data v (w_app s') = dv_data v (w_app s2)" "dv_open v (w_app s') = dv_open v (w_app s2)"
        "dv_pending v t (w_app s') = dv_pending v t (w_app s2)"
        using rest quiet by (auto simp: leaves_tables_def split: option.splits)
      from event(3) [OF True] user(3) [OF None]
      have "user_and_event env user_created jsonb email (dv_pending v t (w_app s)) (dv_pending v t (w_app s2))"
        by (auto simp: user_and_event_def event_ids_def)
      with same user(1,2) event(1,2) show ?thesis by simp
    qed
  qed
qed

lemma create_user_outcome:
  assumes "insert_contract (db_pool db) collect jsonb v"
    and "\<And>g. after = Some g \<Longrightarrow> leaves_tables g v"
    and "create_user pc db collect env user_created ctx
      (new_bus env (outbox_publish (new_outbox_sink db inner)) []) email after s = (r, s')"
  shows "dv_open v (w_app s') = dv_open v (w_app s) \<and>
    (case r of
       Ret None \<Rightarrow> user_and_event env user_created jsonb email (dv_data v (w_app s)) (dv_data v (w_app s'))
     | Ret (Some err) \<Rightarrow> dv_data v (w_app s') = dv_data v (w_app s) \<or>
         commit_in_doubt db ctx \<lparr>to_iso = ReadCommitted, to_access = AnyAccess\<rparr>
           (\<lambda>t. create_user_body pc db collect env user_created
              (new_bus env (outbox_publish (new_outbox_sink db inner)) []) email after (context_with_tx ctx t)) s
     | Panic p \<Rightarrow> dv_data v (w_app s') = dv_data v (w_app s))"
proof -
  let ?f = "\<lambda>t. create_user_body pc db collect env user_created
    (new_bus env (outbox_publish (new_outbox_sink db inner)) []) email after (context_with_tx ctx t)"
  have body: "dv_data v (w_app s') = dv_data v (w_app s) \<and> dv_open v (w_app s') = dv_open v (w_app s) \<and>
    (r = Ret None \<longrightarrow> user_and_event env user_created jsonb email (dv_pending v t (w_app s)) (dv_pending v t (w_app s')))"
    if "?f t s = (r, s')" for t s r s'
    using create_user_body_inserts [OF assms(1,2) that] .
  then have "body_contract ?f v"
    unfolding body_contract_def by (metis prod.collapse)
  with assms(1) have "tx_outcome db ctx \<lparr>to_iso = ReadCommitted, to_access = AnyAccess\<rparr> ?f v s r s'"
    using pg_tx_outcome assms(3) unfolding create_user_def tx_ctx_def insert_contract_def by blast
  moreover have "user_and_event env user_created jsonb email (dv_data v (w_app s)) (dv_data v (w_app s'))"
    if "applied db ctx \<lparr>to_iso = ReadCommitted, to_access = AnyAccess\<rparr> ?f v s s'"
  proof -
    from that obtain t s1 s2 where
      began: "po_begin (db_pool db) ctx \<lparr>to_iso = ReadCommitted, to_access = AnyAccess\<rparr> s = (Inr t, s1)"
      and ran: "?f t s1 = (Ret None, s2)" and "dv_data v (w_app s') = dv_pending v t (w_app s2)"
      by (auto simp: applied_def)
    moreover from assms(1) began have "dv_pending v t (w_app s1) = dv_data v (w_app s)"
      by (simp add: insert_contract_def)
    ultimately show ?thesis using body [OF ran] by simp
  qed
  ultimately show ?thesis
    by (auto simp: tx_outcome_def split: outcome.splits option.splits)
qed

section \<open>A database for the witnesses\<close>

record outbox_mem =
  om_data :: example_data
  om_pending :: "nat \<Rightarrow> example_data"
  om_open :: "nat list"
  om_sent :: "envelope list"

definition om_update :: "nat \<Rightarrow> (example_data \<Rightarrow> example_data) \<Rightarrow> outbox_mem world \<Rightarrow> outbox_mem world" where
  "om_update t f s = s\<lparr>w_app := (w_app s)\<lparr>om_pending := (om_pending (w_app s))(t := f (om_pending (w_app s) t))\<rparr>\<rparr>"

definition om_close :: "nat \<Rightarrow> outbox_mem world \<Rightarrow> outbox_mem world" where
  "om_close t s = s\<lparr>w_app := (w_app s)\<lparr>om_open := filter (\<lambda>u. u \<noteq> t) (om_open (w_app s))\<rparr>\<rparr>"

definition next_event_id :: "example_data \<Rightarrow> int" where
  "next_event_id d = 1 + int (sum_list (map nat (event_ids d)))"

definition om_exec :: "querier \<Rightarrow> unit go_ctx_scheme \<Rightarrow> string \<Rightarrow> gval list \<Rightarrow> outbox_mem world \<Rightarrow>
    (go_error + string) \<times> outbox_mem world" where
  "om_exec q ctx sql args s =
     (case (q, args) of
        (FromTx t, [GInt i]) \<Rightarrow> (Inr [], if sql = mark_event_sql then om_update t (mark_row i) s else s)
      | (FromTx t, [GStr name, GStr payload, GStr headers]) \<Rightarrow>
          (Inr [], if sql = insert_event_sql
             then om_update t (\<lambda>d. d\<lparr>ed_events := ed_events d @
               [(\<lparr>ob_id = next_event_id d, ob_name = name, ob_payload = payload,
                  ob_headers = unmarshal_headers headers\<rparr>, False)]\<rparr>) s
             else s)
      | _ \<Rightarrow> (Inr [], s))"

definition om_query :: "querier \<Rightarrow> unit go_ctx_scheme \<Rightarrow> string \<Rightarrow> gval list \<Rightarrow> outbox_mem world \<Rightarrow>
    (go_error + outbox_row list \<times> int) \<times> outbox_mem world" where
  "om_query q ctx sql args s =
     (case (q, args) of
        (FromTx t, [GInt n]) \<Rightarrow> (Inr (take (nat n) (due_rows {} (om_pending (w_app s) t)), 0), s)
      | (FromTx t, [GStr email]) \<Rightarrow>
          (let uid = int (Suc (length (ed_users (om_pending (w_app s) t))))
           in (Inr ([], uid), om_update t (\<lambda>d. d\<lparr>ed_users := ed_users d @ [(uid, email)]\<rparr>) s))
      | _ \<Rightarrow> (Inr ([], 0), s))"

definition om_pool :: "(unit, outbox_mem, outbox_row list \<times> int) pg_pool" where
  "om_pool = \<lparr>
     po_begin = (\<lambda>ctx opts s. let t = Suc (sum_list (om_open (w_app s))) in
       (Inr t, s\<lparr>w_app := (w_app s)\<lparr>om_open := t # om_open (w_app s),
          om_pending := (om_pending (w_app s))(t := om_data (w_app s))\<rparr>\<rparr>)),
     po_commit = (\<lambda>t ctx s. (None, om_close t (s\<lparr>w_app := (w_app s)\<lparr>om_data := om_pending (w_app s) t\<rparr>\<rparr>))),
     po_rollback = (\<lambda>t ctx s. (None, om_close t s)),
     po_exec = om_exec, po_query = om_query,
     po_query_row = (\<lambda>q ctx query args s. (([], 0), s)), po_ping = (\<lambda>ctx s. (None, s)), po_close = (\<lambda>s. s)\<rparr>"

definition om_view :: "outbox_mem outbox_view" where
  "om_view = \<lparr>ov_db = \<lparr>dv_data = om_data, dv_pending = (\<lambda>t w. om_pending w t), dv_open = (\<lambda>w. set (om_open w))\<rparr>,
     ov_sent = om_sent, ov_locked = (\<lambda>w. {})\<rparr>"

definition om_inner :: "(unit, outbox_mem, unit) inner_publish" where
  "om_inner inner ctx ev s = (Ret None, s\<lparr>w_app := (w_app s)\<lparr>om_sent := om_sent (w_app s) @ [ev]\<rparr>\<rparr>)"

definition om_collect :: "(outbox_mem, outbox_row list \<times> int) row_collector" where
  "om_collect mapper rows s = ((fst rows, None), s)"

definition om_scalar :: "row_mapper \<Rightarrow> outbox_row list \<times> int \<Rightarrow> outbox_mem world \<Rightarrow>
    (int \<times> go_error option) \<times> outbox_mem world" where
  "om_scalar mapper rows s = ((snd rows, None), s)"

definition om_db :: "(unit, outbox_mem, outbox_row list \<times> int) pg_db" where
  "om_db = \<lparr>db_pool = om_pool, db_logger = None\<rparr>"

definition om_sink :: "(unit, outbox_mem, outbox_row list \<times> int, unit) outbox_sink" where
  "om_sink = new_outbox_sink om_db ()"

definition waiting_row :: "int \<Rightarrow> string \<Rightarrow> outbox_row \<times> bool" where
  "waiting_row i payload = (\<lparr>ob_id = i, ob_name = ''note'', ob_payload = payload, ob_headers = []\<rparr>, False)"

definition om_start :: example_data where
  "om_start = \<lparr>ed_users = [], ed_events = [waiting_row 2 ''second'', waiting_row 1 ''first'']\<rparr>"

definition om_world :: "outbox_mem world" where
  "om_world = \<lparr>w_default = ''default'', w_log = [],
     w_app = \<lparr>om_data = om_start, om_pending = (\<lambda>t. om_start), om_open = [], om_sent = []\<rparr>\<rparr>"

lemma om_pool_contract: "pool_contract om_pool (ov_db om_view)"
proof -
  have fresh: "Suc (sum_list ts) \<notin> set ts" for ts :: "nat list"
  proof
    assume "Suc (sum_list ts) \<in> set ts"
    from member_le_sum_list [OF this] show False by simp
  qed
  show ?thesis
    unfolding pool_contract_def using fresh
    by (auto simp: om_pool_def om_view_def om_close_def Let_def)
qed

lemma om_update_simps [simp]:
  "om_data (w_app (om_update t f s)) = om_data (w_app s)" "om_open (w_app (om_update t f s)) = om_open (w_app s)"
  "om_sent (w_app (om_update t f s)) = om_sent (w_app s)"
  "om_pending (w_app (om_update t f s)) = (om_pending (w_app s))(t := f (om_pending (w_app s) t))"
  by (simp_all add: om_update_def)

lemma next_event_id_new: "next_event_id d \<notin> set (event_ids d)"
proof
  assume "next_event_id d \<in> set (event_ids d)"
  then have "nat (next_event_id d) \<in> set (map nat (event_ids d))" by simp
  from member_le_sum_list [OF this] show False by (simp add: next_event_id_def)
qed

lemma om_contract: "outbox_contract (db_pool (os_db om_sink)) (om_inner (os_next om_sink)) om_collect om_view"
proof -
  have "tx_laws om_pool om_view"
    by (simp add: tx_laws_def om_pool_def om_view_def quiet_def om_close_def Let_def)
  moreover have "select_law om_pool om_collect om_view"
    by (auto simp: select_law_def om_pool_def om_view_def om_query_def om_collect_def stays_def)
  moreover have "mark_law om_pool om_view"
    by (auto simp: mark_law_def om_pool_def om_view_def om_exec_def stays_def)
  moreover have "inner_law (om_inner ()) om_view"
    by (auto simp: inner_law_def om_inner_def om_view_def stays_def)
  ultimately show ?thesis
    by (simp add: outbox_contract_def om_pool_contract om_sink_def om_db_def new_outbox_sink_def)
qed

lemma om_insert_contract: "insert_contract (db_pool om_db) om_scalar (\<lambda>p. p) (ov_db om_view)"
proof -
  have "user_insert_law om_pool om_scalar (ov_db om_view)"
    by (auto simp: user_insert_law_def om_pool_def om_view_def om_query_def om_scalar_def Let_def)
  moreover have "event_insert_law om_pool (\<lambda>p. p) (ov_db om_view)"
    using next_event_id_new by (auto simp: event_insert_law_def om_pool_def om_view_def om_exec_def)
  moreover have "dv_pending (ov_db om_view) t (w_app s1) = dv_data (ov_db om_view) (w_app s)"
    if "po_begin om_pool ctx opts s = (Inr t, s1)" for ctx opts s t s1
    using that by (auto simp: om_pool_def om_view_def Let_def)
  ultimately show ?thesis by (simp add: insert_contract_def om_db_def om_pool_contract)
qed

section \<open>Properties\<close>



text \<open>C11: Draining ends and clears the backlog: with a positive batch, and keys that are distinct,
  \<open>drain\<close> returns whatever the database and the inner sink do. It hands over a prefix of what was
  due, in order and each row once; it hands over everything and leaves nothing due, unless it
  panicked or logged the failure of a batch.\<close>

theorem drain_clears_the_backlog:
  assumes "outbox_contract (db_pool (os_db sink)) (publish (os_next sink)) collect v"
    and "0 < batch" and "distinct (event_ids (dv_data (ov_db v) (w_app s)))"
  shows "\<exists>r s'. drain pc publish collect sink ctx batch s = Some (r, s') \<and>
    (\<exists>k\<le>length (due v s). ov_sent v (w_app s') = ov_sent v (w_app s) @ map row_envelope (take k (due v s))) \<and>
    (r = Ret () \<longrightarrow>
       due v s' = [] \<and> ov_sent v (w_app s') = ov_sent v (w_app s) @ map row_envelope (due v s) \<or>
       (\<exists>s1 e. s' = log_to (w_default s1) LevelError ''outbox: relay batch failed'' [(''error'', e)] s1))"
  using drain_ends [where sink = sink and publish = publish and pc = pc and ctx = ctx, OF assms]
  unfolding drained_def by blast

theorem drain_clears_the_backlog_witness:
  "\<exists>r s'. drain sample_codes om_inner om_collect om_sink background 1 om_world = Some (r, s') \<and>
     (\<exists>k\<le>2. map en_payload (om_sent (w_app s')) = take k [''first'', ''second''])"
proof -
  have "distinct (event_ids (dv_data (ov_db om_view) (w_app om_world)))"
    by (simp add: om_view_def om_world_def om_start_def event_ids_def waiting_row_def)
  from drain_clears_the_backlog [where publish = om_inner and batch = 1 and pc = sample_codes and ctx = background,
      OF om_contract _ this]
  obtain r s' k where "drain sample_codes om_inner om_collect om_sink background 1 om_world = Some (r, s')"
    "k \<le> length (due om_view om_world)"
    "om_sent (w_app s') = map row_envelope (take k (due om_view om_world))"
    by (auto simp: om_view_def om_world_def)
  moreover have "due om_view om_world = [fst (waiting_row 1 ''first''), fst (waiting_row 2 ''second'')]"
    by (simp add: due_def due_rows_def om_view_def om_world_def om_start_def waiting_row_def)
  moreover have "map en_payload (map row_envelope (take k rows)) = take k (map ob_payload rows)" for k rows
    by (simp add: take_map row_envelope_def comp_def)
  ultimately show ?thesis
    by (intro exI [of _ r] exI [of _ s'] conjI exI [of _ k]) (simp_all add: waiting_row_def numeral_2_eq_2)
qed

text \<open>C7: No phantoms and none lost: over the outbox, \<open>createUser\<close> commits the user and its event
  together or neither. When it returns nil, one user and one waiting event of that user, encoded as
  \<open>Emit\<close> encodes it, were added to the committed tables, under a new key; when it fails, be it the
  insert, the validation, \<open>Emit\<close> or the rest of the request, or panics, both tables are as
  before, unless the commit itself got no answer of the server.\<close>

theorem users_and_events_commit_together:
  assumes "insert_contract (db_pool db) collect jsonb v"
    and "\<And>g. after = Some g \<Longrightarrow> leaves_tables g v"
    and "create_user pc db collect env user_created ctx
      (new_bus env (outbox_publish (new_outbox_sink db inner)) []) email after s = (r, s')"
  shows "dv_open v (w_app s') = dv_open v (w_app s) \<and>
    (case r of
       Ret None \<Rightarrow> user_and_event env user_created jsonb email (dv_data v (w_app s)) (dv_data v (w_app s'))
     | Ret (Some err) \<Rightarrow> dv_data v (w_app s') = dv_data v (w_app s) \<or>
         commit_in_doubt db ctx \<lparr>to_iso = ReadCommitted, to_access = AnyAccess\<rparr>
           (\<lambda>t. create_user_body pc db collect env user_created
              (new_bus env (outbox_publish (new_outbox_sink db inner)) []) email after (context_with_tx ctx t)) s
     | Panic p \<Rightarrow> dv_data v (w_app s') = dv_data v (w_app s))"
  using create_user_outcome [OF assms] .

theorem users_and_events_commit_together_witness:
  "\<exists>s'. create_user sample_codes om_db om_scalar text_env (\<lambda>uid email. email) background
       (new_bus text_env (outbox_publish (new_outbox_sink om_db ())) []) ''ada'' None om_world = (Ret None, s') \<and>
     ed_users (om_data (w_app s')) = [(1, ''ada'')] \<and> length (ed_events (om_data (w_app s'))) = 3"
proof -
  let ?bus = "new_bus text_env (outbox_publish (new_outbox_sink om_db ())) []"
  have "fst (create_user sample_codes om_db om_scalar text_env (\<lambda>uid email. email) background ?bus ''ada'' None om_world) = Ret None \<and>
    ed_users (om_data (w_app (snd (create_user sample_codes om_db om_scalar text_env (\<lambda>uid email. email) background
      ?bus ''ada'' None om_world)))) = [(1, ''ada'')]"
    by (simp add: create_user_def tx_ctx_def pg_tx_def new_outbox_sink_def om_db_def om_pool_def Let_def
        create_user_body_def get_querier_def context_with_tx_def tx_from_context_def pg_scalar_def get_row_def
        om_query_def om_scalar_def om_world_def om_start_def emit_def new_bus_def default_validator_def text_env_def
        encode_def default_codec_def base_publisher_def outbox_publish_def om_exec_def om_update_def om_close_def)
  then obtain s' where run: "create_user sample_codes om_db om_scalar text_env (\<lambda>uid email. email) background ?bus ''ada'' None
      om_world = (Ret None, s')" and users: "ed_users (om_data (w_app s')) = [(1, ''ada'')]"
    by (metis prod.collapse)
  from users_and_events_commit_together [OF om_insert_contract _ run] run users show ?thesis
    by (auto simp: user_and_event_def om_view_def om_world_def om_start_def)
qed

end
