(* ===== verification/EventConformance.thy ===== *)
theory EventConformance
  imports EventSinks HttpBody
begin

text \<open>
  \<open>events/internal/bustest/bustest.go\<close>, the conformance suite for a bus over a sink, with the
  backend of \<open>events/mem_test.go\<close>, the \<open>MemSink\<close>. A test is the list of failures it
  reports; the variables its closures capture are the application state. The goroutines that
  \<open>Publish\<close> starts run when the test waits (no test subscribes after it has published), in an
  order that is a parameter; a \<open>WaitGroup\<close> whose count does not come out even fails the
  test, where the code would hang or panic.
\<close>

section \<open>Flat structs in JSON\<close>

text \<open>
  \<open>json.Unmarshal\<close> into a struct of basic fields: a member goes to the field of that name, else
  to one that differs in case only, and is dropped when there is none; the first mismatch is reported,
  and the members after it are still bound.
\<close>

definition field_index :: "(string \<times> go_type) list \<Rightarrow> string \<Rightarrow> nat option" where
  "field_index fs k =
     (case find (\<lambda>i. fst (fs ! i) = k) [0..<length fs] of
        Some i \<Rightarrow> Some i
      | None \<Rightarrow> find (\<lambda>i. lower_ascii (fst (fs ! i)) = lower_ascii k) [0..<length fs])"

fun bind_members :: "(string \<times> go_type) list \<Rightarrow> (string \<times> json) list \<Rightarrow>
    unit fval list \<times> go_error option \<Rightarrow> unit fval list \<times> go_error option" where
  "bind_members fs [] r = r"
| "bind_members fs ((k, j) # ms) (v, err) =
     (case field_index fs k of
        None \<Rightarrow> bind_members fs ms (v, err)
      | Some i \<Rightarrow>
          (case unmarshal_value (\<lambda>t raw x. (x, None)) (snd (fs ! i)) (json_text j) j (v ! i) of
             (x, e) \<Rightarrow> bind_members fs ms (v[i := x], if err = None then e else err)))"

definition unmarshal_struct :: "(string \<times> go_type) list \<Rightarrow> string \<Rightarrow> unit fval list \<Rightarrow>
    unit fval list \<times> go_error option" where
  "unmarshal_struct fs payload v =
     (case parse_json payload of
        None \<Rightarrow> (v, Some (ErrText ''invalid JSON''))
      | Some JNull \<Rightarrow> (v, None)
      | Some (JObj ms) \<Rightarrow> bind_members fs ms (v, None)
      | Some j \<Rightarrow> (v, Some (type_mismatch ''struct'' (json_kind j))))"

section \<open>The sample events\<close>

datatype bt_event = Ping int | NeedsEmail string

definition email_missing :: go_error where
  "email_missing = EEvent (event_new ''validation_failed'' [(''field'', GStr ''email'')] [])"

definition bt_name :: "bt_event \<Rightarrow> string" where
  "bt_name e = (case e of Ping n \<Rightarrow> ''bustest.ping'' | NeedsEmail m \<Rightarrow> ''bustest.needs_email'')"

definition bt_validate :: "bt_event \<Rightarrow> go_error option option" where
  "bt_validate e =
     (case e of Ping n \<Rightarrow> None | NeedsEmail m \<Rightarrow> Some (if m = [] then Some email_missing else None))"

definition bt_marshal :: "bt_event \<Rightarrow> go_error + string" where
  "bt_marshal e =
     (case e of
        Ping n \<Rightarrow> Inr (json_text (JObj [(''seq'', JNum n)]))
      | NeedsEmail m \<Rightarrow> Inr (json_text (JObj [(''email'', JStr m)])))"

definition bt_unmarshal :: "string \<Rightarrow> bt_event \<Rightarrow> bt_event \<times> go_error option" where
  "bt_unmarshal payload e =
     (case e of
        Ping n \<Rightarrow>
          (case unmarshal_struct [(''seq'', TInt ''int'' 64)] payload [VInt n] of
             (v, err) \<Rightarrow> (Ping (case v ! 0 of VInt m \<Rightarrow> m | _ \<Rightarrow> n), err))
      | NeedsEmail m \<Rightarrow>
          (case unmarshal_struct [(''email'', TString)] payload [VString m] of
             (v, err) \<Rightarrow> (NeedsEmail (case v ! 0 of VString t \<Rightarrow> t | _ \<Rightarrow> m), err)))"

definition bt_env :: "bt_event event_env" where
  "bt_env = \<lparr>ee_name = bt_name, ee_validate = bt_validate, ee_url_name = (\<lambda>e. None),
     ee_marshal = bt_marshal, ee_unmarshal = bt_unmarshal\<rparr>"

definition ping_type :: "bt_event event_type" where
  "ping_type = \<lparr>et_zero = Ping 0, et_new = None\<rparr>"

definition email_type :: "bt_event event_type" where
  "email_type = \<lparr>et_zero = NeedsEmail [], et_new = None\<rparr>"

section \<open>The frame of a test\<close>

record bt =
  bt_pending :: "(go_ctx \<times> envelope) list"
  bt_done :: nat
  bt_got :: int
  bt_ran :: bool
  bt_err :: "go_error event_error option"
  bt_order :: "string list"

definition bt_start :: "bt world" where
  "bt_start = \<lparr>w_default = ''default'', w_log = [],
     w_app = \<lparr>bt_pending = [], bt_done = 0, bt_got = 0, bt_ran = False, bt_err = None, bt_order = []\<rparr>\<rparr>"

type_synonym bt_bus = "(unit, bt, bt_event) bus"
type_synonym bt_sink = "(unit, bt) mem_sink"
type_synonym bt_task = "(unit, bt) handler \<times> go_ctx \<times> envelope"

record bus_backend =
  bb_new :: "(unit, bt, bt_event) bus_option list \<Rightarrow> bt_bus \<times> bt_sink"
  bb_publish :: "go_ctx \<Rightarrow> envelope \<Rightarrow> bt world \<Rightarrow> go_error option outcome \<times> bt world"
  bb_wait :: "bt_sink \<Rightarrow> bt world \<Rightarrow> unit outcome \<times> bt world"

definition note_pending :: "go_ctx \<Rightarrow> envelope \<Rightarrow> bt world \<Rightarrow> go_error option outcome \<times> bt world" where
  "note_pending ctx ev s = (Ret None, s\<lparr>w_app := (w_app s)\<lparr>bt_pending := bt_pending (w_app s) @ [(ctx, ev)]\<rparr>\<rparr>)"

text \<open>The goroutines that the publishes of a test start, and their run in some order.\<close>

definition started :: "bt_sink \<Rightarrow> bt world \<Rightarrow> bt_task list" where
  "started sink s = concat (map (\<lambda>(ctx, ev).
     mm_tasks (snd (mem_publish sink ctx ev \<lparr>mm_world = s, mm_tasks = []\<rparr>))) (bt_pending (w_app s)))"

fun run_tasks :: "bt_task list \<Rightarrow> bt world \<Rightarrow> unit outcome \<times> bt world" where
  "run_tasks [] s = (Ret (), s)"
| "run_tasks ((d, ctx, ev) # ts) s =
     (case d ctx ev s of (Panic p, s') \<Rightarrow> (Panic p, s') | (Ret r, s') \<Rightarrow> run_tasks ts s')"

definition mem_backend :: "(bt_task list \<Rightarrow> bt_task list) \<Rightarrow> bus_backend" where
  "mem_backend order =
     \<lparr>bb_new = (\<lambda>opts. (new_bus bt_env note_pending opts, new_mem_sink)), bb_publish = note_pending,
      bb_wait = (\<lambda>sink s. run_tasks (order (started sink s)) s)\<rparr>"

definition done_one :: "bt world \<Rightarrow> bt world" where
  "done_one s = s\<lparr>w_app := (w_app s)\<lparr>bt_done := bt_done (w_app s) + 1\<rparr>\<rparr>"

definition capture_error :: "(unit, bt, bt_event) bus_option" where
  "capture_error = with_error_handler (\<lambda>ctx ev err s.
     (Ret (), done_one (s\<lparr>w_app := (w_app s)\<lparr>bt_err := Some err\<rparr>\<rparr>)))"

definition with_bus :: "bus_backend \<Rightarrow> (unit, bt, bt_event) bus_option list \<Rightarrow>
    (bt_bus \<Rightarrow> bt_sink \<Rightarrow> string list) \<Rightarrow> string list" where
  "with_bus f opts k = (case bb_new f opts of (b, sink) \<Rightarrow> k b sink)"

definition on_bus :: "bt_bus \<Rightarrow> bt_event event_type \<Rightarrow> (unit, bt, bt_event) event_handler \<Rightarrow>
    (unit, bt) delivery_mw list \<Rightarrow> bt_sink \<Rightarrow> (bt_sink \<Rightarrow> string list) \<Rightarrow> string list" where
  "on_bus b t h mw sink k =
     (case on_event bt_env b t h mw mem_subscribe sink of
        (Panic p, sink') \<Rightarrow> [panic_text p] | (Ret _, sink') \<Rightarrow> k sink')"

definition emitted :: "bt_bus \<Rightarrow> bt_event \<Rightarrow> bt world \<Rightarrow>
    (go_error option \<Rightarrow> bt world \<Rightarrow> string list) \<Rightarrow> string list" where
  "emitted b e s k =
     (case emit bt_env b background e s of (Panic p, s') \<Rightarrow> [panic_text p] | (Ret r, s') \<Rightarrow> k r s')"

definition wait_for :: "bus_backend \<Rightarrow> bt_sink \<Rightarrow> nat \<Rightarrow> bt world \<Rightarrow> (bt world \<Rightarrow> string list) \<Rightarrow> string list" where
  "wait_for f sink n s k =
     (case bb_wait f sink s of
        (Panic p, s') \<Rightarrow> [panic_text p]
      | (Ret _, s') \<Rightarrow> if bt_done (w_app s') = n then k s' else [''wait group''])"

definition error_code :: "bt world \<Rightarrow> string" where
  "error_code s = (case bt_err (w_app s) of None \<Rightarrow> [] | Some e \<Rightarrow> evt_code e)"

text \<open>The handlers of the suite.\<close>

definition done_handler :: "(unit, bt, bt_event) event_handler" where
  "done_handler ctx e s = (Ret None, done_one s)"

definition ran_handler :: "(unit, bt, bt_event) event_handler" where
  "ran_handler ctx e s = (Ret None, s\<lparr>w_app := (w_app s)\<lparr>bt_ran := True\<rparr>\<rparr>)"

definition failing_with :: "go_error \<Rightarrow> (unit, bt, bt_event) event_handler" where
  "failing_with err ctx e s = (Ret (Some err), s)"

section \<open>The tests\<close>

definition delivers_to_subscriber :: "bus_backend \<Rightarrow> string list" where
  "delivers_to_subscriber f = with_bus f [] (\<lambda>b sink.
     on_bus b ping_type (\<lambda>ctx e s. (Ret None, done_one (s\<lparr>w_app := (w_app s)\<lparr>bt_got :=
         (case e of Ping n \<Rightarrow> n | _ \<Rightarrow> 0)\<rparr>\<rparr>))) [] sink (\<lambda>sink.
     emitted b (Ping 7) bt_start (\<lambda>err s.
     require (err = None) ''emit'' (wait_for f sink 1 s (\<lambda>s.
     check (bt_got (w_app s) = 7) ''seq'')))))"

definition fan_out_runs_every :: "bus_backend \<Rightarrow> string list" where
  "fan_out_runs_every f = with_bus f [] (\<lambda>b sink.
     on_bus b ping_type done_handler [] sink (\<lambda>sink.
     on_bus b ping_type done_handler [] sink (\<lambda>sink.
     emitted b (Ping 1) bt_start (\<lambda>err s.
     require (err = None) ''emit'' (wait_for f sink 2 s (\<lambda>s. []))))))"

definition emit_returns_nil_on_clean_publish :: "bus_backend \<Rightarrow> string list" where
  "emit_returns_nil_on_clean_publish f = with_bus f [] (\<lambda>b sink.
     on_bus b ping_type done_handler [] sink (\<lambda>sink.
     emitted b (Ping 1) bt_start (\<lambda>err s.
     check (err = None) ''emit'' @ wait_for f sink 1 s (\<lambda>s. []))))"

definition unknown_event_is_noop :: "bus_backend \<Rightarrow> string list" where
  "unknown_event_is_noop f = with_bus f [] (\<lambda>b sink.
     emitted b (Ping 1) bt_start (\<lambda>err s. check (err = None) ''emit''))"

text \<open>Nothing is awaited here; the last check is made before and after the goroutines would run.\<close>

definition validation_rejects_at_emit :: "bus_backend \<Rightarrow> string list" where
  "validation_rejects_at_emit f = with_bus f [] (\<lambda>b sink.
     on_bus b email_type ran_handler [] sink (\<lambda>sink.
     emitted b (NeedsEmail []) bt_start (\<lambda>err s.
     require (err \<noteq> None) ''emit''
       (require (case errors_as the_event (the err) of Some e \<Rightarrow> evt_code e = ''validation_failed'' | None \<Rightarrow> False)
          ''emit error''
         (check (\<not> bt_ran (w_app s)) ''handler ran'' @
          wait_for f sink 0 s (\<lambda>s. check (\<not> bt_ran (w_app s)) ''handler ran''))))))"

definition validation_rejects_at_deliver :: "bus_backend \<Rightarrow> string list" where
  "validation_rejects_at_deliver f = with_bus f [capture_error] (\<lambda>b sink.
     on_bus b email_type ran_handler [] sink (\<lambda>sink.
     wait_for f sink 1 (snd (bb_publish f background
         \<lparr>en_name = bt_name (NeedsEmail []), en_payload = ''{\"email\":\"\"}'', en_headers = []\<rparr> bt_start)) (\<lambda>s.
     check (error_code s = ''validation_failed'') ''error code'' @
     check (\<not> bt_ran (w_app s)) ''handler ran'')))"

definition decode_failure_reaches_error_handler :: "bus_backend \<Rightarrow> string list" where
  "decode_failure_reaches_error_handler f = with_bus f [capture_error] (\<lambda>b sink.
     on_bus b ping_type ran_handler [] sink (\<lambda>sink.
     wait_for f sink 1 (snd (bb_publish f background
         \<lparr>en_name = bt_name (Ping 0), en_payload = ''{not json'', en_headers = []\<rparr> bt_start)) (\<lambda>s.
     check (error_code s = ''decode_failed'') ''error code'' @
     check (\<not> bt_ran (w_app s)) ''handler ran'')))"

definition handler_error_reaches_error_handler :: "bus_backend \<Rightarrow> string list" where
  "handler_error_reaches_error_handler f = with_bus f [capture_error] (\<lambda>b sink.
     on_bus b ping_type (failing_with (EEvent (event_new ''boom'' [(''why'', GStr ''test'')] []))) [] sink (\<lambda>sink.
     emitted b (Ping 1) bt_start (\<lambda>err s.
     require (err = None) ''emit'' (wait_for f sink 1 s (\<lambda>s.
     check (error_code s = ''boom'') ''error code'' @
     check (case bt_err (w_app s) of Some e \<Rightarrow> evt_event e = bt_name (Ping 0) | None \<Rightarrow> False) ''error event'')))))"

definition reject_all :: "bt_event validator" where
  "reject_all e = Some (EEvent (event_new ''rejected'' [] []))"

definition custom_validator_honoured :: "bus_backend \<Rightarrow> string list" where
  "custom_validator_honoured f = with_bus f [with_validator reject_all] (\<lambda>b sink.
     emitted b (Ping 1) bt_start (\<lambda>err s. require (err \<noteq> None) ''emit'' []))"

definition err_sentinel :: go_error where
  "err_sentinel = EEvent (EventError (Some ''bustest.errSentinel'') ''sentinel'' [] [] [])"

definition custom_coercer_honoured :: "bus_backend \<Rightarrow> string list" where
  "custom_coercer_honoured f =
     with_bus f [with_event_coercer (\<lambda>err. Some (event_new ''coerced'' [] [])), capture_error] (\<lambda>b sink.
     on_bus b ping_type (failing_with err_sentinel) [] sink (\<lambda>sink.
     emitted b (Ping 1) bt_start (\<lambda>err s.
     require (err = None) ''emit'' (wait_for f sink 1 s (\<lambda>s.
     check (error_code s = ''coerced'') ''error code'')))))"

definition bt_tap :: "string \<Rightarrow> (unit, bt) delivery_mw" where
  "bt_tap label next ctx ev s = next ctx ev (s\<lparr>w_app := (w_app s)\<lparr>bt_order := bt_order (w_app s) @ [label]\<rparr>\<rparr>)"

definition middleware_composes_in_order :: "bus_backend \<Rightarrow> string list" where
  "middleware_composes_in_order f = with_bus f [] (\<lambda>b sink.
     let b = bus_use [bt_tap ''group''] b
     in on_bus b ping_type (\<lambda>ctx e s. (Ret None,
         done_one (s\<lparr>w_app := (w_app s)\<lparr>bt_order := bt_order (w_app s) @ [''handler'']\<rparr>\<rparr>))) [bt_tap ''route''] sink (\<lambda>sink.
     emitted b (Ping 1) bt_start (\<lambda>err s.
     require (err = None) ''emit'' (wait_for f sink 1 s (\<lambda>s.
     check (bt_order (w_app s) = [''group'', ''route'', ''handler'']) ''order'')))))"

definition stopping :: "(unit, bt) delivery_mw" where
  "stopping next ctx ev s = (Ret (Some (EEvent (event_new ''blocked'' [] []))), s)"

definition middleware_short_circuits :: "bus_backend \<Rightarrow> string list" where
  "middleware_short_circuits f = with_bus f [capture_error] (\<lambda>b sink.
     on_bus b ping_type ran_handler [stopping] sink (\<lambda>sink.
     emitted b (Ping 1) bt_start (\<lambda>err s.
     require (err = None) ''emit'' (wait_for f sink 1 s (\<lambda>s.
     check (error_code s = ''blocked'') ''error code'' @
     check (\<not> bt_ran (w_app s)) ''handler ran'')))))"

definition bus_suite :: "(string \<times> (bus_backend \<Rightarrow> string list)) list" where
  "bus_suite =
     [(''DeliversToSubscriber'', delivers_to_subscriber),
      (''FanOutRunsEvery'', fan_out_runs_every),
      (''EmitReturnsNilOnCleanPublish'', emit_returns_nil_on_clean_publish),
      (''UnknownEventIsNoop'', unknown_event_is_noop),
      (''ValidationRejectsAtEmit'', validation_rejects_at_emit),
      (''ValidationRejectsAtDeliver'', validation_rejects_at_deliver),
      (''DecodeFailureReachesErrorHandler'', decode_failure_reaches_error_handler),
      (''HandlerErrorReachesErrorHandler'', handler_error_reaches_error_handler),
      (''CustomValidatorHonoured'', custom_validator_honoured),
      (''CustomCoercerHonoured'', custom_coercer_honoured),
      (''MiddlewareComposesInOrder'', middleware_composes_in_order),
      (''MiddlewareShortCircuits'', middleware_short_circuits)]"

definition run_bus_suite :: "bus_backend \<Rightarrow> (string \<times> string) list" where
  "run_bus_suite f = concat (map (\<lambda>(name, t). map (Pair name) (t f)) bus_suite)"

section \<open>The MemSink passes\<close>

text \<open>The goroutines run in any order, each of them once.\<close>

definition any_order :: "(bt_task list \<Rightarrow> bt_task list) \<Rightarrow> bool" where
  "any_order order \<longleftrightarrow> (\<forall>ts. mset (order ts) = mset ts)"

lemma any_order_few:
  assumes "any_order order"
  shows "order [] = []" and "order [t] = [t]" and "order [t, t] = [t, t]"
proof -
  have "mset (order ts) = mset ts" for ts using assms by (simp add: any_order_def)
  then show "order [] = []" "order [t] = [t]" by (metis mset_zero_iff mset.simps(1), metis mset_single_iff_right)
  have "mset (order [t, t]) = mset [t, t]" by fact
  then have "set (order [t, t]) = {t}" "length (order [t, t]) = 2"
    by (metis list.simps(15) empty_set insert_absorb2 set_mset_mset, metis length_Cons list.size(3) mset_eq_length numeral_2_eq_2)
  then show "order [t, t] = [t, t]"
    by (metis (no_types, lifting) One_nat_def Suc_1 length_Suc_conv length_0_conv list.set_intros singletonD list.set_intros(2))
qed

declare json_text.simps [simp del] utf8_valid.simps(2) [simp del]

lemma ping_payload: "bt_unmarshal (json_text (JObj [(''seq'', JNum n)])) (Ping 0) =
    (case unmarshal_value (\<lambda>t raw x. (x, None)) (TInt ''int'' 64) (json_text (JNum n)) (JNum n) (VInt 0 :: unit fval) of
       (x, e) \<Rightarrow> (Ping (case x of VInt m \<Rightarrow> m | _ \<Rightarrow> 0), e))"
  by (simp add: bt_unmarshal_def unmarshal_struct_def parse_json_text utf8_valid_ascii byte_def field_index_def
      split: prod.splits)

lemma itoa_small: "itoa 1 = ''1''" "itoa 7 = ''7''"
  by code_simp+

lemma ping_payloads:
  "bt_unmarshal (json_text (JObj [(''seq'', JNum 1)])) (Ping 0) = (Ping 1, None)"
  "bt_unmarshal (json_text (JObj [(''seq'', JNum 7)])) (Ping 0) = (Ping 7, None)"
  by (simp_all add: ping_payload unmarshal_value_def unmarshal_int_def number_text_def itoa_small parse_int_def
      parse_uint_def is_digit_def digit_val_def max_uint64_def max_int64_def set_int_def signed_take_bit_int_eq_self
      Let_def)

lemma email_payload: "bt_unmarshal ''{\"email\":\"\"}'' (NeedsEmail []) = (NeedsEmail [], None)"
proof -
  have "''{\"email\":\"\"}'' = json_text (JObj [(''email'', JStr [])])" by (simp add: json_text.simps quote_json_def quote_ascii_def decode_rune_def byte_def)
  then show ?thesis
    by (simp add: bt_unmarshal_def unmarshal_struct_def parse_json_text utf8_valid_ascii byte_def field_index_def
        unmarshal_value_def)
qed

lemma bad_payload: "\<exists>err. bt_unmarshal ''{not json'' (Ping 0) = (Ping 0, Some err)"
proof -
  have "parse_json ''{not json'' = None"
    by (simp add: parse_json_def read_json_def numeral_eq_Suc)
  then show ?thesis by (simp add: bt_unmarshal_def unmarshal_struct_def)
qed

lemmas bus_run = mem_backend_def with_bus_def new_bus_def on_bus_def on_event_def codec_prepare_for_def default_codec_def
  new_mem_sink_def mem_subscribe_def subs_of_def name_of_def zero_event_def ping_type_def email_type_def bt_env_def
  bt_name_def emitted_def emit_def default_validator_def bt_validate_def encode_def bt_marshal_def apply_publish_def
  base_publisher_def note_pending_def bt_start_def wait_for_def started_def mem_publish_def background_def
lemmas bus_deliver = deliver_def apply_deliver_def combine_deliver_def base_handler_def decode_def on_ctx_def
  ping_payloads email_payload done_handler_def done_one_def ran_handler_def failing_with_def Let_def
  event_default_coercer_def errors_as_def chain.simps the_event_def capture_error_def with_error_handler_def
  with_validator_def with_event_coercer_def reject_all_def err_sentinel_def email_missing_def event_new_def
  error_code_def bus_coerce_def bus_use_def bt_tap_def stopping_def

lemma unknown_event_is_noop_ok: "unknown_event_is_noop (mem_backend order) = []"
  by (simp add: unknown_event_is_noop_def bus_run)

lemma delivers_to_subscriber_ok: "any_order order \<Longrightarrow> delivers_to_subscriber (mem_backend order) = []"
  by (simp add: delivers_to_subscriber_def bus_run any_order_few bus_deliver)

lemma fan_out_runs_every_ok: "any_order order \<Longrightarrow> fan_out_runs_every (mem_backend order) = []"
  by (simp add: fan_out_runs_every_def bus_run any_order_few bus_deliver)

lemma emit_returns_nil_ok: "any_order order \<Longrightarrow> emit_returns_nil_on_clean_publish (mem_backend order) = []"
  by (simp add: emit_returns_nil_on_clean_publish_def bus_run any_order_few bus_deliver)

lemma validation_rejects_at_emit_ok: "any_order order \<Longrightarrow> validation_rejects_at_emit (mem_backend order) = []"
  by (simp add: validation_rejects_at_emit_def bus_run any_order_few bus_deliver)

lemma validation_rejects_at_deliver_ok: "any_order order \<Longrightarrow> validation_rejects_at_deliver (mem_backend order) = []"
  by (simp add: validation_rejects_at_deliver_def bus_run any_order_few bus_deliver)

lemma decode_failure_ok: "any_order order \<Longrightarrow> decode_failure_reaches_error_handler (mem_backend order) = []"
  using bad_payload by (auto simp: decode_failure_reaches_error_handler_def bus_run any_order_few bus_deliver)

lemma handler_error_ok: "any_order order \<Longrightarrow> handler_error_reaches_error_handler (mem_backend order) = []"
  by (simp add: handler_error_reaches_error_handler_def bus_run any_order_few bus_deliver)

lemma custom_validator_ok: "custom_validator_honoured (mem_backend order) = []"
  by (simp add: custom_validator_honoured_def bus_run bus_deliver)

lemma custom_coercer_ok: "any_order order \<Longrightarrow> custom_coercer_honoured (mem_backend order) = []"
  by (simp add: custom_coercer_honoured_def bus_run any_order_few bus_deliver)

lemma middleware_order_ok: "any_order order \<Longrightarrow> middleware_composes_in_order (mem_backend order) = []"
  by (simp add: middleware_composes_in_order_def bus_run any_order_few bus_deliver)

lemma middleware_short_circuits_ok: "any_order order \<Longrightarrow> middleware_short_circuits (mem_backend order) = []"
  by (simp add: middleware_short_circuits_def bus_run any_order_few bus_deliver)

lemmas bus_suite_ok = unknown_event_is_noop_ok delivers_to_subscriber_ok fan_out_runs_every_ok emit_returns_nil_ok
  validation_rejects_at_emit_ok validation_rejects_at_deliver_ok decode_failure_ok handler_error_ok
  custom_validator_ok custom_coercer_ok middleware_order_ok middleware_short_circuits_ok

section \<open>Properties\<close>



end
