(* ===== verification/EventPrograms.thy ===== *)
theory EventPrograms
  imports EventConformance
begin

text \<open>
  The example programs on the \<open>MemSink\<close>: \<open>events/examples/basic\<close>,
  \<open>events/examples/plugin\<close> and \<open>events/examples/middleware\<close>. Each is a main goroutine
  that emits events and waits on a \<open>WaitGroup\<close>, beside the goroutines of the deliveries; the
  relation \<open>prog_step\<close> lets either side run next, and the program ends with its main goroutine.
  What \<open>log.Printf\<close> writes is part of the application state. The locale
  \<open>awaited_program\<close> states what the three have in common and proves that they end.
\<close>

section \<open>Programs\<close>

text \<open>The lines written, the counter of the \<open>WaitGroup\<close>, and the envelopes of a publish whose
  goroutines are yet to be started.\<close>

record 'c prog =
  pr_out :: "string list"
  pr_wait :: int
  pr_pending :: "('c go_ctx_scheme \<times> envelope) list"

type_synonym ('c, 'z) pworld = "('c, 'z) prog_scheme world"
type_synonym ('c, 'z) pstate = "('c, ('c, 'z) prog_scheme) mem_state"

definition print_line :: "string \<Rightarrow> ('c, 'z) pworld \<Rightarrow> ('c, 'z) pworld" where
  "print_line l s = s\<lparr>w_app := (w_app s)\<lparr>pr_out := pr_out (w_app s) @ [l]\<rparr>\<rparr>"

definition wait_add :: "int \<Rightarrow> ('c, 'z) pworld \<Rightarrow> unit outcome \<times> ('c, 'z) pworld" where
  "wait_add d s =
     (let n = pr_wait (w_app s) + d
      in (if n < 0 then Panic (PanicMsg ''sync: negative WaitGroup counter'') else Ret (),
          s\<lparr>w_app := (w_app s)\<lparr>pr_wait := n\<rparr>\<rparr>))"

text \<open>The end of a handler: \<open>wg.Done()\<close> and \<open>return nil\<close>.\<close>

definition done_nil :: "('c, 'z) pworld \<Rightarrow> go_error option outcome \<times> ('c, 'z) pworld" where
  "done_nil s = (case wait_add (- 1) s of (Panic p, s') \<Rightarrow> (Panic p, s') | (Ret _, s') \<Rightarrow> (Ret None, s'))"

text \<open>\<open>Publish\<close> of the sink notes the envelope; its goroutines start with the return of \<open>Emit\<close>.\<close>

definition prog_publish :: "'c go_ctx_scheme \<Rightarrow> envelope \<Rightarrow> ('c, 'z) pworld \<Rightarrow>
    go_error option outcome \<times> ('c, 'z) pworld" where
  "prog_publish ctx ev s = (Ret None, s\<lparr>w_app := (w_app s)\<lparr>pr_pending := pr_pending (w_app s) @ [(ctx, ev)]\<rparr>\<rparr>)"

definition launch :: "('c, ('c, 'z) prog_scheme) mem_sink \<Rightarrow> ('c, 'z) pstate \<Rightarrow> ('c, 'z) pstate" where
  "launch sink st =
     fold (\<lambda>(ctx, ev) st. snd (mem_publish sink ctx ev st)) (pr_pending (w_app (mm_world st)))
       (st\<lparr>mm_world := (mm_world st)\<lparr>w_app := (w_app (mm_world st))\<lparr>pr_pending := []\<rparr>\<rparr>\<rparr>)"

definition emit_on :: "'e event_env \<Rightarrow> ('c, ('c, 'z) prog_scheme, 'e) bus \<Rightarrow> ('c, ('c, 'z) prog_scheme) mem_sink \<Rightarrow>
    'c go_ctx_scheme \<Rightarrow> 'e \<Rightarrow> ('c, 'z) pstate \<Rightarrow> go_error option outcome \<times> ('c, 'z) pstate" where
  "emit_on env b sink ctx e st =
     (case emit env b ctx e (mm_world st) of (r, w) \<Rightarrow> (r, launch sink (st\<lparr>mm_world := w\<rparr>)))"

text \<open>
  A statement of \<open>main\<close>: a step that goes on or ends the process (\<open>log.Fatalf\<close>, a panic), or
  \<open>wg.Wait()\<close>.
\<close>

type_synonym ('c, 'z) action = "('c, 'z) pstate \<Rightarrow> bool \<times> ('c, 'z) pstate"

datatype ('c, 'z) stmt = Do "('c, 'z) action" | WaitAll

definition print_on :: "string \<Rightarrow> ('c, 'z) pstate \<Rightarrow> ('c, 'z) pstate" where
  "print_on l st = st\<lparr>mm_world := print_line l (mm_world st)\<rparr>"

definition fatal_unless_emitted :: "go_error option outcome \<times> ('c, 'z) pstate \<Rightarrow> bool \<times> ('c, 'z) pstate" where
  "fatal_unless_emitted r =
     (case r of
        (Panic p, st) \<Rightarrow> (False, st)
      | (Ret None, st) \<Rightarrow> (True, st)
      | (Ret (Some err), st) \<Rightarrow> (False, print_on (''emit: '' @ err_text err) st))"

inductive prog_step :: "('c, 'z) stmt list \<times> ('c, 'z) pstate \<Rightarrow> ('c, 'z) stmt list \<times> ('c, 'z) pstate \<Rightarrow> bool" where
  act: "a st = (True, st') \<Longrightarrow> prog_step (Do a # ms, st) (ms, st')"
| exit: "a st = (False, st') \<Longrightarrow> prog_step (Do a # ms, st) ([], st')"
| wait: "pr_wait (w_app (mm_world st)) = 0 \<Longrightarrow> prog_step (WaitAll # ms, st) (ms, st)"
| run: "ms \<noteq> [] \<Longrightarrow> mem_step st st' \<Longrightarrow> prog_step (ms, st) (ms, st')"

inductive_cases prog_stepE: "prog_step (ms, st) c"

text \<open>The program before its first emission: \<open>wg.Add(n)\<close> has run.\<close>

definition prog_start :: "int \<Rightarrow> ('c, 'z) prog_scheme \<Rightarrow> ('c, 'z) pstate" where
  "prog_start n app =
     \<lparr>mm_world = snd (wait_add n \<lparr>w_default = ''default'', w_log = [], w_app = app\<rparr>), mm_tasks = []\<rparr>"

section \<open>Programs that wait for what they started\<close>

text \<open>What one delivery does: its lines are written and the counter goes down by one.\<close>

definition finish :: "string list \<Rightarrow> ('c, 'z) pworld \<Rightarrow> ('c, 'z) pworld" where
  "finish ls s = s\<lparr>w_app := (w_app s)\<lparr>pr_out := pr_out (w_app s) @ ls, pr_wait := pr_wait (w_app s) - 1\<rparr>\<rparr>"

text \<open>
  The statements of \<open>main\<close> before its \<open>Wait\<close>: the i-th writes \<open>says i\<close> and starts the
  deliveries \<open>starts i\<close>, whatever ran in between; a delivery does not panic while the counter is
  positive.
\<close>

locale awaited_program =
  fixes acts :: "('c, 'z) action list"
    and task :: "'x \<Rightarrow> ('c, ('c, 'z) prog_scheme) handler \<times> 'c go_ctx_scheme \<times> envelope"
    and ok :: "'x \<Rightarrow> bool"
    and lines :: "'x \<Rightarrow> string list"
    and starts :: "nat \<Rightarrow> 'x list"
    and says :: "nat \<Rightarrow> string list"
    and ready :: "nat \<Rightarrow> ('c, 'z) pworld \<Rightarrow> bool"
  assumes acts: "i < length acts \<Longrightarrow> ready i (mm_world st) \<Longrightarrow>
      \<exists>w. (acts ! i) st = (True, \<lparr>mm_world = w, mm_tasks = mm_tasks st @ map task (starts i)\<rparr>) \<and>
        list_all ok (starts i) \<and> ready (Suc i) w \<and>
        pr_out (w_app w) = pr_out (w_app (mm_world st)) @ says i \<and>
        pr_wait (w_app w) = pr_wait (w_app (mm_world st))"
    and runs: "ok x \<Longrightarrow> task x = (d, ctx, ev) \<Longrightarrow> 0 < pr_wait (w_app s) \<Longrightarrow> \<exists>r. d ctx ev s = (Ret r, finish (lines x) s)"
    and kept: "ready i s \<Longrightarrow> ready i (finish ls s)"
begin

definition awaited :: "nat \<Rightarrow> nat" where
  "awaited i = (\<Sum>j = i..<length acts. length (starts j))"

definition written :: "nat \<Rightarrow> string multiset" where
  "written i = (\<Sum>j = i..<length acts. mset (says j) + mset (concat (map lines (starts j))))"

text \<open>The configuration after \<open>n\<close> steps: main is at statement \<open>i\<close> and the deliveries
  \<open>xs\<close> are running, or it has ended and none is.\<close>

definition configured :: "string multiset \<Rightarrow> nat \<Rightarrow> ('c, 'z) stmt list \<times> ('c, 'z) pstate \<Rightarrow> bool" where
  "configured out0 n c \<longleftrightarrow>
     (\<exists>i xs. i \<le> length acts \<and> fst c = map Do (drop i acts) @ [WaitAll] \<and>
        mm_tasks (snd c) = map task xs \<and> list_all ok xs \<and> ready i (mm_world (snd c)) \<and>
        pr_wait (w_app (mm_world (snd c))) = int (length xs + awaited i) \<and>
        mset (pr_out (w_app (mm_world (snd c)))) + mset (concat (map lines xs)) + written i = out0 + written 0 \<and>
        n + (length acts - i) + length xs + awaited i = length acts + awaited 0) \<or>
     fst c = [] \<and> mm_tasks (snd c) = [] \<and> mset (pr_out (w_app (mm_world (snd c)))) = out0 + written 0 \<and>
        n = Suc (length acts + awaited 0)"

lemma awaited_Suc: "i < length acts \<Longrightarrow> awaited i = length (starts i) + awaited (Suc i)"
  by (simp add: awaited_def sum.atLeast_Suc_lessThan)

lemma written_Suc: "i < length acts \<Longrightarrow>
    written i = mset (says i) + mset (concat (map lines (starts i))) + written (Suc i)"
  by (simp add: written_def sum.atLeast_Suc_lessThan)

lemma awaited_end: "awaited (length acts) = 0" "written (length acts) = {#}"
  by (simp_all add: awaited_def written_def)

lemma configured_busy:
  assumes "configured out0 n (ms, st)" and "ms \<noteq> []"
  obtains i xs where "i \<le> length acts" "ms = map Do (drop i acts) @ [WaitAll]"
    "mm_tasks st = map task xs" "list_all ok xs" "ready i (mm_world st)" "pr_wait (w_app (mm_world st)) = int (length xs + awaited i)"
    "mset (pr_out (w_app (mm_world st))) + mset (concat (map lines xs)) + written i = out0 + written 0"
    "n + (length acts - i) + length xs + awaited i = length acts + awaited 0"
  using assms unfolding configured_def fst_conv snd_conv by blast

text \<open>A goroutine that runs is one of the deliveries, and it finishes.\<close>

lemma delivery_runs:
  assumes "mm_tasks st = map task xs" and "list_all ok xs" and "0 < pr_wait (w_app (mm_world st))" and "mem_step st st'"
  obtains b x a where "xs = b @ x # a" and "st' = st\<lparr>mm_world := finish (lines x) (mm_world st), mm_tasks := map task (b @ a)\<rparr>"
  using assms(4)
proof (rule mem_stepE)
  fix before d ctx ev "after" r w'
  assume st': "st' = st\<lparr>mm_world := w', mm_tasks := before @ after\<rparr>"
    and ts: "mm_tasks st = before @ (d, ctx, ev) # after" and r: "d ctx ev (mm_world st) = (Ret r, w')"
  from ts assms(1) obtain b x a where x: "xs = b @ x # a" "before = map task b" "task x = (d, ctx, ev)" "after = map task a"
    by (auto simp: map_eq_append_conv map_eq_Cons_conv)
  from x(1) assms(2) have "ok x" by simp
  from runs [OF this x(3) assms(3)] r have "w' = finish (lines x) (mm_world st)" by auto
  with st' x show thesis by (intro that [OF x(1)]) simp
qed

lemma mset_concat_middle: "mset (concat (map f (b @ x # a))) = mset (f x) + mset (concat (map f (b @ a)))"
  by simp

lemma configured_step:
  assumes "configured out0 n (ms, st)" and "prog_step (ms, st) c"
  shows "configured out0 (Suc n) c"
proof -
  from assms(2) have "ms \<noteq> []" by (auto elim: prog_stepE)
  from configured_busy [OF assms(1) this] obtain i xs
    where i: "i \<le> length acts" "ms = map Do (drop i acts) @ [WaitAll]"
    and st: "mm_tasks st = map task xs" "list_all ok xs" "ready i (mm_world st)"
      "pr_wait (w_app (mm_world st)) = int (length xs + awaited i)"
      "mset (pr_out (w_app (mm_world st))) + mset (concat (map lines xs)) + written i = out0 + written 0"
      "n + (length acts - i) + length xs + awaited i = length acts + awaited 0" .
  show ?thesis
    using assms(2)
  proof (rule prog_stepE)
    fix a st' ms'
    assume c: "c = (ms', st')" "ms = Do a # ms'" "a st = (True, st')"
    then have l: "i < length acts" using i by (cases "i = length acts") auto
    with c i have a: "a = acts ! i" "ms' = map Do (drop (Suc i) acts) @ [WaitAll]"
      by (auto simp: Cons_nth_drop_Suc [symmetric])
    from acts [OF l, of st] st(3) c a obtain w where "st' = \<lparr>mm_world = w, mm_tasks = mm_tasks st @ map task (starts i)\<rparr>"
        "list_all ok (starts i)" "ready (Suc i) w" "pr_out (w_app w) = pr_out (w_app (mm_world st)) @ says i"
        "pr_wait (w_app w) = pr_wait (w_app (mm_world st))" by auto
    with c a l st(1,2,4-6) show ?thesis unfolding configured_def
      by (intro disjI1 exI [of _ "Suc i"] exI [of _ "xs @ starts i"])
        (simp add: awaited_Suc written_Suc ac_simps)
  next
    fix a st' ms'
    assume c: "c = ([], st')" "ms = Do a # ms'" "a st = (False, st')"
    then have l: "i < length acts" using i by (cases "i = length acts") auto
    with c i have "a = acts ! i" by (auto simp: Cons_nth_drop_Suc [symmetric])
    with acts [OF l, of st] st(3) c show ?thesis by auto
  next
    fix ms'
    assume c: "c = (ms', st)" "ms = WaitAll # ms'" "pr_wait (w_app (mm_world st)) = 0"
    then have "i = length acts" using i by (cases "i = length acts") (auto simp: Cons_nth_drop_Suc [symmetric])
    with c i st show ?thesis unfolding configured_def by (intro disjI2) (simp add: awaited_end)
  next
    fix st'
    assume c: "c = (ms, st')" and m: "mem_step st st'"
    from m have "mm_tasks st \<noteq> []" by (auto elim: mem_stepE)
    with st(1,4) have "0 < pr_wait (w_app (mm_world st))" by (cases xs) auto
    from delivery_runs [OF st(1,2) this m] obtain b x a where x: "xs = b @ x # a"
      "st' = st\<lparr>mm_world := finish (lines x) (mm_world st), mm_tasks := map task (b @ a)\<rparr>" .
    with c i st show ?thesis unfolding configured_def
      by (intro disjI1 exI [of _ i] exI [of _ "b @ a"]) (simp add: kept, simp add: finish_def ac_simps)
  qed
qed

lemma configured_progress:
  assumes "configured out0 n (ms, st)" and "ms \<noteq> []"
  shows "\<exists>c. prog_step (ms, st) c"
proof -
  from configured_busy [OF assms] obtain i xs
    where i: "i \<le> length acts" "ms = map Do (drop i acts) @ [WaitAll]"
    and st: "mm_tasks st = map task xs" "list_all ok xs" "ready i (mm_world st)"
      "pr_wait (w_app (mm_world st)) = int (length xs + awaited i)" by metis
  show ?thesis
  proof (cases "i = length acts")
    case False
    with i have l: "i < length acts" and "ms = Do (acts ! i) # map Do (drop (Suc i) acts) @ [WaitAll]"
      by (auto simp: Cons_nth_drop_Suc [symmetric])
    with acts [OF l, of st] st(3) show ?thesis by (blast intro: prog_step.act)
  next
    case last: True
    show ?thesis
    proof (cases xs)
      case Nil
      with last st i show ?thesis by (auto simp: awaited_end intro: prog_step.wait)
    next
      case (Cons x xs')
      obtain d ctx ev where x: "task x = (d, ctx, ev)" by (cases "task x") auto
      from Cons st(2,4) have "ok x" "0 < pr_wait (w_app (mm_world st))" by simp_all
      from runs [OF this(1) x this(2)] obtain r where "d ctx ev (mm_world st) = (Ret r, finish (lines x) (mm_world st))" by auto
      then have "mem_step st (st\<lparr>mm_world := finish (lines x) (mm_world st), mm_tasks := [] @ map task xs'\<rparr>)"
        by (intro mem_step.run) (simp add: st(1) Cons x, simp)
      with i show ?thesis by (intro exI) (rule prog_step.run, auto)
    qed
  qed
qed

text \<open>Every run ends, after the same number of steps, with every line written.\<close>

lemma awaited_run:
  assumes "ready 0 (mm_world st0)" and "mm_tasks st0 = []" and "pr_wait (w_app (mm_world st0)) = int (awaited 0)"
    and "(prog_step ^^ n) (map Do acts @ [WaitAll], st0) c"
  shows "configured (mset (pr_out (w_app (mm_world st0)))) n c"
  using assms(4)
proof (induction n arbitrary: c)
  case 0
  with assms(1-3) show ?case unfolding configured_def
    by (intro disjI1 exI [of _ 0] exI [of _ "[]"]) auto
next
  case (Suc n)
  then obtain d where "(prog_step ^^ n) (map Do acts @ [WaitAll], st0) d" "prog_step d c" by auto
  with Suc.IH [of d] show ?case by (cases d) (auto intro: configured_step)
qed

lemma awaited_ends:
  assumes "ready 0 (mm_world st0)" and "mm_tasks st0 = []" and "pr_wait (w_app (mm_world st0)) = int (awaited 0)"
    and "(prog_step ^^ n) (map Do acts @ [WaitAll], st0) (ms, st)"
  shows "n \<le> Suc (length acts + awaited 0)" and "ms = [] \<longleftrightarrow> n = Suc (length acts + awaited 0)"
    and "ms \<noteq> [] \<Longrightarrow> \<exists>c. prog_step (ms, st) c"
    and "ms = [] \<Longrightarrow> mm_tasks st = [] \<and>
      mset (pr_out (w_app (mm_world st))) = mset (pr_out (w_app (mm_world st0))) + written 0"
  using awaited_run [OF assms] configured_progress [of _ n ms st]
  by (auto simp: configured_def)

lemma awaited_complete:
  assumes "ready 0 (mm_world st0)" and "mm_tasks st0 = []" and "pr_wait (w_app (mm_world st0)) = int (awaited 0)"
    and "n \<le> Suc (length acts + awaited 0)"
  shows "\<exists>c. (prog_step ^^ n) (map Do acts @ [WaitAll], st0) c"
  using assms(4)
proof (induction n)
  case (Suc n)
  then obtain ms st where r: "(prog_step ^^ n) (map Do acts @ [WaitAll], st0) (ms, st)" by fastforce
  with Suc.prems awaited_ends(2,3) [OF assms(1-3) r] obtain c where "prog_step (ms, st) c" by auto
  with r show ?case by (meson relpowp_Suc_I)
qed auto

end

section \<open>The event of a user\<close>

record user_created =
  uc_id :: string
  uc_email :: string

definition user_name :: string where "user_name = ''user.created''"

definition user_marshal :: "user_created \<Rightarrow> go_error + string" where
  "user_marshal u = Inr (json_text (JObj [(''id'', JStr (uc_id u)), (''email'', JStr (uc_email u))]))"

definition user_unmarshal :: "string \<Rightarrow> user_created \<Rightarrow> user_created \<times> go_error option" where
  "user_unmarshal payload u =
     (case unmarshal_struct [(''id'', TString), (''email'', TString)] payload [VString (uc_id u), VString (uc_email u)] of
        (v, err) \<Rightarrow>
          (\<lparr>uc_id = (case v ! 0 of VString t \<Rightarrow> t | _ \<Rightarrow> uc_id u),
            uc_email = (case v ! 1 of VString t \<Rightarrow> t | _ \<Rightarrow> uc_email u)\<rparr>, err))"

definition user_env :: "user_created event_env" where
  "user_env = \<lparr>ee_name = (\<lambda>u. user_name), ee_validate = (\<lambda>u. None), ee_url_name = (\<lambda>u. None),
     ee_marshal = user_marshal, ee_unmarshal = user_unmarshal\<rparr>"

definition user_type :: "user_created event_type" where
  "user_type = \<lparr>et_zero = \<lparr>uc_id = [], uc_email = []\<rparr>, et_new = None\<rparr>"

definition user_valid :: "user_created \<Rightarrow> bool" where
  "user_valid u \<longleftrightarrow> utf8_valid (uc_id u) \<and> utf8_valid (uc_email u)"

lemma user_round_trip:
  assumes "user_valid u" and "user_marshal u = Inr payload"
  shows "user_unmarshal payload v = (u, None)"
  using assms by (auto simp: user_valid_def user_marshal_def user_unmarshal_def unmarshal_struct_def parse_json_text
      utf8_valid_ascii byte_def field_index_def unmarshal_value_def upt_rec)

text \<open>\<open>main\<close> of the programs that emit users: \<open>On\<close>, an \<open>Emit\<close> for each, and \<open>Wait\<close>.\<close>

definition users_main :: "'c go_ctx_scheme \<Rightarrow> ('c, ('c, 'z) prog_scheme, user_created) bus \<Rightarrow>
    ('c, ('c, 'z) prog_scheme, user_created) event_handler \<Rightarrow> user_created list \<Rightarrow> ('c, 'z) stmt list" where
  "users_main ctx b handler us =
     (case on_event user_env b user_type handler [] mem_subscribe new_mem_sink of
        (Panic p, sink) \<Rightarrow> []
      | (Ret _, sink) \<Rightarrow>
          map (\<lambda>u. Do (\<lambda>st. fatal_unless_emitted (emit_on user_env b sink ctx u st))) us @ [WaitAll])"

section \<open>The basic program\<close>

definition basic_handler :: "(unit, (unit, unit) prog_scheme, user_created) event_handler" where
  "basic_handler ctx u s = done_nil (print_line (''welcome '' @ uc_email u @ '' ('' @ uc_id u @ '')'') s)"

definition basic_bus :: "(unit, (unit, unit) prog_scheme, user_created) bus" where
  "basic_bus = new_bus user_env prog_publish []"

definition basic_main :: "(unit, unit) stmt list" where
  "basic_main = users_main background basic_bus basic_handler [\<lparr>uc_id = ''1'', uc_email = ''a@b.com''\<rparr>]"

section \<open>The correlation plugin\<close>

record corr_ctx = go_ctx +
  cc_id :: "string option"

record 'c corr_prog = "'c prog" +
  cp_seq :: "64 word"

type_synonym cctx = "unit corr_ctx_ext"
type_synonym capp = "cctx corr_prog"

definition corr_background :: corr_ctx where
  "corr_background = \<lparr>ctx_http_logger = None, ctx_request_meta = None, ctx_event_logger = None, ctx_tx = None,
     cc_id = None\<rparr>"

definition correlation_header :: string where
  "correlation_header = ''correlation-id''"

definition correlation_publish :: "(cctx, capp) publish_mw" where
  "correlation_publish nxt ctx ev s =
     (let n = cp_seq (w_app s) + 1;
          i = ''req-'' @ itoa (sint n);
          ev' = ev\<lparr>en_headers := map_put correlation_header i (en_headers ev)\<rparr>
      in nxt ctx ev' (print_line (''publish '' @ en_name ev' @ '' ['' @ i @ '']'')
           (s\<lparr>w_app := (w_app s)\<lparr>cp_seq := n\<rparr>\<rparr>)))"

definition with_correlation_id :: "corr_ctx \<Rightarrow> string \<Rightarrow> corr_ctx" where
  "with_correlation_id ctx i = ctx\<lparr>cc_id := Some i\<rparr>"

definition correlation_id :: "corr_ctx \<Rightarrow> string" where
  "correlation_id ctx = (case cc_id ctx of Some i \<Rightarrow> i | None \<Rightarrow> [])"

definition correlation_deliver :: "(cctx, capp) delivery_mw" where
  "correlation_deliver nxt ctx ev s =
     (let i = (case map_of (en_headers ev) correlation_header of Some i \<Rightarrow> i | None \<Rightarrow> [])
      in nxt (with_correlation_id ctx i) ev (print_line (''deliver '' @ en_name ev @ '' ['' @ i @ '']'') s))"

definition correlation_plugin :: "(cctx, capp) plugin" where
  "correlation_plugin = \<lparr>pl_publish = Some correlation_publish, pl_deliver = Some correlation_deliver\<rparr>"

definition correlated_handler :: "(cctx, capp, user_created) event_handler" where
  "correlated_handler ctx u s =
     done_nil (print_line (''welcome '' @ uc_email u @ '' (correlation '' @ correlation_id ctx @ '')'') s)"

definition plugin_bus :: "(cctx, capp, user_created) bus" where
  "plugin_bus = new_bus user_env prog_publish [with_plugins [correlation_plugin]]"

definition plugin_program :: "user_created list \<Rightarrow> (cctx, unit corr_prog_ext) stmt list" where
  "plugin_program us = users_main corr_background plugin_bus correlated_handler us"

definition plugin_main :: "(cctx, unit corr_prog_ext) stmt list" where
  "plugin_main = plugin_program
     [\<lparr>uc_id = ''1'', uc_email = ''a@b.com''\<rparr>, \<lparr>uc_id = ''2'', uc_email = ''b@c.com''\<rparr>]"

section \<open>Middleware, a validator and an error handler\<close>

record beat =
  be_n :: int

definition beat_name :: string where "beat_name = ''demo.beat''"

definition beat_marshal :: "beat \<Rightarrow> go_error + string" where
  "beat_marshal b = Inr (json_text (JObj [(''n'', JNum (be_n b))]))"

definition beat_unmarshal :: "string \<Rightarrow> beat \<Rightarrow> beat \<times> go_error option" where
  "beat_unmarshal payload b =
     (case unmarshal_struct [(''n'', TInt ''int'' 64)] payload [VInt (be_n b)] of
        (v, err) \<Rightarrow> (\<lparr>be_n = (case v ! 0 of VInt m \<Rightarrow> m | _ \<Rightarrow> be_n b)\<rparr>, err))"

definition beat_env :: "beat event_env" where
  "beat_env = \<lparr>ee_name = (\<lambda>b. beat_name), ee_validate = (\<lambda>b. None), ee_url_name = (\<lambda>b. None),
     ee_marshal = beat_marshal, ee_unmarshal = beat_unmarshal\<rparr>"

definition beat_type :: "beat event_type" where
  "beat_type = \<lparr>et_zero = \<lparr>be_n = 0\<rparr>, et_new = None\<rparr>"

definition logging :: "('c, ('c, 'z) prog_scheme) delivery_mw" where
  "logging nxt ctx ev s =
     (case nxt ctx ev (print_line (''-> '' @ en_name ev) s) of
        (Ret (Some err), s') \<Rightarrow>
          (Ret (Some err), print_line (''<- '' @ en_name ev @ '': '' @ err_text err) s')
      | r \<Rightarrow> r)"

text \<open>The recovered value becomes metadata; a recovered error is a value of no JSON form of its own.\<close>

definition recovered :: "panic_value \<Rightarrow> gval" where
  "recovered p = (case p of PanicMsg t \<Rightarrow> GStr t | PanicErr e \<Rightarrow> GOpaque (err_text e))"

definition recover_mw :: "('c, 'w) delivery_mw" where
  "recover_mw nxt ctx ev s =
     (case nxt ctx ev s of
        (Panic p, s') \<Rightarrow> (Ret (Some (EEvent (event_new ''panic'' [(''recovered'', recovered p)] []))), s')
      | r \<Rightarrow> r)"

definition reject_odd :: "beat validator" where
  "reject_odd b =
     (if be_n b mod 2 \<noteq> 0 then Some (EEvent (event_new ''odd_beat'' [(''n'', GInt (be_n b))] [])) else None)"

definition beat_error_handler :: "(unit, unit prog) error_handler" where
  "beat_error_handler ctx ev err s =
     wait_add (- 1) (print_line (''error handler: '' @ en_name ev @ '' failed with '' @ evt_code err) s)"

definition beat_handler :: "(unit, unit prog, beat) event_handler" where
  "beat_handler ctx b s =
     (if be_n b = 4 then (Panic (PanicMsg ''boom''), s)
      else done_nil (print_line (''beat '' @ itoa (be_n b)) s))"

definition middleware_bus :: "(unit, unit prog, beat) bus" where
  "middleware_bus = bus_use [logging, recover_mw]
     (new_bus beat_env prog_publish [with_validator reject_odd, with_error_handler beat_error_handler])"

text \<open>The first two emissions drop the error of \<open>Emit\<close>, the last one logs it.\<close>

definition emit_ignored :: "go_error option outcome \<times> ('c, 'z) pstate \<Rightarrow> bool \<times> ('c, 'z) pstate" where
  "emit_ignored r = (case r of (Panic p, st) \<Rightarrow> (False, st) | (Ret _, st) \<Rightarrow> (True, st))"

definition emit_logged :: "go_error option outcome \<times> ('c, 'z) pstate \<Rightarrow> bool \<times> ('c, 'z) pstate" where
  "emit_logged r =
     (case r of
        (Panic p, st) \<Rightarrow> (False, st)
      | (Ret None, st) \<Rightarrow> (True, st)
      | (Ret (Some err), st) \<Rightarrow> (True, print_on (''emit rejected before publish: '' @ err_text err) st))"

definition middleware_main :: "(unit, unit) stmt list" where
  "middleware_main =
     (case on_event beat_env middleware_bus beat_type beat_handler [] mem_subscribe new_mem_sink of
        (Panic p, sink) \<Rightarrow> []
      | (Ret _, sink) \<Rightarrow>
          [Do (\<lambda>st. emit_ignored (emit_on beat_env middleware_bus sink background \<lparr>be_n = 2\<rparr> st)),
           Do (\<lambda>st. emit_ignored (emit_on beat_env middleware_bus sink background \<lparr>be_n = 4\<rparr> st)),
           Do (\<lambda>st. emit_logged (emit_on beat_env middleware_bus sink background \<lparr>be_n = 3\<rparr> st)), WaitAll])"

section \<open>The programs keep the contract\<close>

lemma launch_one:
  assumes "pr_pending (w_app w) = [(ctx, ev)]"
  shows "launch sink (st\<lparr>mm_world := w\<rparr>) =
    \<lparr>mm_world = w\<lparr>w_app := (w_app w)\<lparr>pr_pending := []\<rparr>\<rparr>,
     mm_tasks = mm_tasks st @ map (\<lambda>d. (d, ctx, ev)) (subs_of (ms_subs sink) (en_name ev))\<rparr>"
  using assms by (cases st) (simp add: launch_def mem_publish_def)

lemma launch_none: "pr_pending (w_app (mm_world st)) = [] \<Longrightarrow> launch sink st = st"
  by (cases st; cases "mm_world st"; simp add: launch_def)

definition user_envelope :: "user_created \<Rightarrow> (string \<times> string) list \<Rightarrow> envelope" where
  "user_envelope u hs = \<lparr>en_name = user_name,
     en_payload = json_text (JObj [(''id'', JStr (uc_id u)), (''email'', JStr (uc_email u))]), en_headers = hs\<rparr>"

lemma user_decodes:
  "user_valid u \<Longrightarrow> user_unmarshal (json_text (JObj [(''id'', JStr (uc_id u)), (''email'', JStr (uc_email u))])) v = (u, None)"
  by (rule user_round_trip) (simp_all add: user_marshal_def)

lemmas user_bus = user_env_def user_type_def new_bus_def name_of_def zero_event_def default_validator_def
  default_codec_def codec_prepare_for_def
lemmas user_delivered = deliver_def apply_deliver_def combine_deliver_def base_handler_def decode_def on_ctx_def
  user_decodes user_envelope_def done_nil_def print_line_def wait_add_def finish_def

abbreviation one_sink :: "string \<Rightarrow> ('c, 'w) handler \<Rightarrow> ('c, 'w) mem_sink" where
  "one_sink name d \<equiv> \<lparr>ms_subs = [(name, [d])]\<rparr>"

lemma users_main_one:
  assumes "bs_codec b = default_codec"
  shows "users_main ctx b handler us =
    map Do (map (\<lambda>u st. fatal_unless_emitted
        (emit_on user_env b (one_sink user_name (deliver user_env b user_type handler [])) ctx u st)) us) @ [WaitAll]"
  using assms by (simp add: users_main_def on_event_def user_bus new_mem_sink_def mem_subscribe_def subs_of_def)

lemma basic_awaited:
  assumes "list_all user_valid us"
  shows "awaited_program
    (map (\<lambda>u st. fatal_unless_emitted
        (emit_on user_env basic_bus (one_sink user_name (deliver user_env basic_bus user_type basic_handler [])) background u st)) us)
    (\<lambda>u. (deliver user_env basic_bus user_type basic_handler [], background, user_envelope u []))
    user_valid (\<lambda>u. [''welcome '' @ uc_email u @ '' ('' @ uc_id u @ '')''])
    (\<lambda>i. [us ! i]) (\<lambda>i. []) (\<lambda>i s. pr_pending (w_app s) = [])"
proof (unfold_locales, goal_cases)
  case (1 i st)
  then show ?case
    using assms by (simp add: emit_on_def emit_def basic_bus_def user_bus encode_def user_marshal_def apply_publish_def
        base_publisher_def prog_publish_def launch_one subs_of_def user_envelope_def fatal_unless_emitted_def
        list_all_length)
next
  case (2 x d ctx ev s)
  then show ?case by (auto simp: basic_bus_def user_bus user_delivered basic_handler_def)
next
  case (3 i s ls)
  then show ?case by (simp add: finish_def)
qed

lemma users_valid:
  "list_all user_valid [\<lparr>uc_id = ''1'', uc_email = ''a@b.com''\<rparr>, \<lparr>uc_id = ''2'', uc_email = ''b@c.com''\<rparr>]"
  by (simp add: user_valid_def utf8_valid_ascii byte_def)

text \<open>The id that the plugin gives the i-th event, counted from zero.\<close>

definition correlation_of :: "nat \<Rightarrow> string" where
  "correlation_of i = ''req-'' @ itoa (int (Suc i))"

definition plugin_handler :: "(cctx, capp) handler" where
  "plugin_handler = deliver user_env plugin_bus user_type correlated_handler []"

definition plugin_task :: "nat \<times> user_created \<Rightarrow> (cctx, capp) handler \<times> corr_ctx \<times> envelope" where
  "plugin_task = (\<lambda>(i, u). (plugin_handler, corr_background, user_envelope u [(correlation_header, correlation_of i)]))"

definition published_line :: "nat \<Rightarrow> string" where
  "published_line i = ''publish user.created ['' @ correlation_of i @ '']''"

definition delivered_lines :: "nat \<times> user_created \<Rightarrow> string list" where
  "delivered_lines = (\<lambda>(i, u). [''deliver user.created ['' @ correlation_of i @ '']'',
     ''welcome '' @ uc_email u @ '' (correlation '' @ correlation_of i @ '')''])"

definition plugin_acts :: "user_created list \<Rightarrow> (cctx, unit corr_prog_ext) action list" where
  "plugin_acts us = map (\<lambda>u st. fatal_unless_emitted
     (emit_on user_env plugin_bus (one_sink user_name plugin_handler) corr_background u st)) us"

lemma sint_Suc:
  assumes "i < 2 ^ 63 - 1"
  shows "sint (1 + word_of_nat i :: 64 word) = 1 + int i"
proof -
  have "(1 + word_of_nat i :: 64 word) = word_of_int (1 + int i)" by simp
  moreover from assms have "1 + int i < 2 ^ 63" by simp
  ultimately show ?thesis by (simp only: sint_sbintrunc' [symmetric] signed_of_int signed_take_bit_int_eq_self) (simp add: signed_take_bit_int_eq_self)
qed

lemma plugin_codec: "bs_codec plugin_bus = default_codec"
  by (simp add: plugin_bus_def new_bus_def with_plugins_def)

lemmas plugin_run = plugin_bus_def with_plugins_def user_bus wrap_publish_def wrap_deliver_def correlation_plugin_def
  correlation_publish_def correlation_deliver_def with_correlation_id_def correlation_id_def correlated_handler_def

lemma plugin_awaited:
  assumes "list_all user_valid us" and "length us < 2 ^ 63"
  shows "awaited_program (plugin_acts us) plugin_task (\<lambda>(i, u). user_valid u) delivered_lines
    (\<lambda>i. [(i, us ! i)]) (\<lambda>i. [published_line i])
    (\<lambda>i s. pr_pending (w_app s) = [] \<and> cp_seq (w_app s) = word_of_nat i)"
proof (unfold_locales, goal_cases)
  case (1 i st)
  then have "i < 2 ^ 63 - 1" using assms(2) by (simp add: plugin_acts_def)
  with 1 show ?case
    using assms(1) by (simp add: plugin_acts_def emit_on_def emit_def plugin_run encode_def user_marshal_def apply_publish_def
        base_publisher_def prog_publish_def print_line_def launch_one subs_of_def user_envelope_def fatal_unless_emitted_def
        list_all_length plugin_task_def sint_Suc correlation_of_def published_line_def user_name_def Let_def add.commute)
next
  case (2 x d ctx ev s)
  then show ?case
    by (cases x) (auto simp: plugin_task_def plugin_handler_def plugin_run user_delivered delivered_lines_def user_name_def Let_def)
next
  case (3 i s ls)
  then show ?case by (simp add: finish_def)
qed

text \<open>The deliveries of the middleware program.\<close>

definition beat_delivery :: "(unit, unit prog) handler" where
  "beat_delivery = deliver beat_env middleware_bus beat_type beat_handler []"

definition beat_task :: "int \<Rightarrow> (unit, unit prog) handler \<times> go_ctx \<times> envelope" where
  "beat_task n = (beat_delivery, background,
     \<lparr>en_name = beat_name, en_payload = json_text (JObj [(''n'', JNum n)]), en_headers = []\<rparr>)"

text \<open>What a beat of the program leaves in the log.\<close>

definition beat_lines :: "int \<Rightarrow> string list" where
  "beat_lines n =
     (if n = 4
      then [''-> demo.beat'', ''<- demo.beat: panic keys=recovered'', ''error handler: demo.beat failed with panic'']
      else [''-> demo.beat'', ''beat '' @ itoa n])"

definition middleware_acts :: "(unit, unit) action list" where
  "middleware_acts =
     [\<lambda>st. emit_ignored (emit_on beat_env middleware_bus (one_sink beat_name beat_delivery) background \<lparr>be_n = 2\<rparr> st),
      \<lambda>st. emit_ignored (emit_on beat_env middleware_bus (one_sink beat_name beat_delivery) background \<lparr>be_n = 4\<rparr> st),
      \<lambda>st. emit_logged (emit_on beat_env middleware_bus (one_sink beat_name beat_delivery) background \<lparr>be_n = 3\<rparr> st)]"

lemmas beat_bus = middleware_bus_def bus_use_def beat_env_def beat_type_def new_bus_def with_validator_def
  with_error_handler_def default_codec_def codec_prepare_for_def name_of_def zero_event_def

lemma middleware_main_acts: "middleware_main = map Do middleware_acts @ [WaitAll]"
  by (simp add: middleware_main_def middleware_acts_def on_event_def beat_bus new_mem_sink_def mem_subscribe_def
      subs_of_def beat_delivery_def)

lemma err_text_EEvent: "err_text (EEvent r) = event_error_text r"
  by (subst err_text.simps) simp

lemma beat_payload:
  assumes "n \<in> {2, 4}"
  shows "beat_unmarshal (json_text (JObj [(''n'', JNum n)])) b = (\<lparr>be_n = n\<rparr>, None)"
proof -
  have "itoa 2 = ''2''" "itoa 4 = ''4''" by code_simp+
  with assms show ?thesis
    by (auto simp: beat_unmarshal_def unmarshal_struct_def parse_json_text utf8_valid_ascii byte_def field_index_def
        unmarshal_value_def unmarshal_int_def number_text_def parse_int_def parse_uint_def is_digit_def digit_val_def
        max_uint64_def max_int64_def set_int_def signed_take_bit_int_eq_self Let_def)
qed

lemma beat_runs:
  assumes "n \<in> {2, 4}" and "0 < pr_wait (w_app s)"
  shows "\<exists>r. beat_delivery background
      \<lparr>en_name = beat_name, en_payload = json_text (JObj [(''n'', JNum n)]), en_headers = []\<rparr> s =
    (Ret r, finish (beat_lines n) s)"
  using assms
  by (auto simp: beat_delivery_def deliver_def apply_deliver_def combine_deliver_def base_handler_def decode_def
      on_ctx_def beat_bus beat_payload [of 2] beat_payload [of 4] beat_name_def reject_odd_def beat_handler_def logging_def recover_mw_def
      recovered_def print_line_def beat_lines_def event_new_def event_error_text_def event_default_coercer_def
      errors_as_def chain.simps the_event_def beat_error_handler_def wait_add_def done_nil_def finish_def Let_def err_text_EEvent)

lemmas emit_eval = middleware_acts_def emit_on_def emit_def beat_bus reject_odd_def encode_def
  beat_marshal_def apply_publish_def base_publisher_def prog_publish_def subs_of_def beat_task_def beat_name_def
  emit_ignored_def emit_logged_def bus_coerce_def event_default_coercer_def errors_as_def chain.simps the_event_def
  event_new_def event_error_text_def

lemma middleware_awaited:
  "awaited_program middleware_acts beat_task (\<lambda>n. n \<in> {2, 4}) beat_lines
     (\<lambda>i. [[2], [4], []] ! i)
     (\<lambda>i. [[], [], [''emit rejected before publish: odd_beat event=demo.beat keys=n'']] ! i)
     (\<lambda>i s. pr_pending (w_app s) = [])"
proof (unfold_locales, goal_cases)
  case (1 i st)
  then consider "i = 0" | "i = 1" | "i = 2" by (fastforce simp: middleware_acts_def less_Suc_eq numeral_2_eq_2)
  then show ?case
  proof cases
    case 3
    with 1(2) show ?thesis
      by (intro exI [of _ "print_line ''emit rejected before publish: odd_beat event=demo.beat keys=n'' (mm_world st)"])
        (simp add: emit_eval launch_none print_on_def err_text_EEvent, simp add: print_line_def)
  qed (use 1(2) in \<open>simp_all add: emit_eval launch_one\<close>)
next
  case (2 x d ctx ev s)
  then show ?case using beat_runs [of x s] by (auto simp: beat_task_def)
next
  case (3 i s ls)
  then show ?case by (simp add: finish_def)
qed

lemma plugin_program_acts: "plugin_program us = map Do (plugin_acts us) @ [WaitAll]"
  by (simp add: plugin_program_def users_main_one [OF plugin_codec] plugin_acts_def plugin_handler_def)

definition basic_lines :: "user_created \<Rightarrow> string list" where
  "basic_lines u = [''welcome '' @ uc_email u @ '' ('' @ uc_id u @ '')'']"

definition basic_acts :: "(unit, unit) action list" where
  "basic_acts = map (\<lambda>u st. fatal_unless_emitted
     (emit_on user_env basic_bus (one_sink user_name (deliver user_env basic_bus user_type basic_handler []))
       background u st)) [\<lparr>uc_id = ''1'', uc_email = ''a@b.com''\<rparr>]"

lemma basic_main_acts: "basic_main = map Do basic_acts @ [WaitAll]"
  by (simp add: basic_main_def basic_acts_def users_main_one basic_bus_def new_bus_def)

interpretation basic: awaited_program basic_acts
  "\<lambda>u. (deliver user_env basic_bus user_type basic_handler [], background, user_envelope u [])"
  user_valid basic_lines "\<lambda>i. [[\<lparr>uc_id = ''1'', uc_email = ''a@b.com''\<rparr>] ! i]" "\<lambda>i. []" "\<lambda>i s. pr_pending (w_app s) = []"
  unfolding basic_acts_def basic_lines_def [abs_def] by (rule basic_awaited) (use users_valid in simp)

interpretation beats: awaited_program middleware_acts beat_task "\<lambda>n. n \<in> {2, 4}" beat_lines
  "\<lambda>i. [[2], [4], []] ! i"
  "\<lambda>i. [[], [], [''emit rejected before publish: odd_beat event=demo.beat keys=n'']] ! i"
  "\<lambda>i s. pr_pending (w_app s) = []"
  by (rule middleware_awaited)

lemma start_simps:
  "mm_tasks (prog_start n app) = []"
  "pr_out (w_app (mm_world (prog_start n app))) = pr_out app"
  "pr_wait (w_app (mm_world (prog_start n app))) = pr_wait app + n"
  "pr_pending (w_app (mm_world (prog_start n app))) = pr_pending app"
  by (simp_all add: prog_start_def wait_add_def Let_def)

definition empty_prog :: "'c prog" where
  "empty_prog = \<lparr>pr_out = [], pr_wait = 0, pr_pending = []\<rparr>"

definition plugin_start :: "nat \<Rightarrow> (cctx, unit corr_prog_ext) pstate" where
  "plugin_start n = prog_start (int n) \<lparr>pr_out = [], pr_wait = 0, pr_pending = [], cp_seq = 0\<rparr>"

lemma plugin_start_simps:
  "mm_tasks (plugin_start n) = []" "pr_out (w_app (mm_world (plugin_start n))) = []"
  "pr_wait (w_app (mm_world (plugin_start n))) = int n" "pr_pending (w_app (mm_world (plugin_start n))) = []"
  "cp_seq (w_app (mm_world (plugin_start n))) = 0"
  by (simp_all add: plugin_start_def prog_start_def wait_add_def Let_def)

lemma length_plugin_acts: "length (plugin_acts us) = length us"
  by (simp add: plugin_acts_def)

lemma plugin_totals:
  assumes "list_all user_valid us" and "length us < 2 ^ 63"
  shows "awaited_program.awaited (plugin_acts us) (\<lambda>i. [(i, us ! i)]) 0 = length us"
    and "awaited_program.written (plugin_acts us) delivered_lines (\<lambda>i. [(i, us ! i)]) (\<lambda>i. [published_line i]) 0 =
      (\<Sum>i < length us. mset (published_line i # delivered_lines (i, us ! i)))"
  by (simp_all add: awaited_program.awaited_def [OF plugin_awaited [OF assms]]
      awaited_program.written_def [OF plugin_awaited [OF assms]] length_plugin_acts atLeast0LessThan)

section \<open>Properties\<close>

text \<open>C15: A correlation id travels with its event: in the plugin program, for any users emitted and any
  interleaving of the deliveries with the emissions, no step ends the process early and no goroutine
  panics; the program ends after the same number of steps whatever the schedule, with every delivery
  run; and what is in the log then is, for the i-th user, that it was published, delivered and welcomed
  under the id of its own publish, no two of these ids being the same.\<close>

theorem correlation_ids_follow_their_events:
  assumes "list_all user_valid us" and "length us < 2 ^ 63"
    and "(prog_step ^^ n) (plugin_program us, plugin_start (length us)) (ms, st)"
  shows "(ms = [] \<longleftrightarrow> n = 2 * length us + 1) \<and> n \<le> 2 * length us + 1 \<and>
    (ms \<noteq> [] \<longrightarrow> (\<exists>c. prog_step (ms, st) c)) \<and>
    (ms = [] \<longrightarrow> mm_tasks st = [] \<and>
      mset (pr_out (w_app (mm_world st))) =
        (\<Sum>i < length us. {# ''publish user.created ['' @ correlation_of i @ '']'',
           ''deliver user.created ['' @ correlation_of i @ '']'',
           ''welcome '' @ uc_email (us ! i) @ '' (correlation '' @ correlation_of i @ '')'' #})) \<and>
    inj correlation_of"
proof -
  note p = plugin_awaited [OF assms(1,2)] and t = plugin_totals [OF assms(1,2)]
  have w: "awaited_program.written (plugin_acts us) delivered_lines (\<lambda>i. [(i, us ! i)]) (\<lambda>i. [published_line i]) 0 =
      (\<Sum>i < length us. {# ''publish user.created ['' @ correlation_of i @ '']'',
           ''deliver user.created ['' @ correlation_of i @ '']'',
           ''welcome '' @ uc_email (us ! i) @ '' (correlation '' @ correlation_of i @ '')'' #})"
    unfolding t by (simp add: published_line_def delivered_lines_def)
  note e = awaited_program.awaited_ends [OF p _ _ _ assms(3) [unfolded plugin_program_acts]]
  have "inj correlation_of"
  proof (rule injI)
    fix x y
    assume "correlation_of x = correlation_of y"
    then have "int (Suc x) = int (Suc y)" by (intro itoa_inj) (simp_all add: correlation_of_def)
    then show "x = y" by simp
  qed
  with e show ?thesis
    by (simp add: plugin_start_simps t(1) w length_plugin_acts mult_2)
qed

lemma correlation_ids_follow_their_events_witness:
  "\<exists>st. (prog_step ^^ 3) (plugin_program [\<lparr>uc_id = ''1'', uc_email = ''a@b.com''\<rparr>], plugin_start 1) ([], st) \<and>
    mset (pr_out (w_app (mm_world st))) =
      {# ''publish user.created [req-1]'', ''deliver user.created [req-1]'', ''welcome a@b.com (correlation req-1)'' #}"
proof -
  let ?us = "[\<lparr>uc_id = ''1'', uc_email = ''a@b.com''\<rparr>]"
  have v: "list_all user_valid ?us" using users_valid by simp
  have l: "length ?us < 2 ^ 63" by simp
  from awaited_program.awaited_complete [OF plugin_awaited [OF v l], of "plugin_start 1" 3]
  have "\<exists>c. (prog_step ^^ 3) (plugin_program ?us, plugin_start 1) c"
    by (simp add: plugin_start_simps plugin_totals [OF v l] plugin_program_acts length_plugin_acts)
  then obtain ms st where r: "(prog_step ^^ 3) (plugin_program ?us, plugin_start 1) (ms, st)" by auto
  have "itoa 1 = ''1''" by code_simp
  then have "correlation_of 0 = ''req-1''" by (simp add: correlation_of_def)
  with correlation_ids_follow_their_events [OF v l, of 3 ms st] r show ?thesis by auto
qed

text \<open>Nothing is lost in the middleware program: whatever the schedule, it ends, with both published
  beats delivered; the log holds the clean delivery, the panic as it went from \<open>recoverMW\<close> through
  \<open>logging\<close> to the error handler, and the odd beat rejected before it was published.\<close>

theorem beats_are_accounted_for:
  assumes "(prog_step ^^ n) (middleware_main, prog_start 2 empty_prog) (ms, st)"
  shows "(ms = [] \<longleftrightarrow> n = 6) \<and> n \<le> 6 \<and> (ms \<noteq> [] \<longrightarrow> (\<exists>c. prog_step (ms, st) c)) \<and>
    (ms = [] \<longrightarrow> mm_tasks st = [] \<and>
      mset (pr_out (w_app (mm_world st))) =
        {# ''-> demo.beat'', ''beat 2'', ''-> demo.beat'', ''<- demo.beat: panic keys=recovered'',
           ''error handler: demo.beat failed with panic'',
           ''emit rejected before publish: odd_beat event=demo.beat keys=n'' #})"
proof -
  have "itoa 2 = ''2''" by code_simp
  moreover have l: "length middleware_acts = 3" by (simp add: middleware_acts_def)
  ultimately have "beats.awaited 0 = 2" "length middleware_acts = 3"
    "beats.written 0 = {# ''-> demo.beat'', ''beat 2'', ''-> demo.beat'', ''<- demo.beat: panic keys=recovered'',
      ''error handler: demo.beat failed with panic'',
      ''emit rejected before publish: odd_beat event=demo.beat keys=n'' #}"
    by (simp_all add: beats.awaited_def beats.written_def l beat_lines_def numeral_3_eq_3)
  with beats.awaited_ends [OF _ _ _ assms [unfolded middleware_main_acts]] show ?thesis
    by (simp add: start_simps empty_prog_def)
qed

lemma beats_are_accounted_for_witness:
  "\<exists>st. (prog_step ^^ 6) (middleware_main, prog_start 2 empty_prog) ([], st) \<and>
    ''beat 2'' \<in> set (pr_out (w_app (mm_world st)))"
proof -
  have l: "length middleware_acts = 3" by (simp add: middleware_acts_def)
  have "\<exists>c. (prog_step ^^ 6) (middleware_main, prog_start 2 empty_prog) c"
    unfolding middleware_main_acts
    by (rule beats.awaited_complete) (simp_all add: start_simps empty_prog_def beats.awaited_def l numeral_3_eq_3)
  then obtain ms st where r: "(prog_step ^^ 6) (middleware_main, prog_start 2 empty_prog) (ms, st)" by auto
  from beats_are_accounted_for [OF r] have "ms = []" and m: "''beat 2'' \<in># mset (pr_out (w_app (mm_world st)))" by simp_all
  from m have "''beat 2'' \<in> set (pr_out (w_app (mm_world st)))" by simp
  with r \<open>ms = []\<close> show ?thesis by blast
qed

text \<open>The basic program welcomes its user and ends.\<close>

lemma basic_main_welcomes:
  assumes "(prog_step ^^ n) (basic_main, prog_start 1 empty_prog) (ms, st)"
  shows "(ms = [] \<longleftrightarrow> n = 3) \<and> (ms = [] \<longrightarrow> pr_out (w_app (mm_world st)) = [''welcome a@b.com (1)''])"
proof -
  have l: "length basic_acts = 1" by (simp add: basic_acts_def)
  then have "basic.awaited 0 = 1" "basic.written 0 = {# ''welcome a@b.com (1)'' #}"
    by (simp_all add: basic.awaited_def basic.written_def basic_lines_def)
  with basic.awaited_ends [OF _ _ _ assms [unfolded basic_main_acts]] show ?thesis
    by (auto simp: start_simps empty_prog_def l)
qed

end
