(* ===== verification/OutboxProgram.thy ===== *)
theory OutboxProgram
  imports EventOutbox EventPrograms
begin

text \<open>
  \<open>main\<close> of \<open>events/examples/outbox\<close>: a program with three kinds of goroutines, the main one that
  writes users, the relay that moves events on, and the deliveries of the \<open>MemSink\<close> behind the
  outbox. The relation \<open>outbox_step\<close> lets any of them run next; a transaction of main and a pass of
  the relay are one step each, since the database isolates them, and the deliveries a pass starts run
  after it. The pool of \<open>PgTx\<close> works on its own part of the program's state.
\<close>

section \<open>A pool in a program\<close>

definition bare :: "('c, 'w) pworld \<Rightarrow> 'w world" where
  "bare s = \<lparr>w_default = w_default s, w_log = w_log s, w_app = prog.more (w_app s)\<rparr>"

definition dressed :: "('c, 'w) prog_scheme \<Rightarrow> 'w world \<Rightarrow> ('c, 'w) pworld" where
  "dressed p s = \<lparr>w_default = w_default s, w_log = w_log s, w_app = p\<lparr>prog.more := w_app s\<rparr>\<rparr>"

definition in_prog :: "('w world \<Rightarrow> 'a \<times> 'w world) \<Rightarrow> ('c, 'w) pworld \<Rightarrow> 'a \<times> ('c, 'w) pworld" where
  "in_prog f s = (case f (bare s) of (r, s1) \<Rightarrow> (r, dressed (w_app s) s1))"

definition pool_in_prog :: "('c, 'w, 'r) pg_pool \<Rightarrow> ('c, ('c, 'w) prog_scheme, 'r) pg_pool" where
  "pool_in_prog pool = \<lparr>
     po_begin = (\<lambda>ctx opts. in_prog (po_begin pool ctx opts)),
     po_commit = (\<lambda>t ctx. in_prog (po_commit pool t ctx)),
     po_rollback = (\<lambda>t ctx. in_prog (po_rollback pool t ctx)),
     po_exec = (\<lambda>q ctx query args. in_prog (po_exec pool q ctx query args)),
     po_query = (\<lambda>q ctx query args. in_prog (po_query pool q ctx query args)),
     po_query_row = (\<lambda>q ctx query args. in_prog (po_query_row pool q ctx query args)),
     po_ping = (\<lambda>ctx. in_prog (po_ping pool ctx)),
     po_close = (\<lambda>s. dressed (w_app s) (po_close pool (bare s)))\<rparr>"

definition db_in_prog :: "('c, 'w, 'r) pg_db \<Rightarrow> ('c, ('c, 'w) prog_scheme, 'r) pg_db" where
  "db_in_prog db = \<lparr>db_pool = pool_in_prog (db_pool db), db_logger = db_logger db\<rparr>"

definition collect_in_prog :: "(row_mapper \<Rightarrow> 'r \<Rightarrow> 'w world \<Rightarrow> ('t \<times> go_error option) \<times> 'w world) \<Rightarrow>
    row_mapper \<Rightarrow> 'r \<Rightarrow> ('c, 'w) pworld \<Rightarrow> ('t \<times> go_error option) \<times> ('c, 'w) pworld" where
  "collect_in_prog collect mapper rows = in_prog (collect mapper rows)"

section \<open>The event\<close>

record numbered_user =
  nu_id :: int
  nu_email :: string

definition numbered_json :: "numbered_user \<Rightarrow> json" where
  "numbered_json u = JObj [(''id'', JNum (nu_id u)), (''email'', JStr (nu_email u))]"

definition numbered_unmarshal :: "string \<Rightarrow> numbered_user \<Rightarrow> numbered_user \<times> go_error option" where
  "numbered_unmarshal payload u =
     (case unmarshal_struct [(''id'', TInt ''int64'' 64), (''email'', TString)] payload
             [VInt (nu_id u), VString (nu_email u)] of
        (v, err) \<Rightarrow>
          (\<lparr>nu_id = (case v ! 0 of VInt n \<Rightarrow> n | _ \<Rightarrow> nu_id u),
            nu_email = (case v ! 1 of VString t \<Rightarrow> t | _ \<Rightarrow> nu_email u)\<rparr>, err))"

definition numbered_env :: "numbered_user event_env" where
  "numbered_env = \<lparr>ee_name = (\<lambda>u. user_name), ee_validate = (\<lambda>u. None), ee_url_name = (\<lambda>u. None),
     ee_marshal = (\<lambda>u. Inr (json_text (numbered_json u))), ee_unmarshal = numbered_unmarshal\<rparr>"

definition numbered_type :: "numbered_user event_type" where
  "numbered_type = \<lparr>et_zero = \<lparr>nu_id = 0, nu_email = []\<rparr>, et_new = None\<rparr>"

lemma parse_int_itoa_only:
  assumes "parse_int (itoa i) = Inr n"
  shows "n = i \<and> - (2 ^ 63) \<le> i \<and> i < 2 ^ 63"
proof -
  have digits: "m = k" if "parse_uint (itoa_nat k) = Inr m" for k m
    using that parse_uint_loop_sound [of 0 "itoa_nat k" m]
    by (simp add: parse_uint_def digits_val_itoa_nat split: if_splits)
  have "n = i"
  proof (cases "i < 0")
    case True
    with assms digits [of "nat (- i)"] show ?thesis
      by (auto simp: parse_int_def itoa_def Let_def split: sum.splits if_splits)
  next
    case False
    with assms digits [of "nat i"] hd_itoa_nat_digit [of "nat i"] show ?thesis
      by (auto simp: parse_int_def itoa_def Let_def not_sign_if_digit split: sum.splits if_splits dest: not_sign_if_digit)
  qed
  with parse_int_range [OF assms] show ?thesis by simp
qed

text \<open>The payload of the event reads back as the event; an id that does not fit is refused.\<close>

lemma numbered_payload:
  assumes "utf8_valid (nu_email u)"
  shows "numbered_unmarshal (json_text (numbered_json u)) z =
    (case parse_int (itoa (nu_id u)) of
       Inl e \<Rightarrow> (\<lparr>nu_id = nu_id z, nu_email = nu_email u\<rparr>, Some (type_mismatch ''int64'' (''number '' @ itoa (nu_id u))))
     | Inr n \<Rightarrow> (u, None))"
proof -
  have "utf8_valid ''id''" "utf8_valid ''email''" by (simp_all add: utf8_valid_ascii byte_def del: utf8_valid.simps)
  then have "parse_json (json_text (numbered_json u)) = Some (numbered_json u)"
    using assms by (simp add: parse_json_text numbered_json_def del: json_text.simps utf8_valid.simps)
  then show ?thesis
    by (auto simp: numbered_unmarshal_def unmarshal_struct_def numbered_json_def field_index_def unmarshal_value_def
        unmarshal_int_def number_text_def set_int_def signed_take_bit_int_eq_self upt_rec
        dest!: parse_int_itoa_only split: sum.splits simp del: json_text.simps)
qed

section \<open>The program\<close>

type_synonym ('c, 'w, 'r) user_outbox =
  "('c, ('c, 'w) prog_scheme, 'r, ('c, ('c, 'w) prog_scheme) mem_sink) outbox_sink"

definition consumer_line :: "numbered_user \<Rightarrow> string" where
  "consumer_line u = ''consumer: user '' @ itoa (nu_id u) @ '' created ('' @ nu_email u @ '')''"

text \<open>The deferred \<open>Done\<close> runs after the line is logged.\<close>

definition consumer :: "('c, ('c, 'w) prog_scheme, numbered_user) event_handler" where
  "consumer ctx u s = done_nil (print_line (consumer_line u) s)"

definition outbox_bus :: "('c, 'w, 'r) user_outbox \<Rightarrow> ('c, ('c, 'w) prog_scheme, numbered_user) bus" where
  "outbox_bus sink = new_bus numbered_env (outbox_publish sink) []"

text \<open>The inner sink notes what it is given; its goroutines start at the end of the pass.\<close>

definition relay_publish :: "('c, ('c, 'w) prog_scheme) mem_sink \<Rightarrow> 'c go_ctx_scheme \<Rightarrow> envelope \<Rightarrow> ('c, 'w) pworld \<Rightarrow>
    go_error option outcome \<times> ('c, 'w) pworld" where
  "relay_publish inner = prog_publish"

definition want_err :: go_error where
  "want_err = Sentinel ''outbox.wantErr'' ''charge declined''"

definition count_waiting_sql :: string where
  "count_waiting_sql = ''SELECT count(*) FROM event_outbox WHERE published_at IS NULL''"

definition on_main :: "(('c, 'w) pworld \<Rightarrow> string option \<times> ('c, 'w) pworld) \<Rightarrow> ('c, 'w) action" where
  "on_main f st =
     (case f (mm_world st) of
        (None, w) \<Rightarrow> (True, st\<lparr>mm_world := w\<rparr>)
      | (Some fatal, w) \<Rightarrow> (False, st\<lparr>mm_world := print_line fatal w\<rparr>))"

definition expect_one :: "('c, 'w) pworld \<Rightarrow> string option \<times> ('c, 'w) pworld" where
  "expect_one s = (case wait_add 1 s of (Panic p, s1) \<Rightarrow> (Some (''panic: '' @ panic_text p), s1) | (Ret _, s1) \<Rightarrow> (None, s1))"

definition create_ada :: "pg_codes \<Rightarrow> ('c, ('c, 'w) prog_scheme, 'r) pg_db \<Rightarrow>
    (row_mapper \<Rightarrow> 'r \<Rightarrow> ('c, 'w) pworld \<Rightarrow> (int \<times> go_error option) \<times> ('c, 'w) pworld) \<Rightarrow> 'c go_ctx_scheme \<Rightarrow>
    ('c, ('c, 'w) prog_scheme, numbered_user) bus \<Rightarrow> ('c, 'w) pworld \<Rightarrow> string option \<times> ('c, 'w) pworld" where
  "create_ada pc db scalar ctx b s =
     (case create_user pc db scalar numbered_env numbered_user.make ctx b ''ada@example.com'' None s of
        (Panic p, s1) \<Rightarrow> (Some (''panic: '' @ panic_text p), s1)
      | (Ret (Some err), s1) \<Rightarrow> (Some (''create: '' @ err_text err), s1)
      | (Ret None, s1) \<Rightarrow> (None, s1))"

definition declined :: "('c, ('c, 'w) prog_scheme) ctx_body" where
  "declined ctx s = (Ret (Some want_err), s)"

definition create_grace :: "pg_codes \<Rightarrow> ('c, ('c, 'w) prog_scheme, 'r) pg_db \<Rightarrow>
    (row_mapper \<Rightarrow> 'r \<Rightarrow> ('c, 'w) pworld \<Rightarrow> (int \<times> go_error option) \<times> ('c, 'w) pworld) \<Rightarrow> 'c go_ctx_scheme \<Rightarrow>
    ('c, ('c, 'w) prog_scheme, numbered_user) bus \<Rightarrow> ('c, 'w) pworld \<Rightarrow> string option \<times> ('c, 'w) pworld" where
  "create_grace pc db scalar ctx b s =
     (case create_user pc db scalar numbered_env numbered_user.make ctx b ''grace@example.com'' (Some declined) s of
        (Panic p, s1) \<Rightarrow> (Some (''panic: '' @ panic_text p), s1)
      | (Ret None, s1) \<Rightarrow> (Some ''expected the rollback, got <nil>'', s1)
      | (Ret (Some err), s1) \<Rightarrow>
          if \<not> errors_is err want_err then (Some (''expected the rollback, got '' @ err_text err), s1)
          else (None, print_line ''rolled back: no user, and no event either'' s1))"

definition count_waiting :: "pg_codes \<Rightarrow> ('c, ('c, 'w) prog_scheme, 'r) pg_db \<Rightarrow>
    (row_mapper \<Rightarrow> 'r \<Rightarrow> ('c, 'w) pworld \<Rightarrow> (int \<times> go_error option) \<times> ('c, 'w) pworld) \<Rightarrow> 'c go_ctx_scheme \<Rightarrow>
    ('c, 'w) pworld \<Rightarrow> string option \<times> ('c, 'w) pworld" where
  "count_waiting pc db scalar ctx s =
     (case pg_scalar pc (db_pool db) scalar 0 ctx FromPool count_waiting_sql [] s of
        ((n, Some err), s1) \<Rightarrow> (Some (''count: '' @ err_text err), s1)
      | ((n, None), s1) \<Rightarrow> (None, print_line (''outbox backlog: '' @ itoa n) s1))"

text \<open>The statements of \<open>main\<close> once the relay has been started; the sleep lets other goroutines run,
  which they may at any time.\<close>

definition outbox_statements :: "pg_codes \<Rightarrow> ('c, ('c, 'w) prog_scheme, 'r) pg_db \<Rightarrow>
    (row_mapper \<Rightarrow> 'r \<Rightarrow> ('c, 'w) pworld \<Rightarrow> (int \<times> go_error option) \<times> ('c, 'w) pworld) \<Rightarrow> 'c go_ctx_scheme \<Rightarrow>
    ('c, ('c, 'w) prog_scheme, numbered_user) bus \<Rightarrow> ('c, 'w) stmt list" where
  "outbox_statements pc db scalar ctx b =
     [Do (on_main expect_one), Do (on_main (create_ada pc db scalar ctx b)), WaitAll,
      Do (on_main (create_grace pc db scalar ctx b)), Do (on_main (count_waiting pc db scalar ctx))]"

text \<open>The first part of \<open>main\<close>: the tables, the sink and the subscription, or the message it dies with.\<close>

definition outbox_begin :: "('c, ('c, 'w) prog_scheme, 'r) pg_db \<Rightarrow> 'c go_ctx_scheme \<Rightarrow> ('c, 'w) pworld \<Rightarrow>
    (string + ('c, 'w, 'r) user_outbox) \<times> ('c, 'w) pworld" where
  "outbox_begin db ctx s =
     (case outbox_setup db ctx s of
        (Some err, s1) \<Rightarrow> (Inl (''setup: '' @ err_text err), s1)
      | (None, s1) \<Rightarrow>
          (let sink = new_outbox_sink db new_mem_sink; b = outbox_bus sink
           in case on_event numbered_env b numbered_type consumer [] (outbox_subscribe mem_subscribe) sink of
                (Panic p, sink') \<Rightarrow> (Inl (''panic: '' @ panic_text p), s1)
              | (Ret _, sink') \<Rightarrow> (Inr sink', s1)))"

text \<open>One pass of the relay, of up to 50 rows a batch, beside main and the deliveries; a panic of a pass
  or of a delivery has no step, it ends the process.\<close>

inductive outbox_step :: "pg_codes \<Rightarrow> (('c, 'w) prog_scheme, 'r) row_collector \<Rightarrow> ('c, 'w, 'r) user_outbox \<Rightarrow>
    'c go_ctx_scheme \<Rightarrow> ('c, 'w) stmt list \<times> ('c, 'w) pstate \<Rightarrow> ('c, 'w) stmt list \<times> ('c, 'w) pstate \<Rightarrow> bool"
  for pc collect sink ctx where
  runs: "prog_step c c' \<Longrightarrow> outbox_step pc collect sink ctx c c'"
| relay: "ms \<noteq> [] \<Longrightarrow> drain pc relay_publish collect sink ctx 50 (mm_world st) = Some (Ret (), w) \<Longrightarrow>
    outbox_step pc collect sink ctx (ms, st) (ms, launch (os_next sink) (st\<lparr>mm_world := w\<rparr>))"

section \<open>The pool of the program keeps what the pool keeps\<close>

definition db_view_in :: "('w, 'd) db_view \<Rightarrow> (('c, 'w) prog_scheme, 'd) db_view" where
  "db_view_in v = \<lparr>dv_data = (\<lambda>w. dv_data v (prog.more w)), dv_pending = (\<lambda>t w. dv_pending v t (prog.more w)),
     dv_open = (\<lambda>w. dv_open v (prog.more w))\<rparr>"

definition outbox_view_in :: "'w outbox_view \<Rightarrow> ('c, 'w) prog_scheme outbox_view" where
  "outbox_view_in v = \<lparr>ov_db = db_view_in (ov_db v), ov_sent = (\<lambda>w. map snd (pr_pending w)),
     ov_locked = (\<lambda>w. ov_locked v (prog.more w))\<rparr>"

lemma bare_simps [simp]:
  "w_app (bare s) = prog.more (w_app s)" "w_app (dressed p s') = p\<lparr>prog.more := w_app s'\<rparr>"
  by (simp_all add: bare_def dressed_def)

lemma view_in_simps [simp]:
  "dv_data (db_view_in v) w = dv_data v (prog.more w)" "dv_pending (db_view_in v) t w = dv_pending v t (prog.more w)"
  "dv_open (db_view_in v) w = dv_open v (prog.more w)" "ov_db (outbox_view_in u) = db_view_in (ov_db u)"
  "ov_sent (outbox_view_in u) w = map snd (pr_pending w)" "ov_locked (outbox_view_in u) w = ov_locked u (prog.more w)"
  by (simp_all add: db_view_in_def outbox_view_in_def)

lemma pool_in_prog_simps [simp]:
  "po_begin (pool_in_prog pool) ctx opts = in_prog (po_begin pool ctx opts)"
  "po_commit (pool_in_prog pool) t ctx = in_prog (po_commit pool t ctx)"
  "po_rollback (pool_in_prog pool) t ctx = in_prog (po_rollback pool t ctx)"
  "po_exec (pool_in_prog pool) q ctx query args = in_prog (po_exec pool q ctx query args)"
  "po_query (pool_in_prog pool) q ctx query args = in_prog (po_query pool q ctx query args)"
  "db_pool (db_in_prog db) = pool_in_prog (db_pool db)"
  by (simp_all add: pool_in_prog_def db_in_prog_def)

lemma in_progE:
  assumes "in_prog f s = (r, s')"
  obtains w where "f (bare s) = (r, w)" and "s' = dressed (w_app s) w"
  using assms by (auto simp: in_prog_def split: prod.splits)

lemma snd_in_prog: "snd (in_prog f s) = dressed (w_app s) (snd (f (bare s)))"
  by (simp add: in_prog_def case_prod_unfold)

lemma pool_contract_in_prog:
  assumes "pool_contract pool v"
  shows "pool_contract (pool_in_prog pool) (db_view_in v)"
proof -
  note c = pool_contractD [OF assms]
  show ?thesis
    unfolding pool_contract_def pool_in_prog_simps view_in_simps
  proof (intro conjI allI impI)
    fix ctx opts s r s1 assume "in_prog (po_begin pool ctx opts) s = (r, s1)"
    then obtain w where "po_begin pool ctx opts (bare s) = (r, w)" "s1 = dressed (w_app s) w" by (rule in_progE)
    with c(1,2) [of ctx opts "bare s"]
    show "dv_data v (prog.more (w_app s1)) = dv_data v (prog.more (w_app s))"
      "case r of Inl err \<Rightarrow> dv_open v (prog.more (w_app s1)) = dv_open v (prog.more (w_app s))
       | Inr t \<Rightarrow> t \<notin> dv_open v (prog.more (w_app s)) \<and>
           dv_open v (prog.more (w_app s1)) = insert t (dv_open v (prog.more (w_app s)))"
      by (cases r; simp)+
  next
    fix t ctx s r s1 assume "in_prog (po_commit pool t ctx) s = (r, s1)" and t: "t \<in> dv_open v (prog.more (w_app s))"
    then obtain w where "po_commit pool t ctx (bare s) = (r, w)" "s1 = dressed (w_app s) w" by (elim in_progE)
    with c(3,4) [of t ctx "bare s"] t
    show "dv_open v (prog.more (w_app s1)) = dv_open v (prog.more (w_app s)) - {t}"
      "case r of None \<Rightarrow> dv_data v (prog.more (w_app s1)) = dv_pending v t (prog.more (w_app s))
       | Some err \<Rightarrow> errors_as the_pg err \<noteq> None \<longrightarrow> dv_data v (prog.more (w_app s1)) = dv_data v (prog.more (w_app s))"
      by (cases r; simp)+
  next
    fix t ctx s
    show "dv_data v (prog.more (w_app (snd (in_prog (po_rollback pool t ctx) s)))) = dv_data v (prog.more (w_app s))"
      "dv_open v (prog.more (w_app (snd (in_prog (po_rollback pool t ctx) s)))) = dv_open v (prog.more (w_app s)) - {t}"
      using c(5,6) [of t ctx "bare s"] by (simp_all add: snd_in_prog)
  qed
qed

lemma tx_laws_in_prog:
  assumes "tx_laws pool v"
  shows "tx_laws (pool_in_prog pool) (outbox_view_in v)"
proof -
  note t = tx_lawsD [OF assms]
  show ?thesis
    unfolding tx_laws_def pool_in_prog_simps
  proof (intro conjI allI impI)
    fix ctx opts s show "quiet (outbox_view_in v) (w_app s) (w_app (snd (in_prog (po_begin pool ctx opts) s)))"
      using t(1) [where s = "bare s" and ctx = ctx and opts = opts, OF prod.collapse [symmetric]] by (simp add: quiet_def snd_in_prog)
  next
    fix ctx opts s n s1 assume "in_prog (po_begin pool ctx opts) s = (Inr n, s1)"
    then obtain w where "po_begin pool ctx opts (bare s) = (Inr n, w)" "s1 = dressed (w_app s) w" by (rule in_progE)
    with t(2) show "dv_pending (ov_db (outbox_view_in v)) n (w_app s1) = dv_data (ov_db (outbox_view_in v)) (w_app s)"
      by fastforce
  next
    fix n ctx s show "quiet (outbox_view_in v) (w_app s) (w_app (snd (in_prog (po_commit pool n ctx) s)))"
      using t(3) [where s = "bare s" and ctx = ctx and t = n, OF prod.collapse [symmetric]] by (simp add: quiet_def snd_in_prog)
  next
    fix n ctx s show "quiet (outbox_view_in v) (w_app s) (w_app (snd (in_prog (po_rollback pool n ctx) s)))"
      using t(4) [where s = "bare s" and ctx = ctx and t = n] by (simp add: quiet_def snd_in_prog)
  qed
qed

lemma select_law_in_prog:
  assumes "select_law pool collect v"
  shows "select_law (pool_in_prog pool) (collect_in_prog collect) (outbox_view_in v)"
  unfolding select_law_def pool_in_prog_simps collect_in_prog_def
proof (intro allI impI)
  fix t ctx n s r s1 assume "in_prog (po_query pool (FromTx t) ctx pending_events_sql [GInt n]) s = (r, s1)"
  then obtain w where q: "po_query pool (FromTx t) ctx pending_events_sql [GInt n] (bare s) = (r, w)"
    and s1: "s1 = dressed (w_app s) w" by (rule in_progE)
  note law = assms [unfolded select_law_def, rule_format, OF q]
  have b: "bare s1 = w" using s1 by (simp add: bare_def dressed_def)
  have all: "stays (outbox_view_in v) (w_app s) (w_app s2) \<and>
      ov_sent (outbox_view_in v) (w_app s2) = ov_sent (outbox_view_in v) (w_app s) \<and>
      dv_pending (ov_db (outbox_view_in v)) t (w_app s2) = dv_pending (ov_db (outbox_view_in v)) t (w_app s) \<and>
      (err = None \<longrightarrow> vs = take (nat n) (due_rows (ov_locked (outbox_view_in v) (w_app s))
        (dv_pending (ov_db (outbox_view_in v)) t (w_app s))))"
    if r: "r = Inr rows" and c: "in_prog (collect StructByName rows) s1 = ((vs, err), s2)" for rows vs err s2
  proof -
    from c obtain w2 where w2: "collect StructByName rows w = ((vs, err), w2)" "s2 = dressed (w_app s1) w2"
      unfolding b [symmetric] by (rule in_progE)
    from law [THEN conjunct2, THEN conjunct2, THEN conjunct2, rule_format, OF r w2(1)] w2(2) s1
    show ?thesis by (simp add: stays_def)
  qed
  have first: "stays (outbox_view_in v) (w_app s) (w_app s1) \<and>
      ov_sent (outbox_view_in v) (w_app s1) = ov_sent (outbox_view_in v) (w_app s) \<and>
      dv_pending (ov_db (outbox_view_in v)) t (w_app s1) = dv_pending (ov_db (outbox_view_in v)) t (w_app s)"
    using law s1 by (simp add: stays_def)
  show "stays (outbox_view_in v) (w_app s) (w_app s1) \<and>
      ov_sent (outbox_view_in v) (w_app s1) = ov_sent (outbox_view_in v) (w_app s) \<and>
      dv_pending (ov_db (outbox_view_in v)) t (w_app s1) = dv_pending (ov_db (outbox_view_in v)) t (w_app s) \<and>
      (\<forall>rows vs err s2. r = Inr rows \<longrightarrow> in_prog (collect StructByName rows) s1 = ((vs, err), s2) \<longrightarrow>
        stays (outbox_view_in v) (w_app s) (w_app s2) \<and>
        ov_sent (outbox_view_in v) (w_app s2) = ov_sent (outbox_view_in v) (w_app s) \<and>
        dv_pending (ov_db (outbox_view_in v)) t (w_app s2) = dv_pending (ov_db (outbox_view_in v)) t (w_app s) \<and>
        (err = None \<longrightarrow> vs = take (nat n) (due_rows (ov_locked (outbox_view_in v) (w_app s))
          (dv_pending (ov_db (outbox_view_in v)) t (w_app s)))))"
    using first all by blast
qed

lemma mark_law_in_prog:
  assumes "mark_law pool v"
  shows "mark_law (pool_in_prog pool) (outbox_view_in v)"
  unfolding mark_law_def pool_in_prog_simps
proof (intro allI impI)
  fix t ctx i s r s1 assume "in_prog (po_exec pool (FromTx t) ctx mark_event_sql [GInt i]) s = (r, s1)"
  then obtain w where e: "po_exec pool (FromTx t) ctx mark_event_sql [GInt i] (bare s) = (r, w)" "s1 = dressed (w_app s) w"
    by (rule in_progE)
  from mark_lawD [OF assms e(1)] e(2)
  show "stays (outbox_view_in v) (w_app s) (w_app s1) \<and>
      ov_sent (outbox_view_in v) (w_app s1) = ov_sent (outbox_view_in v) (w_app s) \<and>
      (\<forall>tag. r = Inr tag \<longrightarrow> dv_pending (ov_db (outbox_view_in v)) t (w_app s1) =
        mark_row i (dv_pending (ov_db (outbox_view_in v)) t (w_app s)))"
    by (simp add: stays_def)
qed

lemma relay_inner_law: "inner_law (relay_publish inner) (outbox_view_in v)"
  by (auto simp: inner_law_def relay_publish_def prog_publish_def stays_def)

lemma user_insert_in_prog:
  assumes "user_insert_law pool scalar v"
  shows "user_insert_law (pool_in_prog pool) (collect_in_prog scalar) (db_view_in v)"
  unfolding user_insert_law_def pool_in_prog_simps collect_in_prog_def
proof (intro allI impI)
  fix t ctx email s r s1 assume "in_prog (po_query pool (FromTx t) ctx insert_user_sql [GStr email]) s = (r, s1)"
  then obtain w where q: "po_query pool (FromTx t) ctx insert_user_sql [GStr email] (bare s) = (r, w)"
    and s1: "s1 = dressed (w_app s) w" by (rule in_progE)
  note law = assms [unfolded user_insert_law_def, rule_format, OF q]
  have b: "bare s1 = w" using s1 by (simp add: bare_def dressed_def)
  have all: "dv_data (db_view_in v) (w_app s2) = dv_data (db_view_in v) (w_app s) \<and>
      dv_open (db_view_in v) (w_app s2) = dv_open (db_view_in v) (w_app s) \<and>
      (err = None \<longrightarrow> dv_pending (db_view_in v) t (w_app s2) = (dv_pending (db_view_in v) t (w_app s))
        \<lparr>ed_users := ed_users (dv_pending (db_view_in v) t (w_app s)) @ [(uid, email)]\<rparr>)"
    if r: "r = Inr rows" and c: "in_prog (scalar SingleColumn rows) s1 = ((uid, err), s2)" for rows uid err s2
  proof -
    from c obtain w2 where w2: "scalar SingleColumn rows w = ((uid, err), w2)" "s2 = dressed (w_app s1) w2"
      unfolding b [symmetric] by (rule in_progE)
    from law [THEN conjunct2, THEN conjunct2, rule_format, OF r w2(1)] w2(2) s1 show ?thesis by simp
  qed
  have "dv_data (db_view_in v) (w_app s1) = dv_data (db_view_in v) (w_app s) \<and>
      dv_open (db_view_in v) (w_app s1) = dv_open (db_view_in v) (w_app s)"
    using law s1 by simp
  then show "dv_data (db_view_in v) (w_app s1) = dv_data (db_view_in v) (w_app s) \<and>
      dv_open (db_view_in v) (w_app s1) = dv_open (db_view_in v) (w_app s) \<and>
      (\<forall>rows uid err s2. r = Inr rows \<longrightarrow> in_prog (scalar SingleColumn rows) s1 = ((uid, err), s2) \<longrightarrow>
        dv_data (db_view_in v) (w_app s2) = dv_data (db_view_in v) (w_app s) \<and>
        dv_open (db_view_in v) (w_app s2) = dv_open (db_view_in v) (w_app s) \<and>
        (err = None \<longrightarrow> dv_pending (db_view_in v) t (w_app s2) = (dv_pending (db_view_in v) t (w_app s))
          \<lparr>ed_users := ed_users (dv_pending (db_view_in v) t (w_app s)) @ [(uid, email)]\<rparr>))"
    using all by blast
qed

lemma insert_contract_in_prog:
  assumes "insert_contract pool scalar jsonb v"
  shows "insert_contract (pool_in_prog pool) (collect_in_prog scalar) jsonb (db_view_in v)"
  unfolding insert_contract_def
proof (intro conjI allI impI)
  show "pool_contract (pool_in_prog pool) (db_view_in v)"
    using assms pool_contract_in_prog by (auto simp: insert_contract_def)
  show "user_insert_law (pool_in_prog pool) (collect_in_prog scalar) (db_view_in v)"
    using assms user_insert_in_prog by (auto simp: insert_contract_def)
  fix ctx opts s t s1 assume "po_begin (pool_in_prog pool) ctx opts s = (Inr t, s1)"
  then obtain w where "po_begin pool ctx opts (bare s) = (Inr t, w)" "s1 = dressed (w_app s) w"
    unfolding pool_in_prog_simps by (rule in_progE)
  with assms show "dv_pending (db_view_in v) t (w_app s1) = dv_data (db_view_in v) (w_app s)"
    unfolding insert_contract_def by fastforce
next
  have law: "event_insert_law pool jsonb v" using assms by (simp add: insert_contract_def)
  show "event_insert_law (pool_in_prog pool) jsonb (db_view_in v)"
    unfolding event_insert_law_def pool_in_prog_simps
  proof (intro allI impI)
    fix t ctx name payload headers s r s1
    assume "in_prog (po_exec pool (FromTx t) ctx insert_event_sql [GStr name, GStr payload, GStr headers]) s = (r, s1)"
    then obtain w where e: "po_exec pool (FromTx t) ctx insert_event_sql [GStr name, GStr payload, GStr headers] (bare s) = (r, w)"
      and s1: "s1 = dressed (w_app s) w" by (rule in_progE)
    from law [unfolded event_insert_law_def, rule_format, OF e] s1
    show "dv_data (db_view_in v) (w_app s1) = dv_data (db_view_in v) (w_app s) \<and>
        dv_open (db_view_in v) (w_app s1) = dv_open (db_view_in v) (w_app s) \<and>
        (\<forall>tag. r = Inr tag \<longrightarrow> (\<exists>i. i \<notin> set (event_ids (dv_pending (db_view_in v) t (w_app s))) \<and>
          dv_pending (db_view_in v) t (w_app s1) = (dv_pending (db_view_in v) t (w_app s))
            \<lparr>ed_events := ed_events (dv_pending (db_view_in v) t (w_app s)) @
              [(\<lparr>ob_id = i, ob_name = name, ob_payload = jsonb payload,
                 ob_headers = unmarshal_headers headers\<rparr>, False)]\<rparr>))"
      by simp
  qed
qed

section \<open>What the database leaves alone\<close>

text \<open>An operation leaves an observation of the state as it was; a pool does when its calls do.\<close>

definition keeps_seen :: "('w \<Rightarrow> 'i) \<Rightarrow> ('w world \<Rightarrow> 'a \<times> 'w world) \<Rightarrow> bool" where
  "keeps_seen I f \<longleftrightarrow> (\<forall>s r s1. f s = (r, s1) \<longrightarrow> I (w_app s1) = I (w_app s))"

definition pool_keeps :: "('w \<Rightarrow> 'i) \<Rightarrow> ('c, 'w, 'r) pg_pool \<Rightarrow> bool" where
  "pool_keeps I pool \<longleftrightarrow>
     (\<forall>ctx opts. keeps_seen I (po_begin pool ctx opts)) \<and> (\<forall>t ctx. keeps_seen I (po_commit pool t ctx)) \<and>
     (\<forall>t ctx. keeps_seen I (po_rollback pool t ctx)) \<and> (\<forall>q ctx sql args. keeps_seen I (po_exec pool q ctx sql args)) \<and>
     (\<forall>q ctx sql args. keeps_seen I (po_query pool q ctx sql args))"

lemma keeps_seenD: "keeps_seen I f \<Longrightarrow> f s = (r, s1) \<Longrightarrow> I (w_app s1) = I (w_app s)"
  by (simp add: keeps_seen_def)

lemma keeps_seen_snd: "keeps_seen I f \<Longrightarrow> I (w_app (snd (f s))) = I (w_app s)"
  by (metis keeps_seenD prod.collapse)

lemma pool_keepsD:
  assumes "pool_keeps I pool"
  shows "keeps_seen I (po_begin pool ctx opts)" "keeps_seen I (po_commit pool t ctx)"
    "keeps_seen I (po_rollback pool t ctx)" "keeps_seen I (po_exec pool q ctx sql args)"
    "keeps_seen I (po_query pool q ctx sql args)"
  using assms by (simp_all add: pool_keeps_def)

lemma beside_keeps: "keeps_seen I f \<Longrightarrow> keeps_seen (\<lambda>w. I (fst w)) (beside f)"
  by (auto simp: keeps_seen_def elim!: besideE)

lemma pool_beside_keeps: "pool_keeps I pool \<Longrightarrow> pool_keeps (\<lambda>w. I (fst w)) (pool_beside pool)"
  by (simp add: pool_keeps_def pool_beside_def beside_keeps)

lemma pool_in_prog_keeps:
  assumes "\<And>p w. I (p\<lparr>prog.more := w\<rparr>) = I p"
  shows "pool_keeps I (pool_in_prog pool)"
  by (auto simp: pool_keeps_def keeps_seen_def assms elim!: in_progE)

lemma tx_keeps:
  assumes "pool_keeps I (db_pool db)" and "\<And>t. keeps_seen I (f t)"
  shows "keeps_seen I (pg_tx pc db ctx opts f)"
  unfolding keeps_seen_def
proof (intro allI impI)
  fix s r s1 assume "pg_tx pc db ctx opts f s = (r, s1)"
  from pg_tx_ways [OF this] show "I (w_app s1) = I (w_app s)"
    using keeps_seenD [OF pool_keepsD(1) [OF assms(1)]] keeps_seenD [OF pool_keepsD(2) [OF assms(1)]]
      keeps_seen_snd [OF pool_keepsD(3) [OF assms(1)]] keeps_seenD [OF assms(2)]
    by (metis (no_types, lifting))
qed

lemma get_row_keeps:
  assumes "pool_keeps I pool" and "\<And>m rows. keeps_seen I (collect m rows)"
  shows "keeps_seen I (get_row pc pool collect zero ctx q m sql args)"
  using pool_keepsD(5) [OF assms(1)] assms(2)
  by (auto simp: keeps_seen_def get_row_def split: prod.splits sum.splits)

lemma select_rows_keeps:
  assumes "pool_keeps I pool" and "\<And>m rows. keeps_seen I (collect m rows)"
  shows "keeps_seen I (select_rows pc pool collect ctx q m sql args)"
  using pool_keepsD(5) [OF assms(1)] assms(2)
  by (auto simp: keeps_seen_def select_rows_def split: prod.splits sum.splits)

lemma relay_rows_keep:
  assumes "pool_keeps I (db_pool (os_db sink))" and "\<And>ctx ev. keeps_seen I (publish (os_next sink) ctx ev)"
  shows "keeps_seen (\<lambda>w. I (fst w)) (relay_rows publish sink ctx q rows)"
proof -
  note p = keeps_seenD [OF beside_keeps [OF assms(2)]]
    and e = keeps_seenD [OF beside_keeps [OF pool_keepsD(4) [OF assms(1)]]]
  have "I (fst (w_app s1)) = I (fst (w_app s))" if "relay_rows publish sink ctx q rows s = (r, s1)" for s r s1
    using that
    by (induction rows arbitrary: s)
       (fastforce dest: p e split: prod.splits outcome.splits option.splits sum.splits)+
  then show ?thesis by (simp add: keeps_seen_def)
qed

lemma relay_batch_keeps:
  assumes "pool_keeps I (db_pool (os_db sink))" and "\<And>ctx ev. keeps_seen I (publish (os_next sink) ctx ev)"
    and "\<And>m rows. keeps_seen I (collect m rows)"
  shows "keeps_seen I (relay_batch pc publish collect sink ctx limit)"
proof -
  have "keeps_seen (\<lambda>w. I (fst w)) (relay_body pc publish collect sink limit ctx)" for ctx
    using relay_rows_keep [where publish = publish, OF assms(1,2)]
      beside_keeps [OF select_rows_keeps [where collect = collect, OF assms(1,3)]]
    by (fastforce simp: keeps_seen_def relay_body_def pg_select_def Let_def split: prod.splits option.splits)
  then have "keeps_seen (\<lambda>w. I (fst w)) (tx_ctx pc (db_beside (os_db sink)) ctx (relay_body pc publish collect sink limit))" for ctx
    unfolding tx_ctx_def by (intro tx_keeps) (simp_all add: pool_beside_keeps assms(1))
  then show ?thesis
    by (fastforce simp: keeps_seen_def relay_batch_def split: prod.splits outcome.splits option.splits)
qed

lemma drain_keeps:
  assumes "pool_keeps I (db_pool (os_db sink))" and "\<And>ctx ev. keeps_seen I (publish (os_next sink) ctx ev)"
    and "\<And>m rows. keeps_seen I (collect m rows)"
    and "drain pc publish collect sink ctx batch s = Some (r, s')"
  shows "I (w_app s') = I (w_app s)"
proof -
  have "drain pc publish collect sink ctx batch s = Some res \<Longrightarrow>
      keeps_seen I (relay_batch pc publish collect sink ctx batch) \<Longrightarrow> I (w_app (snd res)) = I (w_app s)" for res
  proof (induct pc publish collect sink ctx batch s res rule: drain.raw_induct [rotated, consumes 1])
    case (1 rec pc publish collect sink ctx batch s res)
    obtain r1 s1 where run: "relay_batch pc publish collect sink ctx batch s = (r1, s1)" by fastforce
    from keeps_seenD [OF 1(3) run] have "I (w_app s1) = I (w_app s)" .
    with 1(1) [of _ _ _ _ _ _ s1] 1(2,3) run show ?case
      by (fastforce split: outcome.splits option.splits if_splits)
  qed
  from this [OF assms(4) relay_batch_keeps [where publish = publish, OF assms(1-3)]] show ?thesis by simp
qed

lemma create_user_keeps:
  assumes "pool_keeps I (db_pool db)" and "\<And>m rows. keeps_seen I (scalar m rows)"
    and "\<And>g ctx. after = Some g \<Longrightarrow> keeps_seen I (g ctx)"
  shows "keeps_seen I (create_user pc db scalar env user_created ctx (new_bus env (outbox_publish (new_outbox_sink db inner)) [])
    email after)"
proof -
  note row = keeps_seenD [OF get_row_keeps [where collect = scalar, OF assms(1,2)]]
  have publish: "keeps_seen I (outbox_publish (new_outbox_sink db inner) ctx ev)" for ctx ev
    using pool_keepsD(4) [OF assms(1)]
    by (auto simp: keeps_seen_def outbox_publish_def new_outbox_sink_def split: prod.splits sum.splits)
  have emits: "keeps_seen I (emit env (new_bus env (outbox_publish (new_outbox_sink db inner)) []) ctx e)" for ctx e
    using publish
    by (fastforce simp: keeps_seen_def emit_def base_publisher_def apply_publish_def new_bus_def Let_def
        split: option.splits sum.splits prod.splits outcome.splits)
  have "keeps_seen I (create_user_body pc db scalar env user_created
      (new_bus env (outbox_publish (new_outbox_sink db inner)) []) email after ctx)" for ctx
    unfolding keeps_seen_def
  proof (intro allI impI)
    fix s r s1 assume run: "create_user_body pc db scalar env user_created
      (new_bus env (outbox_publish (new_outbox_sink db inner)) []) email after ctx s = (r, s1)"
    obtain uid err s2 where sc: "pg_scalar pc (db_pool db) scalar 0 ctx (get_querier ctx FromPool) insert_user_sql [GStr email] s =
        ((uid, err), s2)" by (metis prod.collapse)
    from row [OF sc [unfolded pg_scalar_def]] have same: "I (w_app s2) = I (w_app s)" .
    obtain re s3 where em: "emit env (new_bus env (outbox_publish (new_outbox_sink db inner)) []) ctx (user_created uid email) s2 = (re, s3)"
      by fastforce
    from run sc em same keeps_seenD [OF emits em] show "I (w_app s1) = I (w_app s)"
      by (auto simp: create_user_body_def dest: keeps_seenD [OF assms(3)] split: option.splits outcome.splits)
  qed
  then show ?thesis
    unfolding create_user_def tx_ctx_def by (intro tx_keeps assms(1))
qed

section \<open>What a pass of the relay moves\<close>

definition waiting :: "example_data \<Rightarrow> outbox_row set" where
  "waiting d = {row. (row, False) \<in> set (ed_events d)}"

text \<open>The server answers every commit, so none is in doubt.\<close>

definition commits_answered :: "('c, 'w, 'r) pg_pool \<Rightarrow> bool" where
  "commits_answered pool \<longleftrightarrow>
     (\<forall>t ctx s err s1. po_commit pool t ctx s = (Some err, s1) \<longrightarrow> errors_as the_pg err \<noteq> None)"

definition relayed :: "'w outbox_view \<Rightarrow> 'w world \<Rightarrow> 'w world \<Rightarrow> bool" where
  "relayed v s s' \<longleftrightarrow>
     (let d = dv_data (ov_db v) (w_app s); d' = dv_data (ov_db v) (w_app s')
      in ed_users d' = ed_users d \<and> map fst (ed_events d') = map fst (ed_events d) \<and> waiting d' \<subseteq> waiting d \<and>
         (\<exists>rows. set rows \<subseteq> waiting d \<and> ov_sent v (w_app s') = ov_sent v (w_app s) @ map row_envelope rows))"

lemma relayed_trans:
  assumes "relayed v s s1" and "relayed v s1 s2"
  shows "relayed v s s2"
proof -
  from assms obtain r1 r2 where
    "set r1 \<subseteq> waiting (dv_data (ov_db v) (w_app s))" "ov_sent v (w_app s1) = ov_sent v (w_app s) @ map row_envelope r1"
    "set r2 \<subseteq> waiting (dv_data (ov_db v) (w_app s1))" "ov_sent v (w_app s2) = ov_sent v (w_app s1) @ map row_envelope r2"
    unfolding relayed_def Let_def by blast
  with assms show ?thesis
    unfolding relayed_def Let_def by (intro conjI exI [of _ "r1 @ r2"]) auto
qed

lemma relayed_log: "relayed v s s1 \<Longrightarrow> relayed v s (log_to l lv m as s1)"
  by (simp add: relayed_def)

lemma mark_rows_keep:
  "ed_users (fold mark_row is d) = ed_users d" "map fst (ed_events (fold mark_row is d)) = map fst (ed_events d)"
  "waiting (fold mark_row is d) \<subseteq> waiting d"
proof -
  have "ed_users (mark_row i d) = ed_users d" "map fst (ed_events (mark_row i d)) = map fst (ed_events d)"
    "waiting (mark_row i d) \<subseteq> waiting d" for i d
    by (auto simp: mark_row_def waiting_def) (metis (full_types))
  then show "ed_users (fold mark_row is d) = ed_users d" "map fst (ed_events (fold mark_row is d)) = map fst (ed_events d)"
    "waiting (fold mark_row is d) \<subseteq> waiting d"
    by (induction "is" arbitrary: d; fastforce)+
qed

lemma due_waits: "set (due v s) \<subseteq> waiting (dv_data (ov_db v) (w_app s))"
  by (auto simp: due_def due_rows_def waiting_def)

lemma relay_batch_relayed:
  fixes sink :: "('c, 'w, 'r, 's) outbox_sink"
  assumes contract: "outbox_contract (db_pool (os_db sink)) (publish (os_next sink)) collect v"
    and answered: "commits_answered (db_pool (os_db sink))"
    and run: "relay_batch pc publish collect sink ctx limit s = (r, s')"
  shows "relayed v s s'"
proof -
  let ?f = "\<lambda>t. relay_body pc publish collect sink limit (context_with_tx ctx t)"
  let ?opts = "\<lparr>to_iso = ReadCommitted, to_access = AnyAccess\<rparr>"
  obtain r1 s1 where tx: "pg_tx pc (db_beside (os_db sink)) ctx ?opts ?f (with_var 0 s) = (r1, s1)" by fastforce
  have "pool_contract (db_pool (db_beside (os_db sink))) (view_beside (ov_db v))"
    by (simp add: pool_contract_beside outbox_contractD(1) [OF contract])
  from pg_tx_outcome [OF this relay_body_contract [where sink = sink and publish = publish, OF contract] tx]
  have out: "tx_outcome (db_beside (os_db sink)) ctx ?opts ?f (view_beside (ov_db v)) (with_var 0 s) r1 s1" .
  have "\<not> commit_in_doubt (db_beside (os_db sink)) ctx ?opts ?f (with_var 0 s)"
    using answered by (fastforce simp: commit_in_doubt_def commits_answered_def elim!: in_progE besideE)
  with out tx run have same: "dv_data (ov_db v) (w_app s') = dv_data (ov_db v) (w_app s)" if "\<nexists>n. r = Ret (n, None)"
    using that by (auto simp: tx_outcome_def relay_batch_def tx_ctx_def split: outcome.splits option.splits)
  have batch: "batch_outcome v limit s r s'" using relay_batch_outcome [where sink = sink and publish = publish, OF contract run] .
  then obtain k where k: "ov_sent v (w_app s') = ov_sent v (w_app s) @ map row_envelope (take k (take (nat limit) (due v s)))"
    by (auto simp: batch_outcome_def Let_def)
  have "set (take k (take (nat limit) (due v s))) \<subseteq> waiting (dv_data (ov_db v) (w_app s))"
    using due_waits [of v s] by (meson set_take_subset subset_trans)
  moreover have "\<exists>is. dv_data (ov_db v) (w_app s') = fold mark_row is (dv_data (ov_db v) (w_app s))"
  proof (cases "\<exists>n. r = Ret (n, None)")
    case True
    with batch show ?thesis by (auto simp: batch_outcome_def Let_def)
  next
    case False
    with same show ?thesis by (intro exI [of _ "[]"]) simp
  qed
  ultimately show ?thesis
    using k mark_rows_keep unfolding relayed_def Let_def by metis
qed

lemma drain_relayed:
  fixes sink :: "('c, 'w, 'r, 's) outbox_sink"
  assumes "outbox_contract (db_pool (os_db sink)) (publish (os_next sink)) collect v"
    and "commits_answered (db_pool (os_db sink))"
    and "drain pc publish collect sink ctx batch s = Some (r, s')"
  shows "relayed v s s'"
proof -
  have "drain pc publish collect sink ctx batch s = Some res \<Longrightarrow>
      (\<And>s r s'. relay_batch pc publish collect sink ctx batch s = (r, s') \<Longrightarrow> relayed v s s') \<Longrightarrow>
      relayed v s (snd res)" for res
  proof (induct pc publish collect sink ctx batch s res rule: drain.raw_induct [rotated, consumes 1])
    case (1 rec pc publish collect sink ctx batch s res)
    obtain r1 s1 where run: "relay_batch pc publish collect sink ctx batch s = (r1, s1)" by fastforce
    note moved = 1(3) [OF run]
    have "relayed v s1 (snd res)" if "rec pc publish collect sink ctx batch s1 = Some res"
      by (rule 1(1) [OF that 1(3)])
    with relayed_trans [OF moved] moved relayed_log [OF moved] 1(2) run show ?case
      by (fastforce split: outcome.splits option.splits if_splits)
  qed
  from this [OF assms(3) relay_batch_relayed [where publish = publish, OF assms(1,2)]] show ?thesis by simp
qed

section \<open>What the program relies on\<close>

text \<open>Storing a text as \<open>JSONB\<close> keeps the value it stands for.\<close>

definition jsonb_keeps :: "(string \<Rightarrow> string) \<Rightarrow> bool" where
  "jsonb_keeps jsonb \<longleftrightarrow>
     (\<forall>u z u'. utf8_valid (nu_email u) \<longrightarrow>
        numbered_unmarshal (jsonb (json_text (numbered_json u))) z = (u', None) \<longrightarrow> u' = u)"

text \<open>Counting the rows changes nothing.\<close>

definition count_law :: "('c, 'w, 'r) pg_pool \<Rightarrow>
    (row_mapper \<Rightarrow> 'r \<Rightarrow> 'w world \<Rightarrow> (int \<times> go_error option) \<times> 'w world) \<Rightarrow> ('w, example_data) db_view \<Rightarrow> bool" where
  "count_law pool scalar v \<longleftrightarrow>
     (\<forall>ctx. keeps_seen (dv_data v) (po_query pool FromPool ctx count_waiting_sql [])) \<and>
     (\<forall>rows. keeps_seen (dv_data v) (scalar SingleColumn rows))"

definition program_laws :: "('c, 'w, 'r) pg_pool \<Rightarrow> ('w, 'r) row_collector \<Rightarrow>
    (row_mapper \<Rightarrow> 'r \<Rightarrow> 'w world \<Rightarrow> (int \<times> go_error option) \<times> 'w world) \<Rightarrow> (string \<Rightarrow> string) \<Rightarrow> 'w outbox_view \<Rightarrow> bool" where
  "program_laws pool collect scalar jsonb v \<longleftrightarrow>
     pool_contract pool (ov_db v) \<and> tx_laws pool v \<and> select_law pool collect v \<and> mark_law pool v \<and>
     insert_contract pool scalar jsonb (ov_db v) \<and> count_law pool scalar (ov_db v) \<and> commits_answered pool \<and>
     jsonb_keeps jsonb"

lemma jsonb_keeps_verbatim: "jsonb_keeps (\<lambda>p. p)"
  by (auto simp: jsonb_keeps_def numbered_payload split: sum.splits)

lemma program_outbox_contract:
  assumes "program_laws pool collect scalar jsonb v"
  shows "outbox_contract (pool_in_prog pool) (relay_publish inner) (collect_in_prog collect) (outbox_view_in v)"
  using assms pool_contract_in_prog tx_laws_in_prog select_law_in_prog mark_law_in_prog relay_inner_law
  by (auto simp: outbox_contract_def program_laws_def)

lemma program_insert_contract:
  "program_laws pool collect scalar jsonb v \<Longrightarrow>
   insert_contract (pool_in_prog pool) (collect_in_prog scalar) jsonb (db_view_in (ov_db v))"
  by (simp add: program_laws_def insert_contract_in_prog)

lemma commits_answered_in_prog: "commits_answered pool \<Longrightarrow> commits_answered (pool_in_prog pool)"
  by (fastforce simp: commits_answered_def elim!: in_progE)

section \<open>The parts of the program\<close>

definition ada :: string where "ada = ''ada@example.com''"

definition ada_event :: "(string \<Rightarrow> string) \<Rightarrow> int \<Rightarrow> envelope" where
  "ada_event jsonb uid = \<lparr>en_name = user_name,
     en_payload = jsonb (json_text (numbered_json \<lparr>nu_id = uid, nu_email = ada\<rparr>)), en_headers = []\<rparr>"

definition heard :: "('c, 'w) prog_scheme \<Rightarrow> string list" where
  "heard p = filter (prefix ''consumer: '') (pr_out p)"

abbreviation delivery :: "('c, 'w, 'r) user_outbox \<Rightarrow> ('c, ('c, 'w) prog_scheme) handler" where
  "delivery sink \<equiv> deliver numbered_env (outbox_bus sink) numbered_type consumer []"

text \<open>A delivery of the event writes its line and counts down, or leaves the program's state alone.\<close>

lemma delivery_heard:
  assumes "jsonb_keeps jsonb" and "delivery sink ctx (ada_event jsonb uid) s = (Ret r, s')"
  shows "w_app s' = w_app s \<or> 0 < pr_wait (w_app s) \<and>
    w_app s' = w_app (finish [consumer_line \<lparr>nu_id = uid, nu_email = ada\<rparr>] s)"
proof -
  let ?u = "\<lparr>nu_id = uid, nu_email = ada\<rparr>"
  have "utf8_valid ada" by (simp add: ada_def utf8_valid_ascii byte_def del: utf8_valid.simps)
  then have kept: "u' = ?u" if "numbered_unmarshal (jsonb (json_text (numbered_json ?u))) z = (u', None)" for u' z
    using assms(1) that by (simp add: jsonb_keeps_def)
  obtain u err where dec: "numbered_unmarshal (jsonb (json_text (numbered_json ?u))) \<lparr>nu_id = 0, nu_email = []\<rparr> = (u, err)"
    by fastforce
  show ?thesis
  proof (cases err)
    case None
    with dec kept have "u = ?u" by blast
    with assms(2) dec None show ?thesis
      by (auto simp: deliver_def apply_deliver_def combine_deliver_def base_handler_def decode_def on_ctx_def
          outbox_bus_def numbered_env_def numbered_type_def new_bus_def name_of_def zero_event_def default_validator_def
          default_codec_def ada_event_def consumer_def done_nil_def print_line_def wait_add_def finish_def Let_def
          split: if_splits)
  next
    case (Some e)
    with assms(2) dec show ?thesis
      by (auto simp: deliver_def apply_deliver_def combine_deliver_def base_handler_def decode_def on_ctx_def
          outbox_bus_def numbered_env_def numbered_type_def new_bus_def name_of_def zero_event_def default_validator_def
          default_codec_def ada_event_def default_error_handler_def Let_def split: option.splits)
  qed
qed

lemma launch_all:
  "launch sink (st\<lparr>mm_world := w\<rparr>) =
    \<lparr>mm_world = w\<lparr>w_app := (w_app w)\<lparr>pr_pending := []\<rparr>\<rparr>,
     mm_tasks = mm_tasks st @ concat (map (\<lambda>(ctx, ev). map (\<lambda>d. (d, ctx, ev)) (subs_of (ms_subs sink) (en_name ev)))
       (pr_pending (w_app w)))\<rparr>"
proof -
  have "fold (\<lambda>(ctx, ev) st. snd (mem_publish sink ctx ev st)) xs st0 =
    st0\<lparr>mm_tasks := mm_tasks st0 @ concat (map (\<lambda>(ctx, ev). map (\<lambda>d. (d, ctx, ev)) (subs_of (ms_subs sink) (en_name ev))) xs)\<rparr>"
    for xs and st0 :: "('a, 'b) pstate"
    by (induction xs arbitrary: st0) (auto simp: mem_publish_def)
  then show ?thesis by (simp add: launch_def)
qed

lemma grace_never_commits:
  "create_user pc db scalar numbered_env mk ctx b email (Some declined) s \<noteq> (Ret None, s')"
proof -
  have "create_user_body pc db scalar numbered_env mk b email (Some declined) c s \<noteq> (Ret None, s')" for c s s'
    by (auto simp: create_user_body_def declined_def split: prod.splits option.splits outcome.splits)
  then show ?thesis
    unfolding create_user_def tx_ctx_def by (auto dest!: pg_tx_ways)
qed

section \<open>The statements of main\<close>

text \<open>What a statement leaves of the program's variables, and the data it commits.\<close>

definition quiet_text :: "string option \<Rightarrow> bool" where
  "quiet_text fatal \<longleftrightarrow> (\<forall>m. fatal = Some m \<longrightarrow> \<not> prefix ''consumer: '' m)"

abbreviation data_of :: "'w outbox_view \<Rightarrow> ('c, 'w) pworld \<Rightarrow> example_data" where
  "data_of v s \<equiv> dv_data (ov_db v) (prog.more (w_app s))"

abbreviation vars :: "('c, 'w) prog_scheme \<Rightarrow> string list \<times> int \<times> ('c go_ctx_scheme \<times> envelope) list" where
  "vars p \<equiv> (pr_out p, pr_wait p, pr_pending p)"

lemma collect_keeps_vars: "keeps_seen vars (collect_in_prog collect m rows)"
  by (auto simp: keeps_seen_def collect_in_prog_def elim!: in_progE)

lemma create_keeps_vars:
  assumes "\<And>g ctx. after = Some g \<Longrightarrow> keeps_seen vars (g ctx)"
    and "create_user pc (db_in_prog db) (collect_in_prog scalar) env mk ctx
      (new_bus env (outbox_publish (new_outbox_sink (db_in_prog db) inner)) []) email after s = (r, s1)"
  shows "vars (w_app s1) = vars (w_app s)"
  by (rule keeps_seenD [OF create_user_keeps [where I = vars and db = "db_in_prog db" and after = after] assms(2)])
    (simp_all add: pool_in_prog_keeps collect_keeps_vars assms(1))

lemma create_data:
  assumes "program_laws (db_pool db) collect scalar jsonb v" and "\<And>g. after = Some g \<Longrightarrow> leaves_tables g (db_view_in (ov_db v))"
    and "create_user pc (db_in_prog db) (collect_in_prog scalar) numbered_env mk ctx
      (outbox_bus (new_outbox_sink (db_in_prog db) inner)) email after s = (r, s1)"
  shows "if r = Ret None then user_and_event numbered_env mk jsonb email (data_of v s) (data_of v s1) else data_of v s1 = data_of v s"
proof -
  have "commits_answered (pool_in_prog (db_pool db))"
    using assms(1) by (intro commits_answered_in_prog) (simp add: program_laws_def)
  then have "\<not> commit_in_doubt (db_in_prog db) ctx opts f s" for opts f
    by (fastforce simp: commit_in_doubt_def commits_answered_def)
  with create_user_outcome [where db = "db_in_prog db" and v = "db_view_in (ov_db v)" and jsonb = jsonb,
      OF _ assms(2) assms(3) [unfolded outbox_bus_def]] program_insert_contract [OF assms(1)]
  show ?thesis by (auto split: outcome.splits option.splits)
qed

lemma create_ada_runs:
  assumes "program_laws (db_pool db) collect scalar jsonb v"
    and "create_ada pc (db_in_prog db) (collect_in_prog scalar) ctx (outbox_bus (new_outbox_sink (db_in_prog db) inner)) s = (res, s1)"
  shows "vars (w_app s1) = vars (w_app s)" and "quiet_text res"
    and "if res = None then user_and_event numbered_env numbered_user.make jsonb ada (data_of v s) (data_of v s1)
      else data_of v s1 = data_of v s"
proof -
  obtain r s2 where c: "create_user pc (db_in_prog db) (collect_in_prog scalar) numbered_env numbered_user.make ctx
      (outbox_bus (new_outbox_sink (db_in_prog db) inner)) ''ada@example.com'' None s = (r, s2)" by fastforce
  have res: "s2 = s1" "res = None \<longleftrightarrow> r = Ret None" "quiet_text res"
    using assms(2) c by (auto simp: create_ada_def quiet_text_def split: outcome.splits option.splits)
  then show "quiet_text res" by simp
  from create_keeps_vars [OF _ c [unfolded outbox_bus_def]] res show "vars (w_app s1) = vars (w_app s)" by simp
  from create_data [OF assms(1) _ c] res
  show "if res = None then user_and_event numbered_env numbered_user.make jsonb ada (data_of v s) (data_of v s1)
      else data_of v s1 = data_of v s"
    by (simp add: ada_def split: if_splits)
qed

lemma create_grace_runs:
  assumes "program_laws (db_pool db) collect scalar jsonb v"
    and "create_grace pc (db_in_prog db) (collect_in_prog scalar) ctx (outbox_bus (new_outbox_sink (db_in_prog db) inner)) s = (res, s1)"
  shows "heard (w_app s1) = heard (w_app s)" and "pr_wait (w_app s1) = pr_wait (w_app s)"
    and "pr_pending (w_app s1) = pr_pending (w_app s)" and "quiet_text res" and "data_of v s1 = data_of v s"
proof -
  obtain r s2 where c: "create_user pc (db_in_prog db) (collect_in_prog scalar) numbered_env numbered_user.make ctx
      (outbox_bus (new_outbox_sink (db_in_prog db) inner)) ''grace@example.com'' (Some declined) s = (r, s2)" by fastforce
  have "r \<noteq> Ret None" using grace_never_commits c by metis
  with create_data [OF assms(1) _ c] have d: "data_of v s2 = data_of v s"
    by (simp add: leaves_tables_def declined_def)
  have k: "vars (w_app s2) = vars (w_app s)"
    by (rule create_keeps_vars [OF _ c [unfolded outbox_bus_def]]) (auto simp: keeps_seen_def declined_def)
  have res: "s1 = s2 \<or> s1 = print_line ''rolled back: no user, and no event either'' s2" "quiet_text res"
    using assms(2) c by (auto simp: create_grace_def quiet_text_def split: outcome.splits option.splits if_splits)
  then show "quiet_text res" by simp
  from res(1) k d show "heard (w_app s1) = heard (w_app s)" "pr_wait (w_app s1) = pr_wait (w_app s)"
    "pr_pending (w_app s1) = pr_pending (w_app s)" "data_of v s1 = data_of v s"
    by (auto simp: heard_def print_line_def)
qed

lemma count_waiting_runs:
  assumes "program_laws (db_pool db) collect scalar jsonb v"
    and "count_waiting pc (db_in_prog db) (collect_in_prog scalar) ctx s = (res, s1)"
  shows "heard (w_app s1) = heard (w_app s)" and "pr_pending (w_app s1) = pr_pending (w_app s)"
    and "quiet_text res" and "data_of v s1 = data_of v s"
proof -
  obtain n err s2 where c: "pg_scalar pc (pool_in_prog (db_pool db)) (collect_in_prog scalar) 0 ctx FromPool count_waiting_sql [] s =
      ((n, err), s2)" by (metis prod.collapse)
  have law: "keeps_seen (dv_data (ov_db v)) (po_query (db_pool db) FromPool ctx count_waiting_sql [])"
      "keeps_seen (dv_data (ov_db v)) (scalar SingleColumn rows)" for rows
    using assms(1) by (simp_all add: program_laws_def count_law_def)
  have d: "data_of v s2 = data_of v s"
    using c by (auto simp: pg_scalar_def get_row_def collect_in_prog_def split: prod.splits sum.splits
        elim!: in_progE dest!: keeps_seenD [OF law(1)] keeps_seenD [OF law(2)])
  have k: "vars (w_app s2) = vars (w_app s)"
    using c keeps_seenD [OF get_row_keeps [where I = vars, OF pool_in_prog_keeps collect_keeps_vars]]
    by (simp add: pg_scalar_def)
  have res: "s1 = s2 \<or> s1 = print_line (''outbox backlog: '' @ itoa n) s2" "quiet_text res"
    using assms(2) c by (auto simp: count_waiting_def quiet_text_def split: option.splits)
  then show "quiet_text res" by simp
  from res(1) k d show "heard (w_app s1) = heard (w_app s)"
    "pr_pending (w_app s1) = pr_pending (w_app s)" "data_of v s1 = data_of v s"
    by (auto simp: heard_def print_line_def)
qed

section \<open>Every schedule\<close>

text \<open>
  What holds whatever has run: the run has committed one new user at most, with its event; every
  delivery that is started or has been heard is that event's; the counter and the lines add up; and main
  is past its wait only when the consumer was heard.
\<close>

definition new_rows :: "(string \<Rightarrow> string) \<Rightarrow> (int \<times> string) list \<Rightarrow> outbox_row list \<Rightarrow> bool" where
  "new_rows jsonb us rows \<longleftrightarrow> us = [] \<and> rows = [] \<or>
     (\<exists>uid row. us = [(uid, ada)] \<and> rows = [row] \<and> row_envelope row = ada_event jsonb uid)"

definition tables_grown :: "(string \<Rightarrow> string) \<Rightarrow> example_data \<Rightarrow> example_data \<Rightarrow> (int \<times> string) list \<Rightarrow> bool" where
  "tables_grown jsonb d0 d us \<longleftrightarrow>
     (\<exists>rows. ed_users d = ed_users d0 @ us \<and> map fst (ed_events d) = map fst (ed_events d0) @ rows \<and>
        waiting d \<subseteq> set rows \<and> new_rows jsonb us rows)"

definition only_heard :: "(int \<times> string) list \<Rightarrow> string list \<Rightarrow> bool" where
  "only_heard us ls \<longleftrightarrow> ls = [] \<or> (\<exists>uid. us = [(uid, ada)] \<and> ls = [consumer_line \<lparr>nu_id = uid, nu_email = ada\<rparr>])"

definition at_statement :: "(int \<times> string) list \<Rightarrow> nat \<Rightarrow> ('c, 'w) prog_scheme \<Rightarrow> bool" where
  "at_statement us i p \<longleftrightarrow>
     pr_wait p + int (length (heard p)) = (if i = 0 then 0 else 1) \<and> (i \<le> 1 \<longrightarrow> us = []) \<and> (3 \<le> i \<longrightarrow> heard p \<noteq> [])"

definition at_some :: "('c, 'w) stmt list \<Rightarrow> (int \<times> string) list \<Rightarrow> ('c, 'w) stmt list \<Rightarrow> ('c, 'w) prog_scheme \<Rightarrow> bool" where
  "at_some main us ms p \<longleftrightarrow> ms = [] \<or> (\<exists>i < length main. ms = drop i main \<and> at_statement us i p)"

definition all_of :: "(string \<Rightarrow> string) \<Rightarrow> ('c, ('c, 'w) prog_scheme) handler \<Rightarrow> (int \<times> string) list \<Rightarrow>
    (('c, ('c, 'w) prog_scheme) handler \<times> 'c go_ctx_scheme \<times> envelope) list \<Rightarrow> bool" where
  "all_of jsonb d us ts \<longleftrightarrow> (\<forall>t \<in> set ts. \<exists>ctx uid. t = (d, ctx, ada_event jsonb uid) \<and> us = [(uid, ada)])"

definition reached :: "'w outbox_view \<Rightarrow> (string \<Rightarrow> string) \<Rightarrow> ('c, ('c, 'w) prog_scheme) handler \<Rightarrow> example_data \<Rightarrow>
    ('c, 'w) stmt list \<Rightarrow> ('c, 'w) stmt list \<times> ('c, 'w) pstate \<Rightarrow> bool" where
  "reached v jsonb d d0 main c \<longleftrightarrow>
     (\<exists>us. tables_grown jsonb d0 (data_of v (mm_world (snd c))) us \<and>
        pr_pending (w_app (mm_world (snd c))) = [] \<and> all_of jsonb d us (mm_tasks (snd c)) \<and>
        only_heard us (heard (w_app (mm_world (snd c)))) \<and> at_some main us (fst c) (w_app (mm_world (snd c))))"

lemma reachedE:
  assumes "reached v jsonb d d0 main (ms, st)"
  obtains us where "tables_grown jsonb d0 (data_of v (mm_world st)) us" "pr_pending (w_app (mm_world st)) = []"
    "all_of jsonb d us (mm_tasks st)" "only_heard us (heard (w_app (mm_world st)))"
    "at_some main us ms (w_app (mm_world st))"
  using assms unfolding reached_def by auto

lemma reachedI:
  assumes "tables_grown jsonb d0 (data_of v (mm_world st)) us" and "pr_pending (w_app (mm_world st)) = []"
    and "all_of jsonb d us (mm_tasks st)" and "only_heard us (heard (w_app (mm_world st)))"
    and "at_some main us ms (w_app (mm_world st))"
  shows "reached v jsonb d d0 main (ms, st)"
  using assms unfolding reached_def by auto

lemma heard_quiet: "quiet_text (Some m) \<Longrightarrow> heard (w_app (print_line m s)) = heard (w_app s)"
  by (simp add: quiet_text_def heard_def print_line_def)

lemma heard_consumer: "prefix ''consumer: '' (consumer_line u)"
  by (simp add: consumer_line_def)

text \<open>A delivery.\<close>

lemma delivered_reached:
  assumes r: "reached v jsonb (delivery sink) d0 main (ms, st)" and j: "jsonb_keeps jsonb"
    and step: "mem_step st st'" and ms: "ms \<noteq> []"
  shows "reached v jsonb (delivery sink) d0 main (ms, st')"
  using r
proof (rule reachedE)
  fix us assume t: "tables_grown jsonb d0 (data_of v (mm_world st)) us"
    and pend: "pr_pending (w_app (mm_world st)) = []" and tasks: "all_of jsonb (delivery sink) us (mm_tasks st)"
    and h: "only_heard us (heard (w_app (mm_world st)))" and i: "at_some main us ms (w_app (mm_world st))"
  from step obtain before d ctx ev after x w' where run: "mm_tasks st = before @ (d, ctx, ev) # after"
    "d ctx ev (mm_world st) = (Ret x, w')" "st' = st\<lparr>mm_world := w', mm_tasks := before @ after\<rparr>"
    by (elim mem_stepE) metis
  from tasks run(1) obtain uid where uid: "d = delivery sink" "ev = ada_event jsonb uid" "us = [(uid, ada)]"
    unfolding all_of_def by fastforce
  let ?l = "consumer_line \<lparr>nu_id = uid, nu_email = ada\<rparr>" and ?w = "w_app (mm_world st)"
  have tasks': "all_of jsonb (delivery sink) us (mm_tasks st')"
    using tasks run(1,3) by (simp add: all_of_def)
  from delivery_heard [OF j run(2) [unfolded uid(1,2)]] show ?thesis
  proof
    assume "w_app w' = ?w"
    with t pend h i tasks' run(3) show ?thesis by (intro reachedI [where us = us]) simp_all
  next
    assume "0 < pr_wait ?w \<and> w_app w' = w_app (finish [?l] (mm_world st))"
    then have w': "0 < pr_wait ?w" "w_app w' = ?w\<lparr>pr_out := pr_out ?w @ [?l], pr_wait := pr_wait ?w - 1\<rparr>"
      by (simp_all add: finish_def)
    from i ms obtain k where k: "k < length main" "ms = drop k main" "at_statement us k ?w" by (auto simp: at_some_def)
    then have "pr_wait ?w + int (length (heard ?w)) \<le> 1" by (simp add: at_statement_def split: if_splits)
    with w'(1) have "length (heard ?w) = 0" by linarith
    then have none: "heard ?w = []" by simp
    with w'(2) have h': "heard (w_app w') = [?l]" by (simp add: heard_def heard_consumer)
    with k(3) w' none have "at_statement us k (w_app w')" by (simp add: at_statement_def split: if_splits)
    with k have "at_some main us ms (w_app w')" by (auto simp: at_some_def)
    moreover have "only_heard us (heard (w_app w'))" using h' uid(3) by (simp add: only_heard_def)
    moreover have "data_of v w' = data_of v (mm_world st)" "pr_pending (w_app w') = []" using w'(2) pend by simp_all
    ultimately show ?thesis using t tasks' run(3) by (intro reachedI [where us = us]) simp_all
  qed
qed

text \<open>A pass of the relay.\<close>

lemma relay_publish_keeps: "keeps_seen (\<lambda>p. (pr_out p, pr_wait p)) (relay_publish inner ctx ev)"
  by (simp add: keeps_seen_def relay_publish_def prog_publish_def)

lemma relay_pass_vars:
  assumes "drain pc relay_publish (collect_in_prog collect) (new_outbox_sink (db_in_prog db) inner) ctx batch s = Some (r, s')"
  shows "pr_out (w_app s') = pr_out (w_app s)" and "pr_wait (w_app s') = pr_wait (w_app s)"
proof -
  have "pool_keeps (\<lambda>p. (pr_out p, pr_wait p)) (db_pool (os_db (new_outbox_sink (db_in_prog db) inner)))"
    by (simp add: new_outbox_sink_def pool_in_prog_keeps)
  moreover have "keeps_seen (\<lambda>p. (pr_out p, pr_wait p)) (collect_in_prog collect m rows)" for m rows
    unfolding keeps_seen_def by (auto dest: keeps_seenD [OF collect_keeps_vars])
  ultimately have "(pr_out (w_app s'), pr_wait (w_app s')) = (pr_out (w_app s), pr_wait (w_app s))"
    by (rule drain_keeps [where publish = relay_publish, OF _ relay_publish_keeps _ assms])
  then show "pr_out (w_app s') = pr_out (w_app s)" and "pr_wait (w_app s') = pr_wait (w_app s)" by simp_all
qed

lemma relay_pass_moves:
  assumes "program_laws (db_pool db) collect scalar jsonb v"
    and "drain pc relay_publish (collect_in_prog collect) (new_outbox_sink (db_in_prog db) inner) ctx batch s = Some (r, s')"
  shows "relayed (outbox_view_in v) s s'"
proof (rule drain_relayed [where publish = relay_publish, OF _ _ assms(2)])
  show "outbox_contract (db_pool (os_db (new_outbox_sink (db_in_prog db) inner)))
      (relay_publish (os_next (new_outbox_sink (db_in_prog db) inner))) (collect_in_prog collect) (outbox_view_in v)"
    using program_outbox_contract [OF assms(1)] by (simp add: new_outbox_sink_def)
  show "commits_answered (db_pool (os_db (new_outbox_sink (db_in_prog db) inner)))"
    using assms(1) by (simp add: new_outbox_sink_def commits_answered_in_prog program_laws_def)
qed

lemma relayed_tables:
  assumes "relayed (outbox_view_in v) s s'" and "tables_grown jsonb d0 (data_of v s) us"
  shows "tables_grown jsonb d0 (data_of v s') us"
proof -
  from assms(2) obtain rows where "ed_users (data_of v s) = ed_users d0 @ us"
    "map fst (ed_events (data_of v s)) = map fst (ed_events d0) @ rows" "waiting (data_of v s) \<subseteq> set rows" "new_rows jsonb us rows"
    unfolding tables_grown_def by blast
  moreover from assms(1) have "ed_users (data_of v s') = ed_users (data_of v s)"
    "map fst (ed_events (data_of v s')) = map fst (ed_events (data_of v s))" "waiting (data_of v s') \<subseteq> waiting (data_of v s)"
    unfolding relayed_def Let_def by simp_all
  ultimately have "ed_users (data_of v s') = ed_users d0 @ us \<and>
    map fst (ed_events (data_of v s')) = map fst (ed_events d0) @ rows \<and> waiting (data_of v s') \<subseteq> set rows \<and> new_rows jsonb us rows"
    by simp
  then show ?thesis unfolding tables_grown_def by blast
qed

lemma relayed_sends:
  assumes "relayed (outbox_view_in v) s s'" and "tables_grown jsonb d0 (data_of v s) us" and "pr_pending (w_app s) = []"
    and "(c, ev) \<in> set (pr_pending (w_app s'))"
  shows "\<exists>uid. ev = ada_event jsonb uid \<and> us = [(uid, ada)]"
proof -
  from assms(1,3) obtain sent where sent: "set sent \<subseteq> waiting (data_of v s)" "map snd (pr_pending (w_app s')) = map row_envelope sent"
    unfolding relayed_def Let_def by (auto simp del: set_map)
  from assms(4) have "ev \<in> set (map snd (pr_pending (w_app s')))" by force
  then have "ev \<in> set (map row_envelope sent)" using sent(2) by (simp only:)
  then obtain row where row: "row \<in> waiting (data_of v s)" "ev = row_envelope row" using sent(1) by auto
  from assms(2) obtain rows where "waiting (data_of v s) \<subseteq> set rows" "new_rows jsonb us rows"
    unfolding tables_grown_def by blast
  with row show ?thesis unfolding new_rows_def by auto
qed

lemma launched_all_of:
  assumes "all_of jsonb d us (mm_tasks st)" and "ms_subs inner = [(user_name, [d])]"
    and "\<And>c ev. (c, ev) \<in> set (pr_pending (w_app w)) \<Longrightarrow> \<exists>uid. ev = ada_event jsonb uid \<and> us = [(uid, ada)]"
  shows "all_of jsonb d us (mm_tasks (launch inner (st\<lparr>mm_world := w\<rparr>)))"
  unfolding all_of_def
proof
  fix x assume "x \<in> set (mm_tasks (launch inner (st\<lparr>mm_world := w\<rparr>)))"
  then consider "x \<in> set (mm_tasks st)"
    | c ev where "(c, ev) \<in> set (pr_pending (w_app w))" "x \<in> (\<lambda>d. (d, c, ev)) ` set (subs_of (ms_subs inner) (en_name ev))"
    unfolding launch_all by auto
  then show "\<exists>ctx uid. x = (d, ctx, ada_event jsonb uid) \<and> us = [(uid, ada)]"
  proof cases
    case 1
    with assms(1) show ?thesis unfolding all_of_def by blast
  next
    case 2
    from assms(3) [OF 2(1)] obtain uid where uid: "ev = ada_event jsonb uid" "us = [(uid, ada)]" by blast
    then have "subs_of (ms_subs inner) (en_name ev) = [d]" by (simp add: ada_event_def assms(2) subs_of_def)
    with 2(2) uid show ?thesis by auto
  qed
qed

lemma relay_reached:
  assumes r: "reached v jsonb d d0 main (ms, st)"
    and laws: "program_laws (db_pool db) collect scalar jsonb v" and inner: "ms_subs inner = [(user_name, [d])]"
    and run: "drain pc relay_publish (collect_in_prog collect) (new_outbox_sink (db_in_prog db) inner) ctx 50 (mm_world st) =
      Some (Ret (), w)"
  shows "reached v jsonb d d0 main (ms, launch inner (st\<lparr>mm_world := w\<rparr>))"
  using r
proof (rule reachedE)
  let ?st = "launch inner (st\<lparr>mm_world := w\<rparr>)"
  fix us assume t: "tables_grown jsonb d0 (data_of v (mm_world st)) us"
    and pend: "pr_pending (w_app (mm_world st)) = []" and tasks: "all_of jsonb d us (mm_tasks st)"
    and h: "only_heard us (heard (w_app (mm_world st)))" and i: "at_some main us ms (w_app (mm_world st))"
  note moved = relay_pass_moves [OF laws run] and vars = relay_pass_vars [OF run]
  have w: "mm_world ?st = w\<lparr>w_app := (w_app w)\<lparr>pr_pending := []\<rparr>\<rparr>" by (simp add: launch_all)
  show "reached v jsonb d d0 main (ms, ?st)"
  proof (rule reachedI [where us = us])
    show "tables_grown jsonb d0 (data_of v (mm_world ?st)) us"
      using relayed_tables [OF moved t] by (simp add: w)
    show "all_of jsonb d us (mm_tasks ?st)"
      by (rule launched_all_of [OF tasks inner]) (rule relayed_sends [OF moved t pend])
    show "only_heard us (heard (w_app (mm_world ?st)))" using h by (simp add: w heard_def vars)
    show "at_some main us ms (w_app (mm_world ?st))" using i by (simp add: w at_some_def at_statement_def heard_def vars)
  qed (simp add: w)
qed

text \<open>A statement of main.\<close>

lemma on_main_reached:
  assumes "f (mm_world st) = (res, w)" and "on_main f st = (ok, st')" and "quiet_text res"
    and "tables_grown jsonb d0 (data_of v w) us" and "pr_pending (w_app w) = []" and "all_of jsonb d us (mm_tasks st)"
    and "only_heard us (heard (w_app w))" and "res = None \<Longrightarrow> at_some main us ms (w_app w)"
  shows "reached v jsonb d d0 main (if ok then ms else [], st')"
proof (cases res)
  case None
  with assms(1,2) have "ok" "st' = st\<lparr>mm_world := w\<rparr>" by (simp_all add: on_main_def)
  with assms(4-8) None show ?thesis by (simp add: reachedI [where us = us])
next
  case (Some m)
  with assms(1,2) have st': "\<not> ok" "st' = st\<lparr>mm_world := print_line m w\<rparr>" by (simp_all add: on_main_def)
  have "heard (w_app (print_line m w)) = heard (w_app w)" using assms(3) Some by (simp add: heard_quiet)
  with assms(4-7) st' show ?thesis
    by (auto intro!: reachedI [where us = us] simp: at_some_def print_line_def)
qed

lemma ada_grows:
  assumes "user_and_event numbered_env numbered_user.make jsonb ada d d'" and "tables_grown jsonb d0 d []"
  shows "\<exists>uid. tables_grown jsonb d0 d' [(uid, ada)]"
proof -
  from assms(1) obtain uid i where new: "ed_users d' = ed_users d @ [(uid, ada)]"
    "ed_events d' = ed_events d @ [(\<lparr>ob_id = i, ob_name = user_name,
       ob_payload = jsonb (json_text (numbered_json \<lparr>nu_id = uid, nu_email = ada\<rparr>)), ob_headers = []\<rparr>, False)]"
    by (auto simp: user_and_event_def numbered_env_def encode_def default_codec_def numbered_user.defs)
  let ?row = "\<lparr>ob_id = i, ob_name = user_name,
    ob_payload = jsonb (json_text (numbered_json \<lparr>nu_id = uid, nu_email = ada\<rparr>)), ob_headers = []\<rparr>"
  from assms(2) have old: "ed_users d = ed_users d0" "map fst (ed_events d) = map fst (ed_events d0)" "waiting d = {}"
    by (auto simp: tables_grown_def new_rows_def)
  have "waiting d' \<subseteq> set [?row]" using old(3) new(2) by (auto simp: waiting_def)
  moreover have "new_rows jsonb [(uid, ada)] [?row]" by (simp add: new_rows_def row_envelope_def ada_event_def)
  ultimately show ?thesis using old new unfolding tables_grown_def by (intro exI [of _ uid] exI [of _ "[?row]"]) simp
qed

lemma statement_reached:
  assumes r: "reached v jsonb d d0 main (Do a # ms, st)" and laws: "program_laws (db_pool db) collect scalar jsonb v"
    and main: "main = outbox_statements pc (db_in_prog db) (collect_in_prog scalar) ctx (outbox_bus (new_outbox_sink (db_in_prog db) inner))"
    and run: "a st = (ok, st')"
  shows "reached v jsonb d d0 main (if ok then ms else [], st')"
  using r
proof (rule reachedE)
  let ?w = "w_app (mm_world st)"
  fix us assume t: "tables_grown jsonb d0 (data_of v (mm_world st)) us" and pend: "pr_pending ?w = []"
    and tasks: "all_of jsonb d us (mm_tasks st)" and h: "only_heard us (heard ?w)" and i: "at_some main us (Do a # ms) ?w"
  from i obtain k where k: "k < length main" "Do a # ms = drop k main" "at_statement us k ?w" by (auto simp: at_some_def)
  have "length main = 5" by (simp add: main outbox_statements_def)
  with k(1) consider "k = 0" | "k = 1" | "k = 2" | "k = 3" | "k = 4" by linarith
  then show ?thesis
  proof cases
    case 1
    with k(2) have a: "a = on_main expect_one" "ms = drop 1 main" by (simp_all add: main outbox_statements_def)
    from k(3) 1 h have none: "heard ?w = []" "us = []" "pr_wait ?w = 0"
      by (auto simp: at_statement_def only_heard_def)
    have f: "expect_one (mm_world st) = (None, (mm_world st)\<lparr>w_app := ?w\<lparr>pr_wait := 1\<rparr>\<rparr>)"
      using none(3) by (simp add: expect_one_def wait_add_def)
    show ?thesis
      by (rule on_main_reached [OF f run [unfolded a(1)], where us = us])
        (use t pend tasks h none in \<open>auto simp: quiet_text_def heard_def at_some_def at_statement_def a(2) main outbox_statements_def
          intro!: exI [of _ 1]\<close>)
  next
    case 2
    with k(2) have a: "a = on_main (create_ada pc (db_in_prog db) (collect_in_prog scalar) ctx
        (outbox_bus (new_outbox_sink (db_in_prog db) inner)))" "ms = drop 2 main"
      by (simp_all add: main outbox_statements_def numeral_2_eq_2)
    from k(3) 2 h have none: "us = []" "heard ?w = []" "pr_wait ?w = 1"
      by (auto simp: at_statement_def only_heard_def)
    obtain res w where f: "create_ada pc (db_in_prog db) (collect_in_prog scalar) ctx
        (outbox_bus (new_outbox_sink (db_in_prog db) inner)) (mm_world st) = (res, w)" by fastforce
    note ran = create_ada_runs [OF laws f]
    have same: "heard (w_app w) = []" "pr_wait (w_app w) = 1" "pr_pending (w_app w) = []"
      using ran(1) none pend by (simp_all add: heard_def)
    have idle: "mm_tasks st = []" using tasks none(1) by (cases "mm_tasks st") (auto simp: all_of_def)
    have "\<exists>us'. tables_grown jsonb d0 (data_of v w) us'"
    proof (cases res)
      case None
      with ran(3) ada_grows t none(1) show ?thesis by fastforce
    next
      case (Some m)
      with ran(3) t show ?thesis by auto
    qed
    then obtain us' where t': "tables_grown jsonb d0 (data_of v w) us'" by blast
    show ?thesis
      by (rule on_main_reached [OF f run [unfolded a(1)] ran(2) t'])
        (use same idle in \<open>auto simp: all_of_def only_heard_def at_some_def at_statement_def a(2) main outbox_statements_def
          intro!: exI [of _ 2]\<close>)
  next
    case 3
    with k(2) show ?thesis by (simp add: main outbox_statements_def numeral_2_eq_2)
  next
    case 4
    with k(2) have a: "a = on_main (create_grace pc (db_in_prog db) (collect_in_prog scalar) ctx
        (outbox_bus (new_outbox_sink (db_in_prog db) inner)))" "ms = drop 4 main"
      by (simp_all add: main outbox_statements_def numeral_3_eq_3)
    obtain res w where f: "create_grace pc (db_in_prog db) (collect_in_prog scalar) ctx
        (outbox_bus (new_outbox_sink (db_in_prog db) inner)) (mm_world st) = (res, w)" by fastforce
    note ran = create_grace_runs [OF laws f]
    from k(3) 4 have "at_statement us 4 (w_app w)" by (simp add: at_statement_def ran(1,2))
    then have "at_some main us ms (w_app w)"
      by (auto simp: at_some_def a(2) main outbox_statements_def intro!: exI [of _ 4])
    then show ?thesis
      by (intro on_main_reached [OF f run [unfolded a(1)] ran(4), where us = us]) (use t pend tasks h ran in simp_all)
  next
    case 5
    with k(2) have a: "a = on_main (count_waiting pc (db_in_prog db) (collect_in_prog scalar) ctx)" "ms = []"
      by (simp_all add: main outbox_statements_def eval_nat_numeral)
    obtain res w where f: "count_waiting pc (db_in_prog db) (collect_in_prog scalar) ctx (mm_world st) = (res, w)" by fastforce
    note ran = count_waiting_runs [OF laws f]
    show ?thesis
      by (rule on_main_reached [OF f run [unfolded a(1)] ran(3), where us = us])
        (use t pend tasks h ran a(2) in \<open>simp_all add: at_some_def\<close>)
  qed
qed

lemma wait_reached:
  assumes "reached v jsonb d d0 main (WaitAll # ms, st)" and "pr_wait (w_app (mm_world st)) = 0"
    and main: "main = outbox_statements pc db scalar ctx b"
  shows "reached v jsonb d d0 main (ms, st)"
  using assms(1)
proof (rule reachedE)
  let ?w = "w_app (mm_world st)"
  fix us assume t: "tables_grown jsonb d0 (data_of v (mm_world st)) us" and pend: "pr_pending ?w = []"
    and tasks: "all_of jsonb d us (mm_tasks st)" and h: "only_heard us (heard ?w)" and i: "at_some main us (WaitAll # ms) ?w"
  from i obtain k where k: "k < length main" "WaitAll # ms = drop k main" "at_statement us k ?w" by (auto simp: at_some_def)
  have "length main = 5" by (simp add: main outbox_statements_def)
  with k(1) consider "k = 0" | "k = 1" | "k = 2" | "k = 3" | "k = 4" by linarith
  then have "k = 2" using k(2) by cases (simp_all add: main outbox_statements_def eval_nat_numeral)
  with k(2,3) assms(2) have "ms = drop 3 main" "at_statement us 3 ?w"
    by (auto simp: at_statement_def main outbox_statements_def eval_nat_numeral)
  with \<open>length main = 5\<close> have "at_some main us ms ?w" by (auto simp: at_some_def intro!: exI [of _ 3])
  with t pend tasks h show ?thesis by (rule reachedI [where us = us])
qed

lemma step_reached:
  assumes "reached v jsonb (delivery (new_outbox_sink (db_in_prog db) new_mem_sink)) d0 main c"
    and laws: "program_laws (db_pool db) collect scalar jsonb v"
    and main: "main = outbox_statements pc (db_in_prog db) (collect_in_prog scalar) ctx
      (outbox_bus (new_outbox_sink (db_in_prog db) new_mem_sink))"
    and inner: "ms_subs inner = [(user_name, [delivery (new_outbox_sink (db_in_prog db) new_mem_sink)])]"
    and step: "outbox_step pc (collect_in_prog collect) (new_outbox_sink (db_in_prog db) inner) ctx c c'"
  shows "reached v jsonb (delivery (new_outbox_sink (db_in_prog db) new_mem_sink)) d0 main c'"
  using step
proof cases
  case runs
  obtain ms st where c: "c = (ms, st)" by fastforce
  have j: "jsonb_keeps jsonb" using laws by (simp add: program_laws_def)
  note r = assms(1) [unfolded c]
  from runs [unfolded c] show ?thesis
  proof (rule prog_stepE)
    fix a ms' st' assume ms: "ms = Do a # ms'" and c': "c' = (ms', st')" and "a st = (True, st')"
    with statement_reached [OF r [unfolded ms] laws main] show ?thesis by fastforce
  next
    fix a ms' st' assume ms: "ms = Do a # ms'" and c': "c' = ([], st')" and "a st = (False, st')"
    with statement_reached [OF r [unfolded ms] laws main] show ?thesis by fastforce
  next
    fix ms' assume ms: "ms = WaitAll # ms'" and "c' = (ms', st)" and "pr_wait (w_app (mm_world st)) = 0"
    with wait_reached [OF r [unfolded ms] _ main] show ?thesis by simp
  next
    fix st' assume "c' = (ms, st')" and "ms \<noteq> []" and "mem_step st st'"
    with delivered_reached [OF r j] show ?thesis by simp
  qed
next
  case (relay ms st w)
  with relay_reached [OF assms(1) [unfolded relay(1)] laws inner] show ?thesis by (simp add: new_outbox_sink_def)
qed

lemma outbox_bus_inner: "outbox_bus (new_outbox_sink db inner) = outbox_bus (new_outbox_sink db inner')"
proof -
  have "outbox_publish (new_outbox_sink db inner) = outbox_publish (new_outbox_sink db inner')"
    by (intro ext) (simp add: outbox_publish_def new_outbox_sink_def)
  then show ?thesis by (simp add: outbox_bus_def)
qed

lemma outbox_begin_ok:
  assumes "outbox_begin db ctx s0 = (Inr sink, s)"
  shows "\<exists>inner. sink = new_outbox_sink db inner \<and> ms_subs inner = [(user_name, [delivery (new_outbox_sink db new_mem_sink)])]"
  using assms
  by (auto simp: outbox_begin_def Let_def on_event_def outbox_bus_def numbered_env_def numbered_type_def new_bus_def
      default_codec_def codec_prepare_for_def name_of_def zero_event_def outbox_subscribe_def new_outbox_sink_def
      mem_subscribe_def new_mem_sink_def subs_of_def split: prod.splits option.splits)

lemma start_reached:
  assumes "waiting (data_of v s) = {}" and "pr_pending (w_app s) = []" and "heard (w_app s) = []" and "pr_wait (w_app s) = 0"
  shows "reached v jsonb d (data_of v s) (outbox_statements pc db scalar ctx b)
    (outbox_statements pc db scalar ctx b, \<lparr>mm_world = s, mm_tasks = []\<rparr>)"
proof (rule reachedI [where us = "[]"])
  show "tables_grown jsonb (data_of v s) (data_of v (mm_world \<lparr>mm_world = s, mm_tasks = []\<rparr>)) []"
    using assms(1) by (simp add: tables_grown_def new_rows_def)
  show "at_some (outbox_statements pc db scalar ctx b) [] (outbox_statements pc db scalar ctx b)
      (w_app (mm_world \<lparr>mm_world = s, mm_tasks = []\<rparr>))"
    using assms by (auto simp: at_some_def at_statement_def outbox_statements_def intro!: exI [of _ 0])
qed (use assms in \<open>simp_all add: all_of_def only_heard_def\<close>)

lemma run_reached:
  assumes laws: "program_laws (db_pool db) collect scalar jsonb v"
    and begun: "outbox_begin (db_in_prog db) ctx s0 = (Inr sink, s)"
    and start: "waiting (data_of v s) = {}" "pr_pending (w_app s) = []" "heard (w_app s) = []" "pr_wait (w_app s) = 0"
    and run: "(outbox_step pc (collect_in_prog collect) sink ctx)\<^sup>*\<^sup>*
      (outbox_statements pc (db_in_prog db) (collect_in_prog scalar) ctx (outbox_bus sink), \<lparr>mm_world = s, mm_tasks = []\<rparr>) c"
  shows "reached v jsonb (delivery (new_outbox_sink (db_in_prog db) new_mem_sink)) (data_of v s)
    (outbox_statements pc (db_in_prog db) (collect_in_prog scalar) ctx (outbox_bus sink)) c"
proof -
  from outbox_begin_ok [OF begun] obtain inner where sink: "sink = new_outbox_sink (db_in_prog db) inner"
    and inner: "ms_subs inner = [(user_name, [delivery (new_outbox_sink (db_in_prog db) new_mem_sink)])]" by blast
  note run = run [unfolded sink outbox_bus_inner [of "db_in_prog db" inner new_mem_sink]]
  show ?thesis
    using run unfolding sink outbox_bus_inner [of "db_in_prog db" inner new_mem_sink]
  proof (induction rule: rtranclp_induct)
    case base
    show ?case by (rule start_reached [OF start])
  next
    case (step c c')
    from step_reached [OF step(3) laws refl inner step(2)] show ?case .
  qed
qed

section \<open>A run for the witness\<close>

definition op_state :: "string list \<Rightarrow> int \<Rightarrow> (unit go_ctx_scheme \<times> envelope) list \<Rightarrow> (nat \<Rightarrow> example_data) \<Rightarrow> example_data \<Rightarrow>
    (unit, outbox_mem) pworld" where
  "op_state out n todo pend d = \<lparr>w_default = ''default'', w_log = [],
     w_app = \<lparr>pr_out = out, pr_wait = n, pr_pending = todo,
       \<dots> = \<lparr>om_data = d, om_pending = pend, om_open = [], om_sent = []\<rparr>\<rparr>\<rparr>"

definition op_world :: "(unit, outbox_mem) pworld" where
  "op_world = op_state [] 0 [] (\<lambda>t. \<lparr>ed_users = [], ed_events = []\<rparr>) \<lparr>ed_users = [], ed_events = []\<rparr>"

definition ada_row :: outbox_row where
  "ada_row = \<lparr>ob_id = 1, ob_name = user_name, ob_payload = json_text (numbered_json \<lparr>nu_id = 1, nu_email = ada\<rparr>), ob_headers = []\<rparr>"

lemma op_laws: "program_laws (db_pool om_db) om_collect om_scalar (\<lambda>p. p) om_view"
proof -
  note c = outbox_contractD [OF om_contract]
  have "count_law om_pool om_scalar (ov_db om_view)" "commits_answered om_pool"
    by (simp_all add: count_law_def commits_answered_def keeps_seen_def om_pool_def om_query_def om_scalar_def)
  with om_contract om_insert_contract jsonb_keeps_verbatim show ?thesis
    by (simp add: program_laws_def outbox_contract_def om_sink_def om_db_def new_outbox_sink_def)
qed

lemma op_begun: "\<exists>sink. outbox_begin (db_in_prog om_db) background op_world = (Inr sink, op_world)"
  by (simp add: outbox_begin_def outbox_setup_def db_exec_def db_in_prog_def om_db_def pool_in_prog_def om_pool_def om_exec_def in_prog_def
      bare_def dressed_def op_world_def op_state_def on_event_def outbox_bus_def numbered_env_def numbered_type_def new_bus_def
      default_codec_def codec_prepare_for_def name_of_def zero_event_def outbox_subscribe_def Let_def)

lemma op_add: "expect_one op_world = (None, op_state [] 1 [] (\<lambda>t. \<lparr>ed_users = [], ed_events = []\<rparr>) \<lparr>ed_users = [], ed_events = []\<rparr>)"
  by (simp add: expect_one_def wait_add_def op_world_def op_state_def)

lemmas op_pool_defs = tx_ctx_def pg_tx_def new_outbox_sink_def om_db_def om_pool_def Let_def
  db_in_prog_def pool_in_prog_def in_prog_def bare_def dressed_def collect_in_prog_def om_scalar_def om_collect_def
  pg_scalar_def get_row_def pg_select_def select_rows_def beside_def db_beside_def pool_beside_def get_querier_def context_with_tx_def tx_from_context_def
  om_query_def om_exec_def om_update_def om_close_def

lemma op_create: "\<exists>pend. create_ada sample_codes (db_in_prog om_db) (collect_in_prog om_scalar) background
    (outbox_bus (new_outbox_sink (db_in_prog om_db) inner)) (op_state [] 1 [] p \<lparr>ed_users = [], ed_events = []\<rparr>) =
    (None, op_state [] 1 [] pend \<lparr>ed_users = [(1, ada)], ed_events = [(ada_row, False)]\<rparr>)"
  by (simp add: create_ada_def create_user_def create_user_body_def op_pool_defs numbered_user.defs
        outbox_bus_def numbered_env_def numbered_type_def new_bus_def name_of_def zero_event_def default_validator_def
          default_codec_def op_state_def encode_def ada_row_def ada_def next_event_id_def unmarshal_headers_def outbox_headers_def
        event_ids_def emit_def base_publisher_def outbox_publish_def)

lemma op_drain: "\<exists>ctx pend. drain sample_codes relay_publish (collect_in_prog om_collect) (new_outbox_sink (db_in_prog om_db) inner) background 50
      (op_state [] 1 [] p \<lparr>ed_users = us, ed_events = [(ada_row, False)]\<rparr>) =
    Some (Ret (), op_state [] 1 [(ctx, ada_event (\<lambda>p. p) 1)] pend \<lparr>ed_users = us, ed_events = [(ada_row, True)]\<rparr>)"
  by (subst drain.simps) (simp add: relay_batch_def relay_body_def op_pool_defs op_state_def due_rows_def ada_row_def ada_event_def
    relay_publish_def prog_publish_def with_var_def set_var_def without_local_def row_envelope_def mark_row_def)

lemma op_heard:
  "delivery (new_outbox_sink (db_in_prog om_db) new_mem_sink) ctx (ada_event (\<lambda>p. p) 1) (op_state [] 1 [] q d) =
    (Ret None, op_state [consumer_line \<lparr>nu_id = 1, nu_email = ada\<rparr>] 0 [] q d)"
proof -
  have "utf8_valid ada" by (simp add: ada_def utf8_valid_ascii byte_def del: utf8_valid.simps)
  then have "numbered_unmarshal (json_text (numbered_json \<lparr>nu_id = 1, nu_email = ada\<rparr>)) z = (\<lparr>nu_id = 1, nu_email = ada\<rparr>, None)" for z
    by (simp add: numbered_payload parse_int_itoa)
  then show ?thesis
    by (simp add: deliver_def apply_deliver_def combine_deliver_def base_handler_def decode_def on_ctx_def ada_event_def
        outbox_bus_def numbered_env_def numbered_type_def new_bus_def name_of_def zero_event_def default_validator_def
        default_codec_def consumer_def done_nil_def print_line_def wait_add_def op_state_def Let_def)
qed

text \<open>The run: the counter is set, Ada is written, the relay passes, her event is delivered, \<open>Wait\<close> returns.\<close>

lemma op_run:
  assumes sink: "sink = new_outbox_sink (db_in_prog om_db) inner"
    and subs: "ms_subs inner = [(user_name, [delivery (new_outbox_sink (db_in_prog om_db) new_mem_sink)])]"
    and main: "main = outbox_statements sample_codes (db_in_prog om_db) (collect_in_prog om_scalar) background (outbox_bus sink)"
  shows "\<exists>q. (outbox_step sample_codes (collect_in_prog om_collect) sink background)\<^sup>*\<^sup>*
    (main, \<lparr>mm_world = op_world, mm_tasks = []\<rparr>)
    (drop 3 main, \<lparr>mm_world = op_state [consumer_line \<lparr>nu_id = 1, nu_email = ada\<rparr>] 0 [] q
      \<lparr>ed_users = [(1, ada)], ed_events = [(ada_row, True)]\<rparr>, mm_tasks = []\<rparr>)" (is "\<exists>q. ?step\<^sup>*\<^sup>* _ (_, ?last q)")
proof -
  let ?no = "\<lparr>ed_users = [], ed_events = []\<rparr>" and ?d = "\<lparr>ed_users = [(1, ada)], ed_events = [(ada_row, False)]\<rparr>"
    and ?sent = "\<lparr>ed_users = [(1, ada)], ed_events = [(ada_row, True)]\<rparr>" and ?e = "ada_event (\<lambda>p. p) 1"
    and ?dl = "delivery (new_outbox_sink (db_in_prog om_db) new_mem_sink)"
  obtain p where created: "create_ada sample_codes (db_in_prog om_db) (collect_in_prog om_scalar) background (outbox_bus sink)
      (op_state [] 1 [] (\<lambda>t. ?no) ?no) = (None, op_state [] 1 [] p ?d)"
    using op_create unfolding sink by blast
  obtain ctx q where drained: "drain sample_codes relay_publish (collect_in_prog om_collect) sink background 50
      (op_state [] 1 [] p ?d) = Some (Ret (), op_state [] 1 [(ctx, ?e)] q ?sent)"
    using op_drain unfolding sink by blast
  have "?step (main, \<lparr>mm_world = op_world, mm_tasks = []\<rparr>) (drop 1 main, \<lparr>mm_world = op_state [] 1 [] (\<lambda>t. ?no) ?no, mm_tasks = []\<rparr>)"
    by (auto simp: main outbox_statements_def on_main_def op_add intro!: outbox_step.runs prog_step.act)
  moreover have "?step (drop 1 main, \<lparr>mm_world = op_state [] 1 [] (\<lambda>t. ?no) ?no, mm_tasks = []\<rparr>)
      (drop 2 main, \<lparr>mm_world = op_state [] 1 [] p ?d, mm_tasks = []\<rparr>)"
    by (auto simp: main outbox_statements_def on_main_def created intro!: outbox_step.runs prog_step.act)
  moreover have "?step (drop 2 main, \<lparr>mm_world = op_state [] 1 [] p ?d, mm_tasks = []\<rparr>)
      (drop 2 main, \<lparr>mm_world = op_state [] 1 [] q ?sent, mm_tasks = [(?dl, ctx, ?e)]\<rparr>)"
  proof -
    have "launch (os_next sink) (\<lparr>mm_world = op_state [] 1 [] p ?d, mm_tasks = []\<rparr>\<lparr>mm_world := op_state [] 1 [(ctx, ?e)] q ?sent\<rparr>) =
        \<lparr>mm_world = op_state [] 1 [] q ?sent, mm_tasks = [(?dl, ctx, ?e)]\<rparr>"
      unfolding launch_all by (simp add: op_state_def subs sink new_outbox_sink_def subs_of_def ada_event_def)
    moreover have "drop 2 main \<noteq> []" by (simp add: main outbox_statements_def)
    ultimately show ?thesis
      using outbox_step.relay [of "drop 2 main" sample_codes "collect_in_prog om_collect" sink background
          "\<lparr>mm_world = op_state [] 1 [] p ?d, mm_tasks = []\<rparr>"] drained by simp
  qed
  moreover have "?step (drop 2 main, \<lparr>mm_world = op_state [] 1 [] q ?sent, mm_tasks = [(?dl, ctx, ?e)]\<rparr>) (drop 2 main, ?last q)"
    using mem_step.run [of "\<lparr>mm_world = op_state [] 1 [] q ?sent, mm_tasks = [(?dl, ctx, ?e)]\<rparr>" "[]" ?dl ctx ?e "[]"] op_heard
    by (auto simp: main outbox_statements_def intro!: outbox_step.runs prog_step.run)
  moreover have "?step (drop 2 main, ?last q) (drop 3 main, ?last q)"
    by (auto simp: main outbox_statements_def op_state_def intro!: outbox_step.runs prog_step.wait)
  ultimately show ?thesis
    by (meson rtranclp.rtrancl_into_rtrancl rtranclp.rtrancl_refl)
qed

section \<open>Properties\<close>



text \<open>The counter of the program allows for one delivery; the relay promises at least one. A second
  delivery of the same event panics when it is done.\<close>

theorem redelivery_panics:
  assumes "pr_wait (w_app s) = 0" and "utf8_valid (nu_email u)" and "- (2 ^ 63) \<le> nu_id u" and "nu_id u < 2 ^ 63"
  shows "\<exists>p s'. delivery sink ctx \<lparr>en_name = user_name, en_payload = json_text (numbered_json u), en_headers = []\<rparr> s =
    (Panic p, s') \<and> pr_out (w_app s') = pr_out (w_app s) @ [consumer_line u]"
proof -
  have "numbered_unmarshal (json_text (numbered_json u)) z = (u, None)" for z
    using assms by (simp add: numbered_payload parse_int_itoa)
  with assms(1) show ?thesis
    by (simp add: deliver_def apply_deliver_def combine_deliver_def base_handler_def decode_def on_ctx_def
          outbox_bus_def numbered_env_def numbered_type_def new_bus_def name_of_def zero_event_def default_validator_def
          default_codec_def consumer_def done_nil_def print_line_def wait_add_def Let_def)
qed

end
