(* ===== verification/EventEndpoint.thy ===== *)
theory EventEndpoint
  imports EventBus HttpRouter
begin

text \<open>
  Package events, \<open>events/endpoint.go\<close>: \<open>RegisterEndpoint\<close>, the HTTP twin of \<open>On\<close>,
  registers a typed handler on the router of package http; \<open>asReqError\<close> projects its errors and
  \<open>pathSafe\<close> makes the path segment. How a bound struct is an event is a parameter
  (\<open>of_fields\<close>), because requests bind lists of field values.
\<close>

section \<open>Path segments\<close>

text \<open>
  \<open>unicode.ToLower\<close> as far as ASCII goes: the ASCII capitals, and the two other runes that lower
  to an ASCII letter; the rest stays outside ASCII.
\<close>

definition lower_rune :: "nat \<Rightarrow> nat" where
  "lower_rune r =
     (if 65 \<le> r \<and> r \<le> 90 then r + 32
      else if r = 8490 then 107 else if r = 304 then 105 else r)"

definition safe_rune :: "nat \<Rightarrow> bool" where
  "safe_rune r \<longleftrightarrow> (97 \<le> r \<and> r \<le> 122) \<or> (48 \<le> r \<and> r \<le> 57) \<or> r = 46 \<or> r = 45 \<or> r = 95"

definition path_safe :: "string \<Rightarrow> string" where
  "path_safe name =
     map (\<lambda>r. let l = lower_rune r in if safe_rune l then char_of l else CHR ''-'') (runes name)"

section \<open>Errors\<close>

definition as_req_error :: "('c, 'w, 'e) bus \<Rightarrow> go_error \<Rightarrow> string \<Rightarrow> go_error option" where
  "as_req_error b err name =
     (case bs_coercer b (Some err) of
        None \<Rightarrow> None
      | Some eventErr \<Rightarrow>
          (let ev = with_event eventErr name;
               reqErr = http_new (evt_code ev) (evt_meta ev) [EEvent ev]
           in if evt_code ev \<in> {''validation_failed'', ''invalid'', ''decode_failed''}
              then Some (EReq reqErr)
              else Some (EReq (with_status reqErr 500))))"

section \<open>The endpoint\<close>

definition empty_resp :: "unit resp_type" where
  "empty_resp = \<lparr>rs_empty = True, rs_status_coder = None, rs_encode = (\<lambda>_. Inr (JObj []))\<rparr>"

definition event_segment :: "'e event_env \<Rightarrow> 'e event_type \<Rightarrow> string" where
  "event_segment env t =
     (case ee_url_name env (zero_event t) of
        Some u \<Rightarrow> u
      | None \<Rightarrow> path_safe (ee_name env (zero_event t)))"

definition endpoint_handler :: "'e event_env \<Rightarrow> ('c, 'w, 'e) bus \<Rightarrow> ('x fval list \<Rightarrow> 'e) \<Rightarrow>
    ('c, 'w, 'e) event_handler \<Rightarrow> ('c, 'w, 'x, unit) typed_handler" where
  "endpoint_handler env b of_fields handler ctx vals s =
     (let e = of_fields vals;
          fail = (\<lambda>err. case as_req_error b err (ee_name env e) of
                     Some x \<Rightarrow> Inl x | None \<Rightarrow> Inr ())
      in case bs_validator b e of
           Some err \<Rightarrow> (Ret (fail err), s)
         | None \<Rightarrow>
             (case handler ctx e s of
                (Panic p, s') \<Rightarrow> (Panic p, s')
              | (Ret (Some err), s') \<Rightarrow> (Ret (fail err), s')
              | (Ret None, s') \<Rightarrow> (Ret (Inr ()), s')))"

definition register_endpoint :: "'x std_env \<Rightarrow> 'e event_env \<Rightarrow> ('c, 'w, 'e) bus \<Rightarrow> 'e event_type \<Rightarrow>
    go_type \<Rightarrow> 'x fval list \<Rightarrow> ('x fval list \<Rightarrow> 'e) \<Rightarrow> ('c, 'w, 'x) router \<Rightarrow>
    ('c, 'w, 'e) event_handler \<Rightarrow> ('c, 'w) http_middleware list \<Rightarrow> ('c, 'w) mux \<Rightarrow>
    unit outcome \<times> ('c, 'w) mux" where
  "register_endpoint senv env b t gt zero of_fields rg handler mw m =
     router_handle senv rg ''POST'' (''/events/'' @ event_segment env t) (TPtr gt) zero empty_resp
       (endpoint_handler env b of_fields handler) mw m"

section \<open>Facts\<close>

lemma byte_char_of: "r < 256 \<Longrightarrow> byte (char_of r) = r"
  by (simp add: byte_def)

lemma safe_lower: "safe_rune (lower_rune r) \<Longrightarrow> lower_rune (lower_rune r) = lower_rune r \<and> lower_rune r < 128"
  by (auto simp: safe_rune_def lower_rune_def split: if_splits)

lemma dash_rune: "byte CHR ''-'' = 45"
  by (simp add: byte_def of_char_def)

definition safe_char :: "char \<Rightarrow> bool" where
  "safe_char c \<longleftrightarrow> safe_rune (byte c)"

lemma path_safe_chars: "c \<in> set (path_safe name) \<Longrightarrow> safe_char c \<and> lower_rune (byte c) = byte c"
  using safe_lower byte_char_of
  by (fastforce simp: path_safe_def safe_char_def Let_def dash_rune safe_rune_def lower_rune_def
      split: if_splits)

lemma path_safe_idem: "path_safe (path_safe name) = path_safe name"
proof -
  have "byte c < 128" if "c \<in> set (path_safe name)" for c
    using path_safe_chars [OF that] by (auto simp: safe_char_def safe_rune_def)
  then have "runes (path_safe name) = map byte (path_safe name)" by (intro runes_ascii) blast
  moreover have "map (\<lambda>c. let l = lower_rune (byte c) in if safe_rune l then char_of l else CHR ''-'')
      (path_safe name) = path_safe name"
    by (intro map_idI) (use path_safe_chars in \<open>auto simp: safe_char_def byte_def\<close>)
  ultimately show ?thesis
    by (subst path_safe_def) (simp add: comp_def)
qed

lemma as_req_error_found:
  assumes "bs_coercer b (Some err) = Some ev"
  shows "\<exists>r. as_req_error b err name = Some (EReq r) \<and> req_code r = evt_code ev \<and>
    req_meta r = evt_meta ev \<and> req_causes r = [EEvent (with_event ev name)]"
  using assms by (auto simp: as_req_error_def Let_def http_new_def)

section \<open>Properties\<close>

text \<open>The path segment of an event name is safe in a URL whatever bytes the name holds: one
  character per rune, each a lower-case letter, a digit, a dot, a dash or an underscore; and a safe
  segment is its own segment.\<close>

theorem path_segments_are_safe:
  "list_all safe_char (path_safe name) \<and> length (path_safe name) = length (runes name) \<and>
   path_safe (path_safe name) = path_safe name"
proof (intro conjI)
  show "length (path_safe name) = length (runes name)" by (simp add: path_safe_def)
qed (simp_all add: list_all_iff path_safe_chars path_safe_idem)

text \<open>Over HTTP an event error is the caller's fault exactly for the three codes of bad input:
  the projected error answers 400 when its code is validation_failed, invalid or decode_failed and 500
  otherwise, keeps code and metadata, and every cause of the event error stays visible to
  \<open>errors.Is\<close>.\<close>

theorem endpoint_errors_keep_their_class:
  assumes "event_coercer (bs_coercer b)" and "errors_as the_event err = Some ev"
  shows "\<exists>r. as_req_error b err name = Some (EReq r) \<and>
    status_code r = (if evt_code ev \<in> {''validation_failed'', ''invalid'', ''decode_failed''} then 400 else 500) \<and>
    req_code r = evt_code ev \<and> req_meta r = evt_meta ev \<and>
    list_all (errors_is (EReq r)) (filter (\<lambda>c. same_error c c) (evt_causes ev))"
proof -
  have c: "bs_coercer b (Some err) = Some ev" by (rule event_coercer.pass_through [OF assms])
  have is_cause: "errors_is (EReq r) x"
    if "req_causes r = [EEvent (with_event ev name)]" "x \<in> set (evt_causes ev)" "same_error x x" for r x
  proof (rule errors_is_child)
    show "errors_is (EEvent (with_event ev name)) x"
      by (rule errors_is_event_causes [OF that(2) errors_is_self [OF that(3)]])
  qed (simp add: that(1))
  let ?r = "http_new (evt_code ev) (evt_meta ev) [EEvent (with_event ev name)]"
  have causes: "req_causes (with_status ?r s) = [EEvent (with_event ev name)]"
    "req_causes ?r = [EEvent (with_event ev name)]" for s
    by (simp_all add: http_new_def)
  show ?thesis
  proof (cases "evt_code ev \<in> {''validation_failed'', ''invalid'', ''decode_failed''}")
    case True
    then have "as_req_error b err name = Some (EReq ?r)" "status_code ?r = 400"
      using c by (auto simp: as_req_error_def code_statuses.simps)
    with True is_cause [OF causes(2)] show ?thesis
      by (intro exI [of _ ?r]) (auto simp: http_new_def list_all_iff)
  next
    case False
    then have "as_req_error b err name = Some (EReq (with_status ?r 500))"
      using c by (simp add: as_req_error_def)
    with False is_cause [OF causes(1)] show ?thesis
      by (intro exI [of _ "with_status ?r 500"]) (auto simp: http_new_def list_all_iff status_code_def)
  qed
qed

theorem endpoint_errors_keep_their_class_witness:
  "\<exists>r. as_req_error text_bus (EEvent (event_new ''invalid'' [(''field'', GStr ''x'')] [])) ''note'' = Some (EReq r) \<and>
     status_code r = 400 \<and> req_code r = ''invalid''"
proof -
  let ?e = "event_new ''invalid'' [(''field'', GStr ''x'')] [] :: go_error event_error"
  have "event_coercer (bs_coercer text_bus)" by (simp add: default_events.event_coercer_axioms)
  moreover have "errors_as the_event (EEvent ?e) = Some ?e" by (simp add: errors_as_self the_event_def)
  ultimately show ?thesis
    using endpoint_errors_keep_their_class [of text_bus "EEvent ?e" ?e "''note''"]
    by (auto simp: event_new_def)
qed

text \<open>An event that is a pointer type cannot be an endpoint: the request type is then a pointer
  to a pointer, which the request parser refuses, so \<open>RegisterEndpoint\<close> panics and registers
  nothing.\<close>

theorem pointer_events_cannot_be_endpoints:
  "\<exists>p. register_endpoint senv env b t (TPtr (TStruct n fs)) zero of_fields rg handler mw m = (Panic p, m)"
  by (simp add: register_endpoint_def router_handle_def adapt_def build_binder_def is_empty_type_def
      Let_def)

end
