(* ===== verification/EventApp.thy ===== *)
theory EventApp
  imports EventPrograms EventEndpoint HttpMux
begin

text \<open>
  \<open>events/examples/app\<close>: the same handlers subscribed in process, over the \<open>MemSink\<close>, and
  mounted over HTTP, on a \<open>ServeMux\<close>. The two event types of the program are one datatype, as
  its bus carries both.
\<close>

section \<open>Events\<close>

record order_shipped =
  or_id :: string
  or_carrier :: string

datatype app_event = UserEvent user_created | OrderEvent order_shipped

definition app_name :: "app_event \<Rightarrow> string" where
  "app_name e = (case e of UserEvent u \<Rightarrow> user_name | OrderEvent o' \<Rightarrow> ''order.shipped'')"

definition email_required :: go_error where
  "email_required = EEvent (event_new ''validation_failed'' [(''fields'', GMap [(''email'', GStr ''is required'')])] [])"

definition app_validate :: "app_event \<Rightarrow> go_error option option" where
  "app_validate e =
     (case e of
        UserEvent u \<Rightarrow> Some (if uc_email u = [] then Some email_required else None)
      | OrderEvent o' \<Rightarrow> None)"

definition app_url_name :: "app_event \<Rightarrow> string option" where
  "app_url_name e = (case e of UserEvent u \<Rightarrow> None | OrderEvent o' \<Rightarrow> Some ''orders-shipped'')"

definition app_marshal :: "app_event \<Rightarrow> go_error + string" where
  "app_marshal e =
     (case e of
        UserEvent u \<Rightarrow> user_marshal u
      | OrderEvent o' \<Rightarrow>
          Inr (json_text (JObj [(''order_id'', JStr (or_id o')), (''carrier'', JStr (or_carrier o'))])))"

definition app_unmarshal :: "string \<Rightarrow> app_event \<Rightarrow> app_event \<times> go_error option" where
  "app_unmarshal payload e =
     (case e of
        UserEvent u \<Rightarrow> (case user_unmarshal payload u of (u', err) \<Rightarrow> (UserEvent u', err))
      | OrderEvent o' \<Rightarrow>
          (case unmarshal_struct [(''order_id'', TString), (''carrier'', TString)] payload
                  [VString (or_id o'), VString (or_carrier o')] of
             (v, err) \<Rightarrow>
               (OrderEvent \<lparr>or_id = (case v ! 0 of VString t \<Rightarrow> t | _ \<Rightarrow> or_id o'),
                  or_carrier = (case v ! 1 of VString t \<Rightarrow> t | _ \<Rightarrow> or_carrier o')\<rparr>, err)))"

definition app_env :: "app_event event_env" where
  "app_env = \<lparr>ee_name = app_name, ee_validate = app_validate, ee_url_name = app_url_name,
     ee_marshal = app_marshal, ee_unmarshal = app_unmarshal\<rparr>"

definition app_user_type :: "app_event event_type" where
  "app_user_type = \<lparr>et_zero = UserEvent \<lparr>uc_id = [], uc_email = []\<rparr>, et_new = None\<rparr>"

definition app_order_type :: "app_event event_type" where
  "app_order_type = \<lparr>et_zero = OrderEvent \<lparr>or_id = [], or_carrier = []\<rparr>, et_new = None\<rparr>"

section \<open>Handlers and their wiring\<close>

type_synonym app_handler = "(unit, unit prog, app_event) event_handler"

definition welcome_user :: app_handler where
  "welcome_user ctx e s =
     (case e of UserEvent u \<Rightarrow> (Ret None, print_line (''welcome '' @ uc_email u) s) | OrderEvent o' \<Rightarrow> (Ret None, s))"

definition audit :: app_handler where
  "audit ctx e s =
     (case e of
        UserEvent u \<Rightarrow> (Ret None, print_line (''audit: user '' @ uc_id u @ '' created'') s)
      | OrderEvent o' \<Rightarrow> (Ret None, s))"

definition ship :: app_handler where
  "ship ctx e s =
     (case e of
        UserEvent u \<Rightarrow> (Ret None, s)
      | OrderEvent o' \<Rightarrow>
          (Ret None, print_line (''order '' @ or_id o' @ '' shipped via '' @ or_carrier o') s))"

type_synonym users_bus = "(unit, unit prog, app_event) bus"
type_synonym app_sink = "(unit, unit prog) mem_sink"
type_synonym app_mux = "(unit, unit prog) mux"

text \<open>\<open>Subscribe\<close> and \<open>MountHTTP\<close>; a registration that panics ends the program.\<close>

definition app_on :: "users_bus \<Rightarrow> app_event event_type \<Rightarrow> app_handler \<Rightarrow> app_sink outcome \<Rightarrow> app_sink outcome" where
  "app_on b t h sink =
     (case sink of
        Panic p \<Rightarrow> Panic p
      | Ret sk \<Rightarrow>
          (case on_event app_env b t h [] mem_subscribe sk of
             (Panic p, sk') \<Rightarrow> Panic p
           | (Ret _, sk') \<Rightarrow> Ret sk'))"

definition app_subscribe :: "users_bus \<Rightarrow> app_sink outcome \<Rightarrow> app_sink outcome" where
  "app_subscribe b sink = app_on b app_order_type ship (app_on b app_user_type audit (app_on b app_user_type welcome_user sink))"

definition user_struct :: go_type where
  "user_struct = TStruct ''UserCreated''
     [Field ''ID'' True TString [(''json'', ''id'')], Field ''Email'' True TString [(''json'', ''email'')]]"

definition order_struct :: go_type where
  "order_struct = TStruct ''OrderShipped''
     [Field ''OrderID'' True TString [(''json'', ''order_id'')], Field ''Carrier'' True TString [(''json'', ''carrier'')]]"

definition field_str :: "unit fval list \<Rightarrow> nat \<Rightarrow> string" where
  "field_str v i = (case v ! i of VString t \<Rightarrow> t | _ \<Rightarrow> [])"

definition user_of_fields :: "unit fval list \<Rightarrow> app_event" where
  "user_of_fields v = UserEvent \<lparr>uc_id = field_str v 0, uc_email = field_str v 1\<rparr>"

definition order_of_fields :: "unit fval list \<Rightarrow> app_event" where
  "order_of_fields v = OrderEvent \<lparr>or_id = field_str v 0, or_carrier = field_str v 1\<rparr>"

definition app_endpoint :: "unit std_env \<Rightarrow> users_bus \<Rightarrow> app_event event_type \<Rightarrow> go_type \<Rightarrow> (unit fval list \<Rightarrow> app_event) \<Rightarrow>
    (unit, unit prog, unit) router \<Rightarrow> app_handler \<Rightarrow> app_mux outcome \<Rightarrow> app_mux outcome" where
  "app_endpoint senv b t gt of_fields rg h m =
     (case m of
        Panic p \<Rightarrow> Panic p
      | Ret mx \<Rightarrow>
          (case register_endpoint senv app_env b t gt [VString [], VString []] of_fields rg h [] mx of
             (Panic p, mx') \<Rightarrow> Panic p
           | (Ret _, mx') \<Rightarrow> Ret mx'))"

definition mount_http :: "unit std_env \<Rightarrow> users_bus \<Rightarrow> (unit, unit prog, unit) router \<Rightarrow> app_mux outcome \<Rightarrow>
    app_mux outcome" where
  "mount_http senv b rg m =
     app_endpoint senv b app_order_type order_struct order_of_fields rg ship
       (app_endpoint senv b app_user_type user_struct user_of_fields rg welcome_user m)"

text \<open>\<open>main\<close>, up to the listener: the sink with its subscriptions, the state after the emission, and
  the mux, unless the program ended before.\<close>

definition app_bus :: users_bus where
  "app_bus = new_bus app_env prog_publish []"

definition app_main :: "unit std_env \<Rightarrow> (unit, unit) pstate \<Rightarrow> (app_sink \<times> (unit, unit) pstate \<times> app_mux) option" where
  "app_main senv st =
     (case app_subscribe app_bus (Ret new_mem_sink) of
        Panic p \<Rightarrow> None
      | Ret sink \<Rightarrow>
          (case fatal_unless_emitted (emit_on app_env app_bus sink background
                  (UserEvent \<lparr>uc_id = ''1'', uc_email = ''a@b.com''\<rparr>) st) of
             (False, st') \<Rightarrow> None
           | (True, st') \<Rightarrow>
               (case new_router PatternMux [] of
                  Panic p \<Rightarrow> None
                | Ret r \<Rightarrow>
                    (case mount_http senv app_bus r (Ret \<lparr>mx_kind = PatternMux, mx_routes = []\<rparr>) of
                       Panic p \<Rightarrow> None
                     | Ret mx \<Rightarrow> Some (sink, print_on ''listening on :8080, POST events to /events/{name}'' st', mx)))))"

section \<open>The routes and the subscriptions\<close>

definition app_router :: "(unit, unit prog, unit) router" where
  "app_router = \<lparr>rt_coercer = Some default_coercer, rt_error_writer = None, rt_parser = None, rt_logger = None,
     rt_prefix = [], rt_middleware = []\<rparr>"

lemma app_segments: "event_segment app_env app_user_type = ''user.created''" "event_segment app_env app_order_type = ''orders-shipped''"
proof -
  have "path_safe user_name = ''user.created''" by code_simp
  then show "event_segment app_env app_user_type = ''user.created''"
    by (simp add: event_segment_def app_env_def app_user_type_def zero_event_def app_url_name_def app_name_def)
qed (simp add: event_segment_def app_env_def app_order_type_def zero_event_def app_url_name_def)

lemmas app_bus_simps = app_bus_def new_bus_def default_codec_def app_env_def

definition user_delivery :: "app_handler \<Rightarrow> (unit, unit prog) handler" where
  "user_delivery h = deliver app_env app_bus app_user_type h []"

lemma app_subscribed:
  "app_subscribe app_bus (Ret new_mem_sink) = Ret \<lparr>ms_subs =
     [(user_name, [user_delivery welcome_user, user_delivery audit]),
      (''order.shipped'', [deliver app_env app_bus app_order_type ship []])]\<rparr>"
  by (simp add: app_subscribe_def app_on_def on_event_def codec_prepare_for_def name_of_def zero_event_def user_delivery_def
      app_bus_simps app_user_type_def app_order_type_def app_name_def new_mem_sink_def mem_subscribe_def subs_of_def user_name_def)

lemma app_mounted:
  assumes "mount_http senv app_bus app_router (Ret \<lparr>mx_kind = PatternMux, mx_routes = []\<rparr>) = Ret mx"
  shows "\<exists>hu ho. adapt senv None (TPtr user_struct) [VString [], VString []] empty_resp
        (endpoint_handler app_env app_bus user_of_fields welcome_user) = Inr hu \<and>
      mx = \<lparr>mx_kind = PatternMux, mx_routes =
        [RegPattern ''POST /events/user.created'' (serve_route app_router hu []),
         RegPattern ''POST /events/orders-shipped'' (serve_route app_router ho [])]\<rparr>"
  using assms by (auto simp: mount_http_def app_endpoint_def register_endpoint_def app_segments router_handle_def
      router_handle_func_def register_def app_router_def split: sum.splits outcome.splits)

lemma app_main_parts:
  assumes "app_main senv st = Some (sink, st', mx)"
  shows "app_subscribe app_bus (Ret new_mem_sink) = Ret sink" and
    "mount_http senv app_bus app_router (Ret \<lparr>mx_kind = PatternMux, mx_routes = []\<rparr>) = Ret mx"
  using assms by (auto simp: app_main_def app_router_def new_router_def split: outcome.splits prod.splits bool.splits)

section \<open>Over HTTP\<close>

definition user_body :: "user_created \<Rightarrow> string" where
  "user_body u = json_text (JObj [(''id'', JStr (uc_id u)), (''email'', JStr (uc_email u))])"

definition user_post :: "string \<Rightarrow> user_created \<Rightarrow> unit request" where
  "user_post target u = (new_request ''POST'' target (user_body u) [(''Content-Type'', ''application/json'')])\<lparr>rq_path_values := []\<rparr>"

lemma decode_user:
  assumes "user_valid u"
  shows "env_decode (json_env wording env) (user_body u) =
    BodyObject [(''id'', json_text (JStr (uc_id u))), (''email'', json_text (JStr (uc_email u)))]"
  using decode_raw_written [of "[(''id'', JStr (uc_id u)), (''email'', JStr (uc_email u))]" wording "[]"] assms
  by (simp add: user_body_def json_env_def user_valid_def utf8_valid_ascii byte_def)

lemma unmarshal_str:
  "utf8_valid t \<Longrightarrow> env_unmarshal (json_env wording env) TString (json_text (JStr t)) v = (VString t, None)"
  using unmarshal_written [of TString "VString t" wording "env_unmarshal env" v]
  by (simp add: json_env_def fits_def value_json_def)

definition user_plan :: "unit bind_plan" where
  "user_plan = empty_plan\<lparr>bd_body := [\<lparr>bb_key = ''id'', bb_idx = 0, bb_type = TString\<rparr>,
     \<lparr>bb_key = ''email'', bb_idx = 1, bb_type = TString\<rparr>], bd_known := [''id'', ''email''], bd_has_body := True\<rparr>"

lemma user_binds:
  assumes "user_valid u"
  shows "bind_request (json_env wording env) zero_parser user_plan (user_post target u) [VString [], VString []] =
    ([VString (uc_id u), VString (uc_email u)], None)"
proof -
  have t: "trim_space ''application/json'' = ''application/json''" by code_simp
  show ?thesis
    using assms
    by (simp add: decode_user user_plan_def user_post_def http_bind http_plan bind_body_def http_request bind_json_def bind_body_fields.simps
        unmarshal_str user_valid_def unknown_key_reasons_def t)
qed

text \<open>What a user posted to the endpoint comes to.\<close>

definition no_content :: recorder where
  "no_content = \<lparr>rec_code = 204, rec_header = [], rec_body = []\<rparr>"

definition refused_user :: recorder where
  "refused_user = \<lparr>rec_code = 400, rec_header = [(content_type, ''application/json'')],
     rec_body = encoder_text (JObj [(''code'', JStr ''validation_failed''),
       (''meta'', JObj [(''fields'', JObj [(''email'', JStr ''is required'')])])])\<rparr>"

definition refused_error :: "go_error req_error" where
  "refused_error = http_new ''validation_failed'' [(''fields'', GMap [(''email'', GStr ''is required'')])]
     [EEvent (with_event (event_new ''validation_failed'' [(''fields'', GMap [(''email'', GStr ''is required'')])] []) user_name)]"

lemma refusal: "as_req_error app_bus email_required user_name = Some (EReq refused_error)"
  by (simp add: as_req_error_def app_bus_simps email_required_def event_default_coercer_def errors_as_def chain.simps
      the_event_def refused_error_def event_new_def)

lemma refusal_json: "req_error_json refused_error = Some (JObj [(''code'', JStr ''validation_failed''),
    (''meta'', JObj [(''fields'', JObj [(''email'', JStr ''is required'')])])])" "status_code refused_error = 400"
  by (simp_all add: refused_error_def http_new_def req_error_json_def status_code_def code_statuses.simps meta_json_def
      sorted_members_def)

lemma app_validator: "bs_validator app_bus (UserEvent u) = (if uc_email u = [] then Some email_required else None)"
  by (simp add: app_bus_simps default_validator_def app_validate_def)

lemma user_served:
  assumes "adapt (json_env wording env) None (TPtr user_struct) [VString [], VString []] empty_resp
      (endpoint_handler app_env app_bus user_of_fields welcome_user) = Inr hu"
    and "user_valid u"
  shows "\<exists>s. serve_route app_router hu [] (user_post target u) (test_world p) = (Ret (), s) \<and>
    (recorder_of (h_rw s), w_app s) =
      (if uc_email u = [] then (refused_user, p) else (no_content, p\<lparr>pr_out := pr_out p @ [''welcome '' @ uc_email u]\<rparr>))"
proof -
  have hu: "hu = (\<lambda>httpReq s.
      case bind_request (json_env wording env) zero_parser user_plan httpReq [VString [], VString []] of
        (req, Some err) \<Rightarrow> (Ret (Some err), s)
      | (req, None) \<Rightarrow>
          (case on_world (endpoint_handler app_env app_bus user_of_fields welcome_user (rq_ctx httpReq) req) s of
             (Panic x, s') \<Rightarrow> (Panic x, s')
           | (Ret (Inl err), s') \<Rightarrow> (Ret (Some err), s')
           | (Ret (Inr resp), s') \<Rightarrow> write_response empty_resp resp s'))"
    using assms(1) by (simp add: http_plan user_struct_def user_plan_def)
  show ?thesis
    by (simp add: http_serve app_router_def hu user_binds [OF assms(2)] endpoint_handler_def user_of_fields_def field_str_def
        app_env_def app_validator app_name_def welcome_user_def print_line_def empty_resp_def no_content_def
        refusal refusal_json refused_user_def app_name_def)
qed

lemma user_posted:
  assumes "app_main (json_env wording env) st0 = Some (sink, st1, mx)" and "user_valid u"
  shows "serve_request (serve_mux mx) ''POST'' ''/events/user.created'' (user_body u)
      [(''Content-Type'', ''application/json'')] p =
    (if uc_email u = [] then (Ret refused_user, p)
     else (Ret no_content, p\<lparr>pr_out := pr_out p @ [''welcome '' @ uc_email u]\<rparr>))"
proof -
  obtain hu ho where hu: "adapt (json_env wording env) None (TPtr user_struct) [VString [], VString []] empty_resp
        (endpoint_handler app_env app_bus user_of_fields welcome_user) = Inr hu"
    and mx: "mx = \<lparr>mx_kind = PatternMux, mx_routes =
        [RegPattern ''POST /events/user.created'' (serve_route app_router hu []),
         RegPattern ''POST /events/orders-shipped'' (serve_route app_router ho [])]\<rparr>"
    using app_mounted [OF app_main_parts(2) [OF assms(1)]] by blast
  have "find_route mx ''POST'' [''events'', ''user.created''] = Some ([], serve_route app_router hu [])"
    by (simp add: mx find_route_def best_match_def candidates_def map_filter_def reg_method_def reg_path_def
        reg_handler_def http_match)
  with user_served [OF hu assms(2), of "''/events/user.created''" p] show ?thesis
    by (auto simp: serve_request_def serve_mux_def Let_def cut_before_def new_request_def user_post_def split: if_splits)
qed

section \<open>In process\<close>

definition app_envelope :: "user_created \<Rightarrow> envelope" where
  "app_envelope u = \<lparr>en_name = user_name, en_payload = user_body u, en_headers = []\<rparr>"

lemma app_bus_fields: "bs_codec app_bus = default_codec" "bs_publish_mw app_bus = []" "bs_publish app_bus = prog_publish"
    "bs_coercer app_bus = event_default_coercer" "bs_middleware app_bus = []" "bs_logger app_bus = None"
    "ee_name app_env (UserEvent u) = user_name"
  by (simp_all add: app_bus_def new_bus_def app_env_def app_name_def)

lemma user_emitted:
  assumes "app_main senv st0 = Some (sink, st1, mx)" and "pr_pending (w_app (mm_world st)) = []"
  shows "if uc_email u = [] then \<exists>err. emit_on app_env app_bus sink background (UserEvent u) st = (Ret (Some err), st)
    else emit_on app_env app_bus sink background (UserEvent u) st =
      (Ret None, st\<lparr>mm_tasks := mm_tasks st @ [(user_delivery welcome_user, background, app_envelope u),
         (user_delivery audit, background, app_envelope u)]\<rparr>)"
proof -
  have sink: "sink = \<lparr>ms_subs = [(user_name, [user_delivery welcome_user, user_delivery audit]),
      (''order.shipped'', [deliver app_env app_bus app_order_type ship []])]\<rparr>"
    using app_main_parts(1) [OF assms(1)] app_subscribed by simp
  have enc: "encode app_env default_codec (UserEvent u) = Inr (user_body u)"
    by (simp add: encode_def app_env_def app_marshal_def user_marshal_def user_body_def default_codec_def)
  show ?thesis
  proof (cases "uc_email u = []")
    case True
    then show ?thesis
      using assms(2) by (simp add: emit_on_def emit_def app_validator bus_coerce_def app_bus_fields email_required_def
          event_default_coercer_def errors_as_def chain.simps the_event_def launch_none)
  next
    case False
    with assms(2) show ?thesis
      by (simp add: emit_on_def emit_def app_validator app_bus_fields enc apply_publish_def base_publisher_def prog_publish_def
          launch_one subs_of_def sink app_envelope_def)
  qed
qed

text \<open>A delivery of the event to one of its two subscribers.\<close>

lemma user_delivered:
  assumes "user_valid u" and "uc_email u \<noteq> []" and "\<And>ctx s. h ctx (UserEvent u) s = (Ret None, print_line l s)"
  shows "user_delivery h background (app_envelope u) s = (Ret None, print_line l s)"
proof -
  have "user_unmarshal (user_body u) v = (u, None)" for v
    using user_decodes [OF assms(1)] by (simp add: user_body_def)
  then have "decode app_env default_codec app_user_type (user_body u) = (UserEvent u, None)"
    by (simp add: decode_def app_bus_simps app_unmarshal_def app_user_type_def)
  then show ?thesis
    using assms(2,3) by (simp add: user_delivery_def deliver_def apply_deliver_def combine_deliver_def base_handler_def
        app_validator app_envelope_def on_ctx_def app_bus_fields)
qed

section \<open>Properties\<close>

text \<open>C18: The two wires of the application agree: for every user event, the mounted endpoint and the bus
  accept exactly the same ones. Over HTTP, from the bytes of the request to the bytes of the answer, an
  event with an email runs its handler and is answered 204, one without is answered 400 with the
  validation error and changes nothing; \<open>Emit\<close> of the same event returns nil and starts one
  delivery for each of the two subscribers, each of which writes its line, or returns an error and
  starts none.\<close>

theorem both_wires_agree:
  assumes "app_main (json_env wording env) st0 = Some (sink, st1, mx)" and "user_valid u"
    and "pr_pending (w_app (mm_world st)) = []"
  shows "serve_request (serve_mux mx) ''POST'' ''/events/user.created'' (user_body u)
        [(''Content-Type'', ''application/json'')] p =
      (if uc_email u = [] then (Ret refused_user, p)
       else (Ret no_content, p\<lparr>pr_out := pr_out p @ [''welcome '' @ uc_email u]\<rparr>)) \<and>
    (uc_email u = [] \<longrightarrow> (\<exists>err. emit_on app_env app_bus sink background (UserEvent u) st = (Ret (Some err), st))) \<and>
    (uc_email u \<noteq> [] \<longrightarrow> (\<exists>w a. emit_on app_env app_bus sink background (UserEvent u) st =
        (Ret None, st\<lparr>mm_tasks := mm_tasks st @ [(w, background, app_envelope u), (a, background, app_envelope u)]\<rparr>) \<and>
      (\<forall>s. w background (app_envelope u) s = (Ret None, print_line (''welcome '' @ uc_email u) s)) \<and>
      (\<forall>s. a background (app_envelope u) s = (Ret None, print_line (''audit: user '' @ uc_id u @ '' created'') s))))"
proof (cases "uc_email u = []")
  case True
  with user_posted [OF assms(1,2), of p] user_emitted [OF assms(1,3), of u] show ?thesis by simp
next
  case False
  note d = user_delivered [OF assms(2) False]
  from False user_emitted [OF assms(1,3), of u]
  have "emit_on app_env app_bus sink background (UserEvent u) st =
      (Ret None, st\<lparr>mm_tasks := mm_tasks st @ [(user_delivery welcome_user, background, app_envelope u),
         (user_delivery audit, background, app_envelope u)]\<rparr>)" by simp
  moreover have "user_delivery welcome_user background (app_envelope u) s = (Ret None, print_line (''welcome '' @ uc_email u) s)" for s
    by (rule d) (simp add: welcome_user_def)
  moreover have "user_delivery audit background (app_envelope u) s =
      (Ret None, print_line (''audit: user '' @ uc_id u @ '' created'') s)" for s
    by (rule d) (simp add: audit_def)
  ultimately show ?thesis using False user_posted [OF assms(1,2), of p] by simp blast
qed

lemma app_starts:
  assumes "pr_pending (w_app (mm_world st)) = []"
  shows "\<exists>sink st' mx. app_main senv st = Some (sink, st', mx)"
proof -
  obtain h1 h2 where "adapt senv None (TPtr user_struct) [VString [], VString []] empty_resp
      (endpoint_handler app_env app_bus user_of_fields welcome_user) = Inr h1"
    "adapt senv None (TPtr order_struct) [VString [], VString []] empty_resp
      (endpoint_handler app_env app_bus order_of_fields ship) = Inr h2"
    by (simp add: http_plan user_struct_def order_struct_def)
  then have m: "\<exists>mx. mount_http senv app_bus app_router (Ret \<lparr>mx_kind = PatternMux, mx_routes = []\<rparr>) = Ret mx"
    by (simp add: mount_http_def app_endpoint_def register_endpoint_def router_handle_def app_router_def)
  have e: "\<exists>st'. fatal_unless_emitted (emit_on app_env app_bus sk background (UserEvent \<lparr>uc_id = ''1'', uc_email = ''a@b.com''\<rparr>) st) =
      (True, st')" for sk
    by (auto simp: emit_on_def emit_def app_validator app_bus_fields encode_def app_env_def app_marshal_def user_marshal_def
        default_codec_def apply_publish_def base_publisher_def prog_publish_def fatal_unless_emitted_def)
  have n: "new_router PatternMux [] = Ret app_router" by (simp add: new_router_def app_router_def)
  obtain sk where sk: "app_subscribe app_bus (Ret new_mem_sink) = Ret sk" using app_subscribed by blast
  obtain mx where "mount_http senv app_bus app_router (Ret \<lparr>mx_kind = PatternMux, mx_routes = []\<rparr>) = Ret mx"
    using m by blast
  moreover obtain st' where "fatal_unless_emitted (emit_on app_env app_bus sk background
      (UserEvent \<lparr>uc_id = ''1'', uc_email = ''a@b.com''\<rparr>) st) = (True, st')" using e by blast
  ultimately show ?thesis by (simp add: app_main_def sk n)
qed

definition app_json_env :: "unit std_env" where
  "app_json_env = json_env (\<lambda>raw. ''invalid JSON'') sample_env"

lemma both_wires_agree_witness:
  "\<exists>sink st1 mx w a.
     app_main app_json_env (prog_start 0 empty_prog) = Some (sink, st1, mx) \<and>
     serve_request (serve_mux mx) ''POST'' ''/events/user.created'' (user_body \<lparr>uc_id = ''7'', uc_email = ''x@y.z''\<rparr>)
         [(''Content-Type'', ''application/json'')] empty_prog =
       (Ret no_content, empty_prog\<lparr>pr_out := [''welcome x@y.z'']\<rparr>) \<and>
     snd (emit_on app_env app_bus sink background (UserEvent \<lparr>uc_id = ''7'', uc_email = ''x@y.z''\<rparr>) (prog_start 0 empty_prog)) =
       (prog_start 0 empty_prog)\<lparr>mm_tasks := [(w, background, app_envelope \<lparr>uc_id = ''7'', uc_email = ''x@y.z''\<rparr>),
          (a, background, app_envelope \<lparr>uc_id = ''7'', uc_email = ''x@y.z''\<rparr>)]\<rparr>"
proof -
  let ?u = "\<lparr>uc_id = ''7'', uc_email = ''x@y.z''\<rparr>"
  have p: "pr_pending (w_app (mm_world (prog_start 0 empty_prog))) = []" by (simp add: start_simps empty_prog_def)
  obtain sink st1 mx where m: "app_main app_json_env (prog_start 0 empty_prog) = Some (sink, st1, mx)"
    using app_starts [OF p] by blast
  have v: "user_valid ?u" by (simp add: user_valid_def utf8_valid_ascii byte_def)
  from both_wires_agree [OF m [unfolded app_json_env_def] v p, of empty_prog] m show ?thesis
    by (simp add: start_simps empty_prog_def) fastforce
qed

end
