(* ===== verification/EventRetry.thy ===== *)
theory EventRetry
  imports EventBus
begin

unbundle bit_operations_syntax

text \<open>
  Package events, \<open>events/retry.go\<close>: the retry middleware, its policy, the backoffs on 64-bit
  durations and the actions for exhausted events. What happens while \<open>wait\<close> sleeps belongs to the
  environment: the parameter \<open>sleep\<close> gives the world after it, in which other parts of the
  program may have committed, and the context's error where the context ends first.
\<close>

section \<open>Not found\<close>

definition not_found_code :: string where
  "not_found_code = ''not_found''"

definition not_found :: go_error where
  "not_found = EEvent (EventError (Some ''events.NotFound'') not_found_code [] [] [])"

definition is_not_found :: "go_error \<Rightarrow> bool" where
  "is_not_found err \<longleftrightarrow> errors_is err not_found \<or>
     (case errors_as the_event err of Some e \<Rightarrow> evt_code e = not_found_code | None \<Rightarrow> False)"

section \<open>Exhausted events\<close>

type_synonym ('c, 'w) exhausted =
  "'c go_ctx_scheme \<Rightarrow> envelope \<Rightarrow> int \<Rightarrow> go_error \<Rightarrow> 'w world \<Rightarrow> go_error option outcome \<times> 'w world"

definition log_exhausted :: "'c go_ctx_scheme \<Rightarrow> envelope \<Rightarrow> int \<Rightarrow> string \<Rightarrow> go_error \<Rightarrow> 'w world \<Rightarrow> 'w world" where
  "log_exhausted ctx ev attempts act err s =
     log_to (events_logger_from ctx s) LevelError ''events: retries exhausted''
       [(''event'', en_name ev), (''attempts'', itoa attempts), (''action'', act), (''error'', err_text err)] s"

definition nack :: "('c, 'w) exhausted" where
  "nack ctx ev attempts err s = (Ret (Some err), log_exhausted ctx ev attempts ''nack'' err s)"

definition drop_event :: "('c, 'w) exhausted" where
  "drop_event ctx ev attempts err s = (Ret None, log_exhausted ctx ev attempts ''drop'' err s)"

definition dead_letter :: "('c go_ctx_scheme \<Rightarrow> envelope \<Rightarrow> go_error \<Rightarrow> 'w world \<Rightarrow>
    go_error option outcome \<times> 'w world) \<Rightarrow> ('c, 'w) exhausted" where
  "dead_letter park ctx ev attempts err s =
     (case park ctx ev err (log_exhausted ctx ev attempts ''dead_letter'' err s) of
        (Panic p, s') \<Rightarrow> (Panic p, s')
      | (Ret None, s') \<Rightarrow> (Ret None, s')
      | (Ret (Some parkErr), s') \<Rightarrow> (Ret (errors_join [Some err, Some parkErr]), s'))"

section \<open>Backoff\<close>

text \<open>A \<open>time.Duration\<close> is a signed 64-bit count of nanoseconds; \<open><<\<close> drops what leaves it.\<close>

type_synonym duration = "64 word"

definition max_backoff_doublings :: int where "max_backoff_doublings = 16"
definition default_attempts :: int where "default_attempts = 3"
definition default_backoff_base :: duration where "default_backoff_base = 50000000"

definition exponential_backoff :: "duration \<Rightarrow> int \<Rightarrow> duration" where
  "exponential_backoff base attempt =
     (let attempt = (if attempt < 1 then 1 else attempt);
          attempt = (if attempt > max_backoff_doublings then max_backoff_doublings else attempt)
      in push_bit (nat (attempt - 1)) base)"

definition fixed_backoff :: "duration \<Rightarrow> int \<Rightarrow> duration" where
  "fixed_backoff d attempt = d"

section \<open>The policy\<close>

record ('c, 'w) retry_policy =
  rp_attempts :: int
  rp_backoff :: "(int \<Rightarrow> duration) option"
  rp_retryable :: "(go_error \<Rightarrow> bool) option"
  rp_exhausted :: "('c, 'w) exhausted option"

definition or_else :: "'a option \<Rightarrow> 'a \<Rightarrow> 'a option" where
  "or_else x d = (case x of None \<Rightarrow> Some d | Some y \<Rightarrow> Some y)"

definition with_defaults :: "('c, 'w) retry_policy \<Rightarrow> ('c, 'w) retry_policy" where
  "with_defaults p =
     \<lparr>rp_attempts = (if rp_attempts p < 1 then default_attempts else rp_attempts p),
      rp_backoff = or_else (rp_backoff p) (exponential_backoff default_backoff_base),
      rp_retryable = or_else (rp_retryable p) is_not_found,
      rp_exhausted = or_else (rp_exhausted p) nack\<rparr>"

section \<open>Retry\<close>

type_synonym ('c, 'w) sleeper =
  "'c go_ctx_scheme \<Rightarrow> duration \<Rightarrow> 'w world \<Rightarrow> go_error option \<times> 'w world"

definition wait :: "('c, 'w) sleeper \<Rightarrow> 'c go_ctx_scheme \<Rightarrow> duration \<Rightarrow> 'w world \<Rightarrow> go_error option \<times> 'w world" where
  "wait sleep ctx d s = (if sint d \<le> 0 then (None, s) else sleep ctx d s)"

text \<open>
  The loop, with the attempts left as its measure; it leaves at the last attempt, so a call with
  \<open>left\<close> attempts to go never reaches the first equation.
\<close>

fun retry_loop :: "('c, 'w) sleeper \<Rightarrow> ('c, 'w) retry_policy \<Rightarrow> ('c, 'w) handler \<Rightarrow>
    'c go_ctx_scheme \<Rightarrow> envelope \<Rightarrow> nat \<Rightarrow> int \<Rightarrow> 'w world \<Rightarrow> go_error option outcome \<times> 'w world" where
  "retry_loop sleep p nxt ctx ev 0 attempt s = (Ret None, s)"
| "retry_loop sleep p nxt ctx ev (Suc left) attempt s =
     (case nxt ctx ev s of
        (Panic x, s1) \<Rightarrow> (Panic x, s1)
      | (Ret None, s1) \<Rightarrow> (Ret None, s1)
      | (Ret (Some err), s1) \<Rightarrow>
          if \<not> the (rp_retryable p) err then (Ret (Some err), s1)
          else if attempt = rp_attempts p then the (rp_exhausted p) ctx ev (rp_attempts p) err s1
          else (case wait sleep ctx (the (rp_backoff p) attempt) s1 of
                  (Some waitErr, s2) \<Rightarrow> (Ret (errors_join [Some err, Some waitErr]), s2)
                | (None, s2) \<Rightarrow> retry_loop sleep p nxt ctx ev left (attempt + 1) s2))"

definition retry :: "('c, 'w) sleeper \<Rightarrow> ('c, 'w) retry_policy \<Rightarrow> ('c, 'w) delivery_mw" where
  "retry sleep policy nxt ctx ev s =
     (let p = with_defaults policy
      in retry_loop sleep p nxt ctx ev (nat (rp_attempts p)) 1 s)"

section \<open>Facts\<close>

text \<open>The world before attempt \<open>i + 1\<close>, when all before it failed and were waited out.\<close>

fun trail :: "('c, 'w) sleeper \<Rightarrow> ('c, 'w) retry_policy \<Rightarrow> ('c, 'w) handler \<Rightarrow> 'c go_ctx_scheme \<Rightarrow>
    envelope \<Rightarrow> 'w world \<Rightarrow> nat \<Rightarrow> 'w world" where
  "trail sleep p nxt ctx ev s 0 = s"
| "trail sleep p nxt ctx ev s (Suc i) =
     snd (wait sleep ctx (the (rp_backoff p) (int i + 1)) (snd (nxt ctx ev (trail sleep p nxt ctx ev s i))))"

text \<open>Attempt \<open>i + 1\<close> failed in a way worth retrying, and the wait after it ran its course.\<close>

definition failed_attempt :: "('c, 'w) sleeper \<Rightarrow> ('c, 'w) retry_policy \<Rightarrow> ('c, 'w) handler \<Rightarrow>
    'c go_ctx_scheme \<Rightarrow> envelope \<Rightarrow> 'w world \<Rightarrow> nat \<Rightarrow> bool" where
  "failed_attempt sleep p nxt ctx ev s i \<longleftrightarrow>
     (\<exists>err. fst (nxt ctx ev (trail sleep p nxt ctx ev s i)) = Ret (Some err) \<and> the (rp_retryable p) err) \<and>
     fst (wait sleep ctx (the (rp_backoff p) (int i + 1))
       (snd (nxt ctx ev (trail sleep p nxt ctx ev s i)))) = None"

lemma retry_loop_skip:
  assumes "\<forall>i < k. failed_attempt sleep p nxt ctx ev s i" and "int k < rp_attempts p"
    and "n = nat (rp_attempts p)"
  shows "retry_loop sleep p nxt ctx ev n 1 s =
    retry_loop sleep p nxt ctx ev (n - k) (int k + 1) (trail sleep p nxt ctx ev s k)"
  using assms(1,2)
proof (induction k)
  case (Suc k)
  let ?t = "trail sleep p nxt ctx ev s k"
  obtain r s1 where r: "nxt ctx ev ?t = (r, s1)" by fastforce
  obtain x s2 where x: "wait sleep ctx (the (rp_backoff p) (int k + 1)) s1 = (x, s2)" by fastforce
  from Suc.prems(1) r x obtain err where f: "r = Ret (Some err)" "the (rp_retryable p) err" "x = None"
    by (auto simp: failed_attempt_def)
  have "n - k = Suc (n - Suc k)" using Suc.prems(2) assms(3) by linarith
  then have "retry_loop sleep p nxt ctx ev (n - k) (int k + 1) ?t =
      retry_loop sleep p nxt ctx ev (n - Suc k) (int (Suc k) + 1) s2"
    using r x f Suc.prems(2) by (simp add: algebra_simps)
  with Suc show ?case by (simp add: r x)
qed simp

lemma with_defaults_simps [simp]:
  "1 \<le> rp_attempts (with_defaults p)"
  by (simp add: with_defaults_def default_attempts_def)

lemma not_found_recognised: "is_not_found not_found"
  by (simp add: is_not_found_def not_found_def errors_is_self)

lemma is_not_found_wrapped: "is_not_found err \<Longrightarrow> is_not_found (Wrapped t [err])"
proof -
  assume nf: "is_not_found err"
  have "errors_as the_event (Wrapped t [err]) = errors_as the_event err"
    by (rule errors_as_wrapped) (simp_all add: the_event_def)
  with nf errors_is_child [of err "Wrapped t [err]" not_found] show ?thesis
    by (auto simp: is_not_found_def)
qed

lemma sint_push_bit:
  fixes base :: duration
  assumes "0 \<le> sint base" and "sint base * 2 ^ k < 2 ^ 63"
  shows "sint (push_bit k base) = sint base * 2 ^ k"
proof -
  have "push_bit k base = word_of_int (sint base * 2 ^ k)"
    by (simp add: push_bit_eq_mult)
  then have "sint (push_bit k base) = sint (word_of_int (sint base * 2 ^ k) :: duration)"
    by (rule arg_cong)
  also have "\<dots> = signed_take_bit (LENGTH(64) - 1) (sint base * 2 ^ k)" by (rule sint_sbintrunc')
  also have "\<dots> = sint base * 2 ^ k"
  proof (rule signed_take_bit_int_eq_self)
    have "0 \<le> sint base * 2 ^ k" using assms(1) by simp
    then show "- (2 ^ (LENGTH(64) - 1)) \<le> sint base * 2 ^ k" by (rule order_trans [rotated]) simp
    show "sint base * 2 ^ k < 2 ^ (LENGTH(64) - 1)" using assms(2) by simp
  qed
  finally show ?thesis .
qed

section \<open>Properties\<close>

text \<open>C38: \<open>Retry\<close> settles at the first attempt that decides: after \<open>k\<close> attempts that failed
  retryably and were waited out, attempt \<open>k + 1\<close> ends the delivery if it succeeds, fails in a way
  not worth retrying, or is the last one of the policy, and then, in the world those attempts and waits
  left, its own result is returned or the policy's Exhausted action decides; where the context ends
  during the wait after it, both errors come back.\<close>

theorem retry_settles_at_the_deciding_attempt:
  assumes "p = with_defaults policy" and "int k < rp_attempts p"
    and "\<forall>i < k. failed_attempt sleep p nxt ctx ev s i"
    and "nxt ctx ev (trail sleep p nxt ctx ev s k) = (Ret r, s1)"
    and "r = None \<or> \<not> the (rp_retryable p) (the r) \<or> int k + 1 = rp_attempts p \<or>
      wait sleep ctx (the (rp_backoff p) (int k + 1)) s1 = (Some ended, s2)"
  shows "retry sleep policy nxt ctx ev s =
    (case r of
       None \<Rightarrow> (Ret None, s1)
     | Some err \<Rightarrow>
         if \<not> the (rp_retryable p) err then (Ret (Some err), s1)
         else if int k + 1 = rp_attempts p then the (rp_exhausted p) ctx ev (rp_attempts p) err s1
         else (Ret (Some (Joined [err, ended])), s2))"
proof -
  have "nat (rp_attempts p) - k = Suc (nat (rp_attempts p) - Suc k)" using assms(2) by linarith
  then have "retry sleep policy nxt ctx ev s =
      retry_loop sleep p nxt ctx ev (Suc (nat (rp_attempts p) - Suc k)) (int k + 1) (trail sleep p nxt ctx ev s k)"
    using retry_loop_skip [OF assms(3,2) refl] by (simp add: retry_def assms(1) Let_def)
  with assms(4,5) show ?thesis
    by (auto simp: errors_join_def Let_def map_filter_simps split: option.splits)
qed

definition zero_policy :: "(unit, string list) retry_policy" where
  "zero_policy = \<lparr>rp_attempts = 0, rp_backoff = None, rp_retryable = None, rp_exhausted = None\<rparr>"

definition needs_row :: "(unit, string list) handler" where
  "needs_row ctx ev s = (if w_app s = [] then (Ret (Some not_found), s) else (Ret None, s))"

definition commits_meanwhile :: "(unit, string list) sleeper" where
  "commits_meanwhile ctx d s = (None, s\<lparr>w_app := w_app s @ [''row'']\<rparr>)"

theorem retry_settles_at_the_deciding_attempt_witness:
  "retry commits_meanwhile zero_policy needs_row background \<lparr>en_name = ''note'', en_payload = '''', en_headers = []\<rparr>
     text_world = (Ret None, text_world\<lparr>w_app := [''row'']\<rparr>)"
proof -
  let ?p = "with_defaults zero_policy"
  let ?ev = "\<lparr>en_name = ''note'', en_payload = '''', en_headers = []\<rparr>"
  have d: "0 < sint (the (rp_backoff ?p) 1)"
    by (simp add: with_defaults_def zero_policy_def or_else_def exponential_backoff_def
        max_backoff_doublings_def default_backoff_base_def)
  have f: "failed_attempt commits_meanwhile ?p needs_row background ?ev text_world 0"
    using not_found_recognised d
    by (simp add: failed_attempt_def needs_row_def text_world_def with_defaults_def zero_policy_def
        or_else_def wait_def commits_meanwhile_def)
  have t: "trail commits_meanwhile ?p needs_row background ?ev text_world 1 = text_world\<lparr>w_app := [''row'']\<rparr>"
    using d by (simp add: needs_row_def text_world_def wait_def commits_meanwhile_def not_le)
  have "int 1 < rp_attempts ?p" by (simp add: with_defaults_def zero_policy_def default_attempts_def)
  moreover have "\<forall>i < 1. failed_attempt commits_meanwhile ?p needs_row background ?ev text_world i"
    using f by simp
  moreover have "needs_row background ?ev (trail commits_meanwhile ?p needs_row background ?ev text_world 1) =
      (Ret None, text_world\<lparr>w_app := [''row'']\<rparr>)"
    unfolding t by (simp add: needs_row_def)
  ultimately show ?thesis
    using retry_settles_at_the_deciding_attempt [OF refl, of 1 zero_policy commits_meanwhile needs_row
        background ?ev text_world None] by simp
qed

text \<open>No event is acked with no trace: each action for an exhausted event logs exactly one entry
  naming the event; \<open>Drop\<close> acks, \<open>Nack\<close> hands the error back, and \<open>DeadLetter\<close> acks
  exactly when \<open>park\<close> took the envelope, else hands back an error that exposes both failures.\<close>

theorem exhausted_events_are_accounted_for:
  assumes "park ctx ev err (log_exhausted ctx ev n ''dead_letter'' err s) = (Ret parked, s')"
  shows "nack ctx ev n err s = (Ret (Some err), log_exhausted ctx ev n ''nack'' err s) \<and>
    drop_event ctx ev n err s = (Ret None, log_exhausted ctx ev n ''drop'' err s) \<and>
    length (w_log (log_exhausted ctx ev n act err s)) = Suc (length (w_log s)) \<and>
    w_app (log_exhausted ctx ev n act err s) = w_app s \<and>
    (\<exists>res. dead_letter park ctx ev n err s = (Ret res, s') \<and> (res = None \<longleftrightarrow> parked = None) \<and>
      (case (res, parked) of
         (Some e, Some p) \<Rightarrow> list_all (errors_is e) (filter (\<lambda>x. same_error x x) [err, p])
       | _ \<Rightarrow> True))"
  using assms
  by (auto simp: nack_def drop_event_def dead_letter_def log_exhausted_def log_to_def errors_join_def
      map_filter_simps Let_def intro: errors_is_child errors_is_self split: option.splits)

theorem exhausted_events_are_accounted_for_witness:
  "\<exists>e s'. dead_letter (\<lambda>ctx ev err s. (Ret (Some (Sentinel ''app.ErrFull'' ''full'')), s)) background
      \<lparr>en_name = ''note'', en_payload = '''', en_headers = []\<rparr> 3 not_found text_world = (Ret (Some e), s') \<and>
     errors_is e (Sentinel ''app.ErrFull'' ''full'') \<and> errors_is e not_found"
proof -
  let ?park = "\<lambda>ctx ev err s. (Ret (Some (Sentinel ''app.ErrFull'' ''full'')), s)"
  let ?ev = "\<lparr>en_name = ''note'', en_payload = '''', en_headers = []\<rparr>"
  let ?s' = "log_exhausted background ?ev 3 ''dead_letter'' not_found text_world"
  have "?park background ?ev not_found ?s' = (Ret (Some (Sentinel ''app.ErrFull'' ''full'')), ?s')" by simp
  from exhausted_events_are_accounted_for [where park = ?park and act = "''nack''", OF this] obtain res where
    res: "dead_letter ?park background ?ev 3 not_found text_world = (Ret res, ?s')" "res \<noteq> None"
    "case res of Some e \<Rightarrow> list_all (errors_is e) (filter (\<lambda>x. same_error x x) [not_found, Sentinel ''app.ErrFull'' ''full''])
       | None \<Rightarrow> True"
    by (auto split: option.splits)
  moreover have "same_error not_found not_found" by (simp add: not_found_def)
  ultimately show ?thesis by (cases res) auto
qed

text \<open>C40: \<open>ExponentialBackoff\<close> doubles from its base and never overflows for a base below
  2^48 nanoseconds: the wait after attempt \<open>n\<close> is the base times 2^(n-1), with at most fifteen
  doublings, and is positive when the base is.\<close>

theorem backoff_doubles_without_overflow:
  assumes "0 \<le> sint base" and "sint base < 2 ^ 48"
  shows "sint (exponential_backoff base n) = sint base * 2 ^ nat (min (max n 1) 16 - 1) \<and>
    sint base \<le> sint (exponential_backoff base n)"
proof -
  define k where "k = nat (min (max n 1) 16 - 1)"
  have k: "k \<le> 15" by (simp add: k_def)
  have e: "exponential_backoff base n = push_bit k base"
    by (auto simp: exponential_backoff_def max_backoff_doublings_def k_def Let_def min_def max_def)
  have "sint base * 2 ^ k \<le> sint base * 2 ^ 15"
    using assms(1) k by (intro mult_left_mono power_increasing) auto
  also have "\<dots> < 2 ^ 63" using assms(2) by simp
  finally have s: "sint (push_bit k base) = sint base * 2 ^ k" by (intro sint_push_bit assms(1))
  moreover have "sint base * 1 \<le> sint base * 2 ^ k" using assms(1) by (intro mult_left_mono) auto
  ultimately show ?thesis by (simp add: e flip: k_def)
qed

theorem backoff_doubles_without_overflow_witness:
  "sint (exponential_backoff default_backoff_base 3) = 200000000"
proof -
  have "sint default_backoff_base = 50000000" by (simp add: default_backoff_base_def)
  with backoff_doubles_without_overflow [of default_backoff_base 3] show ?thesis by simp
qed

text \<open>From a base of 2^48 nanoseconds (about 78 hours) the cap on doublings no longer protects:
  the sixteenth wait is negative, so \<open>wait\<close> returns at once and the retries run hot.\<close>

theorem backoff_overflows_for_large_bases:
  "sint (exponential_backoff (2 ^ 48) 16) < 0 \<and>
   wait sleep ctx (exponential_backoff (2 ^ 48) 16) s = (None, s)"
proof -
  have "exponential_backoff (2 ^ 48) 16 = (2 ^ 63 :: duration)"
    by (simp add: exponential_backoff_def max_backoff_doublings_def push_bit_eq_mult)
  then have "sint (exponential_backoff (2 ^ 48) 16) = - (2 ^ 63)" by simp
  then show ?thesis by (simp add: wait_def)
qed

end
