(* ===== verification/EventSqs.thy ===== *)
theory EventSqs
  imports EventSinks EventRetry EventHeaders
begin

text \<open>
  Package sqs, \<open>events/aws/sqs/sqs.go\<close>: the sink over one SQS queue, one poll
  (\<open>ReceiveOnce\<close>) and the loop around it (\<open>Receive\<close>). The client of the AWS SDK is
  the parameter \<open>sqs_api\<close>. The state of a context changes with the world: \<open>ctx_err\<close> is
  \<open>ctx.Err()\<close> as of a world, and \<open>sleep\<close> is the select on the context and a timer.
\<close>

section \<open>The sink\<close>

definition event_attr :: string where "event_attr = ''event''"
definition headers_attr :: string where "headers_attr = ''headers''"

definition seconds :: "nat \<Rightarrow> duration" where
  "seconds n = of_nat n * 1000000000"

definition sqs_backoff_base :: duration where "sqs_backoff_base = seconds 1"
definition sqs_backoff_ceiling :: duration where "sqs_backoff_ceiling = seconds 30"
definition sqs_delete_timeout :: duration where "sqs_delete_timeout = seconds 5"

text \<open>A message: its attributes with their \<open>StringValue\<close>, its body and its receipt handle.\<close>

record sqs_message =
  sm_attrs :: "(string \<times> string option) list"
  sm_body :: "string option"
  sm_receipt :: "string option"

text \<open>
  The three calls of the client. \<open>sq_delete\<close> gets the values of the context and the deadline
  of its own, since its context is detached from the caller's.
\<close>

record ('c, 'w) sqs_api =
  sq_send :: "'c go_ctx_scheme \<Rightarrow> string \<Rightarrow> string \<Rightarrow> (string \<times> string) list \<Rightarrow> 'w world \<Rightarrow> go_error option \<times> 'w world"
  sq_receive :: "'c go_ctx_scheme \<Rightarrow> string \<Rightarrow> int \<Rightarrow> int \<Rightarrow> string list \<Rightarrow> 'w world \<Rightarrow>
    (go_error + sqs_message list) \<times> 'w world"
  sq_delete :: "'c go_ctx_scheme \<Rightarrow> duration \<Rightarrow> string \<Rightarrow> string option \<Rightarrow> 'w world \<Rightarrow> go_error option \<times> 'w world"

record ('c, 'w) sqs_sink =
  sk_dispatcher :: "('c, 'w) dispatcher"
  sk_client :: "('c, 'w) sqs_api"
  sk_queue :: string
  sk_wait :: int
  sk_batch :: int
  sk_logger :: "logger option"
  sk_backoff :: "(int \<Rightarrow> duration) option"

record poll =
  pl_received :: int
  pl_handled :: int
  pl_failed :: int
  pl_undeleted :: int

definition no_poll :: poll where
  "no_poll = \<lparr>pl_received = 0, pl_handled = 0, pl_failed = 0, pl_undeleted = 0\<rparr>"

type_synonym ('c, 'w) sqs_option = "('c, 'w) sqs_sink \<Rightarrow> ('c, 'w) sqs_sink"

definition with_long_poll :: "int \<Rightarrow> ('c, 'w) sqs_option" where
  "with_long_poll n s = s\<lparr>sk_wait := n\<rparr>"

definition with_batch_size :: "int \<Rightarrow> ('c, 'w) sqs_option" where
  "with_batch_size n s = s\<lparr>sk_batch := n\<rparr>"

definition sqs_with_logger :: "logger option \<Rightarrow> ('c, 'w) sqs_option" where
  "sqs_with_logger l s = s\<lparr>sk_logger := l\<rparr>"

definition with_backoff :: "(int \<Rightarrow> duration) option \<Rightarrow> ('c, 'w) sqs_option" where
  "with_backoff b s = s\<lparr>sk_backoff := b\<rparr>"

text \<open>\<open>min\<close> on durations is signed.\<close>

definition duration_min :: "duration \<Rightarrow> duration \<Rightarrow> duration" where
  "duration_min a b = (if sint b < sint a then b else a)"

definition sqs_default_backoff :: "int \<Rightarrow> duration" where
  "sqs_default_backoff attempt = duration_min (exponential_backoff sqs_backoff_base attempt) sqs_backoff_ceiling"

definition new_sqs_sink :: "('c, 'w) sqs_api \<Rightarrow> string \<Rightarrow> ('c, 'w) sqs_option list \<Rightarrow> ('c, 'w) sqs_sink" where
  "new_sqs_sink client queueURL opts =
     (let s = fold (\<lambda>opt s. opt s) opts
            \<lparr>sk_dispatcher = new_dispatcher, sk_client = client, sk_queue = queueURL, sk_wait = 20,
             sk_batch = 10, sk_logger = None, sk_backoff = None\<rparr>
      in s\<lparr>sk_backoff := or_else (sk_backoff s) sqs_default_backoff\<rparr>)"

definition sqs_log :: "('c, 'w) sqs_sink \<Rightarrow> 'w world \<Rightarrow> logger" where
  "sqs_log sink s = logger_or_default (sk_logger sink) s"

section \<open>Publish\<close>

definition message_attrs :: "envelope \<Rightarrow> (string \<times> string) list" where
  "message_attrs ev =
     (event_attr, en_name ev)
     # (if marshal_headers (en_headers ev) \<noteq> [] then [(headers_attr, marshal_headers (en_headers ev))] else [])"

definition publish_failed :: "go_error \<Rightarrow> envelope \<Rightarrow> go_error" where
  "publish_failed err ev = EEvent (event_wrap err ''publish_failed'' [(''event'', GStr (en_name ev))] [])"

definition sqs_publish :: "('c, 'w) sqs_sink \<Rightarrow> 'c go_ctx_scheme \<Rightarrow> envelope \<Rightarrow> 'w world \<Rightarrow>
    go_error option outcome \<times> 'w world" where
  "sqs_publish sink ctx ev s =
     (case sq_send (sk_client sink) ctx (sk_queue sink) (en_payload ev) (message_attrs ev) s of
        (Some err, s') \<Rightarrow> (Ret (Some (publish_failed err ev)), s')
      | (None, s') \<Rightarrow> (Ret None, s'))"

section \<open>Receiving\<close>

definition sqs_attr :: "sqs_message \<Rightarrow> string \<Rightarrow> string option" where
  "sqs_attr m k = (case map_of (sm_attrs m) k of Some v \<Rightarrow> v | None \<Rightarrow> None)"

definition sqs_envelope :: "sqs_message \<Rightarrow> envelope" where
  "sqs_envelope m =
     \<lparr>en_name = (case sqs_attr m event_attr of Some name \<Rightarrow> name | None \<Rightarrow> ''''),
      en_payload = (case sm_body m of Some body \<Rightarrow> body | None \<Rightarrow> ''''),
      en_headers = (case sqs_attr m headers_attr of Some h \<Rightarrow> unmarshal_headers h | None \<Rightarrow> [])\<rparr>"

definition sqs_handle :: "('c, 'w) sqs_sink \<Rightarrow> 'c go_ctx_scheme \<Rightarrow> sqs_message \<Rightarrow> poll \<Rightarrow> 'w world \<Rightarrow>
    poll outcome \<times> 'w world" where
  "sqs_handle sink ctx m poll s =
     (let ev = sqs_envelope m
      in case dispatcher_dispatch (sk_dispatcher sink) ctx ev s of
           (Panic p, s1) \<Rightarrow> (Panic p, s1)
         | (Ret (Some err), s1) \<Rightarrow>
             (Ret (poll\<lparr>pl_failed := pl_failed poll + 1\<rparr>),
              log_to (sqs_log sink s1) LevelWarn ''sqs: handler failed, leaving for redelivery''
                [(''event'', en_name ev), (''error'', err_text err)] s1)
         | (Ret None, s1) \<Rightarrow>
             (let poll1 = poll\<lparr>pl_handled := pl_handled poll + 1\<rparr>
              in case sq_delete (sk_client sink) ctx sqs_delete_timeout (sk_queue sink) (sm_receipt m) s1 of
                   (None, s2) \<Rightarrow> (Ret poll1, s2)
                 | (Some err, s2) \<Rightarrow>
                     (Ret (poll1\<lparr>pl_undeleted := pl_undeleted poll1 + 1\<rparr>),
                      log_to (sqs_log sink s2) LevelError ''sqs: delete failed''
                        [(''event'', en_name ev), (''error'', err_text err)] s2)))"

type_synonym ('c, 'w) ctx_state = "'c go_ctx_scheme \<Rightarrow> 'w world \<Rightarrow> go_error option"

fun sqs_batch :: "('c, 'w) ctx_state \<Rightarrow> ('c, 'w) sqs_sink \<Rightarrow> 'c go_ctx_scheme \<Rightarrow> sqs_message list \<Rightarrow> poll \<Rightarrow>
    'w world \<Rightarrow> (poll \<times> go_error option) outcome \<times> 'w world" where
  "sqs_batch ctx_err sink ctx [] poll s = (Ret (poll, None), s)"
| "sqs_batch ctx_err sink ctx (m # ms) poll s =
     (case ctx_err ctx s of
        Some err \<Rightarrow> (Ret (poll, Some err), s)
      | None \<Rightarrow>
          (case sqs_handle sink ctx m poll s of
             (Panic p, s1) \<Rightarrow> (Panic p, s1)
           | (Ret poll1, s1) \<Rightarrow> sqs_batch ctx_err sink ctx ms poll1 s1))"

definition receive_once :: "('c, 'w) ctx_state \<Rightarrow> ('c, 'w) sqs_sink \<Rightarrow> 'c go_ctx_scheme \<Rightarrow> 'w world \<Rightarrow>
    (poll \<times> go_error option) outcome \<times> 'w world" where
  "receive_once ctx_err sink ctx s =
     (case ctx_err ctx s of
        Some err \<Rightarrow> (Ret (no_poll, Some err), s)
      | None \<Rightarrow>
          (case sq_receive (sk_client sink) ctx (sk_queue sink) (sk_batch sink) (sk_wait sink)
                  [event_attr, headers_attr] s of
             (Inl err, s1) \<Rightarrow>
               (Ret (no_poll, case ctx_err ctx s1 of Some cerr \<Rightarrow> Some cerr | None \<Rightarrow> Some err), s1)
           | (Inr ms, s1) \<Rightarrow> sqs_batch ctx_err sink ctx ms (no_poll\<lparr>pl_received := int (length ms)\<rparr>) s1))"

text \<open>
  One turn of the loop of \<open>Receive\<close>: it returns (\<open>Inl\<close>), or goes on with a new number of
  failures in a row. \<open>sleep\<close> says whether the context ended the wait.
\<close>

type_synonym ('c, 'w) select_wait = "'c go_ctx_scheme \<Rightarrow> duration \<Rightarrow> 'w world \<Rightarrow> bool \<times> 'w world"

definition receive_turn :: "('c, 'w) ctx_state \<Rightarrow> ('c, 'w) select_wait \<Rightarrow> ('c, 'w) sqs_sink \<Rightarrow>
    'c go_ctx_scheme \<Rightarrow> int \<Rightarrow> 'w world \<Rightarrow> (go_error option outcome \<times> 'w world) + (int \<times> 'w world)" where
  "receive_turn ctx_err sleep sink ctx failures s =
     (case receive_once ctx_err sink ctx s of
        (Panic p, s1) \<Rightarrow> Inl (Panic p, s1)
      | (Ret (poll, None), s1) \<Rightarrow> Inr (0, s1)
      | (Ret (poll, Some err), s1) \<Rightarrow>
          (case ctx_err ctx s1 of
             Some cerr \<Rightarrow> Inl (Ret (Some cerr), s1)
           | None \<Rightarrow>
               (let failures = failures + 1; delay = the (sk_backoff sink) failures;
                    s2 = log_to (sqs_log sink s1) LevelError ''sqs: receive failed''
                      [(''error'', err_text err), (''backoff'', itoa (sint delay))] s1
                in case sleep ctx delay s2 of
                     (True, s3) \<Rightarrow> Inl (Ret (ctx_err ctx s3), s3)
                   | (False, s3) \<Rightarrow> Inr (failures, s3))))"

text \<open>The loop returns when a turn does; that it may go on for ever is the value \<open>None\<close>.\<close>

partial_function (option) receive_from :: "('c, 'w) ctx_state \<Rightarrow> ('c, 'w) select_wait \<Rightarrow> ('c, 'w) sqs_sink \<Rightarrow>
    'c go_ctx_scheme \<Rightarrow> int \<Rightarrow> 'w world \<Rightarrow> (go_error option outcome \<times> 'w world) option" where
  "receive_from ctx_err sleep sink ctx failures s =
     (case receive_turn ctx_err sleep sink ctx failures s of
        Inl res \<Rightarrow> Some res
      | Inr (failures', s') \<Rightarrow> receive_from ctx_err sleep sink ctx failures' s')"

definition sqs_receive :: "('c, 'w) ctx_state \<Rightarrow> ('c, 'w) select_wait \<Rightarrow> ('c, 'w) sqs_sink \<Rightarrow>
    'c go_ctx_scheme \<Rightarrow> 'w world \<Rightarrow> (go_error option outcome \<times> 'w world) option" where
  "sqs_receive ctx_err sleep sink ctx s = receive_from ctx_err sleep sink ctx 0 s"

section \<open>The interfaces the sink provides\<close>

text \<open>\<open>Subscribe\<close> is the one of the embedded dispatcher.\<close>

definition sqs_subscribe :: "string \<Rightarrow> ('c, 'w) handler \<Rightarrow> ('c, 'w) sqs_sink \<Rightarrow> ('c, 'w) sqs_sink" where
  "sqs_subscribe name h s = s\<lparr>sk_dispatcher := dispatcher_subscribe name h (sk_dispatcher s)\<rparr>"

interpretation sqs_sink: subscriptions "\<lambda>s. subs_of (dp_subs (sk_dispatcher s))" sqs_subscribe
  by unfold_locales (simp add: sqs_subscribe_def dispatcher.subscribed)

text \<open>The message SQS stores for a \<open>SendMessage\<close>: body and attributes as sent.\<close>

definition stored_message :: "string option \<Rightarrow> envelope \<Rightarrow> sqs_message" where
  "stored_message receipt ev =
     \<lparr>sm_attrs = map (\<lambda>(k, v). (k, Some v)) (message_attrs ev), sm_body = Some (en_payload ev),
      sm_receipt = receipt\<rparr>"

lemma map_of_message_attrs:
  "map_of (message_attrs ev) event_attr = Some (en_name ev)"
  "map_of (message_attrs ev) headers_attr =
     (if marshal_headers (en_headers ev) = [] then None else Some (marshal_headers (en_headers ev)))"
  by (simp_all add: message_attrs_def event_attr_def headers_attr_def)

interpretation sqs: transport "stored_message receipt" sqs_envelope for receipt
proof
  fix ev :: envelope
  assume "headers_valid (en_headers ev)"
  note rt = unmarshal_marshal [OF this]
  have "map_of (sm_attrs (stored_message receipt ev)) k = map_option Some (map_of (message_attrs ev) k)" for k
    by (simp add: stored_message_def map_of_map)
  then have "sqs_attr (stored_message receipt ev) k = map_of (message_attrs ev) k" for k
    by (simp add: sqs_attr_def split: option.split)
  with rt show "same_envelope (sqs_envelope (stored_message receipt ev)) ev"
    by (auto simp: same_envelope_def sqs_envelope_def stored_message_def map_of_message_attrs)
qed

section \<open>Facts\<close>

text \<open>The messages of a batch that were dispatched, each with whether its handlers all succeeded.\<close>

fun dispatched :: "('c, 'w) ctx_state \<Rightarrow> ('c, 'w) sqs_sink \<Rightarrow> 'c go_ctx_scheme \<Rightarrow> sqs_message list \<Rightarrow> 'w world \<Rightarrow>
    (sqs_message \<times> bool) list" where
  "dispatched ctx_err sink ctx [] s = []"
| "dispatched ctx_err sink ctx (m # ms) s =
     (case ctx_err ctx s of
        Some err \<Rightarrow> []
      | None \<Rightarrow>
          (m, fst (dispatcher_dispatch (sk_dispatcher sink) ctx (sqs_envelope m) s) = Ret None)
          # dispatched ctx_err sink ctx ms (snd (sqs_handle sink ctx m no_poll s)))"

lemma sqs_handle_world: "snd (sqs_handle sink ctx m poll s) = snd (sqs_handle sink ctx m no_poll s)"
  by (simp add: sqs_handle_def Let_def split: prod.split outcome.split option.split)

lemma sqs_handle_poll:
  assumes "sqs_handle sink ctx m poll s = (Ret poll', s')"
  shows "(if fst (dispatcher_dispatch (sk_dispatcher sink) ctx (sqs_envelope m) s) = Ret None
      then pl_handled poll' = pl_handled poll + 1 \<and> pl_failed poll' = pl_failed poll
      else pl_handled poll' = pl_handled poll \<and> pl_failed poll' = pl_failed poll + 1) \<and>
    pl_received poll' = pl_received poll \<and> pl_undeleted poll \<le> pl_undeleted poll' \<and>
    pl_undeleted poll' - pl_undeleted poll \<le> pl_handled poll' - pl_handled poll"
  using assms by (auto simp: sqs_handle_def Let_def split: prod.splits outcome.splits option.splits)

lemma sqs_handle_deletes:
  assumes "\<And>rc s. dels (w_app (snd (sq_delete (sk_client sink) ctx sqs_delete_timeout (sk_queue sink) rc s))) =
      dels (w_app s) @ [rc]"
    and "\<And>ev s. dels (w_app (snd (dispatcher_dispatch (sk_dispatcher sink) ctx ev s))) = dels (w_app s)"
    and "sqs_handle sink ctx m poll s = (Ret poll', s')"
  shows "dels (w_app s') = dels (w_app s) @
    (if fst (dispatcher_dispatch (sk_dispatcher sink) ctx (sqs_envelope m) s) = Ret None then [sm_receipt m] else [])"
proof -
  obtain r s1 where d: "dispatcher_dispatch (sk_dispatcher sink) ctx (sqs_envelope m) s = (r, s1)"
    by (cases "dispatcher_dispatch (sk_dispatcher sink) ctx (sqs_envelope m) s")
  with assms(2) have "dels (w_app s1) = dels (w_app s)" by (metis snd_conv)
  with assms(1) [of "sm_receipt m" s1] assms(3) d show ?thesis
    by (auto simp: sqs_handle_def Let_def split: prod.splits outcome.splits option.splits)
qed

lemma sqs_batch_accounts:
  assumes "sqs_batch ctx_err sink ctx ms poll s = (Ret (poll', err), s')"
  shows "pl_handled poll' = pl_handled poll + int (length (filter snd (dispatched ctx_err sink ctx ms s))) \<and>
    pl_failed poll' = pl_failed poll + int (length (filter (\<lambda>x. \<not> snd x) (dispatched ctx_err sink ctx ms s))) \<and>
    pl_received poll' = pl_received poll \<and> pl_undeleted poll \<le> pl_undeleted poll' \<and>
    pl_undeleted poll' - pl_undeleted poll \<le> pl_handled poll' - pl_handled poll \<and>
    map fst (dispatched ctx_err sink ctx ms s) = take (length (dispatched ctx_err sink ctx ms s)) ms \<and>
    (err = None \<longrightarrow> length (dispatched ctx_err sink ctx ms s) = length ms) \<and>
    (err \<noteq> None \<longrightarrow> err = ctx_err ctx s')"
  using assms
proof (induction ms arbitrary: poll s)
  case (Cons m ms)
  show ?case
  proof (cases "ctx_err ctx s")
    case None
    with Cons.prems obtain p1 s1 where h: "sqs_handle sink ctx m poll s = (Ret p1, s1)"
      "sqs_batch ctx_err sink ctx ms p1 s1 = (Ret (poll', err), s')"
      by (auto split: prod.splits outcome.splits)
    then have "snd (sqs_handle sink ctx m no_poll s) = s1" by (metis sqs_handle_world snd_conv)
    with Cons.IH [OF h(2)] sqs_handle_poll [OF h(1)] None show ?thesis
      by (auto split: if_splits)
  next
    case (Some e)
    with Cons.prems have "poll' = poll" "err = Some e" "s' = s" by simp_all
    with Some show ?thesis by simp
  qed
qed auto

lemma sqs_batch_deletes:
  assumes "\<And>rc s. dels (w_app (snd (sq_delete (sk_client sink) ctx sqs_delete_timeout (sk_queue sink) rc s))) =
      dels (w_app s) @ [rc]"
    and "\<And>ev s. dels (w_app (snd (dispatcher_dispatch (sk_dispatcher sink) ctx ev s))) = dels (w_app s)"
    and "sqs_batch ctx_err sink ctx ms poll s = (Ret res, s')"
  shows "dels (w_app s') = dels (w_app s) @
    map (\<lambda>x. sm_receipt (fst x)) (filter snd (dispatched ctx_err sink ctx ms s))"
  using assms(3)
proof (induction ms arbitrary: poll s)
  case (Cons m ms)
  show ?case
  proof (cases "ctx_err ctx s")
    case None
    with Cons.prems obtain p1 s1 where h: "sqs_handle sink ctx m poll s = (Ret p1, s1)"
      "sqs_batch ctx_err sink ctx ms p1 s1 = (Ret res, s')"
      by (auto split: prod.splits outcome.splits)
    then have "snd (sqs_handle sink ctx m no_poll s) = s1" by (metis sqs_handle_world snd_conv)
    with Cons.IH [OF h(2)] sqs_handle_deletes [OF assms(1,2) h(1)] None show ?thesis by auto
  next
    case (Some e)
    with Cons.prems have "s' = s" by simp
    with Some show ?thesis by simp
  qed
qed auto

text \<open>Turns that the loop goes on from: the failures and the world after \<open>n\<close> of them.\<close>

fun turns :: "('c, 'w) ctx_state \<Rightarrow> ('c, 'w) select_wait \<Rightarrow> ('c, 'w) sqs_sink \<Rightarrow> 'c go_ctx_scheme \<Rightarrow> nat \<Rightarrow>
    int \<Rightarrow> 'w world \<Rightarrow> (int \<times> 'w world) option" where
  "turns ctx_err sleep sink ctx 0 failures s = Some (failures, s)"
| "turns ctx_err sleep sink ctx (Suc n) failures s =
     (case receive_turn ctx_err sleep sink ctx failures s of
        Inl res \<Rightarrow> None
      | Inr (failures', s') \<Rightarrow> turns ctx_err sleep sink ctx n failures' s')"

lemma receive_from_turns:
  "turns ctx_err sleep sink ctx n failures s = Some (failures', s') \<Longrightarrow>
     receive_from ctx_err sleep sink ctx failures s = receive_from ctx_err sleep sink ctx failures' s'"
proof (induction n arbitrary: failures s)
  case (Suc n)
  then show ?case
    by (subst receive_from.simps) (auto split: sum.splits)
qed simp

lemma turns_stuck:
  "turns ctx_err sleep sink ctx n failures s = None \<Longrightarrow> \<exists>res. receive_from ctx_err sleep sink ctx failures s = Some res"
proof (induction n arbitrary: failures s)
  case (Suc n)
  then show ?case by (subst receive_from.simps) (auto split: sum.splits)
qed simp

lemma receive_turn_ended:
  "ctx_err ctx s = Some err \<Longrightarrow> receive_turn ctx_err sleep sink ctx failures s = Inl (Ret (Some err), s)"
  by (simp add: receive_turn_def receive_once_def)

text \<open>What a turn returns with, where the waits tell the truth about the context.\<close>

lemma receive_turn_returns:
  assumes "\<And>d s s1. sleep ctx d s = (True, s1) \<Longrightarrow> ctx_err ctx s1 \<noteq> None"
    and "receive_turn ctx_err sleep sink ctx failures s = Inl (r, s')"
  shows "(\<exists>p. r = Panic p) \<or> r = Ret (ctx_err ctx s') \<and> ctx_err ctx s' \<noteq> None"
  using assms(2)
  by (auto simp: receive_turn_def Let_def dest: assms(1) split: prod.splits outcome.splits option.splits bool.splits)

lemma receive_from_returns:
  "receive_from ctx_err sleep sink ctx failures s = Some res \<Longrightarrow>
   (\<And>d s s1. sleep ctx d s = (True, s1) \<Longrightarrow> ctx_err ctx s1 \<noteq> None) \<Longrightarrow>
   (\<exists>p. fst res = Panic p) \<or> fst res = Ret (ctx_err ctx (snd res)) \<and> ctx_err ctx (snd res) \<noteq> None"
proof (induct ctx_err sleep sink ctx failures s res rule: receive_from.raw_induct [rotated, consumes 1])
  case (1 rf ctx_err sleep sink ctx failures s res)
  show ?case
  proof (cases "receive_turn ctx_err sleep sink ctx failures s")
    case (Inl x)
    with 1(2) have "receive_turn ctx_err sleep sink ctx failures s = Inl (fst res, snd res)" by simp
    from receive_turn_returns [OF 1(3) this] show ?thesis .
  next
    case (Inr fs)
    obtain f s' where "fs = (f, s')" by (cases fs)
    with 1(2) Inr have "rf ctx_err sleep sink ctx f s' = Some res" by simp
    from 1(1) [OF this 1(3)] show ?thesis .
  qed
qed

section \<open>A queue for the witnesses\<close>

text \<open>What is in the queue, what was deleted, and how many calls until the context is cancelled.\<close>

record queue_world =
  qw_inbox :: "sqs_message list"
  qw_deleted :: "string option list"
  qw_calls :: nat

definition cancelled :: go_error where
  "cancelled = Sentinel ''context.Canceled'' ''context canceled''"

definition queue_ctx :: "(unit, queue_world) ctx_state" where
  "queue_ctx ctx s = (if qw_calls (w_app s) = 0 then Some cancelled else None)"

definition queue_sleep :: "(unit, queue_world) select_wait" where
  "queue_sleep ctx d s = (qw_calls (w_app s) = 0, s)"

definition queue_client :: "(unit, queue_world) sqs_api" where
  "queue_client = \<lparr>
     sq_send = (\<lambda>ctx q body attrs s. (None, s\<lparr>w_app := (w_app s)\<lparr>qw_inbox := qw_inbox (w_app s) @
       [\<lparr>sm_attrs = map (\<lambda>(k, v). (k, Some v)) attrs, sm_body = Some body, sm_receipt = Some body\<rparr>]\<rparr>\<rparr>)),
     sq_receive = (\<lambda>ctx q n t names s. (Inr (qw_inbox (w_app s)),
       s\<lparr>w_app := (w_app s)\<lparr>qw_inbox := [], qw_calls := qw_calls (w_app s) - 1\<rparr>\<rparr>)),
     sq_delete = (\<lambda>ctx d q rc s. (None, s\<lparr>w_app := (w_app s)\<lparr>qw_deleted := qw_deleted (w_app s) @ [rc]\<rparr>\<rparr>))\<rparr>"

definition picky_handler :: "(unit, queue_world) handler" where
  "picky_handler ctx ev s = (Ret (if en_payload ev = ''bad'' then Some (ErrText ''refused'') else None), s)"

definition queue_sink :: "(unit, queue_world) sqs_sink" where
  "queue_sink = (new_sqs_sink queue_client ''q'' [])\<lparr>sk_dispatcher :=
     dispatcher_subscribe ''note'' picky_handler new_dispatcher\<rparr>"

definition note_message :: "string \<Rightarrow> sqs_message" where
  "note_message body = \<lparr>sm_attrs = [(''event'', Some ''note'')], sm_body = Some body, sm_receipt = Some body\<rparr>"

definition queue_world :: "string list \<Rightarrow> nat \<Rightarrow> queue_world world" where
  "queue_world bodies n = \<lparr>w_default = ''default'', w_log = [],
     w_app = \<lparr>qw_inbox = map note_message bodies, qw_deleted = [], qw_calls = n\<rparr>\<rparr>"

lemma queue_sink_fields [simp]:
  "sk_client queue_sink = queue_client" "sk_backoff queue_sink = Some sqs_default_backoff"
  "sk_logger queue_sink = None"
  by (simp_all add: queue_sink_def new_sqs_sink_def or_else_def Let_def)

lemma queue_dispatch:
  "dispatcher_dispatch (sk_dispatcher queue_sink) ctx ev s =
     (Ret (if en_name ev = ''note'' \<and> en_payload ev = ''bad'' then Some (Joined [ErrText ''refused'']) else None), s)"
  by (simp add: queue_sink_def dispatcher_dispatch_def dispatcher_subscribe_def new_dispatcher_def subs_of_def
      picky_handler_def errors_join_def)

lemma note_message_envelope [simp]:
  "sqs_envelope (note_message body) = \<lparr>en_name = ''note'', en_payload = body, en_headers = []\<rparr>"
  by (simp add: sqs_envelope_def note_message_def sqs_attr_def event_attr_def headers_attr_def)

section \<open>Properties\<close>

text \<open>C4: A message is deleted once its handlers succeeded, and only then: of the messages one
  \<open>ReceiveOnce\<close> gets, those dispatched are a first part of the batch, all of it unless the context
  ended; it calls the delete for exactly those whose handlers all returned nil, in order, leaving the
  others for redelivery; and the poll adds up: Handled and Failed count the two kinds, and Undeleted
  never exceeds Handled.\<close>

theorem messages_are_deleted_once_handled:
  assumes "\<And>rc s. dels (w_app (snd (sq_delete (sk_client sink) ctx sqs_delete_timeout (sk_queue sink) rc s))) =
      dels (w_app s) @ [rc]"
    and "\<And>ev s. dels (w_app (snd (dispatcher_dispatch (sk_dispatcher sink) ctx ev s))) = dels (w_app s)"
    and "ctx_err ctx s = None"
    and "sq_receive (sk_client sink) ctx (sk_queue sink) (sk_batch sink) (sk_wait sink) [event_attr, headers_attr] s =
      (Inr ms, s1)"
    and "receive_once ctx_err sink ctx s = (Ret (p, err), s')"
  shows "\<exists>done. map fst done = take (length done) ms \<and> (err = None \<longrightarrow> map fst done = ms) \<and>
    (err \<noteq> None \<longrightarrow> err = ctx_err ctx s') \<and>
    dels (w_app s') = dels (w_app s1) @ map (\<lambda>(m, ok). sm_receipt m) (filter snd done) \<and>
    done = dispatched ctx_err sink ctx ms s1 \<and> pl_received p = int (length ms) \<and>
    pl_handled p = int (length (filter snd done)) \<and> pl_failed p = int (length done) - pl_handled p \<and>
    0 \<le> pl_undeleted p \<and> pl_undeleted p \<le> pl_handled p"
proof -
  let ?done = "dispatched ctx_err sink ctx ms s1"
  from assms(3-5) have b: "sqs_batch ctx_err sink ctx ms (no_poll\<lparr>pl_received := int (length ms)\<rparr>) s1 = (Ret (p, err), s')"
    by (simp add: receive_once_def)
  have "int (length (filter (\<lambda>x. \<not> snd x) ?done)) = int (length ?done) - int (length (filter snd ?done))"
    using sum_length_filter_compl [of snd ?done] by simp
  with sqs_batch_accounts [OF b] sqs_batch_deletes [OF assms(1,2) b] show ?thesis
    by (intro exI [of _ ?done]) (auto simp: no_poll_def case_prod_unfold)
qed

theorem messages_are_deleted_once_handled_witness:
  "\<exists>p s'. receive_once queue_ctx queue_sink background (queue_world [''a'', ''bad'', ''b''] 2) = (Ret (p, None), s') \<and>
     qw_deleted (w_app s') = [Some ''a'', Some ''b''] \<and> pl_received p = 3 \<and> pl_handled p = 2 \<and> pl_failed p = 1"
proof -
  let ?s = "queue_world [''a'', ''bad'', ''b''] 2"
  let ?ms = "map note_message [''a'', ''bad'', ''b'']"
  let ?s1 = "?s\<lparr>w_app := (w_app ?s)\<lparr>qw_inbox := [], qw_calls := 1\<rparr>\<rparr>"
  have rc: "sq_receive (sk_client queue_sink) background (sk_queue queue_sink) (sk_batch queue_sink) (sk_wait queue_sink)
      [event_attr, headers_attr] ?s = (Inr ?ms, ?s1)"
    by (simp add: queue_client_def queue_world_def)
  have del: "qw_deleted (w_app (snd (sq_delete (sk_client queue_sink) background sqs_delete_timeout
      (sk_queue queue_sink) rc s))) = qw_deleted (w_app s) @ [rc]" for rc s
    by (simp add: queue_client_def)
  have disp: "qw_deleted (w_app (snd (dispatcher_dispatch (sk_dispatcher queue_sink) background ev s))) =
      qw_deleted (w_app s)" for ev s by (simp add: queue_dispatch)
  have alive: "queue_ctx background ?s = None" by (simp add: queue_ctx_def queue_world_def)
  have run: "\<exists>p s'. receive_once queue_ctx queue_sink background ?s = (Ret (p, None), s')"
    by (simp add: receive_once_def alive queue_ctx_def rc sqs_handle_def queue_dispatch Let_def queue_world_def
        queue_client_def log_to_def)
  then obtain p s' where r: "receive_once queue_ctx queue_sink background ?s = (Ret (p, None), s')" by blast
  have "dispatched queue_ctx queue_sink background ?ms ?s1 =
      [(note_message ''a'', True), (note_message ''bad'', False), (note_message ''b'', True)]"
    by (simp add: queue_ctx_def sqs_handle_def queue_dispatch Let_def queue_world_def queue_client_def log_to_def)
  with messages_are_deleted_once_handled [OF del disp alive rc r] r show ?thesis
    by (auto simp: queue_world_def note_message_def)
qed

text \<open>C10: \<open>Receive\<close> returns when its context ends and for no other reason: if the context has
  ended by the time \<open>n\<close> turns are done, the call returns, with \<open>ctx.Err()\<close>, whatever polls
  and handlers failed on the way; only a panic of a handler gets out otherwise.\<close>

theorem receive_ends_with_its_context:
  assumes "\<And>d s s1. sleep ctx d s = (True, s1) \<Longrightarrow> ctx_err ctx s1 \<noteq> None"
    and "\<forall>failures s1. turns ctx_err sleep sink ctx n 0 s = Some (failures, s1) \<longrightarrow> ctx_err ctx s1 \<noteq> None"
  shows "\<exists>r s'. sqs_receive ctx_err sleep sink ctx s = Some (r, s') \<and>
    ((\<exists>p. r = Panic p) \<or> r = Ret (ctx_err ctx s') \<and> ctx_err ctx s' \<noteq> None)"
proof -
  have "\<exists>res. sqs_receive ctx_err sleep sink ctx s = Some res"
  proof (cases "turns ctx_err sleep sink ctx n 0 s")
    case None
    from turns_stuck [OF this] show ?thesis by (simp add: sqs_receive_def)
  next
    case (Some fs)
    obtain f s1 where fs: "fs = (f, s1)" by (cases fs)
    with assms(2) Some obtain err where "ctx_err ctx s1 = Some err" by auto
    then have "receive_turn ctx_err sleep sink ctx f s1 = Inl (Ret (Some err), s1)" by (rule receive_turn_ended)
    then have "\<exists>res. receive_from ctx_err sleep sink ctx f s1 = Some res"
      by (subst receive_from.simps) simp
    with receive_from_turns [of ctx_err sleep sink ctx n 0 s f s1] Some fs show ?thesis
      by (simp add: sqs_receive_def)
  qed
  then obtain res where res: "receive_from ctx_err sleep sink ctx 0 s = Some res" by (auto simp: sqs_receive_def)
  from receive_from_returns [OF this assms(1)] res show ?thesis
    by (cases res) (auto simp: sqs_receive_def)
qed

theorem receive_ends_with_its_context_witness:
  "\<exists>s'. sqs_receive queue_ctx queue_sleep queue_sink background (queue_world [''a''] 1) = Some (Ret (Some cancelled), s')"
proof -
  have t: "\<forall>failures s1. turns queue_ctx queue_sleep queue_sink background 1 0 (queue_world [''a''] 1) = Some (failures, s1) \<longrightarrow>
      queue_ctx background s1 \<noteq> None"
    by (simp add: receive_turn_def receive_once_def queue_ctx_def queue_world_def queue_client_def)
  have w: "queue_sleep background d s = (True, s1) \<Longrightarrow> queue_ctx background s1 \<noteq> None" for d s s1
    by (auto simp: queue_sleep_def queue_ctx_def)
  have "\<exists>r s'. sqs_receive queue_ctx queue_sleep queue_sink background (queue_world [''a''] 1) = Some (r, s') \<and>
      ((\<exists>p. r = Panic p) \<or> r = Ret (queue_ctx background s') \<and> queue_ctx background s' \<noteq> None)"
    by (rule receive_ends_with_its_context [where n = 1]) (use w t in blast)+
  then obtain r s' where
    r: "sqs_receive queue_ctx queue_sleep queue_sink background (queue_world [''a''] 1) = Some (r, s')"
    "(\<exists>p. r = Panic p) \<or> r = Ret (queue_ctx background s') \<and> queue_ctx background s' \<noteq> None" by blast
  have "\<nexists>p. r = Panic p"
    using r(1) by (auto simp: sqs_receive_def receive_from.simps [of _ _ _ _ 0] receive_turn_def receive_once_def
        queue_ctx_def queue_world_def queue_client_def)
  with r show ?thesis by (auto simp: queue_ctx_def split: if_splits)
qed

text \<open>The default wait after \<open>n\<close> failed polls in a row is 1s doubling up to 30s: never
  shorter than a second, so a failing queue is never polled hot, and never longer than the ceiling,
  whatever the count.\<close>

theorem poll_backoff_is_bounded:
  "sint (sqs_default_backoff n) = min (2 ^ nat (min (max n 1) 16 - 1)) 30 * 1000000000 \<and>
   1000000000 \<le> sint (sqs_default_backoff n) \<and> sint (sqs_default_backoff n) \<le> 30 * 1000000000"
proof -
  define k where "k = nat (min (max n 1) 16 - 1)"
  have base: "sint sqs_backoff_base = 1000000000" "sint sqs_backoff_ceiling = 30 * 1000000000"
    by (simp_all add: sqs_backoff_base_def sqs_backoff_ceiling_def seconds_def)
  have "k \<le> 15" by (simp add: k_def)
  moreover have "exponential_backoff sqs_backoff_base n = push_bit k sqs_backoff_base"
    by (auto simp: exponential_backoff_def max_backoff_doublings_def k_def Let_def min_def max_def)
  moreover have "(2::int) ^ k \<le> 2 ^ 15" using \<open>k \<le> 15\<close> by (intro power_increasing) auto
  ultimately have e: "sint (exponential_backoff sqs_backoff_base n) = 1000000000 * 2 ^ k"
    using sint_push_bit [of sqs_backoff_base k] base by simp
  have "sint (sqs_default_backoff n) = min (2 ^ k) 30 * 1000000000"
    by (auto simp: sqs_default_backoff_def duration_min_def e base min_def)
  moreover have "(1::int) \<le> 2 ^ k" by simp
  ultimately show ?thesis unfolding k_def by linarith
qed

end
