(* ===== verification/EventPush.thy ===== *)
theory EventPush
  imports EventSqs HttpRouter
begin

text \<open>
  Packages sns and eventbridge: \<open>events/aws/sns/sns.go\<close> and
  \<open>events/aws/eventbridge/eventbridge.go\<close>. Each has a publisher over the client of the AWS SDK
  and a push sink that answers HTTP deliveries. The clients, the decoding of the request body into the
  message struct (\<open>encoding/json\<close>), \<open>net/url\<close>'s host of a URL and the fetch of the
  confirmation URL are parameters.
\<close>

section \<open>Answers of the push handlers\<close>

text \<open>The end of the push handlers: dispatch, then a failure text or the status of success.\<close>

definition answer_dispatch :: "('c, 'w) dispatcher \<Rightarrow> 'c go_ctx_scheme \<Rightarrow> envelope \<Rightarrow> int \<Rightarrow> 'w hworld \<Rightarrow>
    unit outcome \<times> 'w hworld" where
  "answer_dispatch d ctx ev success s =
     (case on_world (dispatcher_dispatch d ctx ev) s of
        (Panic p, s1) \<Rightarrow> (Panic p, s1)
      | (Ret (Some err), s1) \<Rightarrow> on_rw (http_error ''handler failed'' 500) s1
      | (Ret None, s1) \<Rightarrow> on_rw (write_header success) s1)"

section \<open>SNS\<close>

type_synonym ('c, 'w) sns_client =
  "'c go_ctx_scheme \<Rightarrow> string \<Rightarrow> string \<Rightarrow> (string \<times> string) list \<Rightarrow> 'w world \<Rightarrow> go_error option \<times> 'w world"

record ('c, 'w) sns_publisher =
  sp_client :: "('c, 'w) sns_client"
  sp_topics :: "(string \<times> string) list"

definition new_sns_publisher :: "('c, 'w) sns_client \<Rightarrow> (string \<times> string) list \<Rightarrow> ('c, 'w) sns_publisher" where
  "new_sns_publisher client topics = \<lparr>sp_client = client, sp_topics = topics\<rparr>"

definition sns_publish :: "('c, 'w) sns_publisher \<Rightarrow> 'c go_ctx_scheme \<Rightarrow> envelope \<Rightarrow> 'w world \<Rightarrow>
    go_error option outcome \<times> 'w world" where
  "sns_publish p ctx ev s =
     (case map_of (sp_topics p) (en_name ev) of
        None \<Rightarrow> (Ret (Some (EEvent (event_new ''no_topic'' [(''event'', GStr (en_name ev))] []))), s)
      | Some arn \<Rightarrow>
          (case sp_client p ctx arn (en_payload ev) (message_attrs ev) s of
             (Some err, s') \<Rightarrow> (Ret (Some (publish_failed err ev)), s')
           | (None, s') \<Rightarrow> (Ret None, s')))"

record ('c, 'w) sns_sink =
  sx_dispatcher :: "('c, 'w) dispatcher"
  sx_publisher :: "('c, 'w) sns_publisher"
  sx_get :: "string \<Rightarrow> 'w world \<Rightarrow> go_error option \<times> 'w world"
  sx_auto_confirm :: bool

definition with_auto_confirm :: "bool \<Rightarrow> ('c, 'w) sns_sink \<Rightarrow> ('c, 'w) sns_sink" where
  "with_auto_confirm on s = s\<lparr>sx_auto_confirm := on\<rparr>"

definition new_sns_sink :: "(string \<Rightarrow> 'w world \<Rightarrow> go_error option \<times> 'w world) \<Rightarrow> ('c, 'w) sns_client \<Rightarrow>
    (string \<times> string) list \<Rightarrow> (('c, 'w) sns_sink \<Rightarrow> ('c, 'w) sns_sink) list \<Rightarrow> ('c, 'w) sns_sink" where
  "new_sns_sink default_get client topics opts = fold (\<lambda>opt s. opt s) opts
     \<lparr>sx_dispatcher = new_dispatcher, sx_publisher = new_sns_publisher client topics, sx_get = default_get,
      sx_auto_confirm = True\<rparr>"

record sns_message =
  sn_type :: string
  sn_message :: string
  sn_subscribe_url :: string
  sn_attrs :: "(string \<times> string) list"

text \<open>\<open>hostname\<close> is \<open>url.Parse\<close> followed by \<open>Hostname\<close>.\<close>

definition is_aws_host :: "(string \<Rightarrow> string option) \<Rightarrow> string \<Rightarrow> bool" where
  "is_aws_host hostname raw =
     (case hostname raw of None \<Rightarrow> False | Some host \<Rightarrow> suffix ''.amazonaws.com'' host)"

definition sns_envelope :: "sns_message \<Rightarrow> envelope" where
  "sns_envelope msg =
     \<lparr>en_name = get_value (sn_attrs msg) event_attr, en_payload = sn_message msg,
      en_headers = unmarshal_headers (get_value (sn_attrs msg) headers_attr)\<rparr>"

definition sns_serve :: "(string \<Rightarrow> sns_message option) \<Rightarrow> (string \<Rightarrow> string option) \<Rightarrow> ('c, 'w) sns_sink \<Rightarrow>
    ('c, 'w) std_handler" where
  "sns_serve parse hostname sink r s =
     (case parse (rq_body r) of
        None \<Rightarrow> on_rw (http_error ''invalid sns message'' 400) s
      | Some msg \<Rightarrow>
          if sn_type msg = ''SubscriptionConfirmation'' then
            (if sx_auto_confirm sink \<and> is_aws_host hostname (sn_subscribe_url msg)
             then (case on_world (\<lambda>w. case sx_get sink (sn_subscribe_url msg) w of (err, w') \<Rightarrow> (Ret err, w')) s of
                     (Panic p, s1) \<Rightarrow> (Panic p, s1)
                   | (Ret (Some err), s1) \<Rightarrow> on_rw (http_error ''confirm failed'' 502) s1
                   | (Ret None, s1) \<Rightarrow> on_rw (write_header 200) s1)
             else on_rw (write_header 200) s)
          else if sn_type msg = ''Notification''
          then answer_dispatch (sx_dispatcher sink) (rq_ctx r) (sns_envelope msg) 200 s
          else on_rw (write_header 200) s)"

section \<open>EventBridge\<close>

text \<open>What \<open>PutEvents\<close> reports: the number of failed entries, and each entry's error message.\<close>

record put_output =
  pt_failed :: int
  pt_messages :: "string option list"

type_synonym ('c, 'w) put_client =
  "'c go_ctx_scheme \<Rightarrow> string \<Rightarrow> string \<Rightarrow> string \<Rightarrow> string \<Rightarrow> 'w world \<Rightarrow> (go_error + put_output) \<times> 'w world"

record ('c, 'w) eb_publisher =
  eb_client :: "('c, 'w) put_client"
  eb_bus_name :: string
  eb_source :: string

definition new_eb_publisher :: "('c, 'w) put_client \<Rightarrow> string \<Rightarrow> string \<Rightarrow> ('c, 'w) eb_publisher" where
  "new_eb_publisher client busName source = \<lparr>eb_client = client, eb_bus_name = busName, eb_source = source\<rparr>"

definition eb_publish :: "('c, 'w) eb_publisher \<Rightarrow> 'c go_ctx_scheme \<Rightarrow> envelope \<Rightarrow> 'w world \<Rightarrow>
    go_error option outcome \<times> 'w world" where
  "eb_publish p ctx ev s =
     (case eb_client p ctx (eb_bus_name p) (eb_source p) (en_name ev) (en_payload ev) s of
        (Inl err, s') \<Rightarrow> (Ret (Some (publish_failed err ev)), s')
      | (Inr out, s') \<Rightarrow>
          if pt_failed out > 0
          then (Ret (Some (EEvent (event_new ''publish_failed''
                  ((''event'', GStr (en_name ev))
                   # (case pt_messages out of Some msg # _ \<Rightarrow> [(''error'', GStr msg)] | _ \<Rightarrow> [])) []))), s')
          else (Ret None, s'))"

record ('c, 'w) eb_sink =
  ex_dispatcher :: "('c, 'w) dispatcher"
  ex_publisher :: "('c, 'w) eb_publisher"

definition new_eb_sink :: "('c, 'w) put_client \<Rightarrow> string \<Rightarrow> string \<Rightarrow> ('c, 'w) eb_sink" where
  "new_eb_sink client busName source =
     \<lparr>ex_dispatcher = new_dispatcher, ex_publisher = new_eb_publisher client busName source\<rparr>"

record eb_event =
  ev_detail_type :: string
  ev_detail :: string

definition eb_serve :: "(string \<Rightarrow> eb_event option) \<Rightarrow> ('c, 'w) eb_sink \<Rightarrow> ('c, 'w) std_handler" where
  "eb_serve parse sink r s =
     (case parse (rq_body r) of
        None \<Rightarrow> on_rw (http_error ''invalid eventbridge event'' 400) s
      | Some e \<Rightarrow>
          answer_dispatch (ex_dispatcher sink) (rq_ctx r)
            \<lparr>en_name = ev_detail_type e, en_payload = ev_detail e, en_headers = []\<rparr> 200 s)"

section \<open>Facts\<close>

text \<open>On a response not yet sent each path commits one status.\<close>

lemma on_rw_ret: "f (h_rw s) = (r, w) \<Longrightarrow> on_rw f s = (r, s\<lparr>h_rw := w\<rparr>)"
  by (simp add: on_rw_def)

section \<open>The interfaces the sinks provide\<close>

definition sns_subscribe :: "string \<Rightarrow> ('c, 'w) handler \<Rightarrow> ('c, 'w) sns_sink \<Rightarrow> ('c, 'w) sns_sink" where
  "sns_subscribe name h s = s\<lparr>sx_dispatcher := dispatcher_subscribe name h (sx_dispatcher s)\<rparr>"

interpretation sns_sink: subscriptions "\<lambda>s. subs_of (dp_subs (sx_dispatcher s))" sns_subscribe
  by unfold_locales (simp add: sns_subscribe_def dispatcher.subscribed)

definition eb_subscribe :: "string \<Rightarrow> ('c, 'w) handler \<Rightarrow> ('c, 'w) eb_sink \<Rightarrow> ('c, 'w) eb_sink" where
  "eb_subscribe name h s = s\<lparr>ex_dispatcher := dispatcher_subscribe name h (ex_dispatcher s)\<rparr>"

interpretation eb_sink: subscriptions "\<lambda>s. subs_of (dp_subs (ex_dispatcher s))" eb_subscribe
  by unfold_locales (simp add: eb_subscribe_def dispatcher.subscribed)

text \<open>The notification SNS posts for a published message: message and attributes as sent.\<close>

definition notification :: "string \<Rightarrow> envelope \<Rightarrow> sns_message" where
  "notification url ev =
     \<lparr>sn_type = ''Notification'', sn_message = en_payload ev, sn_subscribe_url = url,
      sn_attrs = message_attrs ev\<rparr>"

interpretation sns: transport "notification url" sns_envelope for url
  by unfold_locales
     (auto simp: same_envelope_def sns_envelope_def notification_def get_value_def map_of_message_attrs
        unmarshal_marshal)

end
