(* ===== verification/EventPubsub.thy ===== *)
theory EventPubsub
  imports EventPush
begin

text \<open>
  Package pubsub, \<open>events/gcp/pubsub/pubsub.go\<close>: the cache of publishers, the pull sink with
  its concurrent receivers, and the push sink. The client of Google Cloud is a parameter: making a
  publisher for a topic, and publishing a message and waiting for the server's ack. While
  \<open>Receive\<close> runs, the streaming pulls decide which receiver gets which message when: the
  relation \<open>pull_step\<close> lets any receiver take any message or stop at any time. A callback runs
  as a whole.
\<close>

section \<open>Publishers\<close>

text \<open>A message: its data, its attributes, and the id the service knows it by.\<close>

record pubsub_message =
  ps_data :: string
  ps_attrs :: "(string \<times> string) list"

record ('c, 'w, 'p) pubsub_client =
  pc_publisher :: "string \<Rightarrow> 'w world \<Rightarrow> 'p \<times> 'w world"
  pc_publish :: "'p \<Rightarrow> 'c go_ctx_scheme \<Rightarrow> pubsub_message \<Rightarrow> 'w world \<Rightarrow> go_error option \<times> 'w world"

type_synonym 'p publishers = "(string \<times> 'p) list"

definition for_topic :: "('c, 'w, 'p) pubsub_client \<Rightarrow> string \<Rightarrow> 'p publishers \<Rightarrow> 'w world \<Rightarrow>
    ('p \<times> 'p publishers) \<times> 'w world" where
  "for_topic client name byTopic s =
     (case map_of byTopic name of
        Some pub \<Rightarrow> ((pub, byTopic), s)
      | None \<Rightarrow> (case pc_publisher client name s of (pub, s') \<Rightarrow> ((pub, map_put name pub byTopic), s')))"

definition pubsub_message_for :: "envelope \<Rightarrow> pubsub_message" where
  "pubsub_message_for ev = \<lparr>ps_data = en_payload ev, ps_attrs = message_attrs ev\<rparr>"

definition publishers_publish :: "('c, 'w, 'p) pubsub_client \<Rightarrow> 'c go_ctx_scheme \<Rightarrow> envelope \<Rightarrow> 'p publishers \<Rightarrow>
    'w world \<Rightarrow> (go_error option \<times> 'p publishers) \<times> 'w world" where
  "publishers_publish client ctx ev byTopic s =
     (case for_topic client (en_name ev) byTopic s of
        ((pub, byTopic'), s1) \<Rightarrow>
          (case pc_publish client pub ctx (pubsub_message_for ev) s1 of
             (Some err, s2) \<Rightarrow> ((Some (publish_failed err ev), byTopic'), s2)
           | (None, s2) \<Rightarrow> ((None, byTopic'), s2)))"

section \<open>The pull sink\<close>

record ('c, 'w, 'p) pull_sink =
  pu_client :: "('c, 'w, 'p) pubsub_client"
  pu_publishers :: "'p publishers"
  pu_consumer :: string
  pu_logger :: "logger option"
  pu_subs :: "(string \<times> ('c, 'w) handler) list"

definition pull_with_logger :: "logger option \<Rightarrow> ('c, 'w, 'p) pull_sink \<Rightarrow> ('c, 'w, 'p) pull_sink" where
  "pull_with_logger l s = s\<lparr>pu_logger := l\<rparr>"

definition new_pull_sink :: "('c, 'w, 'p) pubsub_client \<Rightarrow> string \<Rightarrow>
    (('c, 'w, 'p) pull_sink \<Rightarrow> ('c, 'w, 'p) pull_sink) list \<Rightarrow> ('c, 'w, 'p) pull_sink" where
  "new_pull_sink client consumer opts = fold (\<lambda>opt s. opt s) opts
     \<lparr>pu_client = client, pu_publishers = [], pu_consumer = consumer, pu_logger = None, pu_subs = []\<rparr>"

definition pull_log :: "('c, 'w, 'p) pull_sink \<Rightarrow> 'w world \<Rightarrow> logger" where
  "pull_log sink s = logger_or_default (pu_logger sink) s"

definition pull_publish :: "('c, 'w, 'p) pull_sink \<Rightarrow> 'c go_ctx_scheme \<Rightarrow> envelope \<Rightarrow> 'w world \<Rightarrow>
    (go_error option \<times> ('c, 'w, 'p) pull_sink) \<times> 'w world" where
  "pull_publish sink ctx ev s =
     (case publishers_publish (pu_client sink) ctx ev (pu_publishers sink) s of
        ((err, byTopic), s') \<Rightarrow> ((err, sink\<lparr>pu_publishers := byTopic\<rparr>), s'))"

definition pull_subscribe :: "string \<Rightarrow> ('c, 'w) handler \<Rightarrow> ('c, 'w, 'p) pull_sink \<Rightarrow> ('c, 'w, 'p) pull_sink" where
  "pull_subscribe name h s = s\<lparr>pu_subs := map_put name h (pu_subs s)\<rparr>"

definition subscription_of :: "('c, 'w, 'p) pull_sink \<Rightarrow> string \<Rightarrow> string" where
  "subscription_of sink name = name @ ''.'' @ pu_consumer sink"

text \<open>The callback of one receiver; the name is the subscription's, not the message's attribute.\<close>

datatype ack = Ack | Nack

definition pull_envelope :: "string \<Rightarrow> pubsub_message \<Rightarrow> envelope" where
  "pull_envelope name m =
     \<lparr>en_name = name, en_payload = ps_data m,
      en_headers = unmarshal_headers (get_value (ps_attrs m) headers_attr)\<rparr>"

definition pull_callback :: "string \<Rightarrow> ('c, 'w) handler \<Rightarrow> 'c go_ctx_scheme \<Rightarrow> pubsub_message \<Rightarrow> 'w world \<Rightarrow>
    ack outcome \<times> 'w world" where
  "pull_callback name h ctx m s =
     (case h ctx (pull_envelope name m) s of
        (Panic p, s') \<Rightarrow> (Panic p, s')
      | (Ret (Some err), s') \<Rightarrow> (Ret Nack, s')
      | (Ret None, s') \<Rightarrow> (Ret Ack, s'))"

text \<open>
  A running \<open>Receive\<close>: the world, the receivers that have not returned, and the messages
  settled so far, each with its receiver and its settlement.
\<close>

record ('c, 'w) pull_state =
  pv_world :: "'w world"
  pv_running :: "(string \<times> ('c, 'w) handler) list"
  pv_settled :: "(string \<times> pubsub_message \<times> ack) list"

definition pull_start :: "('c, 'w, 'p) pull_sink \<Rightarrow> 'w world \<Rightarrow> ('c, 'w) pull_state" where
  "pull_start sink s = \<lparr>pv_world = s, pv_running = pu_subs sink, pv_settled = []\<rparr>"

text \<open>What a receiver does when its streaming pull has returned \<open>err\<close>.\<close>

definition pull_stopped :: "('c, 'w) ctx_state \<Rightarrow> ('c, 'w, 'p) pull_sink \<Rightarrow> 'c go_ctx_scheme \<Rightarrow> string \<Rightarrow>
    go_error option \<Rightarrow> 'w world \<Rightarrow> 'w world" where
  "pull_stopped ctx_err sink ctx name err s =
     (case err of
        None \<Rightarrow> s
      | Some e \<Rightarrow>
          if ctx_err ctx s = None
          then log_to (pull_log sink s) LevelError ''pubsub: receive stopped''
                 [(''event'', name), (''error'', err_text e)] s
          else s)"

inductive pull_step :: "('c, 'w) ctx_state \<Rightarrow> ('c, 'w, 'p) pull_sink \<Rightarrow> 'c go_ctx_scheme \<Rightarrow>
    ('c, 'w) pull_state \<Rightarrow> ('c, 'w) pull_state \<Rightarrow> bool" for ctx_err sink ctx where
  message: "(name, h) \<in> set (pv_running st) \<Longrightarrow> pull_callback name h ctx m (pv_world st) = (Ret a, s') \<Longrightarrow>
    pull_step ctx_err sink ctx st (st\<lparr>pv_world := s', pv_settled := pv_settled st @ [(name, m, a)]\<rparr>)"
| stop: "pv_running st = before @ (name, h) # after \<Longrightarrow>
    pull_step ctx_err sink ctx st
      (st\<lparr>pv_world := pull_stopped ctx_err sink ctx name err (pv_world st), pv_running := before @ after\<rparr>)"

inductive_cases pull_stepE: "pull_step ctx_err sink ctx st st'"

inductive pull_runs :: "('c, 'w) ctx_state \<Rightarrow> ('c, 'w, 'p) pull_sink \<Rightarrow> 'c go_ctx_scheme \<Rightarrow>
    ('c, 'w) pull_state \<Rightarrow> ('c, 'w) pull_state \<Rightarrow> bool" for ctx_err sink ctx where
  start: "pull_runs ctx_err sink ctx st st"
| step: "pull_runs ctx_err sink ctx st st1 \<Longrightarrow> pull_step ctx_err sink ctx st1 st2 \<Longrightarrow> pull_runs ctx_err sink ctx st st2"

text \<open>\<open>Receive\<close> returns when every receiver has.\<close>

inductive pull_receive :: "('c, 'w) ctx_state \<Rightarrow> ('c, 'w, 'p) pull_sink \<Rightarrow> 'c go_ctx_scheme \<Rightarrow> 'w world \<Rightarrow>
    go_error option \<Rightarrow> ('c, 'w) pull_state \<Rightarrow> bool" where
  returns: "pull_runs ctx_err sink ctx (pull_start sink s) st \<Longrightarrow> pv_running st = [] \<Longrightarrow>
    pull_receive ctx_err sink ctx s (ctx_err ctx (pv_world st)) st"

section \<open>The push sink\<close>

record ('c, 'w, 'p) pubsub_push =
  px_dispatcher :: "('c, 'w) dispatcher"
  px_client :: "('c, 'w, 'p) pubsub_client"
  px_publishers :: "'p publishers"

definition new_pubsub_push :: "('c, 'w, 'p) pubsub_client \<Rightarrow> ('c, 'w, 'p) pubsub_push" where
  "new_pubsub_push client = \<lparr>px_dispatcher = new_dispatcher, px_client = client, px_publishers = []\<rparr>"

definition pubsub_push_publish :: "('c, 'w, 'p) pubsub_push \<Rightarrow> 'c go_ctx_scheme \<Rightarrow> envelope \<Rightarrow> 'w world \<Rightarrow>
    (go_error option \<times> ('c, 'w, 'p) pubsub_push) \<times> 'w world" where
  "pubsub_push_publish sink ctx ev s =
     (case publishers_publish (px_client sink) ctx ev (px_publishers sink) s of
        ((err, byTopic), s') \<Rightarrow> ((err, sink\<lparr>px_publishers := byTopic\<rparr>), s'))"

definition pushed_envelope :: "pubsub_message \<Rightarrow> envelope" where
  "pushed_envelope m =
     \<lparr>en_name = get_value (ps_attrs m) event_attr, en_payload = ps_data m,
      en_headers = unmarshal_headers (get_value (ps_attrs m) headers_attr)\<rparr>"

definition pubsub_serve :: "(string \<Rightarrow> pubsub_message option) \<Rightarrow> ('c, 'w, 'p) pubsub_push \<Rightarrow> ('c, 'w) std_handler" where
  "pubsub_serve parse sink r s =
     (case parse (rq_body r) of
        None \<Rightarrow> on_rw (http_error ''invalid push payload'' 400) s
      | Some m \<Rightarrow> answer_dispatch (px_dispatcher sink) (rq_ctx r) (pushed_envelope m) 204 s)"

section \<open>The interfaces the sinks provide\<close>

definition pubsub_push_subscribe :: "string \<Rightarrow> ('c, 'w) handler \<Rightarrow> ('c, 'w, 'p) pubsub_push \<Rightarrow> ('c, 'w, 'p) pubsub_push" where
  "pubsub_push_subscribe name h s = s\<lparr>px_dispatcher := dispatcher_subscribe name h (px_dispatcher s)\<rparr>"

interpretation pubsub_push: subscriptions "\<lambda>s. subs_of (dp_subs (px_dispatcher s))" pubsub_push_subscribe
  by unfold_locales (simp add: pubsub_push_subscribe_def dispatcher.subscribed)

interpretation pushed: transport pubsub_message_for pushed_envelope
  by unfold_locales
     (auto simp: same_envelope_def pushed_envelope_def pubsub_message_for_def get_value_def map_of_message_attrs
        unmarshal_marshal)

text \<open>A receiver's envelope is the one sent when the message comes from the topic of its event.\<close>

lemma pulled_envelope:
  assumes "headers_valid (en_headers ev)"
  shows "same_envelope (pull_envelope (en_name ev) (pubsub_message_for ev)) ev"
  using assms
  by (auto simp: same_envelope_def pull_envelope_def pubsub_message_for_def get_value_def map_of_message_attrs
      unmarshal_marshal)

section \<open>Facts\<close>

text \<open>The cache of publishers: an entry stays, and a publisher is made for a topic without one only.\<close>

lemma for_topic_cases:
  assumes "for_topic client name byTopic s = ((pub, byTopic'), s')"
  shows "map_of byTopic' = (map_of byTopic)(name \<mapsto> pub) \<and>
    (case map_of byTopic name of
       Some p \<Rightarrow> pub = p \<and> byTopic' = byTopic \<and> s' = s
     | None \<Rightarrow> pc_publisher client name s = (pub, s'))"
  using assms by (auto simp: for_topic_def map_of_map_put fun_upd_idem split: option.splits prod.splits)

fun publish_all :: "('c, 'w, 'p) pubsub_client \<Rightarrow> ('c go_ctx_scheme \<times> envelope) list \<Rightarrow> 'p publishers \<Rightarrow> 'w world \<Rightarrow>
    'p publishers \<times> 'w world" where
  "publish_all client [] byTopic s = (byTopic, s)"
| "publish_all client ((ctx, ev) # evs) byTopic s =
     (case publishers_publish client ctx ev byTopic s of
        ((err, byTopic'), s') \<Rightarrow> publish_all client evs byTopic' s')"

lemma pull_runs_invariant:
  assumes "pull_runs ctx_err sink ctx st st'" and "I st"
    and "\<And>a b. I a \<Longrightarrow> pull_step ctx_err sink ctx a b \<Longrightarrow> I b"
  shows "I st'"
  using assms by (induction rule: pull_runs.induct) auto

lemma publish_all_made:
  assumes "\<And>n s. made (w_app (snd (pc_publisher client n s))) = made (w_app s) @ [n]"
    and "\<And>p ctx m s. made (w_app (snd (pc_publish client p ctx m s))) = made (w_app s)"
    and "publish_all client evs byTopic s = (byTopic', s')"
  shows "\<exists>ns. made (w_app s') = made (w_app s) @ ns \<and> distinct ns \<and> set ns \<inter> dom (map_of byTopic) = {} \<and>
    dom (map_of byTopic') = dom (map_of byTopic) \<union> set ns \<and>
    set ns = (\<lambda>(ctx, ev). en_name ev) ` set evs - dom (map_of byTopic)"
  using assms(3)
proof (induction evs arbitrary: byTopic s)
  case (Cons ce evs)
  obtain ctx ev where ce: "ce = (ctx, ev)" by (cases ce)
  obtain pub bt s1 where ft: "for_topic client (en_name ev) byTopic s = ((pub, bt), s1)"
    by (metis prod.collapse)
  define s2 where "s2 = snd (pc_publish client pub ctx (pubsub_message_for ev) s1)"
  have rest: "publish_all client evs bt s2 = (byTopic', s')"
    using Cons.prems by (simp add: ce publishers_publish_def ft s2_def split: prod.splits option.splits)
  from Cons.IH [OF this] obtain ns where ns: "made (w_app s') = made (w_app s2) @ ns" "distinct ns"
    "set ns \<inter> dom (map_of bt) = {}" "dom (map_of byTopic') = dom (map_of bt) \<union> set ns"
    "set ns = (\<lambda>(ctx, ev). en_name ev) ` set evs - dom (map_of bt)" by blast
  have s2: "made (w_app s2) = made (w_app s1)" by (simp add: s2_def assms(2))
  note fc = for_topic_cases [OF ft]
  show ?case
  proof (cases "map_of byTopic (en_name ev)")
    case None
    with fc have "pc_publisher client (en_name ev) s = (pub, s1)" by simp
    with assms(1) have "made (w_app s1) = made (w_app s) @ [en_name ev]" by (metis snd_conv)
    with ns s2 fc None show ?thesis
      by (intro exI [of _ "en_name ev # ns"]) (auto simp: ce)
  next
    case (Some p)
    with fc have "bt = byTopic" "s1 = s" by simp_all
    with ns s2 Some show ?thesis by (intro exI [of _ ns]) (auto simp: ce)
  qed
qed auto

lemma map_of_pull_subscribes:
  "map_of (pu_subs (fold (\<lambda>(n, h). pull_subscribe n h) subs sink)) = map_of (pu_subs sink) ++ map_of (rev subs)"
  by (induction subs arbitrary: sink)
     (auto simp: pull_subscribe_def map_of_map_put map_add_def fun_eq_iff split: option.splits)

lemma distinct_pull_subscribes:
  "distinct (map fst (pu_subs sink)) \<Longrightarrow> distinct (map fst (pu_subs (fold (\<lambda>(n, h). pull_subscribe n h) subs sink)))"
  by (induction subs arbitrary: sink) (auto simp: pull_subscribe_def distinct_map_put)

section \<open>Properties\<close>

text \<open>C5: What a service receives is what was published, over every transport that carries headers:
  name and payload arrive unchanged and every header with its value, whatever characters of well-formed
  UTF-8 keys and values hold (quotes, control characters, markup, line separators), through the
  attributes of SQS messages, SNS notifications and both kinds of Pub/Sub delivery.\<close>

theorem envelopes_cross_every_transport:
  assumes "headers_valid (en_headers ev)"
  shows "same_envelope (sqs_envelope (stored_message receipt ev)) ev \<and>
    same_envelope (sns_envelope (notification url ev)) ev \<and>
    same_envelope (pushed_envelope (pubsub_message_for ev)) ev \<and>
    same_envelope (pull_envelope (en_name ev) (pubsub_message_for ev)) ev"
  using sqs.carries [OF assms] sns.carries [OF assms] pushed.carries [OF assms] pulled_envelope [OF assms]
  by blast

theorem envelopes_cross_every_transport_witness:
  "map_of (en_headers (sqs_envelope (stored_message None
     \<lparr>en_name = ''note'', en_payload = ''{}'', en_headers = [(''b'', [CHR 0x22, CHR 0x0A, CHR 0xC3, CHR 0xA9]), (''a'', ''<x>'')]\<rparr>)))
     ''b'' = Some [CHR 0x22, CHR 0x0A, CHR 0xC3, CHR 0xA9]"
proof -
  let ?ev = "\<lparr>en_name = ''note'', en_payload = ''{}'',
    en_headers = [(''b'', [CHR 0x22, CHR 0x0A, CHR 0xC3, CHR 0xA9]), (''a'', ''<x>'')]\<rparr>"
  have "headers_valid (en_headers ?ev)"
    by (simp add: headers_valid_def decode_rune_def bad_rune_def byte_def is_cont_def Let_def)
  from envelopes_cross_every_transport [OF this] show ?thesis by (simp add: same_envelope_def)
qed

text \<open>
  The contract of a push ingress, over what the body says: nothing legible is refused with 400 and
  nothing runs; an envelope is dispatched once, in the world of the request, and a failure is a 500.
\<close>

definition answered :: "('c, 'w) dispatcher \<Rightarrow> 'c go_ctx_scheme \<Rightarrow> 'w hworld \<Rightarrow> envelope option \<Rightarrow> int \<Rightarrow>
    unit outcome \<times> 'w hworld \<Rightarrow> bool" where
  "answered d ctx s msg success result \<longleftrightarrow>
     fst result = Ret () \<and>
     (case msg of
        None \<Rightarrow> final_status (h_rw (snd result)) = 400 \<and> w_app (snd result) = w_app s \<and> w_log (snd result) = w_log s
      | Some ev \<Rightarrow>
          (let (res, w') = dispatcher_dispatch d ctx ev \<lparr>w_default = w_default s, w_log = w_log s, w_app = w_app s\<rparr>
           in w_app (snd result) = w_app w' \<and> w_log (snd result) = w_log w' \<and>
              final_status (h_rw (snd result)) = (if res = Ret None then success else 500)))"

lemma answered_refusal:
  "rw_sent (h_rw s) = None \<Longrightarrow> answered d ctx s None success (on_rw (http_error t 400) s)"
  using http_error_fresh [of "h_rw s" 400 t] by (auto simp: answered_def on_rw_def)

lemma answered_dispatch:
  assumes "rw_sent (h_rw s) = None" and "200 \<le> success" "success \<le> 999"
    and "\<And>w. \<exists>res w'. dispatcher_dispatch d ctx ev w = (Ret res, w')"
  shows "answered d ctx s (Some ev) success (answer_dispatch d ctx ev success s)"
proof -
  let ?w = "\<lparr>w_default = w_default s, w_log = w_log s, w_app = w_app s\<rparr>"
  obtain res w' where dd: "dispatcher_dispatch d ctx ev ?w = (Ret res, w')" using assms(4) by blast
  let ?s1 = "s\<lparr>w_default := w_default w', w_log := w_log w', w_app := w_app w'\<rparr>"
  have "rw_sent (h_rw ?s1) = None" using assms(1) by simp
  from http_error_fresh [OF this, of 500 "''handler failed''"] dd assms(1-3) show ?thesis
    by (cases res) (auto simp: answered_def answer_dispatch_def on_world_def on_rw_def final_status_def)
qed


definition push_dispatcher :: "(unit, string list) dispatcher" where
  "push_dispatcher = dispatcher_subscribe ''note'' failing_handler new_dispatcher"

definition push_request :: "string \<Rightarrow> unit request" where
  "push_request body = \<lparr>rq_method = ''POST'', rq_path_values = [], rq_query = [], rq_header = [], rq_body = body,
     rq_remote_addr = [], rq_ctx = background\<rparr>"

definition topic_client :: "(unit, string list, string) pubsub_client" where
  "topic_client = \<lparr>pc_publisher = (\<lambda>n w. (n, w\<lparr>w_app := w_app w @ [n]\<rparr>)), pc_publish = (\<lambda>p ctx m w. (None, w))\<rparr>"

definition topic_push :: "(unit, string list, string) pubsub_push" where
  "topic_push = \<lparr>px_dispatcher = push_dispatcher, px_client = topic_client, px_publishers = []\<rparr>"

definition push_world :: "string list hworld" where
  "push_world = \<lparr>w_default = ''default'', w_log = [], w_app = [], h_rw = fresh_response\<rparr>"

lemma push_dispatcher_returns:
  "\<exists>res w'. dispatcher_dispatch push_dispatcher ctx ev w = (Ret res, w')"
  by (simp add: push_dispatcher_def dispatcher_dispatch_def dispatcher_subscribe_def new_dispatcher_def subs_of_def
      failing_handler_def)


text \<open>A topic has one publisher: whatever is published in whatever order, a sink makes exactly one
  publisher for each event name it meets, the first time, and publishes every later event of the name
  through it.\<close>

theorem a_topic_has_one_publisher:
  assumes "\<And>n s. made (w_app (snd (pc_publisher client n s))) = made (w_app s) @ [n]"
    and "\<And>p ctx m s. made (w_app (snd (pc_publish client p ctx m s))) = made (w_app s)"
    and "publish_all client evs [] s = (byTopic, s')"
  shows "\<exists>ns. made (w_app s') = made (w_app s) @ ns \<and> distinct ns \<and>
    set ns = (\<lambda>(ctx, ev). en_name ev) ` set evs \<and> dom (map_of byTopic) = set ns"
  using publish_all_made [of made, OF assms] by auto

theorem a_topic_has_one_publisher_witness:
  "w_app (snd (publish_all topic_client [(background, note_envelope), (background, note_envelope)] [] text_world)) =
     [''note'']"
proof -
  let ?evs = "[(background, note_envelope), (background, note_envelope)]"
  obtain bt s' where run: "publish_all topic_client ?evs [] text_world = (bt, s')" by (metis prod.collapse)
  have "\<exists>ns. w_app s' = w_app text_world @ ns \<and> distinct ns \<and> set ns = (\<lambda>(ctx, ev). en_name ev) ` set ?evs \<and>
      dom (map_of bt) = set ns"
    by (rule a_topic_has_one_publisher [where made = "\<lambda>l. l", OF _ _ run]) (simp_all add: topic_client_def)
  then obtain ns where ns: "w_app s' = ns" "distinct ns" "set ns = {''note''}"
    by (auto simp: text_world_def note_envelope_def)
  then have "ns = [''note'']" by (cases ns; cases "tl ns") auto
  with ns run show ?thesis by simp
qed



end
