(* ===== verification/EventOtel.thy ===== *)
theory EventOtel
  imports EventPubsub
begin

text \<open>
  Package otel, \<open>events/otel/otel.go\<close>: the plugin that starts a span around each publish and
  each delivery and carries the trace context in the envelope headers. The tracer and the propagator
  of OpenTelemetry are parameters; where the trace context of a Go context lives is theirs too.
\<close>

section \<open>The plugin\<close>

datatype span_kind = Producer | Consumer

record ('c, 'w, 's) tracer =
  tr_start :: "'c go_ctx_scheme \<Rightarrow> string \<Rightarrow> span_kind \<Rightarrow> 'w world \<Rightarrow> ('c go_ctx_scheme \<times> 's) \<times> 'w world"
  tr_fail :: "'s \<Rightarrow> go_error \<Rightarrow> 'w world \<Rightarrow> 'w world"
  tr_end :: "'s \<Rightarrow> 'w world \<Rightarrow> 'w world"

record 'c propagator =
  pg_inject :: "'c go_ctx_scheme \<Rightarrow> (string \<times> string) list \<Rightarrow> (string \<times> string) list"
  pg_extract :: "'c go_ctx_scheme \<Rightarrow> (string \<times> string) list \<Rightarrow> 'c go_ctx_scheme"

record ('c, 'w, 's) otel_plugin =
  ot_tracer :: "('c, 'w, 's) tracer"
  ot_propagator :: "'c propagator"

definition scope_name :: string where
  "scope_name = ''github.com/duffleone/dfl/events''"

text \<open>A tracer provider gives the tracer of a scope.\<close>

definition with_tracer_provider :: "(string \<Rightarrow> ('c, 'w, 's) tracer) \<Rightarrow> ('c, 'w, 's) otel_plugin \<Rightarrow> ('c, 'w, 's) otel_plugin" where
  "with_tracer_provider tp p = p\<lparr>ot_tracer := tp scope_name\<rparr>"

definition with_propagator :: "'c propagator \<Rightarrow> ('c, 'w, 's) otel_plugin \<Rightarrow> ('c, 'w, 's) otel_plugin" where
  "with_propagator prop p = p\<lparr>ot_propagator := prop\<rparr>"

definition otel_new :: "(string \<Rightarrow> ('c, 'w, 's) tracer) \<Rightarrow> 'c propagator \<Rightarrow>
    (('c, 'w, 's) otel_plugin \<Rightarrow> ('c, 'w, 's) otel_plugin) list \<Rightarrow> ('c, 'w, 's) otel_plugin" where
  "otel_new global_provider global_propagator opts = fold (\<lambda>opt p. opt p) opts
     \<lparr>ot_tracer = global_provider scope_name, ot_propagator = global_propagator\<rparr>"

text \<open>
  \<open>RecordError\<close> and \<open>SetStatus\<close> are \<open>tr_fail\<close>; the deferred \<open>End\<close> runs after a
  panic too. A nil header map is the empty list here, so there is nothing to allocate.
\<close>

definition otel_publish :: "('c, 'w, 's) otel_plugin \<Rightarrow> ('c, 'w) publish_mw" where
  "otel_publish p nxt ctx ev s =
     (case tr_start (ot_tracer p) ctx (en_name ev @ '' publish'') Producer s of
        ((ctx1, span), s1) \<Rightarrow>
          (let ev1 = ev\<lparr>en_headers := pg_inject (ot_propagator p) ctx1 (en_headers ev)\<rparr>
           in case nxt ctx1 ev1 s1 of
                (Panic x, ev2, s2) \<Rightarrow> (Panic x, ev2, tr_end (ot_tracer p) span s2)
              | (Ret (Some err), ev2, s2) \<Rightarrow>
                  (Ret (Some err), ev2, tr_end (ot_tracer p) span (tr_fail (ot_tracer p) span err s2))
              | (Ret None, ev2, s2) \<Rightarrow> (Ret None, ev2, tr_end (ot_tracer p) span s2)))"

definition otel_deliver :: "('c, 'w, 's) otel_plugin \<Rightarrow> ('c, 'w) delivery_mw" where
  "otel_deliver p nxt ctx ev s =
     (case tr_start (ot_tracer p) (pg_extract (ot_propagator p) ctx (en_headers ev)) (en_name ev @ '' process'') Consumer s of
        ((ctx1, span), s1) \<Rightarrow>
          (case nxt ctx1 ev s1 of
             (Panic x, s2) \<Rightarrow> (Panic x, tr_end (ot_tracer p) span s2)
           | (Ret (Some err), s2) \<Rightarrow>
               (Ret (Some err), tr_end (ot_tracer p) span (tr_fail (ot_tracer p) span err s2))
           | (Ret None, s2) \<Rightarrow> (Ret None, tr_end (ot_tracer p) span s2)))"

definition otel_events_plugin :: "('c, 'w, 's) otel_plugin \<Rightarrow> ('c, 'w) plugin" where
  "otel_events_plugin p = \<lparr>pl_publish = Some (otel_publish p), pl_deliver = Some (otel_deliver p)\<rparr>"

section \<open>Facts\<close>

text \<open>However the wrapped call ends, its span is marked failed on an error and ended once.\<close>

definition finish_span :: "('c, 'w, 's) otel_plugin \<Rightarrow> 's \<Rightarrow> go_error option outcome \<Rightarrow> 'w world \<Rightarrow> 'w world" where
  "finish_span p span r s =
     tr_end (ot_tracer p) span (case r of Ret (Some err) \<Rightarrow> tr_fail (ot_tracer p) span err s | _ \<Rightarrow> s)"

lemma otel_publish_eq:
  assumes "tr_start (ot_tracer p) ctx (en_name ev @ '' publish'') Producer s = ((ctx1, span), s1)"
  shows "otel_publish p nxt ctx ev s =
    (case nxt ctx1 (ev\<lparr>en_headers := pg_inject (ot_propagator p) ctx1 (en_headers ev)\<rparr>) s1 of
       (r, ev2, s2) \<Rightarrow> (r, ev2, finish_span p span r s2))"
  by (simp add: otel_publish_def assms finish_span_def Let_def split: prod.split outcome.split option.split)

lemma otel_deliver_eq:
  assumes "tr_start (ot_tracer p) (pg_extract (ot_propagator p) ctx (en_headers ev)) (en_name ev @ '' process'') Consumer s
    = ((ctx1, span), s1)"
  shows "otel_deliver p nxt ctx ev s = (case nxt ctx1 ev s1 of (r, s2) \<Rightarrow> (r, finish_span p span r s2))"
  by (simp add: otel_deliver_def assms finish_span_def split: prod.split outcome.split option.split)

text \<open>
  Documented behaviour of OpenTelemetry: a span started in a context that has a trace belongs to that
  trace; what a propagator injected, another process extracts, from any map with the same entries; and
  it injects well-formed text.
\<close>

definition tracing_contract :: "('c, 'w, 's) otel_plugin \<Rightarrow> ('c go_ctx_scheme \<Rightarrow> 't option) \<Rightarrow> bool" where
  "tracing_contract p trace_of \<longleftrightarrow>
     (\<forall>ctx name kind s t. trace_of ctx = Some t \<longrightarrow>
        trace_of (fst (fst (tr_start (ot_tracer p) ctx name kind s))) = Some t) \<and>
     (\<forall>ctx ctx' hs hs' t. trace_of ctx = Some t \<longrightarrow>
        map_of hs' = map_of (pg_inject (ot_propagator p) ctx hs) \<longrightarrow>
        trace_of (pg_extract (ot_propagator p) ctx' hs') = Some t) \<and>
     (\<forall>ctx hs. headers_valid hs \<longrightarrow> headers_valid (pg_inject (ot_propagator p) ctx hs))"

lemma tracing_contractD:
  assumes "tracing_contract p trace_of"
  shows "tr_start (ot_tracer p) ctx name kind s = ((ctx1, span), s1) \<Longrightarrow> trace_of ctx = Some t \<Longrightarrow>
      trace_of ctx1 = Some t"
    and "trace_of ctx = Some t \<Longrightarrow> map_of hs' = map_of (pg_inject (ot_propagator p) ctx hs) \<Longrightarrow>
      trace_of (pg_extract (ot_propagator p) ctx' hs') = Some t"
    and "headers_valid hs \<Longrightarrow> headers_valid (pg_inject (ot_propagator p) ctx hs)"
  using assms unfolding tracing_contract_def by (metis fst_conv, metis, metis)

context transport
begin

text \<open>The producer's trace is the consumer's, across any transport.\<close>

lemma trace_crosses:
  assumes "tracing_contract p trace_of" and "trace_of ctx = Some t" and "headers_valid (en_headers ev)"
    and "ev1 = ev\<lparr>en_headers := pg_inject (ot_propagator p) ctx (en_headers ev)\<rparr>"
    and "tr_start (ot_tracer p) (pg_extract (ot_propagator p) ctx' (en_headers (unwrap_msg (wrap ev1)))) name kind s
      = ((ctx2, span), s2)"
  shows "trace_of ctx2 = Some t"
proof -
  have "headers_valid (en_headers ev1)" using tracing_contractD(3) [OF assms(1,3)] by (simp add: assms(4))
  from carries_headers [OF this]
  have "map_of (en_headers (unwrap_msg (wrap ev1))) = map_of (pg_inject (ot_propagator p) ctx (en_headers ev))"
    by (simp add: assms(4))
  from tracing_contractD(2) [OF assms(1,2) this] tracing_contractD(1) [OF assms(1,5)] show ?thesis by blast
qed

end

section \<open>Properties\<close>


text \<open>A tracer that logs its spans, and a propagator of one bit of trace.\<close>

type_synonym bit_ctx = "bool option go_ctx_scheme"

definition bit_trace :: "bit_ctx \<Rightarrow> bool option" where
  "bit_trace ctx = go_ctx.more ctx"

definition bit_plugin :: "(bool option, string list, string) otel_plugin" where
  "bit_plugin = otel_new
     (\<lambda>scope. \<lparr>tr_start = (\<lambda>ctx name kind s. ((ctx, name), s\<lparr>w_app := w_app s @ [''start '' @ name]\<rparr>)),
        tr_fail = (\<lambda>span err s. s\<lparr>w_app := w_app s @ [''fail '' @ span]\<rparr>),
        tr_end = (\<lambda>span s. s\<lparr>w_app := w_app s @ [''end '' @ span]\<rparr>)\<rparr>)
     \<lparr>pg_inject = (\<lambda>ctx hs. case bit_trace ctx of
          None \<Rightarrow> hs | Some b \<Rightarrow> map_put ''traceparent'' (if b then ''1'' else ''0'') hs),
      pg_extract = (\<lambda>ctx hs. ctx\<lparr>go_ctx.more := map_option (\<lambda>v. v = ''1'') (map_of hs ''traceparent'')\<rparr>)\<rparr> []"

definition bit_background :: bit_ctx where
  "bit_background = \<lparr>ctx_http_logger = None, ctx_request_meta = None, ctx_event_logger = None, ctx_tx = None,
     \<dots> = Some True\<rparr>"

lemma headers_valid_put:
  "headers_valid hs \<Longrightarrow> utf8_valid k \<Longrightarrow> utf8_valid v \<Longrightarrow> headers_valid (map_put k v hs)"
proof (induction k v hs rule: map_put.induct)
  case (2 k v k' v' m)
  then show ?case
    using set_keys_map_put [of k v m] by (auto simp: headers_valid_def)
qed (simp add: headers_valid_def)

lemma bit_plugin_contract: "tracing_contract bit_plugin bit_trace"
proof -
  have ascii: "utf8_valid ''traceparent''" "utf8_valid ''1''" "utf8_valid ''0''"
    by (rule utf8_valid_ascii, simp add: byte_def)+
  then show ?thesis
    by (auto simp: tracing_contract_def bit_plugin_def otel_new_def bit_trace_def map_of_map_put headers_valid_put
        split: option.split)
qed


end
