(* ===== verification/EventBrokers.thy ===== *)
theory EventBrokers
  imports EventPrograms EventOtel HttpMux
begin

text \<open>
  The example programs over a broker: \<open>events/aws/examples\<close> (sqs, poller, sns),
  \<open>events/gcp/examples\<close> (pull, push) and \<open>events/otel/examples/trace\<close>. Each makes a sink,
  subscribes one handler and emits one event. Loading the configuration of a client is a parameter;
  serving HTTP is left at the mux the program listens with. The pull and push programs publish once, so
  the cache of publishers that \<open>Publish\<close> fills is not read again and is dropped.
\<close>

section \<open>Emitting one event\<close>

definition welcomes :: "('c, ('c, 'z) prog_scheme, user_created) event_handler" where
  "welcomes ctx u s = (Ret None, print_line (''welcome '' @ uc_email u) s)"

definition the_user :: user_created where
  "the_user = \<lparr>uc_id = ''1'', uc_email = ''a@b.com''\<rparr>"

text \<open>
  The first part of the programs: the configuration, the bus over the sink, \<open>On\<close> and \<open>Emit\<close>.
  It ends the process with a message, or goes on with the sink that has the subscription.
\<close>

definition broker_start :: "string \<Rightarrow> (('c, 'z) pworld \<Rightarrow> (go_error + 's) \<times> ('c, 'z) pworld) \<Rightarrow>
    ('s \<Rightarrow> 'c go_ctx_scheme \<Rightarrow> envelope \<Rightarrow> ('c, 'z) pworld \<Rightarrow> go_error option outcome \<times> ('c, 'z) pworld) \<Rightarrow>
    (string \<Rightarrow> ('c, ('c, 'z) prog_scheme) handler \<Rightarrow> 's \<Rightarrow> 's) \<Rightarrow>
    ('c, ('c, 'z) prog_scheme, user_created) event_handler \<Rightarrow> 'c go_ctx_scheme \<Rightarrow> ('c, 'z) pworld \<Rightarrow>
    (string + 's) \<times> ('c, 'z) pworld" where
  "broker_start config mk publish subscribe handler ctx s =
     (case mk s of
        (Inl err, s1) \<Rightarrow> (Inl (config @ '': '' @ err_text err), s1)
      | (Inr sink, s1) \<Rightarrow>
          (let b = new_bus user_env (publish sink) []
           in case on_event user_env b user_type handler [] subscribe sink of
                (Panic p, sink') \<Rightarrow> (Inl (panic_text p), s1)
              | (Ret _, sink') \<Rightarrow>
                  (case emit user_env b ctx the_user s1 of
                     (Panic p, s2) \<Rightarrow> (Inl (panic_text p), s2)
                   | (Ret (Some err), s2) \<Rightarrow> (Inl (''emit: '' @ err_text err), s2)
                   | (Ret None, s2) \<Rightarrow> (Inr sink', s2))))"

definition loaded :: "('w \<Rightarrow> (go_error + 'a) \<times> 'w) \<Rightarrow> ('a \<Rightarrow> 's) \<Rightarrow> 'w \<Rightarrow> (go_error + 's) \<times> 'w" where
  "loaded load mk s =
     (case load s of (Inl err, s1) \<Rightarrow> (Inl err, s1) | (Inr client, s1) \<Rightarrow> (Inr (mk client), s1))"

definition nil_or_text :: "go_error option \<Rightarrow> string" where
  "nil_or_text err = (case err of None \<Rightarrow> ''<nil>'' | Some e \<Rightarrow> err_text e)"

section \<open>SQS\<close>

text \<open>\<open>sqs/main.go\<close>: \<open>Receive\<close> blocks until the context is cancelled; \<open>None\<close> is not
  returning.\<close>

definition sqs_start :: "(('c, 'z) pworld \<Rightarrow> (go_error + ('c, ('c, 'z) prog_scheme) sqs_api) \<times> ('c, 'z) pworld) \<Rightarrow>
    string \<Rightarrow> 'c go_ctx_scheme \<Rightarrow> ('c, 'z) pworld \<Rightarrow> (string + ('c, ('c, 'z) prog_scheme) sqs_sink) \<times> ('c, 'z) pworld" where
  "sqs_start load url ctx s =
     broker_start ''aws config'' (loaded load (\<lambda>client. new_sqs_sink client url [])) sqs_publish sqs_subscribe welcomes ctx s"

definition sqs_main :: "(('c, 'z) pworld \<Rightarrow> (go_error + ('c, ('c, 'z) prog_scheme) sqs_api) \<times> ('c, 'z) pworld) \<Rightarrow>
    ('c, ('c, 'z) prog_scheme) ctx_state \<Rightarrow> ('c, ('c, 'z) prog_scheme) select_wait \<Rightarrow> string \<Rightarrow>
    'c go_ctx_scheme \<Rightarrow> ('c, 'z) pworld \<Rightarrow> (exit \<times> ('c, 'z) pworld) option" where
  "sqs_main load ctx_err sleep url ctx s =
     (case sqs_start load url ctx s of
        (Inl m, s1) \<Rightarrow> Some (Fatal m, s1)
      | (Inr sink, s1) \<Rightarrow>
          (case sqs_receive ctx_err sleep sink ctx (print_line ''receiving from SQS...'' s1) of
             None \<Rightarrow> None
           | Some (Panic p, s2) \<Rightarrow> Some (Fatal (panic_text p), s2)
           | Some (Ret err, s2) \<Rightarrow> Some (Fatal (nil_or_text err), s2)))"

section \<open>The poller\<close>

text \<open>
  \<open>poller/main.go\<close>. The attributes of the log entries are those of the code without
  \<open>took\<close>, which is wall-clock time; \<open>lg\<close> is the program's logger and \<open>sqs_lg\<close> the
  one with the component attribute.
\<close>

definition poller_handler :: "logger \<Rightarrow> ('c, 'w, user_created) event_handler" where
  "poller_handler lg ctx u s = (Ret None, log_to lg LevelInfo ''welcome'' [(''email'', uc_email u)] s)"

definition poller_pause :: duration where
  "poller_pause = seconds 5"

definition poller_turn :: "('c, 'w) ctx_state \<Rightarrow> ('c, 'w) select_wait \<Rightarrow> logger \<Rightarrow> ('c, 'w) sqs_sink \<Rightarrow>
    'c go_ctx_scheme \<Rightarrow> 'w world \<Rightarrow> unit outcome \<times> 'w world" where
  "poller_turn ctx_err sleep lg sink ctx s =
     (case receive_once ctx_err sink ctx s of
        (Panic p, s1) \<Rightarrow> (Panic p, s1)
      | (Ret (poll, None), s1) \<Rightarrow>
          (Ret (), log_to lg LevelInfo ''turn''
             [(''received'', itoa (pl_received poll)), (''handled'', itoa (pl_handled poll)),
              (''failed'', itoa (pl_failed poll)), (''undeleted'', itoa (pl_undeleted poll))] s1)
      | (Ret (poll, Some err), s1) \<Rightarrow>
          if ctx_err ctx s1 \<noteq> None
          then (Ret (), log_to lg LevelInfo ''stopping'' [(''handled_this_turn'', itoa (pl_handled poll))] s1)
          else (Ret (), snd (sleep ctx poller_pause
                  (log_to lg LevelError ''turn failed'' [(''error'', err_text err)] s1))))"

partial_function (option) poller_loop :: "('c, 'w) ctx_state \<Rightarrow> ('c, 'w) select_wait \<Rightarrow> logger \<Rightarrow>
    ('c, 'w) sqs_sink \<Rightarrow> 'c go_ctx_scheme \<Rightarrow> 'w world \<Rightarrow> (go_error option outcome \<times> 'w world) option" where
  "poller_loop ctx_err sleep lg sink ctx s =
     (if ctx_err ctx s \<noteq> None then Some (Ret None, s)
      else case poller_turn ctx_err sleep lg sink ctx s of
             (Panic p, s1) \<Rightarrow> Some (Panic p, s1)
           | (Ret _, s1) \<Rightarrow> poller_loop ctx_err sleep lg sink ctx s1)"

definition poller_sink :: "('c, 'w) sqs_api \<Rightarrow> string \<Rightarrow> logger \<Rightarrow> ('c, 'w) sqs_sink" where
  "poller_sink client url sqs_lg =
     new_sqs_sink client url [with_long_poll 5, with_batch_size 5, sqs_with_logger (Some sqs_lg)]"

definition poller_run :: "('w world \<Rightarrow> (go_error + ('c, 'w) sqs_api) \<times> 'w world) \<Rightarrow> ('c, 'w) ctx_state \<Rightarrow>
    ('c, 'w) select_wait \<Rightarrow> logger \<Rightarrow> logger \<Rightarrow> string \<Rightarrow> 'c go_ctx_scheme \<Rightarrow> 'w world \<Rightarrow>
    (go_error option outcome \<times> 'w world) option" where
  "poller_run load ctx_err sleep lg sqs_lg url ctx s =
     (case load s of
        (Inl err, s1) \<Rightarrow> Some (Ret (Some err), s1)
      | (Inr client, s1) \<Rightarrow>
          (let sink = poller_sink client url sqs_lg; b = new_bus user_env (sqs_publish sink) []
           in case on_event user_env b user_type (poller_handler lg) [] sqs_subscribe sink of
                (Panic p, sink') \<Rightarrow> Some (Panic p, s1)
              | (Ret _, sink') \<Rightarrow>
                  (case emit user_env b ctx the_user s1 of
                     (Panic p, s2) \<Rightarrow> Some (Panic p, s2)
                   | (Ret (Some err), s2) \<Rightarrow> Some (Ret (Some err), s2)
                   | (Ret None, s2) \<Rightarrow> poller_loop ctx_err sleep lg sink' ctx s2)))"

text \<open>\<open>main\<close>: an error of \<open>run\<close> is fatal.\<close>

definition poller_exit :: "go_error option outcome \<Rightarrow> exit" where
  "poller_exit r =
     (case r of Panic p \<Rightarrow> Fatal (panic_text p) | Ret (Some err) \<Rightarrow> Fatal (err_text err) | Ret None \<Rightarrow> Finished)"

section \<open>SNS\<close>

definition sns_start :: "(('c, 'z) pworld \<Rightarrow> (go_error + ('c, ('c, 'z) prog_scheme) sns_client) \<times> ('c, 'z) pworld) \<Rightarrow>
    (string \<Rightarrow> ('c, 'z) pworld \<Rightarrow> go_error option \<times> ('c, 'z) pworld) \<Rightarrow> string \<Rightarrow> 'c go_ctx_scheme \<Rightarrow>
    ('c, 'z) pworld \<Rightarrow> (string + ('c, ('c, 'z) prog_scheme) sns_sink) \<times> ('c, 'z) pworld" where
  "sns_start load get arn ctx s =
     broker_start ''aws config'' (loaded load (\<lambda>client. new_sns_sink get client [(''user.created'', arn)] []))
       (\<lambda>sink. sns_publish (sx_publisher sink)) sns_subscribe welcomes ctx s"

definition sns_main :: "(('c, 'z) pworld \<Rightarrow> (go_error + ('c, ('c, 'z) prog_scheme) sns_client) \<times> ('c, 'z) pworld) \<Rightarrow>
    (string \<Rightarrow> ('c, 'z) pworld \<Rightarrow> go_error option \<times> ('c, 'z) pworld) \<Rightarrow> (string \<Rightarrow> sns_message option) \<Rightarrow>
    (string \<Rightarrow> string option) \<Rightarrow> string \<Rightarrow> 'c go_ctx_scheme \<Rightarrow> ('c, 'z) pworld \<Rightarrow>
    (string + ('c, ('c, 'z) prog_scheme) mux) \<times> ('c, 'z) pworld" where
  "sns_main load get parse hostname arn ctx s =
     (case sns_start load get arn ctx s of
        (Inl m, s1) \<Rightarrow> (Inl m, s1)
      | (Inr sink, s1) \<Rightarrow>
          (Inr \<lparr>mx_kind = PatternMux, mx_routes = [RegPattern ''POST /events/sns'' (sns_serve parse hostname sink)]\<rparr>,
           print_line ''listening on :8080 for SNS deliveries'' s1))"

section \<open>Pub/Sub\<close>

text \<open>\<open>push/main.go\<close>.\<close>

definition push_start :: "(('c, 'z) pworld \<Rightarrow> (go_error + ('c, ('c, 'z) prog_scheme, 'p) pubsub_client) \<times> ('c, 'z) pworld) \<Rightarrow>
    'c go_ctx_scheme \<Rightarrow> ('c, 'z) pworld \<Rightarrow> (string + ('c, ('c, 'z) prog_scheme, 'p) pubsub_push) \<times> ('c, 'z) pworld" where
  "push_start load ctx s =
     broker_start ''pubsub client'' (loaded load new_pubsub_push)
       (\<lambda>sink ctx ev s. case pubsub_push_publish sink ctx ev s of ((err, sink'), s') \<Rightarrow> (Ret err, s'))
       pubsub_push_subscribe welcomes ctx s"

definition push_main :: "(('c, 'z) pworld \<Rightarrow> (go_error + ('c, ('c, 'z) prog_scheme, 'p) pubsub_client) \<times> ('c, 'z) pworld) \<Rightarrow>
    (string \<Rightarrow> pubsub_message option) \<Rightarrow> 'c go_ctx_scheme \<Rightarrow> ('c, 'z) pworld \<Rightarrow>
    (string + ('c, ('c, 'z) prog_scheme) mux) \<times> ('c, 'z) pworld" where
  "push_main load parse ctx s =
     (case push_start load ctx s of
        (Inl m, s1) \<Rightarrow> (Inl m, s1)
      | (Inr sink, s1) \<Rightarrow>
          (Inr \<lparr>mx_kind = PatternMux, mx_routes = [RegPattern ''POST /events/pubsub'' (pubsub_serve parse sink)]\<rparr>,
           print_line ''listening on :8080 for Pub/Sub push'' s1))"

text \<open>\<open>pull/main.go\<close>, up to \<open>Receive\<close>, which \<open>pull_receive\<close> describes.\<close>

definition pull_begin :: "(('c, 'z) pworld \<Rightarrow> (go_error + ('c, ('c, 'z) prog_scheme, 'p) pubsub_client) \<times> ('c, 'z) pworld) \<Rightarrow>
    'c go_ctx_scheme \<Rightarrow> ('c, 'z) pworld \<Rightarrow> (string + ('c, ('c, 'z) prog_scheme, 'p) pull_sink) \<times> ('c, 'z) pworld" where
  "pull_begin load ctx s =
     broker_start ''pubsub client'' (loaded load (\<lambda>client. new_pull_sink client ''welcome-service'' []))
       (\<lambda>sink ctx ev s. case pull_publish sink ctx ev s of ((err, sink'), s') \<Rightarrow> (Ret err, s'))
       pull_subscribe welcomes ctx s"

definition pull_main :: "(('c, 'z) pworld \<Rightarrow> (go_error + ('c, ('c, 'z) prog_scheme, 'p) pubsub_client) \<times> ('c, 'z) pworld) \<Rightarrow>
    'c go_ctx_scheme \<Rightarrow> ('c, 'z) pworld \<Rightarrow> (string + ('c, ('c, 'z) prog_scheme, 'p) pull_sink) \<times> ('c, 'z) pworld" where
  "pull_main load ctx s =
     (case pull_begin load ctx s of
        (Inl m, s1) \<Rightarrow> (Inl m, s1)
      | (Inr sink, s1) \<Rightarrow> (Inr sink, print_line ''receiving from Pub/Sub...'' s1))"

section \<open>Tracing\<close>

text \<open>\<open>trace/main.go\<close> with the provider and the propagator it registers.\<close>

definition trace_handler :: "('c, ('c, 'z) prog_scheme, user_created) event_handler" where
  "trace_handler ctx u s = done_nil (print_line (''welcome '' @ uc_email u) s)"

definition trace_bus :: "(string \<Rightarrow> ('c, ('c, 'z) prog_scheme, 's) tracer) \<Rightarrow> 'c propagator \<Rightarrow>
    ('c, ('c, 'z) prog_scheme, user_created) bus" where
  "trace_bus provider prop =
     new_bus user_env prog_publish [with_plugins [otel_events_plugin (otel_new provider prop [])]]"

definition trace_main :: "(string \<Rightarrow> ('c, ('c, 'z) prog_scheme, 's) tracer) \<Rightarrow> 'c propagator \<Rightarrow> 'c go_ctx_scheme \<Rightarrow>
    ('c, 'z) stmt list" where
  "trace_main provider prop ctx = users_main ctx (trace_bus provider prop) trace_handler [the_user]"

section \<open>The user comes back\<close>

definition the_envelope :: envelope where
  "the_envelope = user_envelope the_user []"

definition welcome_line :: string where
  "welcome_line = ''welcome a@b.com''"

lemma the_user_valid: "user_valid the_user"
  by (simp add: user_valid_def the_user_def utf8_valid_ascii byte_def del: utf8_valid.simps)

lemma welcomed:
  assumes "same_envelope ev the_envelope"
  shows "deliver user_env (new_bus user_env p []) user_type welcomes [] ctx ev s = (Ret None, print_line welcome_line s)"
  using assms user_decodes [OF the_user_valid]
  by (simp add: same_envelope_def the_envelope_def user_bus user_delivered welcomes_def welcome_line_def the_user_def)

lemma on_the_user:
  "on_event user_env (new_bus user_env p []) user_type h [] subscribe raw =
     (Ret (), subscribe user_name (deliver user_env (new_bus user_env p []) user_type h []) raw)"
  by (simp add: on_event_def user_bus)

lemma emit_the_user:
  "emit user_env (new_bus user_env p []) ctx the_user s =
     (case p ctx the_envelope s of (Panic x, s2) \<Rightarrow> (Panic x, s2) | (Ret None, s2) \<Rightarrow> (Ret None, s2)
      | (Ret (Some err), s2) \<Rightarrow> (Ret (bus_coerce (new_bus user_env p []) err user_name), s2))"
  by (simp add: emit_def encode_def base_publisher_def apply_publish_def user_bus user_marshal_def the_envelope_def
      user_envelope_def bus_coerce_def split: prod.splits outcome.splits option.splits)

lemma broker_started:
  assumes "mk s = (Inr raw, s1)" and "publish raw ctx the_envelope s1 = (Ret None, s2)"
  shows "broker_start config mk publish subscribe h ctx s =
    (Inr (subscribe user_name (deliver user_env (new_bus user_env (publish raw) []) user_type h []) raw), s2)"
  using assms by (simp add: broker_start_def on_the_user emit_the_user)

lemma broker_start_ok:
  assumes "broker_start config mk publish subscribe h ctx s = (Inr sink, s2)"
  shows "\<exists>raw s1. mk s = (Inr raw, s1) \<and> publish raw ctx the_envelope s1 = (Ret None, s2) \<and>
    sink = subscribe user_name (deliver user_env (new_bus user_env (publish raw) []) user_type h []) raw"
proof -
  have c: "\<exists>e'. bus_coerce (new_bus user_env p []) err user_name = Some e'" for p err
    using default_events.some_out [of err] by (simp add: bus_coerce_def new_bus_def split: option.splits)
  obtain raw s1 where m: "mk s = (Inr raw, s1)"
    using assms by (auto simp: broker_start_def split: prod.splits sum.splits)
  obtain r s' where p: "publish raw ctx the_envelope s1 = (r, s')" by fastforce
  from assms m p have r: "r = Ret None"
    by (auto simp: broker_start_def on_the_user emit_the_user Let_def split: outcome.splits option.splits
        dest: c [THEN exE]) (metis c option.distinct(1))
  from broker_started [of mk s raw s1 publish ctx s' config subscribe h] assms m p r show ?thesis by simp
qed

lemma welcomed_dispatch:
  assumes "same_envelope ev the_envelope"
  shows "dispatcher_dispatch (dispatcher_subscribe user_name (deliver user_env (new_bus user_env p []) user_type welcomes [])
      new_dispatcher) ctx ev s = (Ret None, print_line welcome_line s)"
proof -
  have "en_name ev = user_name" using assms by (simp add: same_envelope_def the_envelope_def user_envelope_def)
  then show ?thesis
    by (simp add: welcomed [OF assms] dispatcher_dispatch_def dispatcher_subscribe_def new_dispatcher_def subs_of_def errors_join_def)
qed

text \<open>Each publish makes its one message, and each sink gives the message to the handler.\<close>

lemma sqs_start_ok:
  assumes "sqs_start load url ctx s = (Inr sink, s')"
  shows "\<exists>client s0. load s = (Inr client, s0) \<and>
      sq_send client ctx url (en_payload the_envelope) (message_attrs the_envelope) s0 = (None, s') \<and>
      sk_client sink = client \<and> sk_queue sink = url \<and>
      (\<forall>ctx ev s. same_envelope ev the_envelope \<longrightarrow>
        dispatcher_dispatch (sk_dispatcher sink) ctx ev s = (Ret None, print_line welcome_line s))"
proof -
  from broker_start_ok [OF assms [unfolded sqs_start_def]] obtain raw s1 where
    raw: "loaded load (\<lambda>client. new_sqs_sink client url []) s = (Inr raw, s1)"
      "sqs_publish raw ctx the_envelope s1 = (Ret None, s')"
      "sink = sqs_subscribe user_name (deliver user_env (new_bus user_env (sqs_publish raw) []) user_type welcomes []) raw"
    by blast
  from raw(1) obtain client where "load s = (Inr client, s1)" "raw = new_sqs_sink client url []"
    by (auto simp: loaded_def split: prod.splits sum.splits)
  with raw(2,3) show ?thesis
    by (auto simp: sqs_publish_def new_sqs_sink_def sqs_subscribe_def welcomed_dispatch split: prod.splits option.splits)
qed

lemma sns_start_ok:
  assumes "sns_start load get arn ctx s = (Inr sink, s')"
  shows "\<exists>client s0. load s = (Inr client, s0) \<and>
      client ctx arn (en_payload the_envelope) (message_attrs the_envelope) s0 = (None, s') \<and>
      (\<forall>ctx ev s. same_envelope ev the_envelope \<longrightarrow>
        dispatcher_dispatch (sx_dispatcher sink) ctx ev s = (Ret None, print_line welcome_line s))"
proof -
  have n: "en_name the_envelope = ''user.created''" by (simp add: the_envelope_def user_envelope_def user_name_def)
  from broker_start_ok [OF assms [unfolded sns_start_def]] obtain raw s1 where
    raw: "loaded load (\<lambda>client. new_sns_sink get client [(''user.created'', arn)] []) s = (Inr raw, s1)"
      "sns_publish (sx_publisher raw) ctx the_envelope s1 = (Ret None, s')"
      "sink = sns_subscribe user_name
        (deliver user_env (new_bus user_env (sns_publish (sx_publisher raw)) []) user_type welcomes []) raw"
    by blast
  from raw(1) obtain client where "load s = (Inr client, s1)"
      "raw = new_sns_sink get client [(''user.created'', arn)] []"
    by (auto simp: loaded_def split: prod.splits sum.splits)
  with raw(2,3) show ?thesis
    by (auto simp: sns_publish_def new_sns_sink_def new_sns_publisher_def sns_subscribe_def welcomed_dispatch n
        split: prod.splits option.splits)
qed

lemma publishers_publish_ok:
  assumes "publishers_publish client ctx ev [] s = ((None, m), s')"
  shows "\<exists>pub s0. pc_publisher client (en_name ev) s = (pub, s0) \<and>
    pc_publish client pub ctx (pubsub_message_for ev) s0 = (None, s')"
  using assms by (auto simp: publishers_publish_def for_topic_def split: prod.splits option.splits)

lemma push_start_ok:
  assumes "push_start load ctx s = (Inr sink, s')"
  shows "\<exists>client s0 pub s1. load s = (Inr client, s0) \<and> pc_publisher client user_name s0 = (pub, s1) \<and>
      pc_publish client pub ctx (pubsub_message_for the_envelope) s1 = (None, s') \<and>
      (\<forall>ctx ev s. same_envelope ev the_envelope \<longrightarrow>
        dispatcher_dispatch (px_dispatcher sink) ctx ev s = (Ret None, print_line welcome_line s))"
proof -
  have n: "en_name the_envelope = user_name" by (simp add: the_envelope_def user_envelope_def)
  from broker_start_ok [OF assms [unfolded push_start_def]] obtain raw s0 p where
    raw: "loaded load new_pubsub_push s = (Inr raw, s0)"
      "(case pubsub_push_publish raw ctx the_envelope s0 of ((err, sink'), s') \<Rightarrow> (Ret err, s')) = (Ret None, s')"
      "sink = pubsub_push_subscribe user_name (deliver user_env (new_bus user_env p []) user_type welcomes []) raw"
    by blast
  from raw(1) obtain client where c: "load s = (Inr client, s0)" "raw = new_pubsub_push client"
    by (auto simp: loaded_def split: prod.splits sum.splits)
  with raw(2) obtain m where "publishers_publish client ctx the_envelope [] s0 = ((None, m), s')"
    by (auto simp: pubsub_push_publish_def new_pubsub_push_def split: prod.splits)
  from publishers_publish_ok [OF this] c raw(3) show ?thesis
    by (auto simp: new_pubsub_push_def pubsub_push_subscribe_def welcomed_dispatch n)
qed

lemma pull_begin_ok:
  assumes "pull_begin load ctx s = (Inr sink, s')"
  shows "\<exists>client s0 pub s1. load s = (Inr client, s0) \<and> pc_publisher client user_name s0 = (pub, s1) \<and>
      pc_publish client pub ctx (pubsub_message_for the_envelope) s1 = (None, s') \<and>
      (\<exists>d. pu_subs sink = [(user_name, d)] \<and>
        (\<forall>ctx ev s. same_envelope ev the_envelope \<longrightarrow> d ctx ev s = (Ret None, print_line welcome_line s)))"
proof -
  have n: "en_name the_envelope = user_name" by (simp add: the_envelope_def user_envelope_def)
  from broker_start_ok [OF assms [unfolded pull_begin_def]] obtain raw s0 p where
    raw: "loaded load (\<lambda>client. new_pull_sink client ''welcome-service'' []) s = (Inr raw, s0)"
      "(case pull_publish raw ctx the_envelope s0 of ((err, sink'), s') \<Rightarrow> (Ret err, s')) = (Ret None, s')"
      "sink = pull_subscribe user_name (deliver user_env (new_bus user_env p []) user_type welcomes []) raw"
    by blast
  from raw(1) obtain client where c: "load s = (Inr client, s0)" "raw = new_pull_sink client ''welcome-service'' []"
    by (auto simp: loaded_def split: prod.splits sum.splits)
  with raw(2) obtain m where "publishers_publish client ctx the_envelope [] s0 = ((None, m), s')"
    by (auto simp: pull_publish_def new_pull_sink_def split: prod.splits)
  from publishers_publish_ok [OF this] c raw(3) show ?thesis
    by (auto simp: new_pull_sink_def pull_subscribe_def welcomed n)
qed

section \<open>The loop of the poller\<close>

text \<open>The world after \<open>n\<close> turns, when no handler panics on the way.\<close>

fun poller_turns :: "('c, 'w) ctx_state \<Rightarrow> ('c, 'w) select_wait \<Rightarrow> logger \<Rightarrow> ('c, 'w) sqs_sink \<Rightarrow>
    'c go_ctx_scheme \<Rightarrow> nat \<Rightarrow> 'w world \<Rightarrow> 'w world option" where
  "poller_turns ctx_err sleep lg sink ctx 0 s = Some s"
| "poller_turns ctx_err sleep lg sink ctx (Suc n) s =
     (case poller_turn ctx_err sleep lg sink ctx s of
        (Panic p, s1) \<Rightarrow> None
      | (Ret _, s1) \<Rightarrow> poller_turns ctx_err sleep lg sink ctx n s1)"

lemma poller_loop_ended: "ctx_err ctx s \<noteq> None \<Longrightarrow> poller_loop ctx_err sleep lg sink ctx s = Some (Ret None, s)"
  by (subst poller_loop.simps) simp

lemma poller_loop_goes_on:
  "ctx_err ctx s = None \<Longrightarrow> poller_loop ctx_err sleep lg sink ctx s =
     (case poller_turn ctx_err sleep lg sink ctx s of
        (Panic p, s1) \<Rightarrow> Some (Panic p, s1) | (Ret _, s1) \<Rightarrow> poller_loop ctx_err sleep lg sink ctx s1)"
  by (subst poller_loop.simps) simp

lemma poller_loop_returns:
  "pred_option (\<lambda>s1. ctx_err ctx s1 \<noteq> None) (poller_turns ctx_err sleep lg sink ctx n s) \<Longrightarrow>
   \<exists>r s'. poller_loop ctx_err sleep lg sink ctx s = Some (r, s') \<and>
     ((\<exists>p. r = Panic p) \<or> r = Ret None \<and> ctx_err ctx s' \<noteq> None)"
proof (induction n arbitrary: s)
  case (Suc n)
  obtain r s1 where t: "poller_turn ctx_err sleep lg sink ctx s = (r, s1)" by fastforce
  show ?case
  proof (cases "ctx_err ctx s = None")
    case True
    with Suc t show ?thesis by (cases r) (simp_all add: poller_loop_goes_on)
  qed (simp add: poller_loop_ended)
qed (simp add: poller_loop_ended)

section \<open>Properties\<close>

text \<open>C37: Every broker program welcomes the user it emits: once the start of the SQS, the SNS, the Pub/Sub
  push and the Pub/Sub pull program succeeded, the client was asked to send one message, and what the
  service delivers for that message reaches the handler under the bus of the program, which writes the
  welcome of that user and acknowledges; the message is so deleted, answered with success, or acked.\<close>

theorem brokers_bring_the_user_back:
  assumes "sqs_start sqs_load url ctx s = (Inr sqs, s1)"
    and "sns_start sns_load get arn ctx s = (Inr sns, s2)"
    and "push_start push_load ctx s = (Inr push, s3)"
    and "pull_begin pull_load ctx s = (Inr pull, s4)"
  shows "(\<exists>client s0. sqs_load s = (Inr client, s0) \<and>
      sq_send client ctx url (en_payload the_envelope) (message_attrs the_envelope) s0 = (None, s1)) \<and>
    dispatcher_dispatch (sk_dispatcher sqs) ctx' (sqs_envelope (stored_message receipt the_envelope)) w =
      (Ret None, print_line welcome_line w) \<and>
    (\<exists>client s0. sns_load s = (Inr client, s0) \<and>
      client ctx arn (en_payload the_envelope) (message_attrs the_envelope) s0 = (None, s2)) \<and>
    dispatcher_dispatch (sx_dispatcher sns) ctx' (sns_envelope (notification confirm the_envelope)) w =
      (Ret None, print_line welcome_line w) \<and>
    (\<exists>client s0 pub s0'. push_load s = (Inr client, s0) \<and> pc_publisher client user_name s0 = (pub, s0') \<and>
      pc_publish client pub ctx (pubsub_message_for the_envelope) s0' = (None, s3)) \<and>
    dispatcher_dispatch (px_dispatcher push) ctx' (pushed_envelope (pubsub_message_for the_envelope)) w =
      (Ret None, print_line welcome_line w) \<and>
    (\<exists>client s0 pub s0'. pull_load s = (Inr client, s0) \<and> pc_publisher client user_name s0 = (pub, s0') \<and>
      pc_publish client pub ctx (pubsub_message_for the_envelope) s0' = (None, s4)) \<and>
    (\<exists>d. pu_subs pull = [(user_name, d)] \<and>
      pull_callback user_name d ctx' (pubsub_message_for the_envelope) w = (Ret Ack, print_line welcome_line w))"
proof -
  have h: "headers_valid (en_headers the_envelope)" by (simp add: the_envelope_def user_envelope_def headers_valid_def)
  have n: "en_name the_envelope = user_name" by (simp add: the_envelope_def user_envelope_def)
  obtain d where d: "pu_subs pull = [(user_name, d)]"
      "\<forall>ctx ev s. same_envelope ev the_envelope \<longrightarrow> d ctx ev s = (Ret None, print_line welcome_line s)"
    using pull_begin_ok [OF assms(4)] by blast
  have "pull_callback user_name d ctx' (pubsub_message_for the_envelope) w = (Ret Ack, print_line welcome_line w)"
    using d(2) pulled_envelope [OF h] by (simp add: pull_callback_def n)
  note pulled = d(1) this
  show ?thesis
  proof (intro conjI)
    show "dispatcher_dispatch (sk_dispatcher sqs) ctx' (sqs_envelope (stored_message receipt the_envelope)) w =
        (Ret None, print_line welcome_line w)"
      using sqs_start_ok [OF assms(1)] sqs.carries [OF h] by blast
    show "dispatcher_dispatch (sx_dispatcher sns) ctx' (sns_envelope (notification confirm the_envelope)) w =
        (Ret None, print_line welcome_line w)"
      using sns_start_ok [OF assms(2)] sns.carries [OF h] by blast
    show "dispatcher_dispatch (px_dispatcher push) ctx' (pushed_envelope (pubsub_message_for the_envelope)) w =
        (Ret None, print_line welcome_line w)"
      using push_start_ok [OF assms(3)] pushed.carries [OF h] by blast
  qed (use sqs_start_ok [OF assms(1)] sns_start_ok [OF assms(2)] push_start_ok [OF assms(3)]
      pull_begin_ok [OF assms(4)] pulled in blast)+
qed

definition quiet_sqs :: "(unit, unit prog) sqs_api" where
  "quiet_sqs = \<lparr>sq_send = (\<lambda>ctx q body attrs s. (None, print_line body s)),
     sq_receive = (\<lambda>ctx q n t names s. (Inr [], s)), sq_delete = (\<lambda>ctx d q rc s. (None, s))\<rparr>"

definition quiet_sns :: "(unit, unit prog) sns_client" where
  "quiet_sns ctx arn body attrs s = (None, print_line body s)"

definition quiet_pubsub :: "(unit, unit prog, string) pubsub_client" where
  "quiet_pubsub = \<lparr>pc_publisher = Pair, pc_publish = (\<lambda>p ctx m s. (None, print_line (ps_data m) s))\<rparr>"

definition quiet_world :: "unit prog world" where
  "quiet_world = \<lparr>w_default = ''default'', w_log = [], w_app = empty_prog\<rparr>"

theorem brokers_bring_the_user_back_witness:
  "\<exists>sqs sns push pull s'. sqs_start (Pair (Inr quiet_sqs)) ''q'' background quiet_world = (Inr sqs, s') \<and>
     sns_start (Pair (Inr quiet_sns)) (\<lambda>u. Pair None) ''arn'' background quiet_world = (Inr sns, s') \<and>
     push_start (Pair (Inr quiet_pubsub)) background quiet_world = (Inr push, s') \<and>
     pull_begin (Pair (Inr quiet_pubsub)) background quiet_world = (Inr pull, s') \<and>
     dispatcher_dispatch (sk_dispatcher sqs) background (sqs_envelope (stored_message None the_envelope)) s' =
       (Ret None, print_line welcome_line s')"
proof -
  let ?s = "print_line (en_payload the_envelope) quiet_world"
  have n: "en_name the_envelope = ''user.created''" by (simp add: the_envelope_def user_envelope_def user_name_def)
  obtain sqs where a: "sqs_start (Pair (Inr quiet_sqs)) ''q'' background quiet_world = (Inr sqs, ?s)"
    using broker_started [where mk = "loaded (Pair (Inr quiet_sqs)) (\<lambda>c. new_sqs_sink c ''q'' [])" and s = quiet_world]
    by (simp add: sqs_start_def loaded_def sqs_publish_def new_sqs_sink_def quiet_sqs_def)
  obtain sns where b: "sns_start (Pair (Inr quiet_sns)) (\<lambda>u. Pair None) ''arn'' background quiet_world = (Inr sns, ?s)"
    using broker_started [where mk = "loaded (Pair (Inr quiet_sns))
        (\<lambda>c. new_sns_sink (\<lambda>u. Pair None) c [(''user.created'', ''arn'')] [])" and s = quiet_world]
    by (simp add: sns_start_def loaded_def sns_publish_def new_sns_sink_def new_sns_publisher_def quiet_sns_def n)
  obtain push where c: "push_start (Pair (Inr quiet_pubsub)) background quiet_world = (Inr push, ?s)"
    using broker_started [where mk = "loaded (Pair (Inr quiet_pubsub)) new_pubsub_push" and s = quiet_world]
    by (simp add: push_start_def loaded_def pubsub_push_publish_def publishers_publish_def for_topic_def
        new_pubsub_push_def quiet_pubsub_def pubsub_message_for_def)
  obtain pull where d: "pull_begin (Pair (Inr quiet_pubsub)) background quiet_world = (Inr pull, ?s)"
    using broker_started [where mk = "loaded (Pair (Inr quiet_pubsub)) (\<lambda>c. new_pull_sink c ''welcome-service'' [])"
        and s = quiet_world]
    by (simp add: pull_begin_def loaded_def pull_publish_def publishers_publish_def for_topic_def
        new_pull_sink_def quiet_pubsub_def pubsub_message_for_def)
  from brokers_bring_the_user_back [OF a b c d, of background None ?s "''url''"] a b c d show ?thesis by blast
qed

text \<open>C34: The poller stops with its context and only with it: if the context has ended by the time
  \<open>n\<close> turns are done, its loop returns, and with nil, whatever polls failed and however the
  pauses after them ended; only a panic of a handler gets out otherwise.\<close>

theorem poller_ends_with_its_context:
  assumes "pred_option (\<lambda>s1. ctx_err ctx s1 \<noteq> None) (poller_turns ctx_err sleep lg sink ctx n s)"
  shows "\<exists>r s'. poller_loop ctx_err sleep lg sink ctx s = Some (r, s') \<and>
    ((\<exists>p. r = Panic p) \<and> poller_exit r \<noteq> Finished \<or> poller_exit r = Finished \<and> ctx_err ctx s' \<noteq> None)"
  using poller_loop_returns [OF assms] by (auto simp: poller_exit_def)

theorem poller_ends_with_its_context_witness:
  "\<exists>r s'. poller_loop queue_ctx queue_sleep ''poller'' queue_sink background (queue_world [''a''] 1) = Some (r, s') \<and>
    ((\<exists>p. r = Panic p) \<or> queue_ctx background s' \<noteq> None)"
proof -
  have "pred_option (\<lambda>s1. queue_ctx background s1 \<noteq> None)
      (poller_turns queue_ctx queue_sleep ''poller'' queue_sink background 1 (queue_world [''a''] 1))"
    by (simp add: poller_turn_def receive_once_def queue_ctx_def queue_world_def queue_client_def queue_sink_def
        new_sqs_sink_def log_to_def note_message_def)
  from poller_ends_with_its_context [OF this] show ?thesis by blast
qed

end
