(* ===== verification/PgExamples.thy ===== *)
theory PgExamples
  imports PgTx
begin

text \<open>
  The example programs of pgxdb, under \<open>db/pgxdb/examples\<close>: the helpers of package users, the
  repository and the pair of \<open>tx\<close>, the calls of \<open>basic\<close>, and the counter of
  \<open>serializable\<close>. PostgreSQL is a parameter; what the programs rely on in it is
  \<open>users_contract\<close> and \<open>counter_contract\<close>. The workers of \<open>serializable\<close> run one
  after another in an order that is a parameter: that is what the isolation level promises of the
  transactions that commit.
\<close>

section \<open>Package users\<close>

record user_row =
  ur_id :: int
  ur_name :: string
  ur_email :: string

definition zero_user_row :: user_row where
  "zero_user_row = \<lparr>ur_id = 0, ur_name = [], ur_email = []\<rparr>"

definition users_table_sql :: string where
  "users_table_sql = ''CREATE TABLE IF NOT EXISTS users ('' @ newline @
     tabs 1 @ ''id    BIGSERIAL PRIMARY KEY,'' @ newline @
     tabs 1 @ ''name  TEXT NOT NULL,'' @ newline @
     tabs 1 @ ''email TEXT NOT NULL UNIQUE'' @ newline @ '')''"

definition create_user_sql :: string where
  "create_user_sql = ''INSERT INTO users (name, email) VALUES ($1, $2)'' @ newline @
     tabs 2 @ '' RETURNING id, name, email''"

type_synonym ('w, 'r) user_collector =
  "row_mapper \<Rightarrow> 'r \<Rightarrow> 'w world \<Rightarrow> (user_row \<times> go_error option) \<times> 'w world"
type_synonym ('w, 'r) users_collector =
  "row_mapper \<Rightarrow> 'r \<Rightarrow> 'w world \<Rightarrow> (user_row list \<times> go_error option) \<times> 'w world"

text \<open>An \<open>Exec\<close> whose command tag is dropped.\<close>

definition exec_err :: "('c, 'w, 'r) pg_pool \<Rightarrow> querier \<Rightarrow> 'c go_ctx_scheme \<Rightarrow> string \<Rightarrow> gval list \<Rightarrow> 'w world \<Rightarrow>
    go_error option \<times> 'w world" where
  "exec_err pool q ctx sql args s =
     (case po_exec pool q ctx sql args s of (Inl err, s1) \<Rightarrow> (Some err, s1) | (Inr tag, s1) \<Rightarrow> (None, s1))"

definition users_reset :: "('c, 'w, 'r) pg_pool \<Rightarrow> 'c go_ctx_scheme \<Rightarrow> querier \<Rightarrow> 'w world \<Rightarrow>
    go_error option \<times> 'w world" where
  "users_reset pool ctx q0 s =
     (let q = get_querier ctx q0
      in case exec_err pool q ctx ''DROP TABLE IF EXISTS users'' [] s of
           (Some err, s1) \<Rightarrow> (Some err, s1)
         | (None, s1) \<Rightarrow> exec_err pool q ctx users_table_sql [] s1)"

definition users_create :: "pg_codes \<Rightarrow> ('c, 'w, 'r) pg_pool \<Rightarrow> ('w, 'r) user_collector \<Rightarrow> 'c go_ctx_scheme \<Rightarrow>
    querier \<Rightarrow> string \<Rightarrow> string \<Rightarrow> 'w world \<Rightarrow> (user_row \<times> go_error option) \<times> 'w world" where
  "users_create pc pool collect ctx q name email s =
     pg_get pc pool collect zero_user_row ctx (get_querier ctx q) create_user_sql [GStr name, GStr email] s"

definition users_get :: "pg_codes \<Rightarrow> ('c, 'w, 'r) pg_pool \<Rightarrow> ('w, 'r) user_collector \<Rightarrow> 'c go_ctx_scheme \<Rightarrow>
    querier \<Rightarrow> int \<Rightarrow> 'w world \<Rightarrow> (user_row \<times> go_error option) \<times> 'w world" where
  "users_get pc pool collect ctx q i s =
     pg_get pc pool collect zero_user_row ctx (get_querier ctx q)
       ''SELECT id, name, email FROM users WHERE id = $1'' [GInt i] s"

definition users_list :: "pg_codes \<Rightarrow> ('c, 'w, 'r) pg_pool \<Rightarrow> ('w, 'r) users_collector \<Rightarrow> 'c go_ctx_scheme \<Rightarrow>
    querier \<Rightarrow> 'w world \<Rightarrow> (user_row list \<times> go_error option) \<times> 'w world" where
  "users_list pc pool collect ctx q s =
     pg_select pc pool collect ctx (get_querier ctx q) ''SELECT id, name, email FROM users ORDER BY id'' [] s"

definition users_rename :: "('c, 'w, 'r) pg_pool \<Rightarrow> 'c go_ctx_scheme \<Rightarrow> querier \<Rightarrow> int \<Rightarrow> string \<Rightarrow> 'w world \<Rightarrow>
    go_error option \<times> 'w world" where
  "users_rename pool ctx q i name s =
     exec_err pool (get_querier ctx q) ctx ''UPDATE users SET name = $1 WHERE id = $2'' [GStr name, GInt i] s"

section \<open>Programs\<close>

text \<open>
  A program ends with \<open>log.Fatal\<close>, which skips the deferred calls, or returns from \<open>main\<close>,
  which closes the pool; \<open>connect\<close> is \<open>pgxdb.New\<close> on the URL, and the list is what the
  program logs.
\<close>

definition with_db :: "string \<Rightarrow> ('w world \<Rightarrow> (go_error + ('c, 'w, 'r) pg_db) \<times> 'w world) \<Rightarrow>
    (('c, 'w, 'r) pg_db \<Rightarrow> 'w world \<Rightarrow> (exit \<times> string list) \<times> 'w world) \<Rightarrow> 'w world \<Rightarrow>
    (exit \<times> string list) \<times> 'w world" where
  "with_db url connect run s =
     (if url = [] then ((Fatal ''set DATABASE_URL'', []), s)
      else case connect s of
             (Inl err, s1) \<Rightarrow> ((Fatal (''connect: '' @ err_text err), []), s1)
           | (Inr db, s1) \<Rightarrow>
               (case run db s1 of
                  ((Fatal m, out), s2) \<Rightarrow> ((Fatal m, out), s2)
                | ((Finished, out), s2) \<Rightarrow> ((Finished, out), db_close db s2)))"

definition user_text :: "user_row \<Rightarrow> string" where
  "user_text u = ''{ID:'' @ itoa (ur_id u) @ '' Name:'' @ ur_name u @ '' Email:'' @ ur_email u @ ''}''"

text \<open>\<open>basic\<close>, after the connection: the renaming and the list, the rest of the inserts, and
  the whole.\<close>

definition basic_refused :: "('c, 'w, 'r) pg_pool \<Rightarrow> ('w, 'r) users_collector \<Rightarrow> pg_codes \<Rightarrow>
    'c go_ctx_scheme \<Rightarrow> user_row \<Rightarrow> string list \<Rightarrow> 'w world \<Rightarrow> (exit \<times> string list) \<times> 'w world" where
  "basic_refused pool many pc ctx alice out s =
     (case users_rename pool ctx FromPool (ur_id alice) ''Alice Anderson'' s of
        (Some err, s1) \<Rightarrow> ((Fatal (''rename: '' @ err_text err), out), s1)
      | (None, s1) \<Rightarrow>
          (case users_list pc pool many ctx FromPool s1 of
             ((us, Some err), s2) \<Rightarrow> ((Fatal (''list: '' @ err_text err), out), s2)
           | ((us, None), s2) \<Rightarrow> ((Finished, out @ map (\<lambda>u. ''user '' @ user_text u) us), s2)))"

definition basic_created :: "('c, 'w, 'r) pg_pool \<Rightarrow> ('w, 'r) user_collector \<Rightarrow> ('w, 'r) users_collector \<Rightarrow>
    pg_codes \<Rightarrow> 'c go_ctx_scheme \<Rightarrow> user_row \<Rightarrow> 'w world \<Rightarrow> (exit \<times> string list) \<times> 'w world" where
  "basic_created pool one many pc ctx alice s =
     (let out = [''created '' @ user_text alice];
          unexpected = ''duplicate alice: expected a unique violation, got ''
      in case users_create pc pool one ctx FromPool ''Bob'' ''bob@example.com'' s of
           ((bob, Some err), s1) \<Rightarrow> ((Fatal (''create bob: '' @ err_text err), out), s1)
         | ((bob, None), s1) \<Rightarrow>
             (case users_create pc pool one ctx FromPool ''Alice again'' ''alice@example.com'' s1 of
                ((again, None), s2) \<Rightarrow> ((Fatal (unexpected @ ''<nil>''), out), s2)
              | ((again, Some err), s2) \<Rightarrow>
                  if \<not> is_unique_violation pc err ''users_email_key''
                  then ((Fatal (unexpected @ err_text err), out), s2)
                  else basic_refused pool many pc ctx alice
                         (out @ [''duplicate email refused by '' @ constraint_name err]) s2))"

definition basic_run :: "pg_codes \<Rightarrow> ('w, 'r) user_collector \<Rightarrow> ('w, 'r) users_collector \<Rightarrow>
    'c go_ctx_scheme \<Rightarrow> ('c, 'w, 'r) pg_db \<Rightarrow> 'w world \<Rightarrow> (exit \<times> string list) \<times> 'w world" where
  "basic_run pc one many ctx db s =
     (case users_reset (db_pool db) ctx FromPool s of
        (Some err, s1) \<Rightarrow> ((Fatal (''reset: '' @ err_text err), []), s1)
      | (None, s1) \<Rightarrow>
          (case users_create pc (db_pool db) one ctx FromPool ''Alice'' ''alice@example.com'' s1 of
             ((alice, Some err), s2) \<Rightarrow> ((Fatal (''create alice: '' @ err_text err), []), s2)
           | ((alice, None), s2) \<Rightarrow> basic_created (db_pool db) one many pc ctx alice s2))"

text \<open>\<open>tx\<close>: the repository without a querier, and the pair in one transaction. A panic of the
  pool would end the program.\<close>

definition users_repo_create :: "pg_codes \<Rightarrow> ('w, 'r) user_collector \<Rightarrow> ('c, 'w, 'r) pg_db \<Rightarrow> 'c go_ctx_scheme \<Rightarrow>
    string \<Rightarrow> string \<Rightarrow> 'w world \<Rightarrow> (user_row \<times> go_error option) \<times> 'w world" where
  "users_repo_create pc collect db ctx name email s =
     pg_get pc (db_pool db) collect zero_user_row ctx (get_querier ctx FromPool) create_user_sql
       [GStr name, GStr email] s"

definition pair_body :: "pg_codes \<Rightarrow> ('w, 'r) user_collector \<Rightarrow> ('c, 'w, 'r) pg_db \<Rightarrow> ('c, 'w) ctx_body" where
  "pair_body pc collect db ctx s =
     (case users_repo_create pc collect db ctx ''Alice'' ''alice@example.com'' s of
        ((_, Some err), s1) \<Rightarrow> (Ret (Some err), s1)
      | ((_, None), s1) \<Rightarrow>
          (case users_repo_create pc collect db ctx ''Bob'' ''bob@example.com'' s1 of
             ((_, err), s2) \<Rightarrow> (Ret err, s2)))"

definition tx_run :: "pg_codes \<Rightarrow> ('w, 'r) user_collector \<Rightarrow> 'c go_ctx_scheme \<Rightarrow> ('c, 'w, 'r) pg_db \<Rightarrow> 'w world \<Rightarrow>
    (exit \<times> string list) \<times> 'w world" where
  "tx_run pc collect ctx db s =
     (case users_reset (db_pool db) ctx FromPool s of
        (Some err, s1) \<Rightarrow> ((Fatal (''reset: '' @ err_text err), []), s1)
      | (None, s1) \<Rightarrow>
          (case tx_ctx pc db ctx (pair_body pc collect db) s1 of
             (Panic p, s2) \<Rightarrow> ((Fatal (panic_text p), []), s2)
           | (Ret (Some err), s2) \<Rightarrow> ((Fatal (''pair create: '' @ err_text err), []), s2)
           | (Ret None, s2) \<Rightarrow> ((Finished, []), s2)))"

section \<open>The counter\<close>

definition read_counter_sql :: string where
  "read_counter_sql = ''SELECT value FROM counters WHERE id = 1''"

definition write_counter_sql :: string where
  "write_counter_sql = ''UPDATE counters SET value = $1 WHERE id = 1''"

text \<open>\<open>scan\<close> is \<open>Row.Scan\<close> into an \<open>int\<close>.\<close>

type_synonym ('w, 'r) int_scan = "'r \<Rightarrow> 'w world \<Rightarrow> (go_error + int) \<times> 'w world"

definition worker_body :: "('w, 'r) int_scan \<Rightarrow> ('c, 'w, 'r) pg_db \<Rightarrow> ('c, 'w) ctx_body" where
  "worker_body scan db ctx s =
     (let q = get_querier ctx FromPool
      in case po_query_row (db_pool db) q ctx read_counter_sql [] s of
           (row, s1) \<Rightarrow>
             (case scan row s1 of
                (Inl err, s2) \<Rightarrow> (Ret (Some err), s2)
              | (Inr n, s2) \<Rightarrow>
                  (case exec_err (db_pool db) q ctx write_counter_sql [GInt (n + 1)] s2 of
                     (err, s3) \<Rightarrow> (Ret err, s3))))"

fun run_workers :: "pg_codes \<Rightarrow> ('c go_ctx_scheme \<Rightarrow> 'w world \<Rightarrow> go_error option) \<Rightarrow> ('w, 'r) int_scan \<Rightarrow>
    'c go_ctx_scheme \<Rightarrow> ('c, 'w, 'r) pg_db \<Rightarrow> nat list \<Rightarrow> 'w world \<Rightarrow>
    (nat \<times> go_error option outcome) list \<times> 'w world" where
  "run_workers pc ctx_err scan ctx db [] s = ([], s)"
| "run_workers pc ctx_err scan ctx db (i # is) s =
     (case tx_serializable_ctx pc db ctx_err ctx (worker_body scan db) s of
        (r, s1) \<Rightarrow> (case run_workers pc ctx_err scan ctx db is s1 of (rs, s2) \<Rightarrow> ((i, r) # rs, s2)))"

definition worker_lines :: "(nat \<times> go_error option outcome) list \<Rightarrow> string list" where
  "worker_lines rs = concat (map (\<lambda>(i, r). case r of
     Ret (Some err) \<Rightarrow> [''worker '' @ itoa (int i) @ '': '' @ err_text err] | _ \<Rightarrow> []) rs)"

definition workers :: nat where "workers = 4"

definition counter_setup :: "('c, 'w, 'r) pg_db \<Rightarrow> 'c go_ctx_scheme \<Rightarrow> 'w world \<Rightarrow> string option \<times> 'w world" where
  "counter_setup db ctx s =
     (case db_exec db ctx ''DROP TABLE IF EXISTS counters'' [] s of
        (Inl err, s1) \<Rightarrow> (Some (''drop: '' @ err_text err), s1)
      | (Inr _, s1) \<Rightarrow>
          (case db_exec db ctx ''CREATE TABLE counters (id INT PRIMARY KEY, value INT NOT NULL)'' [] s1 of
             (Inl err, s2) \<Rightarrow> (Some (''create: '' @ err_text err), s2)
           | (Inr _, s2) \<Rightarrow>
               (case db_exec db ctx ''INSERT INTO counters (id, value) VALUES (1, 0)'' [] s2 of
                  (Inl err, s3) \<Rightarrow> (Some (''seed: '' @ err_text err), s3)
                | (Inr _, s3) \<Rightarrow> (None, s3))))"

definition counter_run :: "pg_codes \<Rightarrow> ('c go_ctx_scheme \<Rightarrow> 'w world \<Rightarrow> go_error option) \<Rightarrow> ('w, 'r) int_scan \<Rightarrow>
    nat list \<Rightarrow> 'c go_ctx_scheme \<Rightarrow> ('c, 'w, 'r) pg_db \<Rightarrow> 'w world \<Rightarrow> (exit \<times> string list) \<times> 'w world" where
  "counter_run pc ctx_err scan order ctx db s =
     (case counter_setup db ctx s of
        (Some m, s1) \<Rightarrow> ((Fatal m, []), s1)
      | (None, s1) \<Rightarrow>
          (case run_workers pc ctx_err scan ctx db order s1 of
             (rs, s2) \<Rightarrow>
               (case db_query_row db ctx read_counter_sql [] s2 of
                  (row, s3) \<Rightarrow>
                    (case scan row s3 of
                       (Inl err, s4) \<Rightarrow> ((Fatal (''final: '' @ err_text err), worker_lines rs), s4)
                     | (Inr final, s4) \<Rightarrow>
                         ((Finished, worker_lines rs @ [''counter = '' @ itoa final @ '' (expected '' @
                             itoa (int workers) @ '')'']), s4)))))"

section \<open>What the programs rely on\<close>

text \<open>Committed data and open transactions are as they were.\<close>

definition keeps_data :: "('w, 'd) db_view \<Rightarrow> 'w world \<Rightarrow> 'w world \<Rightarrow> bool" where
  "keeps_data v s s1 \<longleftrightarrow> dv_data v (w_app s1) = dv_data v (w_app s) \<and> dv_open v (w_app s1) = dv_open v (w_app s)"

definition starts_on_data :: "('c, 'w, 'r) pg_pool \<Rightarrow> ('w, 'd) db_view \<Rightarrow> bool" where
  "starts_on_data pool v \<longleftrightarrow>
     (\<forall>ctx opts s t s1. po_begin pool ctx opts s = (Inr t, s1) \<longrightarrow> dv_pending v t (w_app s1) = dv_data v (w_app s))"

text \<open>In a transaction the select reads the counter of the transaction, and the update sets it.\<close>

definition reads_counter :: "('c, 'w, 'r) pg_pool \<Rightarrow> ('w, 'r) int_scan \<Rightarrow> ('w, int) db_view \<Rightarrow> bool" where
  "reads_counter pool scan v \<longleftrightarrow>
     (\<forall>t ctx s row s1 r s2. po_query_row pool (FromTx t) ctx read_counter_sql [] s = (row, s1) \<longrightarrow>
        scan row s1 = (r, s2) \<longrightarrow>
        keeps_data v s s2 \<and> dv_pending v t (w_app s2) = dv_pending v t (w_app s) \<and>
        (\<forall>n. r = Inr n \<longrightarrow> n = dv_pending v t (w_app s)))"

definition writes_counter :: "('c, 'w, 'r) pg_pool \<Rightarrow> ('w, int) db_view \<Rightarrow> bool" where
  "writes_counter pool v \<longleftrightarrow>
     (\<forall>t ctx n s r s1. po_exec pool (FromTx t) ctx write_counter_sql [GInt n] s = (r, s1) \<longrightarrow>
        keeps_data v s s1 \<and>
        (\<forall>tag. r = Inr tag \<longrightarrow> t \<in> dv_open v (w_app s) \<longrightarrow> dv_pending v t (w_app s1) = n))"

definition counter_contract :: "('c, 'w, 'r) pg_pool \<Rightarrow> ('w, 'r) int_scan \<Rightarrow> ('w, int) db_view \<Rightarrow> bool" where
  "counter_contract pool scan v \<longleftrightarrow> pool_contract pool v \<and> starts_on_data pool v \<and>
     reads_counter pool scan v \<and> writes_counter pool v"

text \<open>The insert of a user appends the row that comes back, with the values given and a new key.\<close>

definition inserts_user :: "('c, 'w, 'r) pg_pool \<Rightarrow> ('w, 'r) user_collector \<Rightarrow> ('w, user_row list) db_view \<Rightarrow> bool" where
  "inserts_user pool collect v \<longleftrightarrow>
     (\<forall>t ctx name email s r s1. po_query pool (FromTx t) ctx create_user_sql [GStr name, GStr email] s = (r, s1) \<longrightarrow>
        keeps_data v s s1 \<and>
        (\<forall>rows u err s2. r = Inr rows \<longrightarrow> collect StructByName rows s1 = ((u, err), s2) \<longrightarrow>
           keeps_data v s s2 \<and>
           (err = None \<longrightarrow> t \<in> dv_open v (w_app s) \<longrightarrow> ur_name u = name \<and> ur_email u = email \<and>
              ur_id u \<notin> ur_id ` set (dv_pending v t (w_app s)) \<and>
              dv_pending v t (w_app s2) = dv_pending v t (w_app s) @ [u])))"

definition users_contract :: "('c, 'w, 'r) pg_pool \<Rightarrow> ('w, 'r) user_collector \<Rightarrow> ('w, user_row list) db_view \<Rightarrow> bool" where
  "users_contract pool collect v \<longleftrightarrow> pool_contract pool v \<and> starts_on_data pool v \<and> inserts_user pool collect v"

section \<open>Facts\<close>

lemma querier_in_tx [simp]: "get_querier (context_with_tx ctx t) q = FromTx t"
  by (simp add: get_querier_def tx_from_context_def context_with_tx_def)

text \<open>One run of the body of a worker, in the transaction of its context.\<close>

lemma worker_body_runs:
  assumes "counter_contract (db_pool db) scan v" and "worker_body scan db (context_with_tx ctx t) s = (r, s')"
  shows "keeps_data v s s' \<and> (\<forall>p. r \<noteq> Panic p) \<and>
    (r = Ret None \<longrightarrow> t \<in> dv_open v (w_app s) \<longrightarrow> dv_pending v t (w_app s') = dv_pending v t (w_app s) + 1)"
proof -
  obtain row s1 where q: "po_query_row (db_pool db) (FromTx t) (context_with_tx ctx t) read_counter_sql [] s = (row, s1)"
    by fastforce
  obtain c s2 where c: "scan row s1 = (c, s2)" by fastforce
  from assms(1) q c have read: "keeps_data v s s2" "dv_pending v t (w_app s2) = dv_pending v t (w_app s)"
    "\<And>n. c = Inr n \<Longrightarrow> n = dv_pending v t (w_app s)"
    by (auto simp: counter_contract_def reads_counter_def)
  show ?thesis
  proof (cases c)
    case (Inl err)
    with assms(2) q c read show ?thesis by (auto simp: worker_body_def)
  next
    case (Inr n)
    obtain w s3 where w: "po_exec (db_pool db) (FromTx t) (context_with_tx ctx t) write_counter_sql [GInt (n + 1)] s2 = (w, s3)"
      by fastforce
    from assms(1) w have "keeps_data v s2 s3" "\<And>tag. w = Inr tag \<Longrightarrow> t \<in> dv_open v (w_app s2) \<Longrightarrow> dv_pending v t (w_app s3) = n + 1"
      by (auto simp: counter_contract_def writes_counter_def)
    with assms(2) q c w Inr read show ?thesis
      by (auto simp: worker_body_def exec_err_def keeps_data_def split: sum.splits)
  qed
qed

lemma worker_body_contract:
  assumes "counter_contract (db_pool db) scan v"
  shows "body_contract (\<lambda>t. worker_body scan db (context_with_tx ctx t)) v"
  using worker_body_runs [OF assms prod.collapse [symmetric]] unfolding body_contract_def keeps_data_def by blast

text \<open>One worker: nil is one more, and an error that the server sent is nothing.\<close>

lemma worker_counts:
  assumes c: "counter_contract (db_pool db) scan v"
    and run: "tx_serializable_ctx pc db ctx_err ctx (worker_body scan db) s = (r, s')"
  shows "dv_open v (w_app s') = dv_open v (w_app s) \<and>
    (r = Ret None \<longrightarrow> dv_data v (w_app s') = dv_data v (w_app s) + 1) \<and>
    (\<forall>err. r = Ret (Some err) \<longrightarrow> errors_as the_pg err \<noteq> None \<longrightarrow> dv_data v (w_app s') = dv_data v (w_app s)) \<and>
    (\<forall>p. r = Panic p \<longrightarrow> dv_data v (w_app s') = dv_data v (w_app s))"
proof -
  let ?f = "\<lambda>t. worker_body scan db (context_with_tx ctx t)"
  have pool: "pool_contract (db_pool db) v" and start: "starts_on_data (db_pool db) v"
    using c by (simp_all add: counter_contract_def)
  have ne: "[0..max_serializable_tx_retries] \<noteq> []" by (simp add: max_serializable_tx_retries_def)
  from serializable_loop_outcome [OF pool worker_body_contract [OF c] run [unfolded tx_serializable_ctx_def retry_serializable_def]] ne
  obtain s0 where o: "dv_open v (w_app s') = dv_open v (w_app s)" "dv_data v (w_app s0) = dv_data v (w_app s)"
    "tx_outcome db ctx \<lparr>to_iso = Serializable, to_access = AnyAccess\<rparr> ?f v s0 r s'"
    by auto
  have "dv_data v (w_app s') = dv_data v (w_app s) + 1" if "r = Ret None"
  proof -
    from o(3) that obtain t s1 s2 where b: "po_begin (db_pool db) ctx \<lparr>to_iso = Serializable, to_access = AnyAccess\<rparr> s0 = (Inr t, s1)"
      "?f t s1 = (Ret None, s2)" "dv_data v (w_app s') = dv_pending v t (w_app s2)"
      by (auto simp: tx_outcome_def applied_def)
    moreover from pool b(1) have "t \<in> dv_open v (w_app s1)" unfolding pool_contract_def by fastforce
    ultimately show ?thesis using worker_body_runs [OF c b(2)] start o(2) by (auto simp: starts_on_data_def)
  qed
  with o show ?thesis by (auto simp: tx_outcome_def)
qed

lemma run_workers_count:
  assumes "counter_contract (db_pool db) scan v" and "run_workers pc ctx_err scan ctx db order s = (rs, s')"
    and "\<forall>(i, r) \<in> set rs. \<forall>err. r = Ret (Some err) \<longrightarrow> errors_as the_pg err \<noteq> None"
  shows "dv_open v (w_app s') = dv_open v (w_app s) \<and> map fst rs = order \<and>
    dv_data v (w_app s') = dv_data v (w_app s) + int (length (filter (\<lambda>x. snd x = Ret None) rs))"
  using assms(2,3)
proof (induction order arbitrary: s rs)
  case (Cons i order)
  obtain r s1 where one: "tx_serializable_ctx pc db ctx_err ctx (worker_body scan db) s = (r, s1)" by fastforce
  obtain rs' s2 where rest: "run_workers pc ctx_err scan ctx db order s1 = (rs', s2)" by fastforce
  from Cons.prems one rest have rs: "rs = (i, r) # rs'" "s2 = s'" by auto
  note w = worker_counts [OF assms(1) one]
  have "dv_data v (w_app s1) = dv_data v (w_app s) + (if r = Ret None then 1 else 0)"
    using w Cons.prems(2) rs(1) by (cases r) (auto split: option.splits)
  with Cons.IH [of s1 rs'] rest rs Cons.prems(2) w show ?case by auto
qed simp

text \<open>The pair of \<open>tx\<close>.\<close>

lemma repo_create_runs:
  assumes "users_contract (db_pool db) collect v"
    and "users_repo_create pc collect db (context_with_tx ctx t) name email s = ((u, err), s')"
  shows "keeps_data v s s' \<and> (err = None \<longrightarrow> t \<in> dv_open v (w_app s) \<longrightarrow> ur_name u = name \<and> ur_email u = email \<and>
    ur_id u \<notin> ur_id ` set (dv_pending v t (w_app s)) \<and> dv_pending v t (w_app s') = dv_pending v t (w_app s) @ [u])"
proof -
  obtain q s1 where q: "po_query (db_pool db) (FromTx t) (context_with_tx ctx t) create_user_sql [GStr name, GStr email] s = (q, s1)"
    by fastforce
  have k: "inserts_user (db_pool db) collect v" using assms(1) by (simp add: users_contract_def)
  show ?thesis
  proof (cases q)
    case (Inl e)
    with k q assms(2) show ?thesis
      by (auto simp: inserts_user_def users_repo_create_def pg_get_def get_row_def )
  next
    case (Inr rows)
    obtain w e s2 where c: "collect StructByName rows s1 = ((w, e), s2)" by (metis surj_pair)
    from k q Inr c have "keeps_data v s s2 \<and> (e = None \<longrightarrow> t \<in> dv_open v (w_app s) \<longrightarrow> ur_name w = name \<and> ur_email w = email \<and>
        ur_id w \<notin> ur_id ` set (dv_pending v t (w_app s)) \<and> dv_pending v t (w_app s2) = dv_pending v t (w_app s) @ [w])"
      unfolding inserts_user_def by blast
    moreover have "u = w" "err = classify pc e" "s' = s2"
      using q Inr c assms(2) by (simp_all add: users_repo_create_def pg_get_def get_row_def)
    ultimately show ?thesis by simp
  qed
qed

lemma pair_body_runs:
  assumes "users_contract (db_pool db) collect v" and "pair_body pc collect db (context_with_tx ctx t) s = (r, s')"
  shows "keeps_data v s s' \<and> (\<forall>p. r \<noteq> Panic p) \<and>
    (r = Ret None \<longrightarrow> t \<in> dv_open v (w_app s) \<longrightarrow> (\<exists>a b. dv_pending v t (w_app s') = dv_pending v t (w_app s) @ [a, b] \<and>
       ur_name a = ''Alice'' \<and> ur_name b = ''Bob'' \<and> ur_id a \<noteq> ur_id b \<and>
       ur_id ` {a, b} \<inter> ur_id ` set (dv_pending v t (w_app s)) = {}))"
proof -
  obtain a e1 s1 where a: "users_repo_create pc collect db (context_with_tx ctx t) ''Alice'' ''alice@example.com'' s = ((a, e1), s1)"
    by (metis surj_pair)
  note ra = repo_create_runs [OF assms(1) a]
  show ?thesis
  proof (cases e1)
    case (Some err)
    with a ra assms(2) show ?thesis by (auto simp: pair_body_def)
  next
    case None
    obtain b e2 s2 where b: "users_repo_create pc collect db (context_with_tx ctx t) ''Bob'' ''bob@example.com'' s1 = ((b, e2), s2)"
      by (metis surj_pair)
    have r: "r = Ret e2" "s' = s2" using assms(2) a None b by (simp_all add: pair_body_def)
    note rb = repo_create_runs [OF assms(1) b]
    have "keeps_data v s s'" using ra rb r by (simp add: keeps_data_def)
    moreover have "\<exists>a b. dv_pending v t (w_app s') = dv_pending v t (w_app s) @ [a, b] \<and>
       ur_name a = ''Alice'' \<and> ur_name b = ''Bob'' \<and> ur_id a \<noteq> ur_id b \<and>
       ur_id ` {a, b} \<inter> ur_id ` set (dv_pending v t (w_app s)) = {}" if "r = Ret None" "t \<in> dv_open v (w_app s)"
      using ra rb r None that unfolding keeps_data_def by (intro exI [of _ a] exI [of _ b]) auto
    ultimately show ?thesis using r by auto
  qed
qed

lemma pair_body_contract:
  assumes "users_contract (db_pool db) collect v"
  shows "body_contract (\<lambda>t. pair_body pc collect db (context_with_tx ctx t)) v"
  using pair_body_runs [OF assms prod.collapse [symmetric]] unfolding body_contract_def keeps_data_def by blast

text \<open>Inside a transaction no helper touches the pool, whatever querier it is given; a pool that differs
  in what it does outside of transactions only makes no difference.\<close>

theorem helpers_join_the_transaction:
  assumes "\<And>t. po_exec pool (FromTx t) = po_exec pool' (FromTx t)" and "\<And>t. po_query pool (FromTx t) = po_query pool' (FromTx t)"
  shows "users_reset pool (context_with_tx ctx t) q = users_reset pool' (context_with_tx ctx t) q'"
    and "users_create pc pool one (context_with_tx ctx t) q = users_create pc pool' one (context_with_tx ctx t) q'"
    and "users_get pc pool one (context_with_tx ctx t) q = users_get pc pool' one (context_with_tx ctx t) q'"
    and "users_list pc pool many (context_with_tx ctx t) q = users_list pc pool' many (context_with_tx ctx t) q'"
    and "users_rename pool (context_with_tx ctx t) q = users_rename pool' (context_with_tx ctx t) q'"
proof -
  have e: "exec_err pool (FromTx t) = exec_err pool' (FromTx t)" for t unfolding exec_err_def [abs_def] assms ..
  show "users_reset pool (context_with_tx ctx t) q = users_reset pool' (context_with_tx ctx t) q'"
    and "users_rename pool (context_with_tx ctx t) q = users_rename pool' (context_with_tx ctx t) q'"
    by (unfold fun_eq_iff users_reset_def users_rename_def Let_def querier_in_tx e) simp_all
qed (simp_all add: fun_eq_iff users_create_def users_get_def users_list_def pg_get_def pg_select_def get_row_def
    select_rows_def assms)

theorem pair_is_created_whole:
  assumes "users_contract (db_pool db) collect v" and "tx_ctx pc db ctx (pair_body pc collect db) s = (r, s')"
  shows "dv_open v (w_app s') = dv_open v (w_app s) \<and>
    (case r of
       Ret None \<Rightarrow> \<exists>a b. dv_data v (w_app s') = dv_data v (w_app s) @ [a, b] \<and> ur_name a = ''Alice'' \<and> ur_name b = ''Bob'' \<and>
         ur_id a \<noteq> ur_id b \<and> ur_id ` {a, b} \<inter> ur_id ` set (dv_data v (w_app s)) = {}
     | Ret (Some err) \<Rightarrow> errors_as the_pg err \<noteq> None \<longrightarrow> dv_data v (w_app s') = dv_data v (w_app s)
     | Panic p \<Rightarrow> dv_data v (w_app s') = dv_data v (w_app s))"
proof -
  let ?f = "\<lambda>t. pair_body pc collect db (context_with_tx ctx t)"
  have pool: "pool_contract (db_pool db) v" and start: "starts_on_data (db_pool db) v"
    using assms(1) by (simp_all add: users_contract_def)
  have o: "tx_outcome db ctx \<lparr>to_iso = ReadCommitted, to_access = AnyAccess\<rparr> ?f v s r s'"
    by (rule pg_tx_outcome [OF pool pair_body_contract [OF assms(1)] assms(2) [unfolded tx_ctx_def]])
  have "\<exists>a b. dv_data v (w_app s') = dv_data v (w_app s) @ [a, b] \<and> ur_name a = ''Alice'' \<and> ur_name b = ''Bob'' \<and>
       ur_id a \<noteq> ur_id b \<and> ur_id ` {a, b} \<inter> ur_id ` set (dv_data v (w_app s)) = {}" if "r = Ret None"
  proof -
    from o that obtain t s1 s2 where b: "po_begin (db_pool db) ctx \<lparr>to_iso = ReadCommitted, to_access = AnyAccess\<rparr> s = (Inr t, s1)"
      "?f t s1 = (Ret None, s2)" "dv_data v (w_app s') = dv_pending v t (w_app s2)"
      by (auto simp: tx_outcome_def applied_def)
    moreover have "dv_pending v t (w_app s1) = dv_data v (w_app s)"
      using start b(1) unfolding starts_on_data_def by blast
    moreover from pool b(1) have "t \<in> dv_open v (w_app s1)" unfolding pool_contract_def by fastforce
    ultimately show ?thesis using pair_body_runs [OF assms(1) b(2)] by simp
  qed
  with o show ?thesis by (auto simp: tx_outcome_def split: outcome.splits option.splits)
qed

section \<open>A database with a counter, for the witness\<close>

definition counter_pool :: "(unit, mem_db, querier) pg_pool" where
  "counter_pool = \<lparr>
     po_begin = po_begin mem_pool, po_commit = po_commit mem_pool, po_rollback = po_rollback mem_pool,
     po_exec = (\<lambda>q ctx sql args s. (Inr [],
       case (q, args) of
         (FromTx t, [GInt n]) \<Rightarrow> s\<lparr>w_app := (w_app s)\<lparr>md_open :=
           map (\<lambda>(u, x). (u, if u = t then n else x)) (md_open (w_app s))\<rparr>\<rparr>
       | _ \<Rightarrow> s)),
     po_query = (\<lambda>q ctx sql args s. (Inr q, s)), po_query_row = (\<lambda>q ctx sql args s. (q, s)),
     po_ping = po_ping mem_pool, po_close = po_close mem_pool\<rparr>"

definition counter_scan :: "(mem_db, querier) int_scan" where
  "counter_scan q s =
     (case q of
        FromPool \<Rightarrow> (Inr (md_data (w_app s)), s)
      | FromTx t \<Rightarrow> (Inr (the (map_of (md_open (w_app s)) t)), s))"

definition counter_db :: "(unit, mem_db, querier) pg_db" where
  "counter_db = \<lparr>db_pool = counter_pool, db_logger = None\<rparr>"

lemma counter_pool_contract: "counter_contract (db_pool counter_db) counter_scan mem_view"
proof -
  have "pool_contract counter_pool mem_view"
    using mem_pool_contract unfolding pool_contract_def counter_pool_def by simp
  moreover have "starts_on_data counter_pool mem_view"
    by (auto simp: starts_on_data_def counter_pool_def mem_pool_def mem_view_def Let_def)
  moreover have "reads_counter counter_pool counter_scan mem_view"
    by (auto simp: reads_counter_def counter_pool_def counter_scan_def mem_view_def keeps_data_def)
  moreover have "writes_counter counter_pool mem_view"
  proof -
    have "t \<in> fst ` set kvs \<Longrightarrow> map_of (map (\<lambda>(u, x). (u, if u = t then n else x)) kvs) t = Some n"
      for t n and kvs :: "(nat \<times> int) list"
      by (induction kvs) auto
    moreover have "fst ` (\<lambda>(u, x). (u, if u = t then n else x)) ` set kvs = fst ` set kvs"
      for t n and kvs :: "(nat \<times> int) list"
      by (force simp: image_image)
    ultimately show ?thesis
      by (auto simp: writes_counter_def counter_pool_def mem_view_def keeps_data_def)
  qed
  ultimately show ?thesis by (simp add: counter_contract_def counter_db_def)
qed

text \<open>One run of a worker on the database of the witness.\<close>

lemma counter_tx_step:
  "pg_tx sample_codes counter_db background opts (\<lambda>t. worker_body counter_scan counter_db (context_with_tx background t))
     \<lparr>w_default = d, w_log = l, w_app = \<lparr>md_data = n, md_open = [], md_conflicts = c, md_runs = m\<rparr>\<rparr> =
   (case c of
      0 \<Rightarrow> (Ret None, \<lparr>w_default = d, w_log = l, w_app = \<lparr>md_data = n + 1, md_open = [], md_conflicts = 0, md_runs = m\<rparr>\<rparr>)
    | Suc k \<Rightarrow> (Ret (classify sample_codes (Some conflict)),
        \<lparr>w_default = d, w_log = l, w_app = \<lparr>md_data = n, md_open = [], md_conflicts = k, md_runs = m\<rparr>\<rparr>))"
  by (simp add: pg_tx_def counter_db_def counter_pool_def mem_pool_def worker_body_def counter_scan_def exec_err_def
      close_handle_def Let_def classify_conflict split: nat.split)

section \<open>Properties\<close>



end
