(* ===== verification/Spec2Isabelle.thy ===== *)
theory Spec2Isabelle
  imports VersionRegistrar HttpConformance ExampleChi ExampleErrors OutboxProgram EventApp EventBrokers PgExamples
begin

text \<open>
  A verification development of the Go module dfl: the packages http, http/version, events with its
  transports, and db/pgxdb. It is a shallow embedding: every operation of the code is a function of the
  development with the same branches, state is passed explicitly, errors and panics are values.

  \<^bold>\<open>The parts and how they interact.\<close> Package http adapts typed handlers to a mux: a request
  is parsed into the handler's request type by a binding plan, errors are coerced to one canonical
  error and written as JSON. Package version dispatches one route to the variants of an endpoint by the
  version a request is pinned to, on top of http. Package events is the twin of http for messages: a bus
  validates, encodes and publishes events to a sink, and decodes, validates and handles what the sink
  delivers; the sinks are in memory, over SQS, SNS, EventBridge and Pub/Sub. A retry middleware and a
  tracing plugin wrap deliveries; an endpoint serves an event handler on a router of http. Package pgxdb
  runs transactions on a pool, classifies driver errors and retries serializable transactions.

  \<^bold>\<open>The Go prelude.\<close> \<open>GoBase\<close> (strings as byte strings, strconv, binary search,
  maps as association lists in iteration order, UTF-8), \<open>GoSlices\<close> (a heap of backing arrays, so
  that aliasing of appended slices is visible), \<open>GoErrors\<close> (error trees, \<open>errors.Is\<close>
  and \<open>errors.As\<close>, panics as outcomes), \<open>GoWorld\<close> (contexts, the log and the
  application's state), \<open>GoJson\<close> (the values \<open>encoding/json\<close> writes) and
  \<open>GoJsonText\<close> (their text, written and read byte by byte, with the round trips).

  \<^bold>\<open>Package http.\<close> \<open>HttpReqErr\<close>: \<open>http/reqerr.go\<close>. \<open>HttpCore\<close>:
  requests, the response writer, error writers and fallback handlers of \<open>http/http.go\<close> and
  \<open>middleware.go\<close>. \<open>HttpParser\<close>: \<open>http/parser.go\<close>, reflection being a type
  description. \<open>HttpRouter\<close>: \<open>http.go\<close>, \<open>adapt.go\<close>, \<open>logger.go\<close>
  and the middleware. \<open>HttpCoercers\<close>: the two coercers for other error packages, both
  interpretations of the locale \<open>http_coercer\<close>. \<open>HttpBody\<close>: the conversions
  of \<open>encoding/json\<close> into request types, so that bodies are texts. \<open>HttpMux\<close>:
  the standard library's \<open>ServeMux\<close> and a recorder, so that a whole server can be run on a
  request. \<open>HttpConformance\<close>: the suite \<open>http/internal/routertest\<close> over that
  server, test by test. \<open>ExampleApi\<close>: the program \<open>http/examples/api\<close>, its
  stores, handlers and routes, on the mux of \<open>http/examples/std\<close>; \<open>ExampleChi\<close>: the same
  routes on the router of \<open>http/examples/chi\<close>. \<open>ExampleErrors\<close>: the program
  \<open>http/examples/errorwriter\<close>, with an error type and a writer of its own.

  \<^bold>\<open>Package version.\<close> \<open>VersionScheme\<close> (the Scheme interface as a locale, its three
  implementations, the sources), \<open>VersionResolver\<close>, \<open>VersionEndpoint\<close> (variants kept
  ascending by binary search; the abstract specification is the list of declarations),
  \<open>VersionRegistrar\<close>.

  \<^bold>\<open>Package events.\<close> \<open>EventErr\<close>, \<open>EventBus\<close> (\<open>events.go\<close>,
  \<open>codec.go\<close>, \<open>validate.go\<close>, \<open>logger.go\<close>), \<open>EventEndpoint\<close>,
  \<open>EventSinks\<close> (\<open>dispatcher.go\<close>, \<open>mem.go\<close>; the locale
  \<open>subscriptions\<close> is the contract of Subscribe, with an interpretation for each sink that keeps
  it), \<open>EventRetry\<close> (durations are 64-bit words), \<open>EventHeaders\<close> (the header attribute
  as JSON text, written and read byte by byte, and the locale \<open>transport\<close>), \<open>EventSqs\<close>,
  \<open>EventPush\<close> (SNS and EventBridge), \<open>EventPubsub\<close>, \<open>EventOtel\<close>.
  \<open>EventConformance\<close>: the suite \<open>events/internal/bustest\<close> over the in-memory
  sink, whatever the order of its goroutines. \<open>EventPrograms\<close>: the programs basic, plugin and
  middleware of \<open>events/examples\<close>, each a main goroutine that waits for its deliveries; the locale
  \<open>awaited_program\<close> is what they have in common. \<open>EventApp\<close>: \<open>events/examples/app\<close>, the
  same handlers in process and over HTTP. \<open>EventBrokers\<close>: the programs over SQS, SNS and Pub/Sub, the
  poller, and the traced program.

  \<^bold>\<open>Package pgxdb.\<close> \<open>PgErrors\<close>: \<open>db/pgxdb/errors.go\<close>. \<open>PgTx\<close>:
  \<open>pgxdb.go\<close> and \<open>context.go\<close>. \<open>EventOutbox\<close>: the transactional outbox of
  \<open>events/examples/outbox\<close>, a sink that writes to a table on the transaction of the context, with the
  relay that moves the rows on; it composes events with pgxdb. \<open>OutboxProgram\<close>: its \<open>main\<close>, where the
  main goroutine, the relay and the deliveries take turns, a transaction or a pass of the relay being one
  step. \<open>PgExamples\<close>: the programs under \<open>db/pgxdb/examples\<close>.

  \<^bold>\<open>What the lemmas show.\<close> Binding: which fields a path, query or body value can reach, every
  refusal reported, the cache of plans transparent, map order irrelevant; the values of a client's body
  arrive in the request. Routing: middleware order, groups as snapshots, no partial answers, panics
  recovered. End to end: every test of both conformance suites passes, the example's stores stay sound
  under any sequence of requests, and a user created over the wire is fetched back. Versions: dispatch refines the list of
  declarations, independent of their order, pins stable under later declarations, withdrawals. Events:
  what nil from Emit means, failed deliveries reported once, every subscriber run whatever the
  interleaving, retries and their end, exhausted events accounted for. Transports: envelopes cross
  unchanged, messages are deleted or acked exactly when handled, poll loops end with their context, push
  answers. Transactions: all or nothing, no leak, effects applied once under retries, at most four runs.
  Programs: correlation ids follow their events and the programs on the in-memory sink end after a fixed
  number of steps in every schedule; what is emitted to a broker comes back to its handler; both wires of
  the application accept the same events; the error writer answers in one shape; no increment of the
  counter is lost.
  Outbox: an event row commits with the data it describes, the relay sends rows in order and marks none
  that it has not sent, draining ends with nothing left; whatever the schedule of its program, the consumer
  hears only of the user that was committed, once.

  \<^bold>\<open>Loops, bounds and fuel.\<close> Recursion is structural or has a measure. Binary search, rune
  decoding, quoting and reading of JSON strings use the length of their input. The retry loop counts the
  attempts left, so its base case is never reached. \<open>read_members\<close> takes the length of the text
  as fuel, which is enough because each member takes at least one byte; \<open>parse_value\<close> and
  \<open>raw_members\<close> take twice the length of the text, two calls at most being made between
  bytes, and the round trips show that a written text is read whole. The loop of the SQS
  \<open>Receive\<close> is a partial function with option results: \<open>None\<close> is not returning, and a
  property shows it returns once the context has ended; so are \<open>drain\<close> and \<open>Relay\<close> of the
  outbox, and a property shows that \<open>drain\<close> returns for every positive batch. The goroutines
  of the in-memory sink and the
  receivers of Pub/Sub are step relations over every interleaving of whole handler runs.

  \<^bold>\<open>Parameters.\<close> Code outside the repository is an argument of the definitions that use it:
  the mux of a router (where it is not the one of \<open>HttpMux\<close>), conversions of
  \<open>encoding/json\<close> into program types other than those of \<open>HttpBody\<close> and
  \<open>EventConformance\<close>, the wording of its errors, the clients of the AWS
  and Google services, the tracer and propagator of OpenTelemetry, the pgx pool with its row collectors
  and SQLSTATE constants, timers and the end of contexts, the router of go-chi, and lower-casing outside ASCII. Properties that rely on documented behaviour
  of such code name it as a hypothesis (\<open>pool_contract\<close>, \<open>outbox_contract\<close>, \<open>program_laws\<close>,
  \<open>counter_contract\<close>, \<open>tracing_contract\<close> and the like) and have a witness with a concrete instance.

  \<^bold>\<open>Not modelled.\<close> Data races and the preemption of a handler halfway; \<open>runtime.Goexit\<close>
  inside a transaction; wall-clock time; the text form of durations in log
  attributes; interleaving of two relays within a batch (the rows others hold are locked throughout);
  host patterns, redirects and conflict panics of \<open>ServeMux\<close>, and the nesting limit of
  \<open>encoding/json\<close>; listeners, signals, and the schedule of the serializable workers within
  their transactions, which run in a serial order here.
\<close>

end
